(* ===== verification/Prelude.thy ===== *)
theory Prelude
  imports Main "HOL-Library.Word"
begin

unbundle bit_operations_syntax

text \<open>
  Shared vocabulary of the development: the machine integers of the C code, the result type of
  operations that can raise \<open>lwerror\<close>, the byte order of integers in memory, and the list
  lemmas the components share.
\<close>

section \<open>Machine types\<close>

type_synonym u8 = "8 word"
type_synonym u16 = "16 word"
type_synonym u32 = "32 word"
type_synonym u64 = "64 word"
type_synonym dbl = "64 word"

named_theorems rbind_intros \<open>rules that establish the success of a sequence of fallible steps\<close>
named_theorems bytes_simps \<open>the layout of integers as byte sequences\<close>

section \<open>Results of fallible operations\<close>

text \<open>
  \<open>lwerror\<close> (liblwgeom/lwutil.c) reports a message and does not return: the default reporter
  exits, the PostgreSQL reporter jumps to the transaction's error handler. A call of it is
  \<open>Inl (LwError msg)\<close>, with the format string of the call. \<open>MemFault\<close> stands for an access
  outside an allocated object and \<open>UndefShift\<close> for a shift by at least the width of its operand,
  both undefined in C; \<open>StackOverflow\<close> for the exhaustion of
  the call depth given to a recursive function.
\<close>

datatype fault = LwError string | MemFault | UndefShift | StackOverflow

type_synonym 'a res = "fault + 'a"

definition rbind :: "'a res \<Rightarrow> ('a \<Rightarrow> 'b res) \<Rightarrow> 'b res" where
  "rbind m f = (case m of Inl e \<Rightarrow> Inl e | Inr x \<Rightarrow> f x)"

lemma rbind_simps [simp]:
  "rbind (Inl e) f = Inl e"
  "rbind (Inr x) f = f x"
  by (simp_all add: rbind_def)

lemma rbind_cong [fundef_cong]:
  "m = m' \<Longrightarrow> (\<And>x. m' = Inr x \<Longrightarrow> f x = f' x) \<Longrightarrow> rbind m f = rbind m' f'"
  by (cases m') simp_all

lemma rbind_eq_Inr_iff: "rbind m f = Inr y \<longleftrightarrow> (\<exists>x. m = Inr x \<and> f x = Inr y)"
  by (cases m) simp_all

lemma rbind_eq_Inl_iff:
  "rbind m f = Inl e \<longleftrightarrow> m = Inl e \<or> (\<exists>x. m = Inr x \<and> f x = Inl e)"
  by (cases m) auto

lemma rbind_assoc: "rbind (rbind m f) g = rbind m (\<lambda>x. rbind (f x) g)"
  by (cases m) simp_all

lemma rbind_InrE:
  assumes "rbind m f = Inr y"
  obtains x where "m = Inr x" and "f x = Inr y"
  using assms by (auto simp: rbind_eq_Inr_iff)

lemma rbindI [rbind_intros]: "m = Inr x \<Longrightarrow> f x = r \<Longrightarrow> rbind m f = r"
  by simp

text \<open>
  A sequence of steps that may fail or not return at all (\<open>None\<close>), up to the first that does not
  deliver a state.
\<close>

primrec run_steps :: "('s \<Rightarrow> 'a \<Rightarrow> 's res option) \<Rightarrow> 's \<Rightarrow> 'a list \<Rightarrow> 's res option" where
  "run_steps f s [] = Some (Inr s)"
| "run_steps f s (x # xs) = (case f s x of Some (Inr s') \<Rightarrow> run_steps f s' xs | r \<Rightarrow> r)"

text \<open>Steps that extend a sequence, as long as each finds the invariant \<open>P\<close> it needs.\<close>

lemma run_steps_append:
  assumes run: "\<And>s x ys. P s (x # ys) \<Longrightarrow>
      \<exists>s'. f s x = Some (Inr s') \<and> P s' ys \<and> c s' = c s @ g x"
  shows "P s xs \<Longrightarrow> \<exists>s'. run_steps f s xs = Some (Inr s') \<and> P s' [] \<and> c s' = c s @ concat (map g xs)"
proof (induction xs arbitrary: s)
  case Nil
  then show ?case by simp
next
  case (Cons x xs)
  from run[OF Cons.prems] obtain s1 where "f s x = Some (Inr s1)" "P s1 xs" "c s1 = c s @ g x"
    by blast
  with Cons.IH[of s1] show ?case by auto
qed

text \<open>A loop that applies a fallible operation to every element.\<close>

primrec map_res :: "('a \<Rightarrow> 'b res) \<Rightarrow> 'a list \<Rightarrow> 'b list res" where
  "map_res f [] = Inr []"
| "map_res f (x # xs) = rbind (f x) (\<lambda>y. rbind (map_res f xs) (\<lambda>ys. Inr (y # ys)))"

lemma map_res_cong [fundef_cong]:
  "xs = ys \<Longrightarrow> (\<And>x. x \<in> set ys \<Longrightarrow> f x = g x) \<Longrightarrow> map_res f xs = map_res g ys"
  by (induction ys arbitrary: xs) simp_all

lemma map_res_Inr: "(\<And>x. x \<in> set xs \<Longrightarrow> f x = Inr (g x)) \<Longrightarrow> map_res f xs = Inr (map g xs)"
  by (induction xs) simp_all

lemma map_res_InrD: "map_res f xs = Inr ys \<Longrightarrow> list_all2 (\<lambda>x y. f x = Inr y) xs ys"
  by (induction xs arbitrary: ys) (auto simp: rbind_eq_Inr_iff)

section \<open>Formats that read back what they write\<close>

text \<open>
  A reader returns a value and the number of units it took from the front of its input. The locale is
  the contract between a writer and a reader of values that are stored one behind the other: the reader
  finds the value, possibly brought to a canonical form, whatever follows it.
\<close>

primrec decode_items :: "('b list \<Rightarrow> ('c \<times> nat) res) \<Rightarrow> nat \<Rightarrow> 'b list \<Rightarrow> ('c list \<times> nat) res" where
  "decode_items d 0 bs = Inr ([], 0)"
| "decode_items d (Suc n) bs =
     rbind (d bs) (\<lambda>xk. rbind (decode_items d n (drop (snd xk) bs)) (\<lambda>r.
       Inr (fst xk # fst r, snd xk + snd r)))"

locale prefix_code =
  fixes encode :: "'a \<Rightarrow> 'b list" and decode :: "'b list \<Rightarrow> ('c \<times> nat) res"
    and canon :: "'a \<Rightarrow> 'c" and valid :: "'a \<Rightarrow> bool"
  assumes decode_encode: "valid x \<Longrightarrow> decode (encode x @ rest) = Inr (canon x, length (encode x))"
begin

lemma decode_items_encode:
  "list_all valid xs \<Longrightarrow>
   decode_items decode (length xs) (concat (map encode xs) @ rest)
     = Inr (map canon xs, length (concat (map encode xs)))"
  by (induction xs) (simp_all add: decode_encode)

lemma unique_decoding:
  assumes "valid x" and "valid y" and "encode x @ rest = encode y @ rest'"
  shows "canon x = canon y \<and> length (encode x) = length (encode y) \<and> rest = rest'"
  using decode_encode[OF assms(1), of rest] decode_encode[OF assms(2), of rest'] assms(3) by simp

end

section \<open>Integers in memory\<close>

text \<open>
  \<open>le_bytes n w\<close> are the \<open>n\<close> low bytes of \<open>w\<close>, least significant first;
  \<open>mem_bytes be n w\<close> is the object representation of \<open>w\<close> on a machine whose byte order is
  big endian iff \<open>be\<close> (the macro \<open>IS_BIG_ENDIAN\<close> of liblwgeom.h.in).
\<close>

primrec le_bytes :: "nat \<Rightarrow> 'a::len word \<Rightarrow> u8 list" where
  "le_bytes 0 w = []"
| "le_bytes (Suc n) w = ucast w # le_bytes n (drop_bit 8 w)"

primrec le_word :: "u8 list \<Rightarrow> 'a::len word" where
  "le_word [] = 0"
| "le_word (b # bs) = ucast b OR push_bit 8 (le_word bs)"

definition mem_bytes :: "bool \<Rightarrow> nat \<Rightarrow> 'a::len word \<Rightarrow> u8 list" where
  "mem_bytes be n w = (if be then rev (le_bytes n w) else le_bytes n w)"

definition mem_word :: "bool \<Rightarrow> u8 list \<Rightarrow> 'a::len word" where
  "mem_word be bs = le_word (if be then rev bs else bs)"

lemma length_le_bytes [simp, bytes_simps]: "length (le_bytes n w) = n"
  by (induction n arbitrary: w) simp_all

lemma length_mem_bytes [simp, bytes_simps]: "length (mem_bytes be n w) = n"
  by (simp add: mem_bytes_def)

lemma bit_le_word:
  "bit (le_word bs :: 'a::len word) k \<longleftrightarrow>
     k < LENGTH('a) \<and> k div 8 < length bs \<and> bit (bs ! (k div 8)) (k mod 8)"
proof (induction bs arbitrary: k)
  case Nil
  then show ?case by simp
next
  case (Cons b bs)
  show ?case
  proof (cases "k < 8")
    case True
    then show ?thesis by (auto simp: bit_or_iff bit_push_bit_iff bit_ucast_iff)
  next
    case False
    then obtain j where j: "k = j + 8" by (metis add.commute le_Suc_ex not_less)
    have "\<not> bit b k" using False bit_imp_le_length[of b k] by auto
    moreover have "(j + 8) div 8 = Suc (j div 8)" by simp
    ultimately show ?thesis
      using Cons.IH[of j] by (auto simp: j bit_or_iff bit_push_bit_iff bit_ucast_iff)
  qed
qed

lemma nth_le_bytes: "i < n \<Longrightarrow> le_bytes n w ! i = ucast (drop_bit (8 * i) w)"
proof (induction n arbitrary: w i)
  case 0
  then show ?case by simp
next
  case (Suc n)
  then show ?case by (cases i) (simp_all add: drop_bit_drop_bit add.commute)
qed

lemma le_word_le_bytes [bytes_simps]:
  "le_word (le_bytes n (w :: 'a::len word)) = take_bit (8 * n) w"
proof (rule bit_word_eqI)
  fix k assume k: "k < LENGTH('a)"
  have e: "8 * (k div 8) + k mod 8 = k" by simp
  have "k div 8 < n \<longleftrightarrow> k < 8 * n" by (auto simp: div_less_iff_less_mult mult.commute)
  then show "bit (le_word (le_bytes n w) :: 'a word) k \<longleftrightarrow> bit (take_bit (8 * n) w) k"
    using k by (auto simp: bit_le_word nth_le_bytes bit_ucast_iff bit_drop_bit_eq bit_take_bit_iff e)
qed

lemma le_bytes_le_word [bytes_simps]:
  assumes "LENGTH('a) = 8 * length bs"
  shows "le_bytes (length bs) (le_word bs :: 'a::len word) = bs"
proof (rule nth_equalityI)
  fix i assume "i < length (le_bytes (length bs) (le_word bs :: 'a word))"
  then have i: "i < length bs" by simp
  show "le_bytes (length bs) (le_word bs :: 'a word) ! i = bs ! i"
  proof (rule bit_word_eqI)
    fix k assume k: "k < LENGTH(8)"
    have "(8 * i + k) div 8 = i" and "(8 * i + k) mod 8 = k" using k by auto
    then show "bit (le_bytes (length bs) (le_word bs :: 'a word) ! i) k \<longleftrightarrow> bit (bs ! i) k"
      using i k assms by (auto simp: nth_le_bytes bit_ucast_iff bit_drop_bit_eq bit_le_word)
  qed
qed simp

lemma mem_word_mem_bytes [simp, bytes_simps]:
  "LENGTH('a) \<le> 8 * n \<Longrightarrow> mem_word be (mem_bytes be n (w :: 'a::len word)) = w"
  by (simp add: mem_word_def mem_bytes_def le_word_le_bytes take_bit_word_eq_self)

lemma mem_bytes_mem_word [bytes_simps]:
  "LENGTH('a) = 8 * length bs \<Longrightarrow> mem_bytes be (length bs) (mem_word be bs :: 'a::len word) = bs"
  using le_bytes_le_word[where bs = bs and 'a = 'a] le_bytes_le_word[where bs = "rev bs" and 'a = 'a]
  by (simp add: mem_word_def mem_bytes_def)

lemma rev_mem_bytes [bytes_simps]: "rev (mem_bytes be n w) = mem_bytes (\<not> be) n w"
  by (simp add: mem_bytes_def)

lemma unat_less_2p: "unat (w :: 'a::len word) < 2 ^ LENGTH('a)"
  by (rule unsigned_less)

section \<open>Lists\<close>

lemma concat_const_length:
  "(\<And>x. x \<in> set xs \<Longrightarrow> length (f x) = n) \<Longrightarrow> length (concat (map f xs)) = n * length xs"
  by (induction xs) simp_all

text \<open>\<open>chunks n k xs\<close>: the first \<open>k\<close> blocks of \<open>n\<close> elements of \<open>xs\<close>.\<close>

primrec chunks :: "nat \<Rightarrow> nat \<Rightarrow> 'a list \<Rightarrow> 'a list list" where
  "chunks n 0 xs = []"
| "chunks n (Suc k) xs = take n xs # chunks n k (drop n xs)"

lemma length_chunks [simp]: "length (chunks n k xs) = k"
  by (induction k arbitrary: xs) simp_all

lemma nth_chunks: "i < k \<Longrightarrow> chunks n k xs ! i = take n (drop (n * i) xs)"
proof (induction k arbitrary: xs i)
  case 0
  then show ?case by simp
next
  case (Suc k)
  then show ?case by (cases i) (simp_all add: add.commute)
qed

lemma concat_chunks: "length xs = n * k \<Longrightarrow> concat (chunks n k xs) = xs"
  by (induction k arbitrary: xs) simp_all

lemma chunks_concat:
  "(\<And>x. x \<in> set xs \<Longrightarrow> length (f x) = n) \<Longrightarrow> length xs = k \<Longrightarrow>
   chunks n k (concat (map f xs) @ ys) = map f xs"
proof (induction xs arbitrary: k)
  case Nil
  then show ?case by simp
next
  case (Cons x xs)
  then show ?case by (cases k) simp_all
qed

lemma fold_append_buf:
  "(\<And>x b. x \<in> set xs \<Longrightarrow> f x b = b @ g x) \<Longrightarrow> fold f xs b = b @ concat (map g xs)"
  by (induction xs arbitrary: b) simp_all

lemma take_concat_const:
  "(\<And>x. x \<in> set xs \<Longrightarrow> length x = n) \<Longrightarrow> take (n * k) (concat xs) = concat (take k xs)"
proof (induction xs arbitrary: k)
  case (Cons x xs)
  then show ?case by (cases k) simp_all
qed simp

lemma drop_concat_const:
  "(\<And>x. x \<in> set xs \<Longrightarrow> length x = n) \<Longrightarrow> drop (n * k) (concat xs) = concat (drop k xs)"
proof (induction xs arbitrary: k)
  case (Cons x xs)
  then show ?case by (cases k) simp_all
qed simp

lemma length_concat_const: "(\<And>x. x \<in> set xs \<Longrightarrow> length x = n) \<Longrightarrow> length (concat xs) = n * length xs"
  using concat_const_length[of xs "\<lambda>x. x" n] by simp

lemma chunks_of_concat:
  "(\<And>x. x \<in> set xs \<Longrightarrow> length x = n) \<Longrightarrow> chunks n (length xs) (concat xs) = xs"
  using chunks_concat[of xs "\<lambda>x. x" n "length xs" "[]"] by simp

lemma length_in_chunks: "length xs = n * k \<Longrightarrow> x \<in> set (chunks n k xs) \<Longrightarrow> length x = n"
proof (induction k arbitrary: xs)
  case (Suc k)
  then show ?case using Suc.IH[of "drop n xs"] by auto
qed simp

lemma nth_concat_const:
  "(\<And>x. x \<in> set xs \<Longrightarrow> length x = n) \<Longrightarrow> i < length xs \<Longrightarrow> j < n \<Longrightarrow>
   concat xs ! (n * i + j) = xs ! i ! j"
proof (induction xs arbitrary: i)
  case (Cons x xs)
  then show ?case by (cases i) (simp_all add: nth_append add.assoc)
qed simp

lemma update_concat_const:
  "(\<And>x. x \<in> set xs \<Longrightarrow> length x = n) \<Longrightarrow> i < length xs \<Longrightarrow> j < n \<Longrightarrow>
   (concat xs)[n * i + j := v] = concat (xs[i := (xs ! i)[j := v]])"
proof (induction xs arbitrary: i)
  case (Cons x xs)
  then show ?case by (cases i) (simp_all add: list_update_append add.assoc)
qed simp

lemma concat_map_concat: "concat (map f (concat xss)) = concat (map (\<lambda>xs. concat (map f xs)) xss)"
  by (induction xss) simp_all

end
