(* ===== verification/Varint.thy ===== *)
theory Varint
  imports Prelude
begin

text \<open>
  Variable-length integers (liblwgeom/varint.c): seven value bits per byte, least significant
  group first, the top bit set on every byte but the last; signed values are mapped to unsigned
  ones by the zigzag code first. A pointer range \<open>[the_start, the_end)\<close> is the list of its bytes,
  an output buffer the list of the bytes written, and a size their number.
\<close>

section \<open>Encoding\<close>

function varint_u64_encode_buf :: "u64 \<Rightarrow> u8 list" where
  "varint_u64_encode_buf q =
     (let grp = 0x7f AND ucast q; q' = drop_bit 7 q
      in if 0 < q' then (0x80 OR grp) # varint_u64_encode_buf q' else [grp])"
  by pat_completeness auto
termination
proof (relation "measure unat")
  fix q :: u64 and grp :: u8 and q' :: u64
  assume "q' = drop_bit 7 q" and "0 < q'"
  then have e: "unat q' = unat q div 128" and "0 < unat q'"
    by (simp_all add: drop_bit_eq_div unat_div word_less_nat_alt)
  then have "0 < unat q" by (cases "unat q") simp_all
  with e show "(q', q) \<in> measure unat" by simp
qed simp

declare varint_u64_encode_buf.simps [simp del]

definition varint_u32_encode_buf :: "u32 \<Rightarrow> u8 list" where
  "varint_u32_encode_buf val = varint_u64_encode_buf (ucast val)"

text \<open>
  The zigzag code. \<open>int64_t\<close> values are words read by \<open>sint\<close>. In \<open>unzigzag64\<close> and
  \<open>unzigzag32\<close> the sum \<open>val+1\<close> is computed at the width of \<open>val\<close>; in \<open>unzigzag8\<close> the operand
  is promoted to \<open>int\<close> first.
\<close>

definition zigzag64 :: "64 word \<Rightarrow> u64" where
  "zigzag64 val = (if 0 \<le> sint val then push_bit 1 val else push_bit 1 (- 1 - val) OR 1)"

definition zigzag32 :: "32 word \<Rightarrow> u32" where
  "zigzag32 val = (if 0 \<le> sint val then push_bit 1 val else push_bit 1 (- 1 - val) OR 1)"

definition zigzag8 :: "8 word \<Rightarrow> u8" where
  "zigzag8 val =
     (if 0 \<le> sint val then ucast (push_bit 1 (ucast val :: 32 word))
      else ucast (push_bit 1 (ucast (- 1 - val) :: 32 word) OR 1))"

definition unzigzag64 :: "u64 \<Rightarrow> 64 word" where
  "unzigzag64 val =
     (if val AND 1 = 0 then drop_bit 1 val else - 1 * drop_bit 1 (val + 1))"

definition unzigzag32 :: "u32 \<Rightarrow> 32 word" where
  "unzigzag32 val =
     (if val AND 1 = 0 then drop_bit 1 val else - 1 * drop_bit 1 (val + 1))"

definition unzigzag8 :: "u8 \<Rightarrow> 8 word" where
  "unzigzag8 val =
     (if val AND 1 = 0 then drop_bit 1 val
      else - 1 * ucast (drop_bit 1 (ucast val + 1 :: 32 word)))"

definition varint_s64_encode_buf :: "64 word \<Rightarrow> u8 list" where
  "varint_s64_encode_buf val = varint_u64_encode_buf (zigzag64 val)"

definition varint_s32_encode_buf :: "32 word \<Rightarrow> u8 list" where
  "varint_s32_encode_buf val = varint_u64_encode_buf (ucast (zigzag32 val))"

section \<open>Decoding\<close>

text \<open>
  The loop of \<open>varint_u64_decode\<close>: remaining bytes, \<open>nShift\<close>, bytes consumed and \<open>nVal\<close>. The
  result is the value with the number of bytes consumed (the output parameter \<open>size\<close>).
\<close>

fun varint_u64_decode_loop :: "u8 list \<Rightarrow> nat \<Rightarrow> nat \<Rightarrow> u64 \<Rightarrow> (u64 \<times> nat) res" where
  "varint_u64_decode_loop [] nShift n nVal = Inl (LwError ''%s: varint extends past end of buffer'')"
| "varint_u64_decode_loop (nByte # ptr) nShift n nVal =
     (if 64 \<le> nShift then Inl UndefShift
      else if nByte AND 0x80 \<noteq> 0
      then varint_u64_decode_loop ptr (nShift + 7) (Suc n)
             (nVal OR push_bit nShift (ucast (nByte AND 0x7f)))
      else Inr (nVal OR push_bit nShift (ucast nByte), Suc n))"

definition varint_u64_decode :: "u8 list \<Rightarrow> (u64 \<times> nat) res" where
  "varint_u64_decode bs = varint_u64_decode_loop bs 0 0 0"

definition varint_s64_decode :: "u8 list \<Rightarrow> (64 word \<times> nat) res" where
  "varint_s64_decode bs = rbind (varint_u64_decode bs) (\<lambda>(v, n). Inr (unzigzag64 v, n))"

fun varint_size_loop :: "u8 list \<Rightarrow> nat \<Rightarrow> nat" where
  "varint_size_loop [] n = 0"
| "varint_size_loop (b # ptr) n =
     (if b AND 0x80 \<noteq> 0 then varint_size_loop ptr (Suc n) else Suc n)"

definition varint_size :: "u8 list \<Rightarrow> nat" where
  "varint_size bs = varint_size_loop bs 0"

section \<open>The unsigned code\<close>

lemma and_7f_no_msb: "(0x7f AND (b :: u8)) AND 0x80 = 0"
proof -
  have "(0x7f AND b) AND 0x80 = b AND (0x7f AND 0x80)" by (simp only: ac_simps)
  then show ?thesis by simp
qed

lemma msb_or: "(0x80 OR (b :: u8)) AND 0x80 \<noteq> 0"
proof -
  have "bit ((0x80 OR b) AND 0x80) 7" by (simp add: bit_simps)
  then show ?thesis by auto
qed

lemma varint_u64_encode_buf_step:
  "0 < drop_bit 7 q \<Longrightarrow>
     varint_u64_encode_buf q = (0x80 OR (0x7f AND ucast q)) # varint_u64_encode_buf (drop_bit 7 q)"
  by (subst varint_u64_encode_buf.simps) (simp add: Let_def)

lemma varint_u64_encode_buf_last:
  "\<not> 0 < drop_bit 7 q \<Longrightarrow> varint_u64_encode_buf q = [0x7f AND ucast q]"
  by (subst varint_u64_encode_buf.simps) (simp add: Let_def)

lemma varint_u64_encode_buf_nonempty: "varint_u64_encode_buf q \<noteq> []"
  by (subst varint_u64_encode_buf.simps) (simp add: Let_def)

lemma drop_bit_7_less: "unat q < 2 ^ (7 + k) \<Longrightarrow> unat (drop_bit 7 (q :: u64)) < 2 ^ k"
  by (simp add: drop_bit_eq_div unat_div div_less_iff_less_mult power_add mult.commute)

lemma length_varint_bound:
  "unat q < 2 ^ (7 * Suc k) \<Longrightarrow> length (varint_u64_encode_buf q) \<le> Suc k"
proof (induction k arbitrary: q)
  case 0
  then have "drop_bit 7 q = 0" by (simp add: drop_bit_eq_div word_arith_nat_div)
  then show ?case by (simp add: varint_u64_encode_buf_last)
next
  case (Suc k)
  show ?case
  proof (cases "0 < drop_bit 7 q")
    case True
    have "unat (drop_bit 7 q) < 2 ^ (7 * Suc k)"
      using Suc.prems by (intro drop_bit_7_less) (simp add: add.commute)
    from Suc.IH[OF this] True show ?thesis by (simp add: varint_u64_encode_buf_step)
  qed (simp add: varint_u64_encode_buf_last)
qed

lemma length_varint_u64: "length (varint_u64_encode_buf q) \<le> 10"
proof -
  have "unat q < 2 ^ 64" using unat_less_2p[of q] by simp
  then have "unat q < 2 ^ (7 * Suc 9)" by simp
  then show ?thesis using length_varint_bound by fastforce
qed

lemma length_varint_s64: "length (varint_s64_encode_buf v) \<le> 10"
  by (simp add: varint_s64_encode_buf_def length_varint_u64)

text \<open>One step of the decoder on one step of the encoder.\<close>

lemma varint_group_merge:
  fixes q :: u64
  shows "push_bit s (ucast ((0x80 OR (0x7f AND ucast q) :: u8) AND 0x7f)) OR push_bit (s + 7) (drop_bit 7 q)
       = push_bit s q"
proof (rule bit_word_eqI)
  fix k assume "k < LENGTH(64)"
  show "bit (push_bit s (ucast ((0x80 OR (0x7f AND ucast q) :: u8) AND 0x7f)) OR push_bit (s + 7) (drop_bit 7 q)) k
      = bit (push_bit s q) k"
  proof (cases "s \<le> k \<and> k < s + 7")
    case True
    then have "k - s \<in> {0, 1, 2, 3, 4, 5, 6}" by auto
    with True show ?thesis by (auto simp: bit_simps)
  next
    case False
    have "k - s = 7 \<or> k - s < 7 \<or> 7 < k - s" by arith
    with False show ?thesis by (auto simp: bit_simps)
  qed
qed

lemma varint_decode_loop_encode:
  assumes "unat q < 2 ^ (64 - s)" "s < 64"
  shows "varint_u64_decode_loop (varint_u64_encode_buf q @ rest) s n acc
       = Inr (acc OR push_bit s q, n + length (varint_u64_encode_buf q))"
  using assms
proof (induction q arbitrary: s n acc rule: varint_u64_encode_buf.induct)
  case (1 q)
  show ?case
  proof (cases "0 < drop_bit 7 q")
    case True
    have "128 \<le> unat q"
      using True by (simp add: drop_bit_eq_div unat_div word_less_nat_alt div_greater_zero_iff)
    moreover have "unat q < 2 ^ (64 - s)" by (rule "1.prems")
    ultimately have "(2::nat) ^ 7 < 2 ^ (64 - s)" by simp
    then have s: "s + 7 < 64" using power_less_imp_less_exp[of "2::nat" 7 "64 - s"] by simp
    then have e: "64 - s = 7 + (64 - (s + 7))" by simp
    have "unat (drop_bit 7 q) < 2 ^ (64 - (s + 7))"
      using "1.prems"(1) unfolding e by (rule drop_bit_7_less)
    note ih = "1.IH"[OF refl refl True this s]
    show ?thesis
      using ih[of "Suc n" "acc OR push_bit s (ucast ((0x80 OR (0x7f AND ucast q) :: u8) AND 0x7f))"]
        True "1.prems"(2) varint_group_merge[of s q]
      by (simp add: varint_u64_encode_buf_step msb_or or.assoc)
  next
    case False
    then have "drop_bit 7 q = 0" by (metis word_neq_0_conv)
    have "ucast (0x7f AND ucast q :: u8) = q"
    proof (rule bit_word_eqI)
      fix k assume "k < LENGTH(64)"
      have "\<not> bit (drop_bit 7 q) (k - 7)" by (simp add: \<open>drop_bit 7 q = 0\<close>)
      moreover have "k < 7 \<longleftrightarrow> k \<in> {0, 1, 2, 3, 4, 5, 6}" by auto
      ultimately show "bit (ucast (0x7f AND ucast q :: u8) :: u64) k \<longleftrightarrow> bit q k"
        by (cases "k < 7") (auto simp: bit_simps)
    qed
    then show ?thesis
      using False "1.prems"(2) by (simp add: varint_u64_encode_buf_last and_7f_no_msb)
  qed
qed

lemma varint_u64_decode_encode:
  "varint_u64_decode (varint_u64_encode_buf q @ rest) = Inr (q, length (varint_u64_encode_buf q))"
  using varint_decode_loop_encode[of q 0 rest 0 0] unat_less_2p[of q]
  by (simp add: varint_u64_decode_def)

lemma varint_size_loop_decode:
  "varint_u64_decode_loop bs s n acc = Inr (v, m) \<Longrightarrow> varint_size_loop bs n = m"
  by (induction bs s n acc rule: varint_u64_decode_loop.induct) (auto split: if_splits)

section \<open>The zigzag code\<close>

text \<open>The code at any width, shared by the 64 and the 32 bit versions.\<close>

lemma and_1_eq_0: "(w :: 'a::len word) AND 1 = 0 \<longleftrightarrow> \<not> bit w 0"
  by (simp add: and_one_eq odd_iff_mod_2_eq_one bit_0)

lemma bit_push_bit_1: "bit (push_bit 1 (u :: 'a::len word)) k \<longleftrightarrow> 0 < k \<and> k < LENGTH('a) \<and> bit u (k - 1)"
  by (auto simp: bit_push_bit_iff Suc_le_eq simp del: One_nat_def push_bit_Suc)

lemma drop_push_bit_1:
  fixes u :: "'a::len word"
  assumes "\<not> bit u (LENGTH('a) - 1)"
  shows "drop_bit 1 (push_bit 1 u) = u"
proof (rule bit_word_eqI)
  fix k assume k: "k < LENGTH('a)"
  have "bit u k \<Longrightarrow> Suc k < LENGTH('a)"
    using assms k by (cases "k = LENGTH('a) - 1") auto
  then show "bit (drop_bit 1 (push_bit 1 u)) k \<longleftrightarrow> bit u k"
    by (auto simp only: bit_drop_bit_eq o_def bit_push_bit_1) auto
qed

lemma push_bit_1_or_1: "push_bit 1 (u :: 'a::len word) OR 1 = 2 * u + 1"
proof -
  have "push_bit 1 u AND 1 = 0" by (simp only: and_1_eq_0 bit_push_bit_1) simp
  then have "push_bit 1 u OR 1 = push_bit 1 u + 1" by (simp only: disjunctive_add_eq_or)
  then show ?thesis by (simp add: push_bit_eq_mult mult.commute)
qed

lemma push_bit_1_or_1_suc: "(push_bit 1 (u :: 'a::len word) OR 1) + 1 = push_bit 1 (u + 1)"
  by (simp only: push_bit_1_or_1) (simp add: push_bit_eq_mult algebra_simps)

text \<open>Negation keeps the sign bit of no value but the least one.\<close>

lemma sint_uminus:
  fixes v :: "'a::len word"
  assumes "sint v \<noteq> - (2 ^ (LENGTH('a) - 1))"
  shows "sint (- v) = - sint v"
proof -
  have "- (2 ^ (LENGTH('a) - 1)) \<le> sint v" by (rule sint_ge)
  moreover have "sint v < 2 ^ (LENGTH('a) - 1)" by (rule sint_lt)
  ultimately show ?thesis
    using assms by (subst sint_word_minus, subst signed_take_bit_int_eq_self_iff) linarith
qed

lemma zigzag_code:
  fixes v :: "'a::len word"
  assumes "sint v \<noteq> - (2 ^ (LENGTH('a) - 1))"
  defines "z \<equiv> (if 0 \<le> sint v then push_bit 1 v else push_bit 1 (- 1 - v) OR 1)"
  shows "(if z AND 1 = 0 then drop_bit 1 z else - 1 * drop_bit 1 (z + 1)) = v"
proof (cases "0 \<le> sint v")
  case True
  then have "\<not> bit v (LENGTH('a) - 1)" by (simp add: bit_last_iff)
  then have "drop_bit 1 (push_bit 1 v) = v" by (rule drop_push_bit_1)
  moreover have "push_bit 1 v AND 1 = 0" by (simp only: and_1_eq_0 bit_push_bit_1) simp
  ultimately show ?thesis using True by (simp only: z_def if_True refl)
next
  case False
  then have z: "z = push_bit 1 (- 1 - v) OR 1" by (simp add: z_def)
  have "\<not> bit (- v) (LENGTH('a) - 1)"
    using False assms(1) by (simp add: bit_last_iff sint_uminus)
  then have "drop_bit 1 (push_bit 1 (- v)) = - v" by (rule drop_push_bit_1)
  moreover have "- 1 - v + 1 = - v" by simp
  ultimately have "drop_bit 1 (z + 1) = - v"
    by (simp only: z push_bit_1_or_1_suc)
  moreover have "z AND 1 \<noteq> 0" by (simp only: z and_1_eq_0 bit_or_iff) simp
  ultimately show ?thesis by simp
qed


lemma unzigzag64_zigzag64:
  "unzigzag64 (zigzag64 v) = (if sint v = - (2 ^ 63) then 0 else v)"
proof (cases "sint v = - (2 ^ 63)")
  case True
  then have "v = 0x8000000000000000" by (intro signed_word_eqI) simp
  then show ?thesis by (simp add: unzigzag64_def zigzag64_def)
next
  case False
  then show ?thesis using zigzag_code[of v] by (simp only: unzigzag64_def zigzag64_def) simp
qed

lemma unzigzag32_zigzag32:
  "unzigzag32 (zigzag32 v) = (if sint v = - (2 ^ 31) then 0 else v)"
proof (cases "sint v = - (2 ^ 31)")
  case True
  then have "v = 0x80000000" by (intro signed_word_eqI) simp
  then show ?thesis by (simp add: unzigzag32_def zigzag32_def)
next
  case False
  then show ?thesis using zigzag_code[of v] by (simp only: unzigzag32_def zigzag32_def) simp
qed

text \<open>\<open>unzigzag8\<close> inverts \<open>zigzag8\<close> everywhere: checked on all 256 values.\<close>

lemma all_u8: "(\<forall>b \<in> set [0..<256]. P (word_of_nat b)) \<Longrightarrow> P (w :: u8)"
proof -
  assume "\<forall>b \<in> set [0..<256]. P (word_of_nat b)"
  moreover have "unat w \<in> set [0..<256]" using unat_less_2p[of w] by simp
  ultimately have "P (word_of_nat (unat w))" by blast
  then show ?thesis by simp
qed

lemma unzigzag8_zigzag8: "unzigzag8 (zigzag8 v) = v"
proof (rule all_u8[where P = "\<lambda>v. unzigzag8 (zigzag8 v) = v"])
  show "\<forall>b\<in>set [0..<256]. unzigzag8 (zigzag8 (word_of_nat b)) = word_of_nat b"
    by code_simp
qed


section \<open>The decoder on arbitrary input\<close>

text \<open>The number of leading bytes with the continuation bit.\<close>

definition varint_prefix :: "u8 list \<Rightarrow> nat" where
  "varint_prefix bs = length (takeWhile (\<lambda>b. b AND 0x80 \<noteq> 0) bs)"

lemma varint_prefix_simps [simp]:
  "varint_prefix [] = 0"
  "varint_prefix (b # bs) = (if b AND 0x80 \<noteq> 0 then Suc (varint_prefix bs) else 0)"
  by (simp_all add: varint_prefix_def)

lemma varint_size_loop_prefix:
  "varint_size_loop bs n = (if varint_prefix bs < length bs then Suc (n + varint_prefix bs) else 0)"
  by (induction bs n rule: varint_size_loop.induct) auto

lemma varint_decode_loop_total:
  "j \<le> 10 \<Longrightarrow> (case varint_u64_decode_loop bs (7 * j) j acc of
     Inr (v, n) \<Rightarrow> n = Suc (j + varint_prefix bs) \<and> n \<le> 10 \<and> varint_prefix bs < length bs
   | Inl UndefShift \<Rightarrow> 10 \<le> j + varint_prefix bs \<and> 10 < j + length bs
   | Inl (LwError m) \<Rightarrow> varint_prefix bs = length bs \<and> j + length bs \<le> 10
   | Inl _ \<Rightarrow> False)"
proof (induction bs arbitrary: j acc)
  case Nil
  then show ?case by simp
next
  case (Cons b bs)
  show ?case
  proof (cases "j = 10")
    case True
    then show ?thesis by simp
  next
    case False
    then have s: "7 * j < 64" and j: "Suc j \<le> 10" using Cons.prems by auto
    have e: "7 * j + 7 = 7 * Suc j" by simp
    show ?thesis
      using Cons.IH[OF j, of "acc OR push_bit (7 * j) (ucast (b AND 0x7f))"] s j
      by (auto simp: e simp del: mult_Suc_right split: sum.splits fault.splits prod.splits)
  qed
qed

section \<open>Properties\<close>

text \<open>C14: An unsigned varint of any 64 bit value takes at most ten bytes, decoding it from a buffer
  that goes on gives the value back and consumes exactly those bytes, and \<open>varint_size\<close> counts
  them.\<close>

theorem varint_u64_roundtrip:
  "varint_u64_decode (varint_u64_encode_buf q @ rest) = Inr (q, length (varint_u64_encode_buf q)) \<and>
   varint_size (varint_u64_encode_buf q @ rest) = length (varint_u64_encode_buf q) \<and>
   length (varint_u64_encode_buf q) \<le> 10"
  using varint_u64_decode_encode[of q rest] length_varint_u64[of q]
    varint_size_loop_decode[of "varint_u64_encode_buf q @ rest" 0 0 0]
  by (simp add: varint_u64_decode_def varint_size_def)

text \<open>A signed varint decodes to the value encoded, except for the least one: there
  \<open>unzigzag64\<close> adds one to \<open>UINT64_MAX\<close>, wraps to zero and returns 0.\<close>

theorem varint_s64_roundtrip:
  "varint_s64_decode (varint_s64_encode_buf v @ rest)
     = Inr (if sint v = - (2 ^ 63) then 0 else v, length (varint_s64_encode_buf v))"
  by (simp add: varint_s64_decode_def varint_s64_encode_buf_def varint_u64_decode_encode
      unzigzag64_zigzag64)

text \<open>C15: On any bytes the decoder does one of three things, decided by the number of leading bytes
  with the continuation bit: it returns within the first ten bytes, having consumed what
  \<open>varint_size\<close> counts; it reports the end of the buffer; or, after ten continuation bytes, it
  shifts by 64 or more bits, which C leaves undefined.\<close>

theorem varint_u64_decode_total:
  "case varint_u64_decode bs of
     Inr (v, n) \<Rightarrow> n = Suc (varint_prefix bs) \<and> n \<le> 10 \<and> n \<le> length bs \<and> varint_size bs = n
   | Inl UndefShift \<Rightarrow> 10 \<le> varint_prefix bs \<and> 10 < length bs
   | Inl (LwError m) \<Rightarrow> varint_prefix bs = length bs \<and> length bs \<le> 10 \<and> varint_size bs = 0
   | Inl _ \<Rightarrow> False"
  using varint_decode_loop_total[of 0 bs 0]
  by (auto simp: varint_u64_decode_def varint_size_def varint_size_loop_prefix
      split: sum.splits fault.splits prod.splits)

text \<open>The 32 bit code is inverted except at the least value, the 8 bit code, whose increment
  is computed in an \<open>int\<close>, everywhere.\<close>

theorem unzigzag_narrow:
  "unzigzag32 (zigzag32 v) = (if sint v = - (2 ^ 31) then 0 else v) \<and> unzigzag8 (zigzag8 w) = w"
  by (simp only: unzigzag32_zigzag32 unzigzag8_zigzag8)

end
