(* ===== verification/ByteBuffer.thy ===== *)
theory ByteBuffer
  imports Varint
begin

text \<open>
  The growable byte buffer (liblwgeom/bytebuffer.c). A buffer is its capacity, whether its storage
  is the array inside the struct (\<open>buf_start == buf_static\<close>) or on the heap, and the bytes from
  \<open>buf_start\<close> to \<open>writecursor\<close>; the bytes above the write cursor are never read. The cursors are
  offsets from \<open>buf_start\<close>, so that reallocation does not move them. A write above the capacity is
  a \<open>MemFault\<close>.
\<close>

section \<open>State and operations\<close>

record bytebuffer =
  capacity :: u64
  is_static :: bool
  written :: "u8 list"
  readcursor :: nat

definition BYTEBUFFER_STATICSIZE :: u64 where "BYTEBUFFER_STATICSIZE = 1024"

definition bytebuffer_init_with_size :: "u64 \<Rightarrow> bytebuffer" where
  "bytebuffer_init_with_size size' =
     (if size' < BYTEBUFFER_STATICSIZE
      then \<lparr>capacity = BYTEBUFFER_STATICSIZE, is_static = True, written = [], readcursor = 0\<rparr>
      else \<lparr>capacity = size', is_static = False, written = [], readcursor = 0\<rparr>)"

definition bytebuffer_getlength :: "bytebuffer \<Rightarrow> nat" where
  "bytebuffer_getlength s = length (written s)"

text \<open>
  The loop \<open>while (capacity < required_size) capacity *= 2\<close> on \<open>size_t\<close>, where the doubling may
  wrap: \<open>None\<close> when it does not end.
\<close>

partial_function (option) grow_capacity :: "u64 \<Rightarrow> u64 \<Rightarrow> u64 option" where
  "grow_capacity cap required_size =
     (if cap < required_size then grow_capacity (cap * 2) required_size else Some cap)"

definition bytebuffer_makeroom :: "bytebuffer \<Rightarrow> u64 \<Rightarrow> bytebuffer option" where
  "bytebuffer_makeroom s size_to_add =
     (let required_size = word_of_nat (length (written s)) + size_to_add
      in case grow_capacity (capacity s) required_size of
           None \<Rightarrow> None
         | Some cap \<Rightarrow>
             Some (if capacity s < cap then s\<lparr>capacity := cap, is_static := False\<rparr> else s))"

text \<open>Writing at the cursor, with the capacity as the bound of the storage.\<close>

definition bb_write :: "bytebuffer \<Rightarrow> u8 list \<Rightarrow> bytebuffer res" where
  "bb_write s bs =
     (if length (written s) + length bs \<le> unat (capacity s)
      then Inr (s\<lparr>written := written s @ bs\<rparr>) else Inl MemFault)"

text \<open>\<open>None\<close>: the call does not return.\<close>

definition bytebuffer_append_byte :: "bytebuffer \<Rightarrow> u8 \<Rightarrow> bytebuffer res option" where
  "bytebuffer_append_byte s val = map_option (\<lambda>s. bb_write s [val]) (bytebuffer_makeroom s 1)"

definition bytebuffer_append_bytebuffer :: "bytebuffer \<Rightarrow> bytebuffer \<Rightarrow> bytebuffer res option" where
  "bytebuffer_append_bytebuffer write_to write_from =
     (let size' = bytebuffer_getlength write_from
      in map_option (\<lambda>s. bb_write s (take size' (written write_from)))
           (bytebuffer_makeroom write_to (word_of_nat size')))"

definition bytebuffer_append_varint :: "bytebuffer \<Rightarrow> 64 word \<Rightarrow> bytebuffer res option" where
  "bytebuffer_append_varint b val =
     map_option (\<lambda>s. bb_write s (varint_s64_encode_buf val)) (bytebuffer_makeroom b 16)"

definition bytebuffer_append_uvarint :: "bytebuffer \<Rightarrow> u64 \<Rightarrow> bytebuffer res option" where
  "bytebuffer_append_uvarint b val =
     map_option (\<lambda>s. bb_write s (varint_u64_encode_buf val)) (bytebuffer_makeroom b 16)"

definition bytebuffer_get_buffer :: "bytebuffer \<Rightarrow> u8 list \<times> nat" where
  "bytebuffer_get_buffer s = (written s, bytebuffer_getlength s)"

text \<open>
  The varlena copy: the size word is \<open>LWSIZE_SET\<close> of the data length plus the four header bytes
  (the form of a little endian machine, \<open>len << 2\<close> in 32 bits).
\<close>

definition bytebuffer_get_buffer_varlena :: "bytebuffer \<Rightarrow> u32 \<times> u8 list" where
  "bytebuffer_get_buffer_varlena s =
     (push_bit 2 (word_of_nat (bytebuffer_getlength s + 4)), take (bytebuffer_getlength s) (written s))"

section \<open>The growth loop\<close>

lemma grow_capacity_stop: "\<not> cap < req \<Longrightarrow> grow_capacity cap req = Some cap"
  by (subst grow_capacity.simps) simp

lemma grow_capacity_step: "cap < req \<Longrightarrow> grow_capacity cap req = grow_capacity (cap * 2) req"
  by (subst grow_capacity.simps) simp

lemma grow_capacity_returns:
  assumes "0 < cap" and "unat req \<le> 2 ^ 63"
  shows "\<exists>c. grow_capacity cap req = Some c \<and> req \<le> c \<and> cap \<le> c"
  using assms(1)
proof (induction "unat req - unat cap" arbitrary: cap rule: less_induct)
  case less
  show ?case
  proof (cases "cap < req")
    case True
    have pos: "0 < unat cap" using less.prems by (simp add: word_less_nat_alt)
    have lt: "unat cap < unat req" using True by (simp add: word_less_nat_alt)
    have dbl: "unat (cap * 2) = 2 * unat cap"
      using lt assms(2) by (simp add: unat_word_ariths)
    then have "0 < cap * 2" using pos by (simp add: word_less_nat_alt)
    moreover have "unat req - unat (cap * 2) < unat req - unat cap" using pos lt dbl by simp
    ultimately obtain c where "grow_capacity (cap * 2) req = Some c" "req \<le> c" "cap * 2 \<le> c"
      using less.hyps by blast
    moreover have "cap \<le> cap * 2" using dbl by (simp add: word_le_nat_alt)
    ultimately show ?thesis using True by (auto simp: grow_capacity_step)
  next
    case False
    then show ?thesis by (auto simp: grow_capacity_stop)
  qed
qed

section \<open>The buffer as an append-only sequence\<close>

text \<open>
  The invariant: the bytes written fit the capacity, and the capacity is not zero, so that doubling
  it makes progress. It holds of every buffer below \<open>2^62\<close> bytes.
\<close>

definition bb_inv :: "bytebuffer \<Rightarrow> bool" where
  "bb_inv s \<longleftrightarrow> 0 < capacity s \<and> length (written s) \<le> unat (capacity s)"

definition bb_room :: "bytebuffer \<Rightarrow> nat \<Rightarrow> bool" where
  "bb_room s n \<longleftrightarrow> length (written s) + n \<le> 2 ^ 62"

lemma bb_inv_init: "bb_inv (bytebuffer_init_with_size n)"
  by (auto simp: bb_inv_def bytebuffer_init_with_size_def BYTEBUFFER_STATICSIZE_def word_less_nat_alt)

lemma written_init [simp]: "written (bytebuffer_init_with_size n) = []"
  by (simp add: bytebuffer_init_with_size_def)

lemma makeroom_ok:
  assumes "bb_inv s" and "length (written s) + n \<le> 2 ^ 63"
  shows "\<exists>s'. bytebuffer_makeroom s (word_of_nat n) = Some s' \<and> bb_inv s' \<and>
              written s' = written s \<and> length (written s) + n \<le> unat (capacity s') \<and>
              capacity s \<le> capacity s'"
proof -
  let ?req = "word_of_nat (length (written s)) + word_of_nat n :: u64"
  have req: "unat ?req = length (written s) + n"
    using assms(2) by (simp flip: of_nat_add add: unat_of_nat)
  have "0 < capacity s" using assms(1) by (simp add: bb_inv_def)
  then obtain c where c: "grow_capacity (capacity s) ?req = Some c" "?req \<le> c" "capacity s \<le> c"
    using grow_capacity_returns assms(2) req by metis
  then have "length (written s) + n \<le> unat c" using req by (simp add: word_le_nat_alt)
  moreover have "0 < c" using c(3) \<open>0 < capacity s\<close> by (rule order_less_le_trans[rotated])
  ultimately show ?thesis
    using c by (auto simp: bytebuffer_makeroom_def Let_def bb_inv_def)
qed

lemma bb_write_ok:
  assumes "bb_inv s" and "length (written s) + length bs \<le> unat (capacity s)"
  shows "\<exists>s'. bb_write s bs = Inr s' \<and> bb_inv s' \<and> written s' = written s @ bs"
  using assms by (auto simp: bb_write_def bb_inv_def)

lemma makeroom_write:
  assumes inv: "bb_inv s" and n: "length bs \<le> n" and room: "length (written s) + n \<le> 2 ^ 63"
  shows "\<exists>s'. map_option (\<lambda>s. bb_write s bs) (bytebuffer_makeroom s (word_of_nat n)) = Some (Inr s') \<and>
              bb_inv s' \<and> written s' = written s @ bs"
proof -
  obtain s1 where s1: "bytebuffer_makeroom s (word_of_nat n) = Some s1" "bb_inv s1"
      "written s1 = written s" "length (written s) + n \<le> unat (capacity s1)"
    using makeroom_ok[OF inv room] by blast
  obtain s2 where "bb_write s1 bs = Inr s2" "bb_inv s2" "written s2 = written s1 @ bs"
    using bb_write_ok[OF s1(2), of bs] s1(3,4) n by auto
  with s1 show ?thesis by auto
qed

lemma append_byte_ok:
  assumes "bb_inv s" and "bb_room s 1"
  shows "\<exists>s'. bytebuffer_append_byte s b = Some (Inr s') \<and> bb_inv s' \<and> written s' = written s @ [b]"
  using makeroom_write[OF assms(1), of "[b]" 1] assms(2)
  by (simp add: bytebuffer_append_byte_def bb_room_def)

lemma append_uvarint_ok:
  assumes "bb_inv s" and "bb_room s 16"
  shows "\<exists>s'. bytebuffer_append_uvarint s v = Some (Inr s') \<and> bb_inv s' \<and>
              written s' = written s @ varint_u64_encode_buf v"
  using makeroom_write[OF assms(1), of "varint_u64_encode_buf v" 16] assms(2)
    length_varint_u64[of v]
  by (simp add: bytebuffer_append_uvarint_def bb_room_def)

lemma append_varint_ok:
  assumes "bb_inv s" and "bb_room s 16"
  shows "\<exists>s'. bytebuffer_append_varint s v = Some (Inr s') \<and> bb_inv s' \<and>
              written s' = written s @ varint_s64_encode_buf v"
  using makeroom_write[OF assms(1), of "varint_s64_encode_buf v" 16] assms(2)
    length_varint_u64[of "zigzag64 v"]
  by (simp add: bytebuffer_append_varint_def bb_room_def varint_s64_encode_buf_def)

lemma append_bytebuffer_ok:
  assumes "bb_inv s" and "bb_room s (length (written t))"
  shows "\<exists>s'. bytebuffer_append_bytebuffer s t = Some (Inr s') \<and> bb_inv s' \<and>
              written s' = written s @ written t"
  using makeroom_write[OF assms(1), of "written t" "length (written t)"] assms(2)
  by (simp add: bytebuffer_append_bytebuffer_def bytebuffer_getlength_def bb_room_def Let_def)

section \<open>The interface\<close>

text \<open>
  What a client of a byte sink relies on: an append operation for bytes, one for unsigned varints
  and one for a whole other buffer, each of which extends the contents and keeps the invariant as
  long as there is room. The operations may fail to return (\<open>None\<close>) or fault when there is none.
\<close>

locale byte_sink =
  fixes contents :: "'b \<Rightarrow> u8 list"
    and inv :: "'b \<Rightarrow> bool"
    and room :: "'b \<Rightarrow> nat \<Rightarrow> bool"
    and put_byte :: "'b \<Rightarrow> u8 \<Rightarrow> 'b res option"
    and put_varint :: "'b \<Rightarrow> 64 word \<Rightarrow> 'b res option"
    and put_uvarint :: "'b \<Rightarrow> u64 \<Rightarrow> 'b res option"
    and put_buffer :: "'b \<Rightarrow> 'b \<Rightarrow> 'b res option"
  assumes room_iff: "room s n \<longleftrightarrow> length (contents s) + n \<le> 2 ^ 62"
    and put_byte: "inv s \<Longrightarrow> room s 1 \<Longrightarrow>
      \<exists>s'. put_byte s b = Some (Inr s') \<and> inv s' \<and> contents s' = contents s @ [b]"
    and put_varint: "inv s \<Longrightarrow> room s 16 \<Longrightarrow>
      \<exists>s'. put_varint s i = Some (Inr s') \<and> inv s' \<and> contents s' = contents s @ varint_s64_encode_buf i"
    and put_uvarint: "inv s \<Longrightarrow> room s 16 \<Longrightarrow>
      \<exists>s'. put_uvarint s v = Some (Inr s') \<and> inv s' \<and> contents s' = contents s @ varint_u64_encode_buf v"
    and put_buffer: "inv s \<Longrightarrow> room s (length (contents t)) \<Longrightarrow>
      \<exists>s'. put_buffer s t = Some (Inr s') \<and> inv s' \<and> contents s' = contents s @ contents t"
begin

lemma run_varints:
  assumes "inv s" and "length (contents s) + 16 * length vs \<le> 2 ^ 62"
  shows "\<exists>s'. run_steps put_varint s vs = Some (Inr s') \<and> inv s' \<and>
              contents s' = contents s @ concat (map varint_s64_encode_buf vs)"
proof -
  let ?P = "\<lambda>s vs. inv s \<and> length (contents s) + 16 * length vs \<le> 2 ^ 62"
  have "\<exists>s'. put_varint s v = Some (Inr s') \<and> ?P s' vs \<and> contents s' = contents s @ varint_s64_encode_buf v"
    if "?P s (v # vs)" for s v vs
    using put_varint[of s v] that length_varint_s64[of v] by (force simp: room_iff)
  from run_steps_append[where P = ?P and f = put_varint and c = contents and g = varint_s64_encode_buf, OF this]
  show ?thesis using assms by blast
qed

end

interpretation bb: byte_sink written bb_inv bb_room bytebuffer_append_byte
    bytebuffer_append_varint bytebuffer_append_uvarint bytebuffer_append_bytebuffer
  by unfold_locales
    (simp_all add: bb_room_def append_byte_ok append_varint_ok append_uvarint_ok append_bytebuffer_ok)

text \<open>The calls of the interface as data, the buffer's step on each, and the bytes each adds.\<close>

datatype bb_op =
  AppendByte u8 | AppendVarint "64 word" | AppendUvarint u64 | AppendBuffer bytebuffer

fun bb_step :: "bytebuffer \<Rightarrow> bb_op \<Rightarrow> bytebuffer res option" where
  "bb_step s (AppendByte b) = bytebuffer_append_byte s b"
| "bb_step s (AppendVarint i) = bytebuffer_append_varint s i"
| "bb_step s (AppendUvarint v) = bytebuffer_append_uvarint s v"
| "bb_step s (AppendBuffer t) = bytebuffer_append_bytebuffer s t"

fun bb_op_bytes :: "bb_op \<Rightarrow> u8 list" where
  "bb_op_bytes (AppendByte b) = [b]"
| "bb_op_bytes (AppendVarint i) = varint_s64_encode_buf i"
| "bb_op_bytes (AppendUvarint v) = varint_u64_encode_buf v"
| "bb_op_bytes (AppendBuffer t) = written t"

lemma bb_step_ok:
  assumes "bb_inv s" and "length (written s) + length (bb_op_bytes op) + 16 \<le> 2 ^ 62"
  shows "\<exists>s'. bb_step s op = Some (Inr s') \<and> bb_inv s' \<and> written s' = written s @ bb_op_bytes op"
  using assms bb.put_byte[of s] bb.put_varint[of s] bb.put_uvarint[of s] bb.put_buffer[of s]
  by (cases op) (simp_all add: bb_room_def)

lemma run_bb_steps:
  assumes "bb_inv s" and "length (written s) + sum_list (map (\<lambda>op. length (bb_op_bytes op) + 16) ops) \<le> 2 ^ 62"
  shows "\<exists>s'. run_steps bb_step s ops = Some (Inr s') \<and> bb_inv s' \<and>
              written s' = written s @ concat (map bb_op_bytes ops)"
proof -
  let ?P = "\<lambda>s ops. bb_inv s \<and> length (written s) + sum_list (map (\<lambda>op. length (bb_op_bytes op) + 16) ops) \<le> 2 ^ 62"
  have "\<exists>s'. bb_step s op = Some (Inr s') \<and> ?P s' ops \<and> written s' = written s @ bb_op_bytes op"
    if "?P s (op # ops)" for s op ops
    using bb_step_ok[of s op] that by force
  from run_steps_append[where P = ?P and f = bb_step and c = written and g = bb_op_bytes, OF this]
  show ?thesis using assms by blast
qed

text \<open>Reading back a sequence of varints.\<close>

fun varints_decode :: "nat \<Rightarrow> u8 list \<Rightarrow> (u64 list \<times> u8 list) res" where
  "varints_decode 0 bs = Inr ([], bs)"
| "varints_decode (Suc k) bs =
     rbind (varint_u64_decode bs) (\<lambda>(v, n).
       rbind (varints_decode k (drop n bs)) (\<lambda>(vs, rest). Inr (v # vs, rest)))"

lemma varints_decode_concat:
  "varints_decode (length vs) (concat (map varint_u64_encode_buf vs) @ rest) = Inr (vs, rest)"
  by (induction vs) (simp_all add: varint_u64_decode_encode)


section \<open>Properties\<close>

text \<open>C9: Any sequence of appends to a fresh buffer, of any initial size, returns without faulting
  as long as fewer than \<open>2^62\<close> bytes (sixteen spare ones per call) are written, and the buffer then
  holds the concatenation of what was appended, within its capacity; the growth loop ends at every
  step.\<close>

theorem bytebuffer_appends_refine_list:
  assumes "sum_list (map (\<lambda>op. length (bb_op_bytes op) + 16) ops) \<le> 2 ^ 62"
  shows "\<exists>s'. run_steps bb_step (bytebuffer_init_with_size n) ops = Some (Inr s') \<and>
     bytebuffer_get_buffer s' = (concat (map bb_op_bytes ops), length (concat (map bb_op_bytes ops))) \<and>
     length (concat (map bb_op_bytes ops)) \<le> unat (capacity s')"
  using run_bb_steps[OF bb_inv_init[of n], of ops] assms
  by (auto simp: bytebuffer_get_buffer_def bytebuffer_getlength_def bb_inv_def)

theorem bytebuffer_appends_refine_list_witness:
  "\<exists>s'. run_steps bb_step (bytebuffer_init_with_size 16)
      [AppendByte 1, AppendUvarint 300, AppendVarint 2] = Some (Inr s') \<and>
    written s' = [1, 0xAC, 2, 4]"
proof -
  have e: "varint_u64_encode_buf 300 = [0xAC, 2]" "varint_s64_encode_buf 2 = [4]"
    by (simp_all add: varint_s64_encode_buf_def zigzag64_def varint_u64_encode_buf.simps Let_def)
  show ?thesis
    using bytebuffer_appends_refine_list
      [of "[AppendByte 1, AppendUvarint 300, AppendVarint 2]" 16]
    by (auto simp: e bytebuffer_get_buffer_def)
qed

end
