(* ===== verification/UnionFind.thy ===== *)
theory UnionFind
  imports Prelude "HOL-Library.Multiset"
begin

text \<open>
  The union-find structure used for clustering (liblwgeom/lwunionfind.c). Identifiers, cluster
  identifiers and sizes are below \<open>N\<close>, which is a \<open>uint32_t\<close>, so they are natural numbers here:
  no sum of sizes exceeds \<open>N\<close> (the invariant). An index outside the arrays is a \<open>MemFault\<close>, a loop
  that does not end is \<open>None\<close>.
\<close>

section \<open>State and operations\<close>

record unionfind =
  clusters :: "nat list"
  cluster_sizes :: "nat list"
  num_clusters :: nat
  uf_N :: nat

definition UF_create :: "nat \<Rightarrow> unionfind" where
  "UF_create N = \<lparr>clusters = [0..<N], cluster_sizes = replicate N 1, num_clusters = N, uf_N = N\<rparr>"

text \<open>The two loops of \<open>UF_find\<close>: the walk to the root and the compression of the path.\<close>

partial_function (option) uf_root :: "nat list \<Rightarrow> nat \<Rightarrow> nat res option" where
  "uf_root cl base =
     (if length cl \<le> base then Some (Inl MemFault)
      else if cl ! base \<noteq> base then uf_root cl (cl ! base) else Some (Inr base))"

partial_function (option) uf_compress :: "nat list \<Rightarrow> nat \<Rightarrow> nat \<Rightarrow> nat list res option" where
  "uf_compress cl i base =
     (if i \<noteq> base then
        if length cl \<le> i then Some (Inl MemFault)
        else uf_compress (cl[i := base]) (cl ! i) base
      else Some (Inr cl))"

definition UF_find :: "unionfind \<Rightarrow> nat \<Rightarrow> (nat \<times> unionfind) res option" where
  "UF_find uf i =
     (case uf_root (clusters uf) i of
        Some (Inr base) \<Rightarrow>
          map_option (\<lambda>r. rbind r (\<lambda>cl. Inr (base, uf\<lparr>clusters := cl\<rparr>))) (uf_compress (clusters uf) i base)
      | Some (Inl e) \<Rightarrow> Some (Inl e)
      | None \<Rightarrow> None)"

definition UF_size :: "unionfind \<Rightarrow> nat \<Rightarrow> (nat \<times> unionfind) res option" where
  "UF_size uf i = map_option (\<lambda>r. rbind r (\<lambda>(a, uf).
     if a < length (cluster_sizes uf) then Inr (cluster_sizes uf ! a, uf) else Inl MemFault)) (UF_find uf i)"

text \<open>The body of \<open>UF_union\<close> once the roots \<open>a\<close> and \<open>b\<close> are found.\<close>

definition uf_link :: "unionfind \<Rightarrow> nat \<Rightarrow> nat \<Rightarrow> unionfind" where
  "uf_link uf a b =
     (if a = b then uf
      else if cluster_sizes uf ! a < cluster_sizes uf ! b \<or>
              (cluster_sizes uf ! a = cluster_sizes uf ! b \<and> b < a)
      then uf\<lparr>clusters := (clusters uf)[a := clusters uf ! b],
              cluster_sizes := (cluster_sizes uf)[b := cluster_sizes uf ! b + cluster_sizes uf ! a, a := 0],
              num_clusters := num_clusters uf - 1\<rparr>
      else uf\<lparr>clusters := (clusters uf)[b := clusters uf ! a],
              cluster_sizes := (cluster_sizes uf)[a := cluster_sizes uf ! a + cluster_sizes uf ! b, b := 0],
              num_clusters := num_clusters uf - 1\<rparr>)"

definition UF_union :: "unionfind \<Rightarrow> nat \<Rightarrow> nat \<Rightarrow> unionfind res option" where
  "UF_union uf i j =
     (case UF_find uf i of
        Some (Inr (a, uf1)) \<Rightarrow>
          map_option (\<lambda>r. rbind r (\<lambda>(b, uf2). Inr (uf_link uf2 a b))) (UF_find uf1 j)
      | Some (Inl e) \<Rightarrow> Some (Inl e)
      | None \<Rightarrow> None)"

text \<open>
  \<open>UF_ordered_by_cluster\<close> compresses every path and sorts the identifiers by cluster with
  \<open>qsort\<close>. Its comparator breaks ties by the addresses of the array slots being compared, so
  the order inside a cluster is whatever \<open>qsort\<close> does; all the C standard promises is a
  permutation in which the clusters are in order. The result is a relation.
\<close>

definition uf_compress_all :: "unionfind \<Rightarrow> unionfind res option" where
  "uf_compress_all uf =
     run_steps (\<lambda>uf i. map_option (\<lambda>r. rbind r (\<lambda>(a, uf'). Inr uf')) (UF_find uf i)) uf [0..<uf_N uf]"

definition UF_ordered_by_cluster :: "unionfind \<Rightarrow> unionfind \<Rightarrow> nat list \<Rightarrow> bool" where
  "UF_ordered_by_cluster uf uf' ids \<longleftrightarrow>
     uf_compress_all uf = Some (Inr uf') \<and> mset ids = mset [0..<uf_N uf] \<and>
     sorted (map (\<lambda>i. clusters uf' ! i) ids)"

text \<open>
  The loop of \<open>UF_get_collapsed_cluster_ids\<close> over the ordered identifiers: the state is
  \<open>encountered_cluster\<close> with \<open>last_old_id\<close> (\<open>None\<close> before the first), \<open>current_new_id\<close>, the ids
  written so far and the structure, which \<open>UF_find\<close> may compress.
\<close>

record collapse_state =
  cs_uf :: unionfind
  last_old_id :: "nat option"
  current_new_id :: nat
  new_ids :: "nat \<rightharpoonup> nat"

definition collapse_step :: "(nat \<Rightarrow> bool) option \<Rightarrow> collapse_state \<Rightarrow> nat \<Rightarrow> collapse_state res option" where
  "collapse_step is_in_cluster s j =
     (if (case is_in_cluster of None \<Rightarrow> True | Some f \<Rightarrow> f j) then
        map_option (\<lambda>r. rbind r (\<lambda>(current_old_id, uf).
          let last = (case last_old_id s of None \<Rightarrow> current_old_id | Some l \<Rightarrow> l);
              new = (if current_old_id \<noteq> last then Suc (current_new_id s) else current_new_id s)
          in Inr \<lparr>cs_uf = uf, last_old_id = Some current_old_id, current_new_id = new,
                  new_ids = (new_ids s)(j \<mapsto> new)\<rparr>)) (UF_find (cs_uf s) j)
      else Some (Inr s))"

definition UF_get_collapsed_cluster_ids ::
    "unionfind \<Rightarrow> nat list \<Rightarrow> (nat \<Rightarrow> bool) option \<Rightarrow> collapse_state res option" where
  "UF_get_collapsed_cluster_ids uf ordered_components is_in_cluster =
     run_steps (collapse_step is_in_cluster)
       \<lparr>cs_uf = uf, last_old_id = None, current_new_id = 0, new_ids = Map.empty\<rparr> ordered_components"

section \<open>Representatives\<close>

text \<open>\<open>repn cl i r n\<close>: the path from \<open>i\<close> reaches the root \<open>r\<close> in \<open>n\<close> steps.\<close>

inductive repn :: "nat list \<Rightarrow> nat \<Rightarrow> nat \<Rightarrow> nat \<Rightarrow> bool" for cl where
  root: "r < length cl \<Longrightarrow> cl ! r = r \<Longrightarrow> repn cl r r 0"
| up: "i < length cl \<Longrightarrow> cl ! i \<noteq> i \<Longrightarrow> repn cl (cl ! i) r n \<Longrightarrow> repn cl i r (Suc n)"

inductive_cases repnE: "repn cl i r n"

definition rep :: "nat list \<Rightarrow> nat \<Rightarrow> nat \<Rightarrow> bool" where
  "rep cl i r \<longleftrightarrow> (\<exists>n. repn cl i r n)"

lemma repn_det: "repn cl i r n \<Longrightarrow> repn cl i r' n' \<Longrightarrow> r' = r \<and> n' = n"
proof (induction arbitrary: r' n' rule: repn.induct)
  case (root r)
  from root.prems show ?case
  proof cases
    case root
    then show ?thesis by simp
  next
    case up
    with root.hyps show ?thesis by blast
  qed
next
  case (up i r n)
  from up.prems show ?case
  proof cases
    case root
    with up.hyps show ?thesis by blast
  next
    case (up m)
    with up.IH show ?thesis by blast
  qed
qed

lemma rep_det: "rep cl i r \<Longrightarrow> rep cl i r' \<Longrightarrow> r' = r"
  by (auto simp: rep_def dest: repn_det)

lemma repn_bounds: "repn cl i r n \<Longrightarrow> i < length cl \<and> r < length cl \<and> cl ! r = r"
  by (induction rule: repn.induct) auto

lemma rep_bounds: "rep cl i r \<Longrightarrow> i < length cl \<and> r < length cl \<and> cl ! r = r"
  by (auto simp: rep_def dest: repn_bounds)

lemma rep_root [intro]: "r < length cl \<Longrightarrow> cl ! r = r \<Longrightarrow> rep cl r r"
  by (auto simp: rep_def intro: repn.intros)

lemma rep_up: "i < length cl \<Longrightarrow> rep cl (cl ! i) r \<Longrightarrow> rep cl i r"
  by (cases "cl ! i = i") (auto simp: rep_def intro: repn.intros)

lemma rep_of_root: "cl ! i = i \<Longrightarrow> rep cl i r \<Longrightarrow> r = i"
proof -
  assume i: "cl ! i = i" and r: "rep cl i r"
  have "i < length cl" using rep_bounds[OF r] by simp
  then have "rep cl i i" using i by (rule rep_root)
  then show "r = i" using r by (rule rep_det)
qed

lemma uf_root_rep: "rep cl i r \<Longrightarrow> uf_root cl i = Some (Inr r)"
proof -
  have "repn cl i r n \<Longrightarrow> uf_root cl i = Some (Inr r)" for n
    by (induction rule: repn.induct) (simp_all add: uf_root.simps)
  then show "rep cl i r \<Longrightarrow> uf_root cl i = Some (Inr r)" by (auto simp: rep_def)
qed

text \<open>Pointing a node at its root shortens paths and keeps every representative.\<close>

lemma repn_shortcut:
  assumes "rep cl i r"
  shows "repn cl j s n \<Longrightarrow> \<exists>m \<le> n. repn (cl[i := r]) j s m"
proof (induction rule: repn.induct)
  case (root s)
  have "cl[i := r] ! s = s"
    using root assms rep_of_root[of cl i r] by (cases "s = i") auto
  with root show ?case by (auto intro: repn.root)
next
  case (up j s n)
  show ?case
  proof (cases "j = i")
    case True
    have "rep cl j s" using up.hyps by (auto simp: rep_def intro: repn.up)
    with assms True have s: "s = r" by (auto dest: rep_det)
    have r: "r < length cl" "cl ! r = r" using rep_bounds[OF assms] by auto
    then have "r \<noteq> i" using up.hyps(2) True by auto
    then have "repn (cl[i := r]) r r 0" using r by (auto intro: repn.root)
    then have "repn (cl[i := r]) j s 1"
      using up.hyps(1) True \<open>r \<noteq> i\<close> s by (auto intro: repn.up)
    then show ?thesis by (intro exI[of _ 1]) simp
  next
    case False
    with up obtain m where "m \<le> n" "repn (cl[i := r]) (cl ! j) s m" by blast
    with False up.hyps(1,2) have "repn (cl[i := r]) j s (Suc m)" by (auto intro: repn.up)
    with \<open>m \<le> n\<close> show ?thesis by (intro exI[of _ "Suc m"]) simp
  qed
qed

lemma rep_shortcut: "rep cl i r \<Longrightarrow> rep cl j s \<Longrightarrow> rep (cl[i := r]) j s"
  by (metis rep_def repn_shortcut)

lemma uf_compress_ok:
  "repn cl i r n \<Longrightarrow> \<exists>cl'. uf_compress cl i r = Some (Inr cl') \<and> length cl' = length cl \<and>
     cl' ! i = r \<and> (\<forall>j s. rep cl j s \<longrightarrow> rep cl' j s) \<and> (\<forall>j. cl' ! j = cl ! j \<or> cl' ! j = r)"
proof (induction n arbitrary: cl i rule: less_induct)
  case (less n)
  show ?case
  proof (cases "i = r")
    case True
    then show ?thesis using repn_bounds[OF less.prems] by (simp add: uf_compress.simps)
  next
    case False
    from less.prems obtain n' where i: "i < length cl" "cl ! i \<noteq> i" and n: "n = Suc n'"
        and up: "repn cl (cl ! i) r n'"
      by (rule repnE) (use False in auto)
    have rep: "rep cl i r" using less.prems by (auto simp: rep_def)
    from repn_shortcut[OF rep up] obtain m where m: "m \<le> n'" "repn (cl[i := r]) (cl ! i) r m" by blast
    then have "m < n" by (simp add: n)
    from less.IH[OF this m(2)] obtain cl' where cl':
        "uf_compress (cl[i := r]) (cl ! i) r = Some (Inr cl')" "length cl' = length cl"
        "\<forall>j s. rep (cl[i := r]) j s \<longrightarrow> rep cl' j s"
        "\<forall>j. cl' ! j = cl[i := r] ! j \<or> cl' ! j = r"
      by auto
    have "cl' ! i = r" using cl'(4) i(1) by (metis nth_list_update_eq)
    moreover have "\<forall>j. cl' ! j = cl ! j \<or> cl' ! j = r"
      using cl'(4) i(1) by (metis nth_list_update_eq nth_list_update_neq)
    moreover have "\<forall>j s. rep cl j s \<longrightarrow> rep cl' j s" using rep_shortcut[OF rep] cl'(3) by blast
    ultimately show ?thesis using False i(1) cl'(1,2) by (simp add: uf_compress.simps[of cl i r])
  qed
qed

section \<open>The invariant\<close>

text \<open>
  Every identifier has a representative, the size stored at a root is the number of identifiers
  it represents, and \<open>num_clusters\<close> counts the roots.
\<close>

definition uf_roots :: "unionfind \<Rightarrow> nat set" where
  "uf_roots uf = {r. r < uf_N uf \<and> clusters uf ! r = r}"

definition uf_members :: "unionfind \<Rightarrow> nat \<Rightarrow> nat set" where
  "uf_members uf r = {i. rep (clusters uf) i r}"

definition uf_inv :: "unionfind \<Rightarrow> bool" where
  "uf_inv uf \<longleftrightarrow>
     length (clusters uf) = uf_N uf \<and> length (cluster_sizes uf) = uf_N uf \<and>
     (\<forall>i < uf_N uf. \<exists>r. rep (clusters uf) i r) \<and>
     (\<forall>r \<in> uf_roots uf. cluster_sizes uf ! r = card (uf_members uf r)) \<and>
     num_clusters uf = card (uf_roots uf)"

definition same_cluster :: "unionfind \<Rightarrow> nat \<Rightarrow> nat \<Rightarrow> bool" where
  "same_cluster uf i j \<longleftrightarrow> (\<exists>r. rep (clusters uf) i r \<and> rep (clusters uf) j r)"

lemma uf_inv_rep: "uf_inv uf \<Longrightarrow> i < uf_N uf \<Longrightarrow> \<exists>r. rep (clusters uf) i r"
  by (auto simp: uf_inv_def)

lemma uf_inv_length: "uf_inv uf \<Longrightarrow> length (clusters uf) = uf_N uf \<and> length (cluster_sizes uf) = uf_N uf"
  by (auto simp: uf_inv_def)

text \<open>A structure with the same representatives is as good.\<close>

lemma rep_iff_of_mono:
  assumes inv: "uf_inv uf" and len: "length cl' = uf_N uf"
    and mono: "\<And>j s. rep (clusters uf) j s \<Longrightarrow> rep cl' j s"
  shows "rep cl' j s \<longleftrightarrow> rep (clusters uf) j s"
proof
  assume *: "rep cl' j s"
  then have "j < uf_N uf" using rep_bounds[of cl' j s] len by simp
  then obtain t where t: "rep (clusters uf) j t" using uf_inv_rep[OF inv] by blast
  from mono[OF t] * have "t = s" by (auto dest: rep_det)
  with t show "rep (clusters uf) j s" by simp
qed (rule mono)

lemma roots_iff_rep: "length (clusters uf) = uf_N uf \<Longrightarrow> uf_roots uf = {r. rep (clusters uf) r r}"
  by (auto simp: uf_roots_def dest: rep_bounds)

lemma uf_inv_recompress:
  assumes inv: "uf_inv uf" and len: "length cl' = uf_N uf"
    and iff: "\<And>j s. rep cl' j s \<longleftrightarrow> rep (clusters uf) j s"
  shows "uf_inv (uf\<lparr>clusters := cl'\<rparr>)"
proof -
  have "uf_roots (uf\<lparr>clusters := cl'\<rparr>) = uf_roots uf"
    using len uf_inv_length[OF inv] by (simp add: roots_iff_rep iff)
  then show ?thesis
    using inv len by (simp add: uf_inv_def uf_members_def iff)
qed

lemma UF_find_ok:
  assumes inv: "uf_inv uf" and i: "i < uf_N uf"
  shows "\<exists>r uf'. UF_find uf i = Some (Inr (r, uf')) \<and> rep (clusters uf) i r \<and> uf_inv uf' \<and>
    uf_N uf' = uf_N uf \<and> cluster_sizes uf' = cluster_sizes uf \<and> num_clusters uf' = num_clusters uf \<and>
    (\<forall>j s. rep (clusters uf') j s \<longleftrightarrow> rep (clusters uf) j s) \<and> clusters uf' ! i = r \<and>
    (\<forall>j s. rep (clusters uf) j s \<longrightarrow> clusters uf ! j = s \<longrightarrow> clusters uf' ! j = s)"
proof -
  from uf_inv_rep[OF inv i] obtain r where r: "rep (clusters uf) i r" by blast
  then obtain n where n: "repn (clusters uf) i r n" by (auto simp: rep_def)
  from uf_compress_ok[OF n] obtain cl' where cl': "uf_compress (clusters uf) i r = Some (Inr cl')"
      "length cl' = length (clusters uf)" "cl' ! i = r" "\<forall>j s. rep (clusters uf) j s \<longrightarrow> rep cl' j s"
      "\<forall>j. cl' ! j = clusters uf ! j \<or> cl' ! j = r"
    by blast
  have len: "length cl' = uf_N uf" using cl'(2) uf_inv_length[OF inv] by simp
  have iff: "rep cl' j s \<longleftrightarrow> rep (clusters uf) j s" for j s
    using rep_iff_of_mono[OF inv len] cl'(4) by blast
  have "cl' ! j = s" if js: "rep (clusters uf) j s" "clusters uf ! j = s" for j s
  proof -
    have "rep cl' j r" if "cl' ! j = r"
      using that iff r js(1) rep_bounds[OF r] len uf_inv_length[OF inv] rep_bounds[OF js(1)]
      by (metis rep_root rep_up)
    then show ?thesis using cl'(5) js iff rep_det by metis
  qed
  moreover have "uf_inv (uf\<lparr>clusters := cl'\<rparr>)" by (rule uf_inv_recompress[OF inv len iff])
  ultimately show ?thesis
    using r cl'(1,3) iff by (simp add: UF_find_def uf_root_rep)
qed


section \<open>Merging two clusters\<close>

lemma rep_attach:
  assumes a: "a < length cl" "cl ! a = a" and b: "b < length cl" "cl ! b = b" and ab: "a \<noteq> b"
  shows "rep cl j s \<Longrightarrow> rep (cl[a := b]) j (if s = a then b else s)"
proof -
  have "repn cl j s n \<Longrightarrow> rep (cl[a := b]) j (if s = a then b else s)" for n
  proof (induction rule: repn.induct)
    case (root s)
    have bb: "rep (cl[a := b]) b b" using b ab by (intro rep_root) auto
    show ?case
    proof (cases "s = a")
      case True
      with bb a show ?thesis by (auto intro: rep_up[of a])
    next
      case False
      have "rep (cl[a := b]) s s" using root False by (intro rep_root) simp_all
      with False show ?thesis by simp
    qed
  next
    case (up j s n)
    then have "j \<noteq> a" using a by auto
    with up.hyps(1) have "j < length (cl[a := b])" "cl[a := b] ! j = cl ! j" by simp_all
    with up.IH show ?case using rep_up[of j "cl[a := b]"] by simp
  qed
  then show "rep cl j s \<Longrightarrow> rep (cl[a := b]) j (if s = a then b else s)" by (auto simp: rep_def)
qed

definition uf_attach :: "unionfind \<Rightarrow> nat \<Rightarrow> nat \<Rightarrow> unionfind" where
  "uf_attach uf a b = uf\<lparr>clusters := (clusters uf)[a := b],
     cluster_sizes := (cluster_sizes uf)[b := cluster_sizes uf ! b + cluster_sizes uf ! a, a := 0],
     num_clusters := num_clusters uf - 1\<rparr>"

lemma uf_link_attach:
  "clusters uf ! a = a \<Longrightarrow> clusters uf ! b = b \<Longrightarrow>
     uf_link uf a b = uf \<and> a = b \<or> a \<noteq> b \<and> (uf_link uf a b = uf_attach uf a b \<or> uf_link uf a b = uf_attach uf b a)"
  by (auto simp: uf_link_def uf_attach_def)

lemma rep_attach_iff:
  assumes inv: "uf_inv uf" and a: "a \<in> uf_roots uf" and b: "b \<in> uf_roots uf" and ab: "a \<noteq> b"
  shows "rep (clusters (uf_attach uf a b)) j t \<longleftrightarrow>
         (\<exists>s. rep (clusters uf) j s \<and> t = (if s = a then b else s))"
proof -
  have len: "length (clusters uf) = uf_N uf" using uf_inv_length[OF inv] by simp
  have step: "rep (clusters uf) j s \<Longrightarrow> rep (clusters (uf_attach uf a b)) j (if s = a then b else s)" for s
    using rep_attach[of a "clusters uf" b j s] a b ab len by (simp add: uf_attach_def uf_roots_def)
  show ?thesis
  proof
    assume t: "rep (clusters (uf_attach uf a b)) j t"
    then have "j < uf_N uf" using rep_bounds[OF t] len by (simp add: uf_attach_def)
    then obtain s where s: "rep (clusters uf) j s" using uf_inv_rep[OF inv] by blast
    with step[OF s] t show "\<exists>s. rep (clusters uf) j s \<and> t = (if s = a then b else s)"
      using rep_det by metis
  qed (use step in blast)
qed

lemma members_attach:
  assumes inv: "uf_inv uf" and a: "a \<in> uf_roots uf" and b: "b \<in> uf_roots uf" and ab: "a \<noteq> b"
  shows "uf_members (uf_attach uf a b) t =
    (if t = b then uf_members uf a \<union> uf_members uf b else if t = a then {} else uf_members uf t)"
  using ab by (auto simp: uf_members_def rep_attach_iff[OF assms])

lemma roots_attach:
  assumes "uf_inv uf" "a \<in> uf_roots uf" "b \<in> uf_roots uf" "a \<noteq> b"
  shows "uf_roots (uf_attach uf a b) = uf_roots uf - {a}"
  using assms uf_inv_length[OF assms(1)]
  by (auto simp: uf_roots_def uf_attach_def nth_list_update)

lemma finite_members: "uf_inv uf \<Longrightarrow> finite (uf_members uf r)"
  by (rule finite_subset[of _ "{..<uf_N uf}"])
    (auto simp: uf_members_def uf_inv_def dest: rep_bounds)

lemma finite_roots: "finite (uf_roots uf)"
  by (simp add: uf_roots_def)

lemma members_disjoint: "r \<noteq> s \<Longrightarrow> uf_members uf r \<inter> uf_members uf s = {}"
  by (auto simp: uf_members_def dest: rep_det)

lemma uf_inv_attach:
  assumes inv: "uf_inv uf" and a: "a \<in> uf_roots uf" and b: "b \<in> uf_roots uf" and ab: "a \<noteq> b"
  shows "uf_inv (uf_attach uf a b)"
proof -
  let ?u = "uf_attach uf a b"
  have len: "length (clusters ?u) = uf_N ?u" "length (cluster_sizes ?u) = uf_N ?u" "uf_N ?u = uf_N uf"
    using uf_inv_length[OF inv] by (auto simp: uf_attach_def)
  have "\<exists>r. rep (clusters ?u) i r" if "i < uf_N uf" for i
    using uf_inv_rep[OF inv that] rep_attach_iff[OF assms] by blast
  moreover have "cluster_sizes ?u ! r = card (uf_members ?u r)" if "r \<in> uf_roots ?u" for r
  proof -
    have r: "r \<in> uf_roots uf" "r \<noteq> a" using that roots_attach[OF assms] by auto
    have size: "cluster_sizes uf ! x = card (uf_members uf x)" if "x \<in> uf_roots uf" for x
      using inv that by (simp add: uf_inv_def)
    have bN: "b < uf_N uf" using b by (simp add: uf_roots_def)
    show ?thesis
    proof (cases "r = b")
      case True
      have "card (uf_members uf a \<union> uf_members uf b) = card (uf_members uf a) + card (uf_members uf b)"
        using finite_members[OF inv] members_disjoint[OF ab] by (simp add: card_Un_disjoint)
      then show ?thesis
        using True ab bN uf_inv_length[OF inv] size[OF a] size[OF b]
        by (simp add: members_attach[OF assms]) (simp add: uf_attach_def)
    next
      case False
      then show ?thesis
        using r size[OF r(1)] by (simp add: members_attach[OF assms]) (simp add: uf_attach_def)
    qed
  qed
  moreover have "num_clusters ?u = card (uf_roots ?u)"
    using inv a finite_roots roots_attach[OF assms] by (simp add: uf_inv_def uf_attach_def)
  ultimately show ?thesis using len by (simp add: uf_inv_def)
qed

lemma same_cluster_attach:
  assumes inv: "uf_inv uf" and a: "a \<in> uf_roots uf" and b: "b \<in> uf_roots uf" and ab: "a \<noteq> b"
    and i: "rep (clusters uf) i a" and j: "rep (clusters uf) j b"
  shows "same_cluster (uf_attach uf a b) x y \<longleftrightarrow>
    same_cluster uf x y \<or> same_cluster uf x i \<and> same_cluster uf y j \<or>
    same_cluster uf x j \<and> same_cluster uf y i"
proof -
  have ia: "same_cluster uf z i \<longleftrightarrow> rep (clusters uf) z a" for z
    using i by (auto simp: same_cluster_def dest: rep_det)
  have jb: "same_cluster uf z j \<longleftrightarrow> rep (clusters uf) z b" for z
    using j by (auto simp: same_cluster_def dest: rep_det)
  let ?R = "rep (clusters uf)" and ?u = "uf_attach uf a b"
  show ?thesis
  proof
    assume "same_cluster ?u x y"
    then obtain s t where "?R x s" "?R y t" "(if s = a then b else s) = (if t = a then b else t)"
      by (auto simp: same_cluster_def rep_attach_iff[OF assms(1-4)])
    then show "same_cluster uf x y \<or> same_cluster uf x i \<and> same_cluster uf y j \<or>
        same_cluster uf x j \<and> same_cluster uf y i"
      unfolding ia jb by (cases "s = a"; cases "t = a") (auto simp: same_cluster_def)
  next
    have step: "?R z s \<Longrightarrow> rep (clusters ?u) z (if s = a then b else s)" for z s
      using rep_attach_iff[OF assms(1-4)] by blast
    assume "same_cluster uf x y \<or> same_cluster uf x i \<and> same_cluster uf y j \<or>
        same_cluster uf x j \<and> same_cluster uf y i"
    then consider s where "?R x s" "?R y s" | "?R x a" "?R y b" | "?R x b" "?R y a"
      unfolding ia jb by (auto simp: same_cluster_def)
    then show "same_cluster ?u x y"
      by cases (use step ab in \<open>force simp: same_cluster_def\<close>)+
  qed
qed

lemma same_cluster_sym: "same_cluster uf x y \<longleftrightarrow> same_cluster uf y x"
  by (auto simp: same_cluster_def)

lemma UF_union_ok:
  assumes inv: "uf_inv uf" and i: "i < uf_N uf" and j: "j < uf_N uf"
  shows "\<exists>uf'. UF_union uf i j = Some (Inr uf') \<and> uf_inv uf' \<and> uf_N uf' = uf_N uf \<and>
    (\<forall>x y. same_cluster uf' x y \<longleftrightarrow>
       same_cluster uf x y \<or> same_cluster uf x i \<and> same_cluster uf y j \<or>
       same_cluster uf x j \<and> same_cluster uf y i) \<and>
    num_clusters uf' = (if same_cluster uf i j then num_clusters uf else num_clusters uf - 1)"
proof -
  from UF_find_ok[OF inv i] obtain a uf1 where u1: "UF_find uf i = Some (Inr (a, uf1))"
      "rep (clusters uf) i a" "uf_inv uf1" "uf_N uf1 = uf_N uf" "num_clusters uf1 = num_clusters uf"
      "\<forall>j s. rep (clusters uf1) j s \<longleftrightarrow> rep (clusters uf) j s" by blast
  from UF_find_ok[of uf1 j] u1(3,4) j obtain b uf2 where u2: "UF_find uf1 j = Some (Inr (b, uf2))"
      "rep (clusters uf1) j b" "uf_inv uf2" "uf_N uf2 = uf_N uf1" "num_clusters uf2 = num_clusters uf1"
      "\<forall>j s. rep (clusters uf2) j s \<longleftrightarrow> rep (clusters uf1) j s" by auto
  have same: "same_cluster uf2 x y \<longleftrightarrow> same_cluster uf x y" for x y
    using u1(6) u2(6) by (simp add: same_cluster_def)
  have ra: "rep (clusters uf2) i a" and rb: "rep (clusters uf2) j b" using u1 u2 by auto
  then have roots: "a \<in> uf_roots uf2" "b \<in> uf_roots uf2"
    using rep_bounds[OF ra] rep_bounds[OF rb] uf_inv_length[OF u2(3)] by (auto simp: uf_roots_def)
  have "same_cluster uf2 i j \<longleftrightarrow> a = b"
    using ra rb by (auto simp: same_cluster_def dest: rep_det)
  then have ab: "same_cluster uf i j \<longleftrightarrow> a = b" by (simp add: same)
  have eq: "UF_union uf i j = Some (Inr (uf_link uf2 a b))"
    using u1(1) u2(1) by (simp add: UF_union_def)
  consider "a = b" "uf_link uf2 a b = uf2" | "a \<noteq> b" "uf_link uf2 a b = uf_attach uf2 a b"
    | "a \<noteq> b" "uf_link uf2 a b = uf_attach uf2 b a"
    using uf_link_attach[of uf2 a b] roots by (auto simp: uf_roots_def)
  then show ?thesis
  proof cases
    case 1
    then have ij: "same_cluster uf i j" using ab by simp
    have "same_cluster uf x i \<Longrightarrow> same_cluster uf y j \<Longrightarrow> same_cluster uf x y" for x y
      using ij by (auto simp: same_cluster_def dest: rep_det)
    then show ?thesis using 1 eq u1 u2 ij same same_cluster_sym by (metis (no_types, lifting))
  next
    case 2
    then show ?thesis
      using eq u1(4,5) u2(3,4,5) ab same_cluster_attach[OF u2(3) roots 2(1) ra rb]
        uf_inv_attach[OF u2(3) roots 2(1)] same
      by (auto simp: uf_attach_def)
  next
    case 3
    then have "b \<noteq> a" by simp
    from 3 show ?thesis
      using eq u1(4,5) u2(3,4,5) ab same_cluster_attach[OF u2(3) roots(2,1) \<open>b \<noteq> a\<close> rb ra]
        uf_inv_attach[OF u2(3) roots(2,1) \<open>b \<noteq> a\<close>] same
      by (auto simp: uf_attach_def)
  qed
qed


section \<open>Clustering by a list of pairs\<close>

lemma rep_identity: "rep [0..<N] i r \<longleftrightarrow> i = r \<and> i < N"
  using rep_of_root[of "[0..<N]" i r] rep_root[of r "[0..<N]"] rep_bounds[of "[0..<N]" i r] by auto

lemma UF_create_inv: "uf_inv (UF_create N)"
proof -
  have "uf_roots (UF_create N) = {..<N}" by (auto simp: uf_roots_def UF_create_def)
  moreover have "uf_members (UF_create N) r = (if r < N then {r} else {})" for r
    by (auto simp: uf_members_def UF_create_def rep_identity)
  ultimately show ?thesis by (auto simp: uf_inv_def rep_identity UF_create_def)
qed

lemma same_cluster_create: "same_cluster (UF_create N) x y \<longleftrightarrow> x = y \<and> x < N"
  by (auto simp: same_cluster_def UF_create_def rep_identity)

definition union_step :: "unionfind \<Rightarrow> nat \<times> nat \<Rightarrow> unionfind res option" where
  "union_step uf e = UF_union uf (fst e) (snd e)"

definition edge_rel :: "(nat \<times> nat) set \<Rightarrow> (nat \<times> nat) set" where
  "edge_rel E = (E \<union> E\<inverse>)\<^sup>*"

lemma edge_rel_insert:
  "(x, y) \<in> edge_rel (insert (i, j) E) \<longleftrightarrow>
     (x, y) \<in> edge_rel E \<or> (x, i) \<in> edge_rel E \<and> (j, y) \<in> edge_rel E \<or>
     (x, j) \<in> edge_rel E \<and> (i, y) \<in> edge_rel E"
proof -
  have e: "insert (i, j) E \<union> (insert (i, j) E)\<inverse> = insert (i, j) (insert (j, i) (E \<union> E\<inverse>))" by auto
  show ?thesis
    unfolding edge_rel_def e by (auto simp: rtrancl_insert intro: rtrancl_trans)
qed

lemma edge_rel_sym: "(x, y) \<in> edge_rel E \<longleftrightarrow> (y, x) \<in> edge_rel E"
proof -
  have "sym (edge_rel E)" unfolding edge_rel_def by (intro sym_rtrancl) (auto simp: sym_def)
  then show ?thesis by (auto simp: sym_def)
qed

lemma run_unions:
  "uf_inv uf \<Longrightarrow> \<forall>x < uf_N uf. \<forall>y < uf_N uf. same_cluster uf x y \<longleftrightarrow> (x, y) \<in> edge_rel E \<Longrightarrow>
   set es \<subseteq> {..<uf_N uf} \<times> {..<uf_N uf} \<Longrightarrow>
   \<exists>uf'. run_steps union_step uf es = Some (Inr uf') \<and> uf_inv uf' \<and> uf_N uf' = uf_N uf \<and>
     (\<forall>x < uf_N uf. \<forall>y < uf_N uf. same_cluster uf' x y \<longleftrightarrow> (x, y) \<in> edge_rel (E \<union> set es))"
proof (induction es arbitrary: uf E)
  case Nil
  then show ?case by simp
next
  case (Cons e es)
  obtain i j where e: "e = (i, j)" by fastforce
  have ij: "i < uf_N uf" "j < uf_N uf" using Cons.prems(3) e by auto
  from UF_union_ok[OF Cons.prems(1) ij] obtain uf1 where u1: "UF_union uf i j = Some (Inr uf1)"
      "uf_inv uf1" "uf_N uf1 = uf_N uf"
      "\<forall>x y. same_cluster uf1 x y \<longleftrightarrow> same_cluster uf x y \<or> same_cluster uf x i \<and> same_cluster uf y j \<or>
         same_cluster uf x j \<and> same_cluster uf y i" by blast
  have "\<forall>x < uf_N uf1. \<forall>y < uf_N uf1. same_cluster uf1 x y \<longleftrightarrow> (x, y) \<in> edge_rel (insert (i, j) E)"
    using u1(3,4) Cons.prems(2) ij by (simp add: edge_rel_insert) (metis edge_rel_sym)
  from Cons.IH[OF u1(2) this] Cons.prems(3) u1(1,3) e show ?case
    by (simp add: union_step_def)
qed

section \<open>Collapsed identifiers\<close>

lemma find_all:
  "uf_inv uf \<Longrightarrow> set is \<subseteq> {..<uf_N uf} \<Longrightarrow>
   \<exists>uf'. run_steps (\<lambda>uf i. map_option (\<lambda>r. rbind r (\<lambda>(a, uf'). Inr uf')) (UF_find uf i)) uf is
       = Some (Inr uf') \<and> uf_inv uf' \<and> uf_N uf' = uf_N uf \<and>
     (\<forall>j s. rep (clusters uf') j s \<longleftrightarrow> rep (clusters uf) j s) \<and>
     (\<forall>j s. rep (clusters uf) j s \<longrightarrow> clusters uf ! j = s \<longrightarrow> clusters uf' ! j = s) \<and>
     (\<forall>j \<in> set is. rep (clusters uf) j (clusters uf' ! j))"
proof (induction "is" arbitrary: uf)
  case Nil
  then show ?case by simp
next
  case (Cons i "is")
  have "i < uf_N uf" using Cons.prems(2) by simp
  from UF_find_ok[OF Cons.prems(1) this] obtain r uf1 where u1: "UF_find uf i = Some (Inr (r, uf1))"
      "rep (clusters uf) i r" "uf_inv uf1" "uf_N uf1 = uf_N uf" "clusters uf1 ! i = r"
      "\<forall>j s. rep (clusters uf1) j s \<longleftrightarrow> rep (clusters uf) j s"
      "\<forall>j s. rep (clusters uf) j s \<longrightarrow> clusters uf ! j = s \<longrightarrow> clusters uf1 ! j = s" by blast
  from Cons.IH[OF u1(3)] Cons.prems(2) u1(4) obtain uf2 where u2:
      "run_steps (\<lambda>uf i. map_option (\<lambda>r. rbind r (\<lambda>(a, uf'). Inr uf')) (UF_find uf i)) uf1 is = Some (Inr uf2)"
      "uf_inv uf2" "uf_N uf2 = uf_N uf1" "\<forall>j s. rep (clusters uf2) j s \<longleftrightarrow> rep (clusters uf1) j s"
      "\<forall>j s. rep (clusters uf1) j s \<longrightarrow> clusters uf1 ! j = s \<longrightarrow> clusters uf2 ! j = s"
      "\<forall>j \<in> set is. rep (clusters uf1) j (clusters uf2 ! j)" by auto
  have "rep (clusters uf) i (clusters uf2 ! i)" using u1 u2(5) by metis
  then show ?case using u1 u2 by auto
qed

lemma compress_all_ok:
  assumes "uf_inv uf"
  shows "\<exists>uf'. uf_compress_all uf = Some (Inr uf') \<and> uf_inv uf' \<and> uf_N uf' = uf_N uf \<and>
    (\<forall>j s. rep (clusters uf') j s \<longleftrightarrow> rep (clusters uf) j s) \<and>
    (\<forall>j < uf_N uf. rep (clusters uf) j (clusters uf' ! j))"
proof -
  have "set [0..<uf_N uf] \<subseteq> {..<uf_N uf}" by auto
  from find_all[OF assms this] show ?thesis unfolding uf_compress_all_def by (elim exE) force
qed

definition included :: "(nat \<Rightarrow> bool) option \<Rightarrow> nat \<Rightarrow> bool" where
  "included f j = (case f of None \<Rightarrow> True | Some f \<Rightarrow> f j)"

text \<open>The position of a cluster among the clusters \<open>K\<close> seen.\<close>

definition below :: "nat set \<Rightarrow> nat \<Rightarrow> nat" where
  "below K c = card {q \<in> K. q < c}"

lemma below_Max: "finite K \<Longrightarrow> K \<noteq> {} \<Longrightarrow> below K (Max K) = card K - 1"
proof -
  assume K: "finite K" "K \<noteq> {}"
  then have "{q \<in> K. q < Max K} = K - {Max K}"
    using Max_ge[OF K(1)] by (auto simp: order_less_le)
  then show ?thesis using K by (simp add: below_def)
qed

lemma below_insert_ge: "c \<le> d \<Longrightarrow> below (insert d K) c = below K c"
  unfolding below_def by (rule arg_cong[where f = card]) auto

lemma below_above: "finite K \<Longrightarrow> \<forall>q \<in> K. q < d \<Longrightarrow> below K d = card K"
  unfolding below_def by (rule arg_cong[where f = card]) auto

lemma below_inj: "finite K \<Longrightarrow> c \<in> K \<Longrightarrow> d \<in> K \<Longrightarrow> below K c = below K d \<Longrightarrow> c = d"
proof (rule ccontr)
  have less: "below K c < below K d" if "finite K" "c \<in> K" "c < d" for c d
    unfolding below_def using that by (intro psubset_card_mono) auto
  assume "finite K" "c \<in> K" "d \<in> K" "below K c = below K d" "c \<noteq> d"
  then show False using less[of c d] less[of d c] by (metis less_irrefl nat_neq_iff)
qed

lemma below_image: "finite K \<Longrightarrow> below K ` K = {..<card K}"
proof -
  assume K: "finite K"
  have "inj_on (below K) K" using below_inj[OF K] by (auto simp: inj_on_def)
  then have "card (below K ` K) = card K" by (rule card_image)
  moreover have "below K ` K \<subseteq> {..<card K}"
    using K by (auto simp: below_def intro!: psubset_card_mono)
  ultimately show ?thesis by (simp add: card_subset_eq)
qed


text \<open>
  The invariant of the loop after the included identifiers of the clusters \<open>K\<close>: each got the
  position of its cluster in \<open>K\<close>, and the last cluster met is the greatest.
\<close>

definition collapse_inv :: "unionfind \<Rightarrow> nat set \<Rightarrow> nat set \<Rightarrow> (nat \<Rightarrow> nat) \<Rightarrow> collapse_state \<Rightarrow> bool" where
  "collapse_inv uf K J c s \<longleftrightarrow>
     finite K \<and> uf_inv (cs_uf s) \<and> uf_N (cs_uf s) = uf_N uf \<and>
     (\<forall>j r. rep (clusters (cs_uf s)) j r \<longleftrightarrow> rep (clusters uf) j r) \<and>
     last_old_id s = (if K = {} then None else Some (Max K)) \<and>
     current_new_id s = card K - 1 \<and> c ` J = K \<and>
     new_ids s = (\<lambda>j. if j \<in> J then Some (below K (c j)) else None)"

lemma collapse_step_ok:
  assumes inv: "collapse_inv uf K J c s" and j: "j < uf_N uf" "rep (clusters uf) j (c j)"
    and top: "\<forall>q \<in> K. q \<le> c j" and inc: "included f j"
  shows "\<exists>s'. collapse_step f s j = Some (Inr s') \<and> collapse_inv uf (insert (c j) K) (insert j J) c s'"
proof -
  let ?K = "insert (c j) K"
  have K: "finite K" and u: "uf_inv (cs_uf s)" "uf_N (cs_uf s) = uf_N uf"
      "\<forall>j r. rep (clusters (cs_uf s)) j r \<longleftrightarrow> rep (clusters uf) j r"
    and J: "c ` J = K" and ids: "new_ids s = (\<lambda>j. if j \<in> J then Some (below K (c j)) else None)"
    using inv by (auto simp: collapse_inv_def)
  from UF_find_ok[OF u(1), of j] j(1) u(2) obtain r uf1 where u1: "UF_find (cs_uf s) j = Some (Inr (r, uf1))"
      "rep (clusters (cs_uf s)) j r" "uf_inv uf1" "uf_N uf1 = uf_N (cs_uf s)"
      "\<forall>j t. rep (clusters uf1) j t \<longleftrightarrow> rep (clusters (cs_uf s)) j t" by auto
  have r: "r = c j" using u1(2) u(3) j(2) by (auto dest: rep_det)
  have max: "Max ?K = c j" using K top by (intro Max_eqI) auto
  have keep: "below ?K (c k) = below K (c k)" if "k \<in> J" for k
    using that top J by (intro below_insert_ge) auto
  have new: "(if c j \<noteq> (case last_old_id s of None \<Rightarrow> c j | Some l \<Rightarrow> l)
      then Suc (current_new_id s) else current_new_id s) = card ?K - 1"
  proof (cases "c j \<in> K")
    case True
    then have "Max K = c j" using K top by (intro Max_eqI) auto
    moreover have "?K = K" using True by auto
    ultimately show ?thesis using inv True by (auto simp: collapse_inv_def)
  next
    case False
    show ?thesis
    proof (cases "K = {}")
      case True
      then show ?thesis using inv by (auto simp: collapse_inv_def)
    next
      case nonempty: False
      have "Max K \<noteq> c j" using Max_in[OF K nonempty] False by auto
      moreover have "0 < card K" using K nonempty by (simp add: card_gt_0_iff)
      moreover have "last_old_id s = Some (Max K)" "current_new_id s = card K - 1"
        using inv nonempty by (auto simp: collapse_inv_def)
      ultimately show ?thesis using False K by simp
    qed
  qed
  have pos: "below ?K (c j) = card ?K - 1" using below_Max[of ?K] K max by simp
  have step: "collapse_step f s j = Some (Inr \<lparr>cs_uf = uf1, last_old_id = Some (c j),
      current_new_id = card ?K - 1, new_ids = (new_ids s)(j \<mapsto> card ?K - 1)\<rparr>)"
    using u1(1) inc new by (simp add: collapse_step_def included_def r Let_def)
  have "(new_ids s)(j \<mapsto> card ?K - 1) = (\<lambda>k. if k \<in> insert j J then Some (below ?K (c k)) else None)"
    using ids keep pos by (intro ext) auto
  then show ?thesis
    using step K u u1 max J by (simp add: collapse_inv_def)
qed

lemma collapse_steps:
  "collapse_inv uf K J c s \<Longrightarrow> \<forall>j \<in> set js. j < uf_N uf \<and> rep (clusters uf) j (c j) \<Longrightarrow>
   sorted (map c js) \<Longrightarrow> \<forall>j \<in> set js. \<forall>q \<in> K. q \<le> c j \<Longrightarrow>
   \<exists>s'. run_steps (collapse_step f) s js = Some (Inr s') \<and>
        collapse_inv uf (K \<union> c ` {j \<in> set js. included f j}) (J \<union> {j \<in> set js. included f j}) c s'"
proof (induction js arbitrary: K J s)
  case Nil
  then show ?case by simp
next
  case (Cons j js)
  show ?case
  proof (cases "included f j")
    case True
    from collapse_step_ok[OF Cons.prems(1) _ _ _ True] Cons.prems(2,4) obtain s1 where
        s1: "collapse_step f s j = Some (Inr s1)" "collapse_inv uf (insert (c j) K) (insert j J) c s1"
      by auto
    have "\<forall>k \<in> set js. \<forall>q \<in> insert (c j) K. q \<le> c k" using Cons.prems(3,4) by auto
    from Cons.IH[OF s1(2) _ _ this] Cons.prems(2,3) s1(1) obtain s2 where
        s2: "run_steps (collapse_step f) s (j # js) = Some (Inr s2)"
        "collapse_inv uf (insert (c j) K \<union> c ` {j \<in> set js. included f j})
           (insert j J \<union> {j \<in> set js. included f j}) c s2" by auto
    have "{k \<in> set (j # js). included f k} = insert j {k \<in> set js. included f k}" using True by auto
    with s2 show ?thesis by auto
  next
    case False
    then have "collapse_step f s j = Some (Inr s)" by (simp add: collapse_step_def included_def)
    moreover have "{k \<in> set (j # js). included f k} = {k \<in> set js. included f k}" using False by auto
    ultimately show ?thesis using Cons by simp
  qed
qed

lemma collapsed_ids:
  assumes inv: "uf_inv uf" and ord: "UF_ordered_by_cluster uf uf' ids"
  shows "\<exists>s. UF_get_collapsed_cluster_ids uf' ids f = Some (Inr s) \<and>
    dom (new_ids s) = {j. j < uf_N uf \<and> included f j} \<and>
    (\<forall>j k. j < uf_N uf \<longrightarrow> k < uf_N uf \<longrightarrow> included f j \<longrightarrow> included f k \<longrightarrow>
       (new_ids s j = new_ids s k \<longleftrightarrow> same_cluster uf j k)) \<and>
    (\<exists>n. ran (new_ids s) = {..<n})"
proof -
  let ?c = "\<lambda>j. clusters uf' ! j" and ?J = "{j. j < uf_N uf \<and> included f j}"
  from compress_all_ok[OF inv] ord have u': "uf_inv uf'" "uf_N uf' = uf_N uf"
      "\<forall>j s. rep (clusters uf') j s \<longleftrightarrow> rep (clusters uf) j s"
      "\<forall>j < uf_N uf. rep (clusters uf) j (?c j)"
    by (auto simp: UF_ordered_by_cluster_def)
  have ids: "mset ids = mset [0..<uf_N uf]" "sorted (map ?c ids)"
    using ord by (auto simp: UF_ordered_by_cluster_def)
  have set: "set ids = {..<uf_N uf}" using ids(1) by (metis mset_eq_setD set_upt atLeast0LessThan)
  have J: "{j \<in> set ids. included f j} = ?J" using set by auto
  let ?s0 = "\<lparr>cs_uf = uf', last_old_id = None, current_new_id = 0, new_ids = Map.empty\<rparr>"
  have "collapse_inv uf' {} {} ?c ?s0" using u' by (simp add: collapse_inv_def)
  from collapse_steps[OF this _ ids(2), of f] u' set obtain s where
      s: "run_steps (collapse_step f) ?s0 ids = Some (Inr s)" "collapse_inv uf' (?c ` ?J) ?J ?c s"
    using J by auto
  have K: "finite (?c ` ?J)" by simp
  have new: "new_ids s j = (if j \<in> ?J then Some (below (?c ` ?J) (?c j)) else None)" for j
    using s(2) by (simp add: collapse_inv_def)
  have dom: "dom (new_ids s) = ?J" by (auto simp: new dom_def)
  have same: "same_cluster uf j k \<longleftrightarrow> ?c j = ?c k" if "j < uf_N uf" "k < uf_N uf" for j k
  proof -
    have "rep (clusters uf) j (?c j)" "rep (clusters uf) k (?c k)" using that u'(4) by auto
    then show ?thesis by (auto simp: same_cluster_def dest: rep_det)
  qed
  have inj: "new_ids s j = new_ids s k \<longleftrightarrow> same_cluster uf j k" if "j \<in> ?J" "k \<in> ?J" for j k
    using that same[of j k] below_inj[OF K, of "?c j" "?c k"] by (auto simp: new)
  have "ran (new_ids s) = below (?c ` ?J) ` (?c ` ?J)" by (auto simp: ran_def new)
  then have "ran (new_ids s) = {..<card (?c ` ?J)}" using below_image[OF K] by simp
  with s(1) dom inj show ?thesis unfolding UF_get_collapsed_cluster_ids_def by auto
qed

section \<open>Properties\<close>

text \<open>C10: Starting from singletons, uniting the pairs of a list (all below \<open>N\<close>) always returns, and
  two identifiers then share a cluster exactly when the pairs connect them: the structure computes
  the equivalence closure. \<open>num_clusters\<close> counts the roots, and the size stored at a root is the
  number of identifiers of its cluster.\<close>

theorem UF_unions_closure:
  assumes "set es \<subseteq> {..<N} \<times> {..<N}"
  shows "\<exists>uf. run_steps union_step (UF_create N) es = Some (Inr uf) \<and> uf_inv uf \<and>
    (\<forall>x < N. \<forall>y < N. same_cluster uf x y \<longleftrightarrow> (x, y) \<in> edge_rel (set es))"
proof -
  have N: "uf_N (UF_create N) = N" by (simp add: UF_create_def)
  have "\<forall>x < N. \<forall>y < N. same_cluster (UF_create N) x y \<longleftrightarrow> (x, y) \<in> edge_rel {}"
    by (simp add: same_cluster_create edge_rel_def)
  from run_unions[OF UF_create_inv, of N "{}" es, unfolded N, OF this assms]
  show ?thesis by (elim exE) auto
qed

theorem UF_unions_closure_witness:
  "\<exists>uf. run_steps union_step (UF_create 3) [(0, 1)] = Some (Inr uf) \<and> same_cluster uf 0 1"
proof -
  have "(0, 1) \<in> edge_rel {(0 :: nat, 1)}" by (auto simp: edge_rel_def)
  then show ?thesis using UF_unions_closure[of "[(0, 1)]" 3] by auto
qed

text \<open>C12: \<open>UF_find\<close> returns the representative, and compressing the path changes no
  representative, no size and no count.\<close>

theorem UF_find_correct:
  assumes "uf_inv uf" and "i < uf_N uf"
  shows "\<exists>r uf'. UF_find uf i = Some (Inr (r, uf')) \<and> rep (clusters uf) i r \<and> clusters uf' ! i = r \<and>
    uf_inv uf' \<and> (\<forall>j s. rep (clusters uf') j s \<longleftrightarrow> rep (clusters uf) j s) \<and>
    cluster_sizes uf' = cluster_sizes uf \<and> num_clusters uf' = num_clusters uf"
  using UF_find_ok[OF assms] by blast

theorem UF_find_correct_witness:
  "\<exists>r uf'. UF_find (UF_create 4) 2 = Some (Inr (r, uf')) \<and> rep (clusters (UF_create 4)) 2 r"
  using UF_find_correct[OF UF_create_inv, of 2 4] by (auto simp: UF_create_def)

text \<open>C11: One union merges the two clusters named and no others, keeps the invariant, and lowers
  \<open>num_clusters\<close> exactly when the clusters were distinct.\<close>

theorem UF_union_correct:
  assumes "uf_inv uf" and "i < uf_N uf" and "j < uf_N uf"
  shows "\<exists>uf'. UF_union uf i j = Some (Inr uf') \<and> uf_inv uf' \<and>
    (\<forall>x y. same_cluster uf' x y \<longleftrightarrow>
       same_cluster uf x y \<or> same_cluster uf x i \<and> same_cluster uf y j \<or>
       same_cluster uf x j \<and> same_cluster uf y i) \<and>
    num_clusters uf' = (if same_cluster uf i j then num_clusters uf else num_clusters uf - 1)"
  using UF_union_ok[OF assms] by blast

theorem UF_union_correct_witness:
  "\<exists>uf'. UF_union (UF_create 3) 0 2 = Some (Inr uf') \<and> same_cluster uf' 2 0 \<and> num_clusters uf' = 2"
proof -
  have n: "uf_N (UF_create 3) = 3" "num_clusters (UF_create 3) = 3" by (simp_all add: UF_create_def)
  show ?thesis
    using UF_union_correct[OF UF_create_inv, of 0 3 2] by (auto simp: n same_cluster_create)
qed



end
