(* ===== verification/LwTypes.thy ===== *)
theory LwTypes
  imports Prelude
begin

text \<open>
  Type codes, dimension flags, the packed \<open>typmod\<close> and SRIDs (liblwgeom.h.in, lwutil.c, and the
  type predicates of lwgeom.c and lwcollection.c). A flags word is \<open>lwflags_t\<close>, 16 bits; an
  SRID and a typmod are \<open>int32_t\<close>, words read by \<open>sint\<close>. A notice (\<open>lwnotice\<close>) has no effect on the
  result and is left out.
\<close>

type_synonym i32 = "32 word"

named_theorems flags_simps \<open>bits of flag words\<close>

section \<open>Type codes\<close>

abbreviation POINTTYPE :: u8 where "POINTTYPE \<equiv> 1"
abbreviation LINETYPE :: u8 where "LINETYPE \<equiv> 2"
abbreviation POLYGONTYPE :: u8 where "POLYGONTYPE \<equiv> 3"
abbreviation MULTIPOINTTYPE :: u8 where "MULTIPOINTTYPE \<equiv> 4"
abbreviation MULTILINETYPE :: u8 where "MULTILINETYPE \<equiv> 5"
abbreviation MULTIPOLYGONTYPE :: u8 where "MULTIPOLYGONTYPE \<equiv> 6"
abbreviation COLLECTIONTYPE :: u8 where "COLLECTIONTYPE \<equiv> 7"
abbreviation CIRCSTRINGTYPE :: u8 where "CIRCSTRINGTYPE \<equiv> 8"
abbreviation COMPOUNDTYPE :: u8 where "COMPOUNDTYPE \<equiv> 9"
abbreviation CURVEPOLYTYPE :: u8 where "CURVEPOLYTYPE \<equiv> 10"
abbreviation MULTICURVETYPE :: u8 where "MULTICURVETYPE \<equiv> 11"
abbreviation MULTISURFACETYPE :: u8 where "MULTISURFACETYPE \<equiv> 12"
abbreviation POLYHEDRALSURFACETYPE :: u8 where "POLYHEDRALSURFACETYPE \<equiv> 13"
abbreviation TRIANGLETYPE :: u8 where "TRIANGLETYPE \<equiv> 14"
abbreviation TINTYPE :: u8 where "TINTYPE \<equiv> 15"
abbreviation ELLIPSETYPE :: u8 where "ELLIPSETYPE \<equiv> 16"
abbreviation BEZIERTYPE :: u8 where "BEZIERTYPE \<equiv> 17"

definition lwgeomTypeName :: "string list" where
  "lwgeomTypeName =
     [''Unknown'', ''Point'', ''LineString'', ''Polygon'', ''MultiPoint'', ''MultiLineString'',
      ''MultiPolygon'', ''GeometryCollection'', ''CircularString'', ''CompoundCurve'',
      ''CurvePolygon'', ''MultiCurve'', ''MultiSurface'', ''PolyhedralSurface'', ''Triangle'',
      ''Tin'', ''EllipticalString'', ''Bezier3Curve'']"

definition lwtype_name :: "u8 \<Rightarrow> string" where
  "lwtype_name type = (if 17 < type then ''Invalid type'' else lwgeomTypeName ! unat type)"

definition lwtype_is_collection :: "u8 \<Rightarrow> bool" where
  "lwtype_is_collection type \<longleftrightarrow>
     type \<in> {MULTIPOINTTYPE, MULTILINETYPE, MULTIPOLYGONTYPE, COLLECTIONTYPE, CURVEPOLYTYPE,
       COMPOUNDTYPE, MULTICURVETYPE, MULTISURFACETYPE, POLYHEDRALSURFACETYPE, TINTYPE}"

definition lwtype_get_collectiontype :: "u8 \<Rightarrow> u8" where
  "lwtype_get_collectiontype type =
     (if type = POINTTYPE then MULTIPOINTTYPE
      else if type = LINETYPE then MULTILINETYPE
      else if type = POLYGONTYPE then MULTIPOLYGONTYPE
      else if type = CIRCSTRINGTYPE then MULTICURVETYPE
      else if type = COMPOUNDTYPE then MULTICURVETYPE
      else if type = CURVEPOLYTYPE then MULTISURFACETYPE
      else if type = TRIANGLETYPE then TINTYPE
      else COLLECTIONTYPE)"

text \<open>The table has \<open>NUMTYPES\<close> entries, those the initialiser leaves out are 0.\<close>

definition MULTITYPE :: "u8 list" where
  "MULTITYPE =
     [0, MULTIPOINTTYPE, MULTILINETYPE, MULTIPOLYGONTYPE, 0, 0, 0, 0, MULTICURVETYPE,
      MULTICURVETYPE, MULTISURFACETYPE, POLYHEDRALSURFACETYPE, 0, 0, TINTYPE, 0, 0, 0]"

definition lwtype_multitype :: "u8 \<Rightarrow> u8" where
  "lwtype_multitype type = (if 15 < type then 0 else MULTITYPE ! unat type)"

definition lwcollection_allows_subtype :: "u8 \<Rightarrow> u8 \<Rightarrow> bool" where
  "lwcollection_allows_subtype collectiontype subtype \<longleftrightarrow>
     (if collectiontype = COLLECTIONTYPE then True
      else if collectiontype = MULTIPOINTTYPE \<and> subtype = POINTTYPE then True
      else if collectiontype = MULTILINETYPE \<and> subtype = LINETYPE then True
      else if collectiontype = MULTIPOLYGONTYPE \<and> subtype = POLYGONTYPE then True
      else if collectiontype = COMPOUNDTYPE \<and>
        (subtype = LINETYPE \<or> subtype = CIRCSTRINGTYPE \<or> subtype = ELLIPSETYPE \<or>
         subtype = BEZIERTYPE) then True
      else if collectiontype = CURVEPOLYTYPE \<and>
        (subtype = CIRCSTRINGTYPE \<or> subtype = LINETYPE \<or> subtype = COMPOUNDTYPE \<or>
         subtype = ELLIPSETYPE \<or> subtype = BEZIERTYPE) then True
      else if collectiontype = MULTICURVETYPE \<and>
        (subtype = CIRCSTRINGTYPE \<or> subtype = LINETYPE \<or> subtype = COMPOUNDTYPE \<or>
         subtype = ELLIPSETYPE \<or> subtype = BEZIERTYPE) then True
      else if collectiontype = MULTISURFACETYPE \<and>
        (subtype = POLYGONTYPE \<or> subtype = CURVEPOLYTYPE) then True
      else if collectiontype = POLYHEDRALSURFACETYPE \<and> subtype = POLYGONTYPE then True
      else if collectiontype = TINTYPE \<and> subtype = TRIANGLETYPE then True
      else False)"

section \<open>Flags\<close>

abbreviation LWFLAG_Z :: u16 where "LWFLAG_Z \<equiv> 0x01"
abbreviation LWFLAG_M :: u16 where "LWFLAG_M \<equiv> 0x02"
abbreviation LWFLAG_BBOX :: u16 where "LWFLAG_BBOX \<equiv> 0x04"
abbreviation LWFLAG_GEODETIC :: u16 where "LWFLAG_GEODETIC \<equiv> 0x08"
abbreviation LWFLAG_READONLY :: u16 where "LWFLAG_READONLY \<equiv> 0x10"
abbreviation LWFLAG_SOLID :: u16 where "LWFLAG_SOLID \<equiv> 0x20"

definition FLAGS_GET_Z :: "u16 \<Rightarrow> nat" where
  "FLAGS_GET_Z flags = unat (flags AND LWFLAG_Z)"
definition FLAGS_GET_M :: "u16 \<Rightarrow> nat" where
  "FLAGS_GET_M flags = unat (drop_bit 1 (flags AND LWFLAG_M))"
definition FLAGS_GET_BBOX :: "u16 \<Rightarrow> nat" where
  "FLAGS_GET_BBOX flags = unat (drop_bit 2 (flags AND LWFLAG_BBOX))"
definition FLAGS_GET_GEODETIC :: "u16 \<Rightarrow> nat" where
  "FLAGS_GET_GEODETIC flags = unat (drop_bit 3 (flags AND LWFLAG_GEODETIC))"
definition FLAGS_GET_READONLY :: "u16 \<Rightarrow> nat" where
  "FLAGS_GET_READONLY flags = unat (drop_bit 4 (flags AND LWFLAG_READONLY))"
definition FLAGS_GET_SOLID :: "u16 \<Rightarrow> nat" where
  "FLAGS_GET_SOLID flags = unat (drop_bit 5 (flags AND LWFLAG_SOLID))"

definition FLAGS_SET_Z :: "u16 \<Rightarrow> bool \<Rightarrow> u16" where
  "FLAGS_SET_Z flags value = (if value then flags OR LWFLAG_Z else flags AND NOT LWFLAG_Z)"
definition FLAGS_SET_M :: "u16 \<Rightarrow> bool \<Rightarrow> u16" where
  "FLAGS_SET_M flags value = (if value then flags OR LWFLAG_M else flags AND NOT LWFLAG_M)"
definition FLAGS_SET_BBOX :: "u16 \<Rightarrow> bool \<Rightarrow> u16" where
  "FLAGS_SET_BBOX flags value = (if value then flags OR LWFLAG_BBOX else flags AND NOT LWFLAG_BBOX)"
definition FLAGS_SET_GEODETIC :: "u16 \<Rightarrow> bool \<Rightarrow> u16" where
  "FLAGS_SET_GEODETIC flags value =
     (if value then flags OR LWFLAG_GEODETIC else flags AND NOT LWFLAG_GEODETIC)"
definition FLAGS_SET_READONLY :: "u16 \<Rightarrow> bool \<Rightarrow> u16" where
  "FLAGS_SET_READONLY flags value =
     (if value then flags OR LWFLAG_READONLY else flags AND NOT LWFLAG_READONLY)"
definition FLAGS_SET_SOLID :: "u16 \<Rightarrow> bool \<Rightarrow> u16" where
  "FLAGS_SET_SOLID flags value = (if value then flags OR LWFLAG_SOLID else flags AND NOT LWFLAG_SOLID)"

definition FLAGS_NDIMS :: "u16 \<Rightarrow> nat" where
  "FLAGS_NDIMS flags = 2 + FLAGS_GET_Z flags + FLAGS_GET_M flags"
definition FLAGS_GET_ZM :: "u16 \<Rightarrow> nat" where
  "FLAGS_GET_ZM flags = FLAGS_GET_M flags + FLAGS_GET_Z flags * 2"
definition FLAGS_NDIMS_BOX :: "u16 \<Rightarrow> nat" where
  "FLAGS_NDIMS_BOX flags = (if FLAGS_GET_GEODETIC flags \<noteq> 0 then 3 else FLAGS_NDIMS flags)"

definition lwflags :: "bool \<Rightarrow> bool \<Rightarrow> bool \<Rightarrow> u16" where
  "lwflags hasz hasm geodetic =
     (let flags = 0;
          flags = (if hasz then FLAGS_SET_Z flags True else flags);
          flags = (if hasm then FLAGS_SET_M flags True else flags);
          flags = (if geodetic then FLAGS_SET_GEODETIC flags True else flags)
      in flags)"

section \<open>SRIDs and typmods\<close>

abbreviation SRID_UNKNOWN :: i32 where "SRID_UNKNOWN \<equiv> 0"
abbreviation SRID_MAXIMUM :: i32 where "SRID_MAXIMUM \<equiv> 999999"
abbreviation SRID_USER_MAXIMUM :: i32 where "SRID_USER_MAXIMUM \<equiv> 998999"

definition clamp_srid :: "i32 \<Rightarrow> i32" where
  "clamp_srid srid =
     (if srid \<le>s 0 then SRID_UNKNOWN
      else if SRID_MAXIMUM <s srid
      then SRID_USER_MAXIMUM + 1 + srid mod (SRID_MAXIMUM - SRID_USER_MAXIMUM - 1)
      else srid)"

definition TYPMOD_GET_SRID :: "i32 \<Rightarrow> i32" where
  "TYPMOD_GET_SRID typmod =
     signed_drop_bit 8 ((typmod AND 0x0FFFFF00) - (typmod AND 0x10000000))"
definition TYPMOD_SET_SRID :: "i32 \<Rightarrow> i32 \<Rightarrow> i32" where
  "TYPMOD_SET_SRID typmod srid =
     (typmod AND 0xE00000FF) OR push_bit 8 (srid AND 0x001FFFFF)"
definition TYPMOD_GET_TYPE :: "i32 \<Rightarrow> i32" where
  "TYPMOD_GET_TYPE typmod = drop_bit 2 (typmod AND 0x000000FC)"
definition TYPMOD_SET_TYPE :: "i32 \<Rightarrow> i32 \<Rightarrow> i32" where
  "TYPMOD_SET_TYPE typmod type =
     (typmod AND 0xFFFFFF03) OR push_bit 2 (type AND 0x0000003F)"
definition TYPMOD_GET_Z :: "i32 \<Rightarrow> i32" where
  "TYPMOD_GET_Z typmod = drop_bit 1 (typmod AND 0x00000002)"
definition TYPMOD_SET_Z :: "i32 \<Rightarrow> i32" where
  "TYPMOD_SET_Z typmod = typmod OR 0x00000002"
definition TYPMOD_GET_M :: "i32 \<Rightarrow> i32" where
  "TYPMOD_GET_M typmod = typmod AND 0x00000001"
definition TYPMOD_SET_M :: "i32 \<Rightarrow> i32" where
  "TYPMOD_SET_M typmod = typmod OR 0x00000001"
definition TYPMOD_GET_NDIMS :: "i32 \<Rightarrow> i32" where
  "TYPMOD_GET_NDIMS typmod = 2 + TYPMOD_GET_Z typmod + TYPMOD_GET_M typmod"

section \<open>Flags by their bits\<close>

lemma unat_and_1: "unat ((w :: 'a::len word) AND 1) = of_bool (bit w 0)"
  by (simp add: and_one_eq bit_0 mod2_eq_if)

lemma unat_drop_and:
  assumes "n < LENGTH('a)"
  shows "unat (drop_bit n ((w :: 'a::len word) AND push_bit n 1)) = of_bool (bit w n)"
proof -
  have "drop_bit n (w AND push_bit n 1) = of_bool (bit w n)"
    using assms by (intro bit_word_eqI)
      (auto simp: bit_simps bit_1_iff simp del: push_bit_of_1)
  then show ?thesis by simp
qed

lemma FLAGS_GET_simps [flags_simps]:
  "FLAGS_GET_Z flags = of_bool (bit flags 0)"
  "FLAGS_GET_M flags = of_bool (bit flags 1)"
  "FLAGS_GET_BBOX flags = of_bool (bit flags 2)"
  "FLAGS_GET_GEODETIC flags = of_bool (bit flags 3)"
  "FLAGS_GET_READONLY flags = of_bool (bit flags 4)"
  "FLAGS_GET_SOLID flags = of_bool (bit flags 5)"
  using unat_drop_and[of 1 flags] unat_drop_and[of 2 flags] unat_drop_and[of 3 flags]
    unat_drop_and[of 4 flags] unat_drop_and[of 5 flags]
  by (simp_all add: FLAGS_GET_Z_def FLAGS_GET_M_def FLAGS_GET_BBOX_def FLAGS_GET_GEODETIC_def
    FLAGS_GET_READONLY_def FLAGS_GET_SOLID_def unat_and_1 push_bit_of_1)

lemma bit_set_flag:
  assumes "k < LENGTH('a)" and m: "m = push_bit k 1"
  shows "bit (if v then (w :: 'a::len word) OR m else w AND NOT m) n
     \<longleftrightarrow> (if n = k then v else bit w n)"
  using assms(1) bit_imp_le_length[of w n] unfolding m
  by (auto simp: bit_or_iff bit_and_iff bit_not_iff bit_push_bit_iff bit_1_iff simp del: push_bit_of_1)

lemma bit_FLAGS_SET [flags_simps]:
  "bit (FLAGS_SET_Z flags v) n \<longleftrightarrow> (if n = 0 then v else bit flags n)"
  "bit (FLAGS_SET_M flags v) n \<longleftrightarrow> (if n = 1 then v else bit flags n)"
  "bit (FLAGS_SET_BBOX flags v) n \<longleftrightarrow> (if n = 2 then v else bit flags n)"
  "bit (FLAGS_SET_GEODETIC flags v) n \<longleftrightarrow> (if n = 3 then v else bit flags n)"
  "bit (FLAGS_SET_READONLY flags v) n \<longleftrightarrow> (if n = 4 then v else bit flags n)"
  "bit (FLAGS_SET_SOLID flags v) n \<longleftrightarrow> (if n = 5 then v else bit flags n)"
  unfolding FLAGS_SET_Z_def FLAGS_SET_M_def FLAGS_SET_BBOX_def FLAGS_SET_GEODETIC_def
    FLAGS_SET_READONLY_def FLAGS_SET_SOLID_def
  by (rule bit_set_flag; simp add: push_bit_of_1)+

lemma bit_lwflags [flags_simps]:
  "bit (lwflags hasz hasm geodetic) n \<longleftrightarrow> n = 0 \<and> hasz \<or> n = 1 \<and> hasm \<or> n = 3 \<and> geodetic"
  by (auto simp: lwflags_def Let_def flags_simps)

lemma FLAGS_NDIMS_cases: "FLAGS_NDIMS flags \<in> {2, 3, 4}"
  by (auto simp: FLAGS_NDIMS_def flags_simps)

lemma FLAGS_NDIMS_bits: "FLAGS_NDIMS flags = 2 + of_bool (bit flags 0) + of_bool (bit flags 1)"
  by (simp add: FLAGS_NDIMS_def flags_simps)

section \<open>The fields of a typmod\<close>

lemma TYPMOD_GET_SRID_bits:
  "TYPMOD_GET_SRID t = signed_take_bit 20 (drop_bit 8 t)"
proof (rule bit_word_eqI)
  fix n assume n: "n < LENGTH(32)"
  let ?x = "t AND 0x0FFFFF00" and ?y = "t AND 0x10000000"
  have m1: "bit (0x0FFFFF00 :: i32) k \<longleftrightarrow> 8 \<le> k \<and> k < 28" if "k < 32" for k
  proof -
    have e: "(0x0FFFFF00 :: i32) = push_bit 8 (mask 20)" by (simp add: mask_eq_exp_minus_1)
    show ?thesis using that unfolding e bit_push_bit_iff bit_mask_iff by auto
  qed
  have m2: "bit (0x10000000 :: i32) k \<longleftrightarrow> k = 28" for k
    using bit_exp_iff[where 'a = "32 word", of 28 k] by auto
  have m3: "bit (0xF0000000 :: i32) k \<longleftrightarrow> 28 \<le> k \<and> k < 32" for k
  proof -
    have e: "(0xF0000000 :: i32) = push_bit 28 (mask 4)" by (simp add: mask_eq_exp_minus_1)
    show ?thesis unfolding e bit_push_bit_iff bit_mask_iff by auto
  qed
  have d: "?x - ?y = (if bit t 28 then ?x OR 0xF0000000 else ?x)"
  proof (cases "bit t 28")
    case True
    have "?y = 0x10000000" by (rule bit_word_eqI) (use True in \<open>auto simp only: bit_and_iff m2\<close>)
    moreover have "?x AND 0xF0000000 = 0"
      by (simp add: and.assoc)
    then have "?x + 0xF0000000 = ?x OR 0xF0000000"
      by (simp add: disjunctive_add_eq_or)
    moreover have "?x - 0x10000000 = ?x + 0xF0000000" by simp
    ultimately show ?thesis using True by simp
  next
    case False
    have "?y = 0" by (rule bit_word_eqI) (use False in \<open>auto simp only: bit_and_iff m2 bit_0_eq bot_apply bot_bool_def\<close>)
    then show ?thesis using False by simp
  qed
  have lt: "bit t k \<Longrightarrow> k < 32" for k using bit_imp_le_length[of t k] by simp
  have mask: "bit (signed_drop_bit 8 (if bit t 28 then (t AND c1) OR c3 else t AND c1)) n
      \<longleftrightarrow> bit (signed_take_bit 20 (drop_bit 8 t)) n"
    if "\<And>k. k < 32 \<Longrightarrow> bit c1 k \<longleftrightarrow> 8 \<le> k \<and> k < 28" and "\<And>k. bit c3 k \<longleftrightarrow> 28 \<le> k \<and> k < 32"
    for c1 c3 :: i32
  proof -
    have sdb: "bit (signed_drop_bit 8 w) n \<longleftrightarrow> bit w (if n < 24 then n + 8 else 31)" for w :: i32
    proof -
      have "(LENGTH(32) - 8 \<le> n \<and> n < LENGTH(32)) \<longleftrightarrow> \<not> n < 24" using n by auto
      moreover have "LENGTH(32) - 1 = 31" by simp
      ultimately show ?thesis by (simp only: bit_signed_drop_bit_iff if_not_P add.commute) simp
    qed
    have stb: "bit (signed_take_bit 20 (drop_bit 8 t)) n \<longleftrightarrow> (if n < 20 then bit t (n + 8) else bit t 28)"
      using n by (auto simp: bit_signed_take_bit_iff bit_drop_bit_eq min_def add.commute)
    consider "n < 20" | "20 \<le> n" "n < 24" | "24 \<le> n" by linarith
    then show ?thesis
      by cases (auto simp: sdb stb bit_or_iff bit_and_iff that)
  qed
  show "bit (TYPMOD_GET_SRID t) n \<longleftrightarrow> bit (signed_take_bit 20 (drop_bit 8 t)) n"
    unfolding TYPMOD_GET_SRID_def d by (rule mask[OF m1 m3])
qed

lemma TYPMOD_SET_SRID_bits:
  assumes "n < 32"
  shows "bit (TYPMOD_SET_SRID t s) n \<longleftrightarrow> (if 8 \<le> n \<and> n < 29 then bit s (n - 8) else bit t n)"
proof -
  have e1: "(0xE00000FF :: i32) = NOT (push_bit 8 (mask 21))" by (simp add: mask_eq_exp_minus_1)
  have e2: "(0x001FFFFF :: i32) = mask 21" by (simp add: mask_eq_exp_minus_1)
  show ?thesis
    unfolding TYPMOD_SET_SRID_def e1 e2 bit_or_iff bit_and_iff bit_not_iff bit_push_bit_iff bit_mask_iff
    using assms by auto
qed

lemma TYPMOD_SET_TYPE_bits:
  assumes "n < 32"
  shows "bit (TYPMOD_SET_TYPE t y) n \<longleftrightarrow> (if 2 \<le> n \<and> n < 8 then bit y (n - 2) else bit t n)"
proof -
  have e1: "(0xFFFFFF03 :: i32) = NOT (push_bit 2 (mask 6))" by (simp add: mask_eq_exp_minus_1)
  have e2: "(0x0000003F :: i32) = mask 6" by (simp add: mask_eq_exp_minus_1)
  show ?thesis
    unfolding TYPMOD_SET_TYPE_def e1 e2 bit_or_iff bit_and_iff bit_not_iff bit_push_bit_iff bit_mask_iff
    using assms by auto
qed

lemma TYPMOD_GET_TYPE_bits: "TYPMOD_GET_TYPE t = take_bit 6 (drop_bit 2 t)"
proof (rule bit_word_eqI)
  fix n assume "n < LENGTH(32)"
  have e: "(0x000000FC :: i32) = push_bit 2 (mask 6)" by (simp add: mask_eq_exp_minus_1)
  show "bit (TYPMOD_GET_TYPE t) n \<longleftrightarrow> bit (take_bit 6 (drop_bit 2 t)) n"
    unfolding TYPMOD_GET_TYPE_def e bit_drop_bit_eq bit_and_iff bit_push_bit_iff bit_mask_iff
      bit_take_bit_iff by (auto simp: bit_drop_bit_eq dest: bit_imp_le_length)
qed

lemma TYPMOD_GET_SRID_SET_SRID: "TYPMOD_GET_SRID (TYPMOD_SET_SRID t s) = signed_take_bit 20 s"
proof (rule bit_word_eqI)
  fix n assume n: "n < LENGTH(32)"
  have "min n 20 + 8 < 32" "min 20 n < 21" by simp_all
  then show "bit (TYPMOD_GET_SRID (TYPMOD_SET_SRID t s)) n \<longleftrightarrow> bit (signed_take_bit 20 s) n"
    using n by (simp add: TYPMOD_GET_SRID_bits bit_signed_take_bit_iff bit_drop_bit_eq
      TYPMOD_SET_SRID_bits add.commute[of 8])
qed

lemma signed_take_bit_small:
  assumes "unat (s :: i32) < 2 ^ 20"
  shows "signed_take_bit 20 s = s"
proof -
  have t: "take_bit 20 s = s"
    using assms by (simp add: word_unat_eq_iff unsigned_take_bit_eq take_bit_nat_eq_self)
  have b: "k < 20" if "bit s k" for k
    using that by (subst (asm) t[symmetric]) (simp add: bit_take_bit_iff)
  show ?thesis
  proof (rule bit_word_eqI)
    fix n assume n: "n < LENGTH(32)"
    show "bit (signed_take_bit 20 s) n \<longleftrightarrow> bit s n"
      using n b[of n] b[of 20] by (cases "n < 20") (auto simp: bit_signed_take_bit_iff min_def)
  qed
qed

lemma clamp_srid_cases:
  "clamp_srid s = (if sint s \<le> 0 then 0 else if 999999 < sint s then 999000 + s mod 999 else s)"
  by (simp add: clamp_srid_def word_sle_eq word_sless_alt)

lemma sint_pos_unat:
  assumes "0 \<le> sint (s :: i32)"
  shows "sint s = int (unat s)"
proof -
  have "\<not> bit s 31" using assms bit_last_iff[of s] by simp
  then have "take_bit 32 (uint s) = take_bit 31 (uint s)"
    using take_bit_Suc_from_most[of 31 "uint s"] by (simp add: bit_uint_iff)
  moreover have "take_bit 32 (uint s) = uint s" 
    using uint_lt2p[of s] by (simp add: take_bit_int_eq_self)
  ultimately show ?thesis using \<open>\<not> bit s 31\<close>
    by (simp add: sint_uint signed_take_bit_eq_if_positive bit_uint_iff)
qed

lemma clamp_srid_range: "unat (clamp_srid s) \<le> 999999"
proof -
  consider "sint s \<le> 0" | "999999 < sint s" | "0 < sint s" "sint s \<le> 999999" by linarith
  then show ?thesis
  proof cases
    case 1
    then show ?thesis by (simp add: clamp_srid_cases)
  next
    case 2
    have m: "unat (s mod 999) < 999" by (simp add: unat_mod)
    have "unat (999000 + s mod 999) = 999000 + unat (s mod 999)"
      using m by (subst unat_add_lem[THEN iffD1]) simp_all
    with 2 m show ?thesis by (simp add: clamp_srid_cases)
  next
    case 3
    then have "int (unat s) \<le> 999999" using sint_pos_unat[of s] by simp
    then have "unat s \<le> 999999" by linarith
    then show ?thesis using 3 by (simp add: clamp_srid_cases)
  qed
qed

lemma clamp_srid_id: "0 \<le> sint s \<Longrightarrow> sint s \<le> 999999 \<Longrightarrow> clamp_srid s = s"
  using signed_word_eqI[of s 0] by (auto simp: clamp_srid_cases)

lemma sint_small:
  assumes "unat (s :: i32) < 2147483648"
  shows "sint s = int (unat s)"
proof -
  obtain n where n: "n = int (unat s)" by simp
  then have "n < 2147483648" and "0 \<le> n" using assms by linarith+
  then have "- (2 ^ 31) \<le> n" and "n < 2 ^ 31" by simp_all
  then have "signed_take_bit 31 n = n" by (intro signed_take_bit_int_eq_self)
  then show ?thesis using n by (simp add: sint_uint)
qed

lemma clamp_srid_idem: "clamp_srid (clamp_srid s) = clamp_srid s"
proof -
  have "sint (clamp_srid s) = int (unat (clamp_srid s))"
    using clamp_srid_range[of s] by (intro sint_small) simp
  then show ?thesis using clamp_srid_range[of s] by (intro clamp_srid_id) linarith+
qed

lemma TYPMOD_GET_SRID_cong:
  assumes "\<And>n. 8 \<le> n \<Longrightarrow> n < 29 \<Longrightarrow> bit t n = bit t' n"
  shows "TYPMOD_GET_SRID t = TYPMOD_GET_SRID t'"
  unfolding TYPMOD_GET_SRID_bits
  by (rule bit_word_eqI) (use assms in \<open>auto simp: bit_signed_take_bit_iff bit_drop_bit_eq min_def\<close>)

lemma TYPMOD_GET_TYPE_cong:
  assumes "\<And>n. 2 \<le> n \<Longrightarrow> n < 8 \<Longrightarrow> bit t n = bit t' n"
  shows "TYPMOD_GET_TYPE t = TYPMOD_GET_TYPE t'"
  unfolding TYPMOD_GET_TYPE_bits
  by (rule bit_word_eqI) (use assms in \<open>auto simp: bit_take_bit_iff bit_drop_bit_eq\<close>)

lemma TYPMOD_GET_ZM_bits:
  "TYPMOD_GET_Z t = of_bool (bit t 1)" "TYPMOD_GET_M t = of_bool (bit t 0)"
  using unat_drop_and[of 1 t] unat_and_1[of t]
  by (simp_all add: TYPMOD_GET_Z_def TYPMOD_GET_M_def word_unat_eq_iff push_bit_of_1)

lemma TYPMOD_SET_ZM_bits:
  "bit (TYPMOD_SET_Z t) n \<longleftrightarrow> n = 1 \<or> bit t n" "bit (TYPMOD_SET_M t) n \<longleftrightarrow> n = 0 \<or> bit t n"
  using bit_set_flag[of 1 "0x00000002 :: i32" True t n] bit_set_flag[of 0 "0x00000001 :: i32" True t n]
  by (simp_all add: TYPMOD_SET_Z_def TYPMOD_SET_M_def push_bit_of_1 split: if_splits)

text \<open>The fields of a typmod are independent: storing a clamped SRID, a type below 64, or a
  dimension flag reads back as stored and changes no other field, and every clamped SRID lies
  between 0 and \<open>SRID_MAXIMUM\<close>, so that the 21 bit field holds it.\<close>

theorem typmod_fields:
  "(0 \<le> sint (clamp_srid s) \<and> sint (clamp_srid s) \<le> sint SRID_MAXIMUM \<and>
    clamp_srid (clamp_srid s) = clamp_srid s \<and>
    TYPMOD_GET_SRID (TYPMOD_SET_SRID t (clamp_srid s)) = clamp_srid s) \<and>
   (TYPMOD_GET_TYPE (TYPMOD_SET_TYPE t (take_bit 6 y)) = take_bit 6 y \<and>
    TYPMOD_GET_Z (TYPMOD_SET_Z t) = 1 \<and> TYPMOD_GET_M (TYPMOD_SET_M t) = 1) \<and>
   (let u = TYPMOD_SET_SRID t s
    in (TYPMOD_GET_TYPE u, TYPMOD_GET_Z u, TYPMOD_GET_M u)
       = (TYPMOD_GET_TYPE t, TYPMOD_GET_Z t, TYPMOD_GET_M t)) \<and>
   (let u = TYPMOD_SET_TYPE t y
    in (TYPMOD_GET_SRID u, TYPMOD_GET_Z u, TYPMOD_GET_M u)
       = (TYPMOD_GET_SRID t, TYPMOD_GET_Z t, TYPMOD_GET_M t)) \<and>
   (let u = TYPMOD_SET_Z t
    in (TYPMOD_GET_SRID u, TYPMOD_GET_TYPE u, TYPMOD_GET_M u)
       = (TYPMOD_GET_SRID t, TYPMOD_GET_TYPE t, TYPMOD_GET_M t)) \<and>
   (let u = TYPMOD_SET_M t
    in (TYPMOD_GET_SRID u, TYPMOD_GET_TYPE u, TYPMOD_GET_Z u)
       = (TYPMOD_GET_SRID t, TYPMOD_GET_TYPE t, TYPMOD_GET_Z t))"
proof (intro conjI)
  have c: "sint (clamp_srid s) = int (unat (clamp_srid s))"
    using clamp_srid_range[of s] by (intro sint_small) simp
  show "0 \<le> sint (clamp_srid s)" unfolding c by (rule of_nat_0_le_iff)
  have "sint SRID_MAXIMUM = 999999" by simp
  then show "sint (clamp_srid s) \<le> sint SRID_MAXIMUM" using c clamp_srid_range[of s] by linarith
  show "clamp_srid (clamp_srid s) = clamp_srid s" by (rule clamp_srid_idem)
  show "TYPMOD_GET_SRID (TYPMOD_SET_SRID t (clamp_srid s)) = clamp_srid s"
    using clamp_srid_range[of s] by (simp add: TYPMOD_GET_SRID_SET_SRID signed_take_bit_small)
  show "TYPMOD_GET_TYPE (TYPMOD_SET_TYPE t (take_bit 6 y)) = take_bit 6 y"
    unfolding TYPMOD_GET_TYPE_bits
    by (rule bit_word_eqI) (auto simp: bit_take_bit_iff bit_drop_bit_eq TYPMOD_SET_TYPE_bits)
  show "TYPMOD_GET_Z (TYPMOD_SET_Z t) = 1" and "TYPMOD_GET_M (TYPMOD_SET_M t) = 1"
    by (simp_all add: TYPMOD_GET_ZM_bits TYPMOD_SET_ZM_bits)
qed (simp_all add: Let_def TYPMOD_GET_ZM_bits TYPMOD_SET_ZM_bits TYPMOD_SET_SRID_bits
      TYPMOD_SET_TYPE_bits,
     (intro conjI TYPMOD_GET_SRID_cong TYPMOD_GET_TYPE_cong;
      simp add: TYPMOD_SET_ZM_bits TYPMOD_SET_SRID_bits TYPMOD_SET_TYPE_bits)+)

section \<open>Type names\<close>

text \<open>\<open>geomtype_struct_array\<close>: name, type, Z, M.\<close>

definition geomtype_struct_array :: "(string \<times> u8 \<times> nat \<times> nat) list" where
  "geomtype_struct_array =
     [(''BEZIER3CURVEZM'', BEZIERTYPE, 1, 1),
      (''BEZIER3CURVEZ'', BEZIERTYPE, 1, 0),
      (''BEZIER3CURVEM'', BEZIERTYPE, 0, 1),
      (''BEZIER3CURVE'', BEZIERTYPE, 0, 0),
      (''ELLIPTICALSTRINGZM'', ELLIPSETYPE, 1, 1),
      (''ELLIPTICALSTRINGZ'', ELLIPSETYPE, 1, 0),
      (''ELLIPTICALSTRINGM'', ELLIPSETYPE, 0, 1),
      (''ELLIPTICALSTRING'', ELLIPSETYPE, 0, 0),
      (''GEOMETRYCOLLECTIONZM'', COLLECTIONTYPE, 1, 1),
      (''GEOMETRYCOLLECTIONZ'', COLLECTIONTYPE, 1, 0),
      (''GEOMETRYCOLLECTIONM'', COLLECTIONTYPE, 0, 1),
      (''GEOMETRYCOLLECTION'', COLLECTIONTYPE, 0, 0),
      (''GEOMETRYZM'', 0, 1, 1),
      (''GEOMETRYZ'', 0, 1, 0),
      (''GEOMETRYM'', 0, 0, 1),
      (''GEOMETRY'', 0, 0, 0),
      (''POLYHEDRALSURFACEZM'', POLYHEDRALSURFACETYPE, 1, 1),
      (''POLYHEDRALSURFACEZ'', POLYHEDRALSURFACETYPE, 1, 0),
      (''POLYHEDRALSURFACEM'', POLYHEDRALSURFACETYPE, 0, 1),
      (''POLYHEDRALSURFACE'', POLYHEDRALSURFACETYPE, 0, 0),
      (''TINZM'', TINTYPE, 1, 1),
      (''TINZ'', TINTYPE, 1, 0),
      (''TINM'', TINTYPE, 0, 1),
      (''TIN'', TINTYPE, 0, 0),
      (''CIRCULARSTRINGZM'', CIRCSTRINGTYPE, 1, 1),
      (''CIRCULARSTRINGZ'', CIRCSTRINGTYPE, 1, 0),
      (''CIRCULARSTRINGM'', CIRCSTRINGTYPE, 0, 1),
      (''CIRCULARSTRING'', CIRCSTRINGTYPE, 0, 0),
      (''COMPOUNDCURVEZM'', COMPOUNDTYPE, 1, 1),
      (''COMPOUNDCURVEZ'', COMPOUNDTYPE, 1, 0),
      (''COMPOUNDCURVEM'', COMPOUNDTYPE, 0, 1),
      (''COMPOUNDCURVE'', COMPOUNDTYPE, 0, 0),
      (''CURVEPOLYGONZM'', CURVEPOLYTYPE, 1, 1),
      (''CURVEPOLYGONZ'', CURVEPOLYTYPE, 1, 0),
      (''CURVEPOLYGONM'', CURVEPOLYTYPE, 0, 1),
      (''CURVEPOLYGON'', CURVEPOLYTYPE, 0, 0),
      (''MULTICURVEZM'', MULTICURVETYPE, 1, 1),
      (''MULTICURVEZ'', MULTICURVETYPE, 1, 0),
      (''MULTICURVEM'', MULTICURVETYPE, 0, 1),
      (''MULTICURVE'', MULTICURVETYPE, 0, 0),
      (''MULTISURFACEZM'', MULTISURFACETYPE, 1, 1),
      (''MULTISURFACEZ'', MULTISURFACETYPE, 1, 0),
      (''MULTISURFACEM'', MULTISURFACETYPE, 0, 1),
      (''MULTISURFACE'', MULTISURFACETYPE, 0, 0),
      (''MULTILINESTRINGZM'', MULTILINETYPE, 1, 1),
      (''MULTILINESTRINGZ'', MULTILINETYPE, 1, 0),
      (''MULTILINESTRINGM'', MULTILINETYPE, 0, 1),
      (''MULTILINESTRING'', MULTILINETYPE, 0, 0),
      (''MULTIPOLYGONZM'', MULTIPOLYGONTYPE, 1, 1),
      (''MULTIPOLYGONZ'', MULTIPOLYGONTYPE, 1, 0),
      (''MULTIPOLYGONM'', MULTIPOLYGONTYPE, 0, 1),
      (''MULTIPOLYGON'', MULTIPOLYGONTYPE, 0, 0),
      (''MULTIPOINTZM'', MULTIPOINTTYPE, 1, 1),
      (''MULTIPOINTZ'', MULTIPOINTTYPE, 1, 0),
      (''MULTIPOINTM'', MULTIPOINTTYPE, 0, 1),
      (''MULTIPOINT'', MULTIPOINTTYPE, 0, 0),
      (''LINESTRINGZM'', LINETYPE, 1, 1),
      (''LINESTRINGZ'', LINETYPE, 1, 0),
      (''LINESTRINGM'', LINETYPE, 0, 1),
      (''LINESTRING'', LINETYPE, 0, 0),
      (''TRIANGLEZM'', TRIANGLETYPE, 1, 1),
      (''TRIANGLEZ'', TRIANGLETYPE, 1, 0),
      (''TRIANGLEM'', TRIANGLETYPE, 0, 1),
      (''TRIANGLE'', TRIANGLETYPE, 0, 0),
      (''POLYGONZM'', POLYGONTYPE, 1, 1),
      (''POLYGONZ'', POLYGONTYPE, 1, 0),
      (''POLYGONM'', POLYGONTYPE, 0, 1),
      (''POLYGON'', POLYGONTYPE, 0, 0),
      (''POINTZM'', POINTTYPE, 1, 1),
      (''POINTZ'', POINTTYPE, 1, 0),
      (''POINTM'', POINTTYPE, 0, 1),
      (''POINT'', POINTTYPE, 0, 0)]"

definition dumb_upper_map :: string where
  "dumb_upper_map =
     ''................................................0123456789..''
      @ ''.....ABCDEFGHIJKLMNOPQRSTUVWXYZ......ABCDEFGHIJKLMNOPQRSTUVWXYZ.....''"

text \<open>A \<open>char\<close> is signed: the bytes from 128 are negative.\<close>

definition dumb_toupper :: "char \<Rightarrow> char" where
  "dumb_toupper c = (if 127 < (of_char c :: nat) then CHR ''.'' else dumb_upper_map ! of_char c)"

text \<open>
  The indices of the first non-space and, above index 0, of the last one; of the empty string,
  \<open>strlen(str) - 1\<close> is the greatest \<open>size_t\<close> and the first test of the second loop reads there.
\<close>

definition geometry_type_from_string :: "string \<Rightarrow> (u8 \<times> nat \<times> nat) option res" where
  "geometry_type_from_string str =
     (let spaces = (\<lambda>i. str ! i \<noteq> CHR '' '');
          startpos = (case find spaces [0..<length str] of Some i \<Rightarrow> i | None \<Rightarrow> 0)
      in if str = [] then Inl MemFault
         else
           let endpos = (case find spaces (rev [1..<length str]) of Some i \<Rightarrow> i | None \<Rightarrow> length str - 1);
               tmpstr = map (\<lambda>i. dumb_toupper (str ! i)) [startpos..<endpos + 1]
           in Inr (map_of geomtype_struct_array tmpstr))"

lemma distinct_type_names: "distinct (map fst geomtype_struct_array)"
  by code_simp
lemma type_names_chars:
  "list_all (\<lambda>(name, _). 2 \<le> length name \<and> list_all (\<lambda>c. c \<noteq> CHR ''.'') name) geomtype_struct_array"
  by code_simp
lemma dumb_toupper_space: "dumb_toupper CHR '' '' = CHR ''.''"
  by code_simp

lemma type_name_ends:
  assumes "(map dumb_toupper s, r) \<in> set geomtype_struct_array"
  shows "2 \<le> length s" and "s ! 0 \<noteq> CHR '' ''" and "s ! (length s - 1) \<noteq> CHR '' ''"
proof -
  have "2 \<le> length (map dumb_toupper s) \<and> list_all (\<lambda>c. c \<noteq> CHR ''.'') (map dumb_toupper s)"
    using bspec[OF type_names_chars[unfolded list_all_iff] assms] by (simp add: list_all_iff)
  then have m: "2 \<le> length s" and d: "\<forall>c \<in> set s. dumb_toupper c \<noteq> CHR ''.''"
    by (simp_all add: list_all_iff)
  show "2 \<le> length s" by (rule m)
  have "c \<noteq> CHR '' ''" if "c \<in> set s" for c
    using bspec[OF d that] dumb_toupper_space by blast
  moreover have "0 < length s" and "length s - 1 < length s" using m by linarith+
  then have "s ! 0 \<in> set s" and "s ! (length s - 1) \<in> set s" by (metis nth_mem)+
  ultimately show "s ! 0 \<noteq> CHR '' ''" and "s ! (length s - 1) \<noteq> CHR '' ''" by blast+
qed

lemma nth_rev_upt1: "k < n - 1 \<Longrightarrow> rev [1..<n] ! k = n - 1 - k"
  by (simp add: rev_nth)

lemma find_first_of_padded:
  assumes "str = replicate a c @ s @ replicate b c" and "2 \<le> length s"
    and "s ! 0 \<noteq> c" and "s ! (length s - 1) \<noteq> c"
  shows "find (\<lambda>i. str ! i \<noteq> c) [0..<length str] = Some a"
    and "find (\<lambda>i. str ! i \<noteq> c) (rev [1..<length str]) = Some (a + length s - 1)"
proof -
  have ne: "s \<noteq> []" using assms(2) by auto
  show "find (\<lambda>i. str ! i \<noteq> c) [0..<length str] = Some a"
    unfolding find_Some_iff
  proof (intro exI[of _ a] conjI allI impI)
    show a: "a < length [0..<length str]" using assms ne by simp
    then show "a = [0..<length str] ! a" by simp
    with a show "str ! ([0..<length str] ! a) \<noteq> c" using assms ne by (simp add: nth_append)
    fix j assume "j < a"
    moreover from this a have "[0..<length str] ! j = j" by simp
    ultimately show "\<not> str ! ([0..<length str] ! j) \<noteq> c" using assms by (simp add: nth_append)
  qed
  show "find (\<lambda>i. str ! i \<noteq> c) (rev [1..<length str]) = Some (a + length s - 1)"
    unfolding find_Some_iff
  proof (intro exI[of _ b] conjI allI impI)
    show "b < length (rev [1..<length str])" using assms by simp
    then show e: "a + length s - 1 = rev [1..<length str] ! b"
      using assms by (subst nth_rev_upt1) auto
    show "str ! (rev [1..<length str] ! b) \<noteq> c"
      unfolding e[symmetric] using assms ne by (simp add: nth_append)
    fix j assume "j < b"
    then have "rev [1..<length str] ! j = length str - 1 - j"
      using assms by (subst nth_rev_upt1) auto
    then show "\<not> str ! (rev [1..<length str] ! j) \<noteq> c"
      using assms \<open>j < b\<close> by (auto simp: nth_append)
  qed
qed

lemma geometry_type_from_string_eq:
  assumes "str \<noteq> []"
    and a: "(case find (\<lambda>i. str ! i \<noteq> CHR '' '') [0..<length str] of Some i \<Rightarrow> i | None \<Rightarrow> 0) = a"
    and e: "(case find (\<lambda>i. str ! i \<noteq> CHR '' '') (rev [1..<length str]) of Some i \<Rightarrow> i | None \<Rightarrow> length str - 1) = e"
    and l: "e < length str"
  shows "geometry_type_from_string str =
    Inr (map_of geomtype_struct_array (map dumb_toupper (drop a (take (e + 1) str))))"
proof -
  have m: "map (\<lambda>i. dumb_toupper (str ! i)) [a..<e + 1] = map dumb_toupper (drop a (take (e + 1) str))"
    using l by (intro nth_equalityI) (auto simp del: upt_Suc)
  show ?thesis
    unfolding geometry_type_from_string_def Let_def a e m using assms(1) by (simp only: if_False)
qed

lemma spaces_before:
  assumes "str \<noteq> []"
  shows "\<exists>a. (case find (\<lambda>i. str ! i \<noteq> c) [0..<length str] of Some i \<Rightarrow> i | None \<Rightarrow> 0) = a \<and>
    a < length str \<and> take a str = replicate a c"
proof (cases "find (\<lambda>i. str ! i \<noteq> c) [0..<length str]")
  case (Some i)
  then have "i < length str" and "\<forall>j < i. str ! j = c" by (auto simp: find_Some_iff)
  then have "take i str = replicate i c" by (intro nth_equalityI) auto
  with \<open>i < _\<close> show ?thesis by (simp add: Some)
qed (use assms in auto)

lemma spaces_after:
  assumes "str \<noteq> []"
  shows "\<exists>e. (case find (\<lambda>i. str ! i \<noteq> c) (rev [1..<length str]) of Some i \<Rightarrow> i | None \<Rightarrow> length str - 1) = e \<and>
    e < length str \<and> drop (e + 1) str = replicate (length str - (e + 1)) c"
proof (cases "find (\<lambda>i. str ! i \<noteq> c) (rev [1..<length str])")
  case (Some i)
  then obtain k where k: "k < length str - 1" "i = rev [1..<length str] ! k"
      and j: "\<forall>j < k. str ! (rev [1..<length str] ! j) = c"
    by (auto simp: find_Some_iff)
  have i: "i = length str - 1 - k" using k nth_rev_upt1 by simp
  have "drop (i + 1) str = replicate (length str - (i + 1)) c"
  proof (rule nth_equalityI)
    fix m assume "m < length (drop (i + 1) str)"
    then have m: "i + 1 + m < length str" by simp
    let ?j = "length str - 1 - (i + 1 + m)"
    have "?j < k" using m i by linarith
    moreover have "rev [1..<length str] ! ?j = i + 1 + m" using m by (subst nth_rev_upt1) simp_all
    ultimately show "drop (i + 1) str ! m = replicate (length str - (i + 1)) c ! m"
      using j m by simp metis
  qed simp
  moreover have "i < length str" using i assms by simp
  ultimately show ?thesis unfolding Some by simp
qed (use assms in auto)

definition padded_entry :: "string \<Rightarrow> u8 \<times> nat \<times> nat \<Rightarrow> bool" where
  "padded_entry str r \<longleftrightarrow> (\<exists>a s b. str = replicate a CHR '' '' @ s @ replicate b CHR '' '' \<and>
     (map dumb_toupper s, r) \<in> set geomtype_struct_array)"

lemma padded_entry_Nil: "\<not> padded_entry [] r"
proof
  assume "padded_entry [] r"
  then have "(map dumb_toupper [], r) \<in> set geomtype_struct_array"
    by (auto simp: padded_entry_def)
  then show False using type_name_ends(1) by fastforce
qed

lemma slice_partition: "a \<le> e + 1 \<Longrightarrow> take a xs @ drop a (take (e + 1) xs) @ drop (e + 1) xs = xs"
  by (metis append_assoc append_take_drop_id min.absorb1 take_take)

lemma geometry_type_from_string_padded:
  assumes "str \<noteq> []"
  shows "geometry_type_from_string str = Inr (Some r) \<longleftrightarrow> padded_entry str r"
proof -
  obtain a where a: "(case find (\<lambda>i. str ! i \<noteq> CHR '' '') [0..<length str] of Some i \<Rightarrow> i | None \<Rightarrow> 0) = a"
    "a < length str" "take a str = replicate a CHR '' ''"
    using spaces_before[OF assms] by blast
  obtain e where e: "(case find (\<lambda>i. str ! i \<noteq> CHR '' '') (rev [1..<length str]) of Some i \<Rightarrow> i
      | None \<Rightarrow> length str - 1) = e"
    "e < length str" "drop (e + 1) str = replicate (length str - (e + 1)) CHR '' ''"
    using spaces_after[OF assms] by blast
  let ?s = "drop a (take (e + 1) str)"
  have "geometry_type_from_string str = Inr (Some r) \<longleftrightarrow>
      (map dumb_toupper ?s, r) \<in> set geomtype_struct_array"
    unfolding geometry_type_from_string_eq[OF assms a(1) e(1) e(2)]
    by (simp add: map_of_eq_Some_iff[OF distinct_type_names])
  also have "\<dots> \<longleftrightarrow> padded_entry str r"
  proof
    assume t: "(map dumb_toupper ?s, r) \<in> set geomtype_struct_array"
    then have "a \<le> e + 1" using type_name_ends(1)[OF t] by simp
    from slice_partition[OF this, of str] have "str = replicate a CHR '' '' @ ?s @ replicate (length str - (e + 1)) CHR '' ''" unfolding a(3) e(3) by (rule sym)
    then show "padded_entry str r" unfolding padded_entry_def using t by blast
  next
    assume "padded_entry str r"
    then obtain a' s b where s: "str = replicate a' CHR '' '' @ s @ replicate b CHR '' ''"
      and t: "(map dumb_toupper s, r) \<in> set geomtype_struct_array"
      unfolding padded_entry_def by blast
    note f = find_first_of_padded[OF s type_name_ends[OF t]]
    have "a = a'" and "e = a' + length s - 1"
      using a(1) e(1) unfolding f option.case by simp_all
    then have "?s = s" using s type_name_ends(1)[OF t] by simp
    then show "(map dumb_toupper ?s, r) \<in> set geomtype_struct_array" using t by simp
  qed
  finally show ?thesis .
qed

end
