(* ===== verification/Doubles.thy ===== *)
theory Doubles
  imports Prelude
begin

text \<open>
  IEEE 754 binary64 values as their bit patterns: the tests the C code makes on coordinates without
  computing new ones (\<open>isnan\<close>, \<open>isfinite\<close>, \<open>==\<close>, \<open><\<close>, \<open><=\<close>). A pattern is a sign and a magnitude,
  and the order of the values is the order of the signed magnitudes.
\<close>

definition dbl_mag :: "dbl \<Rightarrow> nat" where
  "dbl_mag d = unat (d AND 0x7FFFFFFFFFFFFFFF)"

definition dbl_neg :: "dbl \<Rightarrow> bool" where
  "dbl_neg d = bit d 63"

definition isnan :: "dbl \<Rightarrow> bool" where
  "isnan d \<longleftrightarrow> 0x7FF0000000000000 < dbl_mag d"

definition isfinite :: "dbl \<Rightarrow> bool" where
  "isfinite d \<longleftrightarrow> dbl_mag d < 0x7FF0000000000000"

definition dbl_key :: "dbl \<Rightarrow> int" where
  "dbl_key d = (if dbl_neg d then - int (dbl_mag d) else int (dbl_mag d))"

definition dbl_eq :: "dbl \<Rightarrow> dbl \<Rightarrow> bool" where
  "dbl_eq a b \<longleftrightarrow> \<not> isnan a \<and> \<not> isnan b \<and> dbl_key a = dbl_key b"

definition dbl_lt :: "dbl \<Rightarrow> dbl \<Rightarrow> bool" where
  "dbl_lt a b \<longleftrightarrow> \<not> isnan a \<and> \<not> isnan b \<and> dbl_key a < dbl_key b"

definition dbl_le :: "dbl \<Rightarrow> dbl \<Rightarrow> bool" where
  "dbl_le a b \<longleftrightarrow> \<not> isnan a \<and> \<not> isnan b \<and> dbl_key a \<le> dbl_key b"

text \<open>The quiet NaN that the macro \<open>NAN\<close> yields.\<close>

definition dbl_nan :: dbl where "dbl_nan = 0x7FF8000000000000"

lemma isnan_dbl_nan [simp]: "isnan dbl_nan"
  by (simp add: isnan_def dbl_mag_def dbl_nan_def)

lemma dbl_lt_trans: "dbl_lt a b \<Longrightarrow> dbl_lt b c \<Longrightarrow> dbl_lt a c"
  by (auto simp: dbl_lt_def)

lemma dbl_le_trans: "dbl_le a b \<Longrightarrow> dbl_le b c \<Longrightarrow> dbl_le a c"
  by (auto simp: dbl_le_def)

lemma dbl_total: "\<not> isnan a \<Longrightarrow> \<not> isnan b \<Longrightarrow> dbl_lt a b \<or> dbl_eq a b \<or> dbl_lt b a"
  by (auto simp: dbl_lt_def dbl_eq_def)

end
