(* ===== verification/PtArray.thy ===== *)
theory PtArray
  imports LwTypes Doubles
begin

text \<open>
  Point arrays (liblwgeom/ptarray.c, the accessors of lwgeom_api.c and lwinline.h). The record is
  the C struct; \<open>serialized_pointlist\<close> lists the ordinates of the points in use, the storage behind
  them reaches to \<open>maxpoints\<close> points. The pointer is NULL exactly when \<open>maxpoints\<close> is 0, as the
  constructors make it. An access outside the storage is \<open>MemFault\<close>.
\<close>

section \<open>The arrays and their points\<close>

record ptarray =
  npoints :: u32
  maxpoints :: u32
  pa_flags :: u16
  serialized_pointlist :: "dbl list"

record point4d =
  px :: dbl
  py :: dbl
  pz :: dbl
  pm :: dbl

abbreviation pa_ndims :: "ptarray \<Rightarrow> nat" where
  "pa_ndims pa \<equiv> FLAGS_NDIMS (pa_flags pa)"

definition ptarray_has_z :: "ptarray \<Rightarrow> nat" where
  "ptarray_has_z pa = FLAGS_GET_Z (pa_flags pa)"

definition ptarray_has_m :: "ptarray \<Rightarrow> nat" where
  "ptarray_has_m pa = FLAGS_GET_M (pa_flags pa)"

definition ptarray_construct_empty :: "bool \<Rightarrow> bool \<Rightarrow> u32 \<Rightarrow> ptarray" where
  "ptarray_construct_empty hasz hasm maxpts =
     \<lparr>npoints = 0, maxpoints = maxpts, pa_flags = lwflags hasz hasm False, serialized_pointlist = []\<rparr>"

definition ptarray_construct_copy_data :: "bool \<Rightarrow> bool \<Rightarrow> u32 \<Rightarrow> dbl list \<Rightarrow> ptarray" where
  "ptarray_construct_copy_data hasz hasm n ptlist =
     (let pa = \<lparr>npoints = n, maxpoints = n, pa_flags = lwflags hasz hasm False,
                serialized_pointlist = []\<rparr>
      in pa\<lparr>serialized_pointlist := take (unat n * pa_ndims pa) ptlist\<rparr>)"

definition ptarray_construct_reference_data :: "bool \<Rightarrow> bool \<Rightarrow> u32 \<Rightarrow> dbl list \<Rightarrow> ptarray" where
  "ptarray_construct_reference_data hasz hasm n ptlist =
     \<lparr>npoints = n, maxpoints = n,
      pa_flags = FLAGS_SET_READONLY (lwflags hasz hasm False) True,
      serialized_pointlist = ptlist\<rparr>"

text \<open>The ordinates from point \<open>n\<close> on, and those of the point itself.\<close>

definition getPoint_internal :: "ptarray \<Rightarrow> nat \<Rightarrow> dbl list" where
  "getPoint_internal pa n = drop (pa_ndims pa * n) (serialized_pointlist pa)"

definition pa_point :: "ptarray \<Rightarrow> nat \<Rightarrow> dbl list" where
  "pa_point pa n = take (pa_ndims pa) (getPoint_internal pa n)"

abbreviation NO_Z_VALUE :: dbl where "NO_Z_VALUE \<equiv> 0"
abbreviation NO_M_VALUE :: dbl where "NO_M_VALUE \<equiv> 0"

text \<open>\<open>None\<close> where the C function returns 0 and leaves the output unset.\<close>

definition getPoint4d_p :: "ptarray \<Rightarrow> u32 \<Rightarrow> point4d option" where
  "getPoint4d_p pa n =
     (if npoints pa \<le> n then None
      else let ptr = getPoint_internal pa (unat n); zmflag = FLAGS_GET_ZM (pa_flags pa)
        in Some (if zmflag = 0 then \<lparr>px = ptr ! 0, py = ptr ! 1, pz = NO_Z_VALUE, pm = NO_M_VALUE\<rparr>
           else if zmflag = 3 then \<lparr>px = ptr ! 0, py = ptr ! 1, pz = ptr ! 2, pm = ptr ! 3\<rparr>
           else if zmflag = 2 then \<lparr>px = ptr ! 0, py = ptr ! 1, pz = ptr ! 2, pm = NO_M_VALUE\<rparr>
           else \<lparr>px = ptr ! 0, py = ptr ! 1, pz = NO_Z_VALUE, pm = ptr ! 2\<rparr>))"

definition getPoint2d_p :: "ptarray \<Rightarrow> u32 \<Rightarrow> (dbl \<times> dbl) option" where
  "getPoint2d_p pa n =
     (if npoints pa \<le> n then None
      else let ptr = getPoint_internal pa (unat n) in Some (ptr ! 0, ptr ! 1))"

definition getPoint3dz_p :: "ptarray \<Rightarrow> u32 \<Rightarrow> (dbl \<times> dbl \<times> dbl) option" where
  "getPoint3dz_p pa n =
     (if npoints pa \<le> n then None
      else let ptr = getPoint_internal pa (unat n)
        in Some (if FLAGS_GET_Z (pa_flags pa) \<noteq> 0 then (ptr ! 0, ptr ! 1, ptr ! 2)
                 else (ptr ! 0, ptr ! 1, NO_Z_VALUE)))"

definition getPoint3dm_p :: "ptarray \<Rightarrow> u32 \<Rightarrow> (dbl \<times> dbl \<times> dbl) res" where
  "getPoint3dm_p pa n =
     (if npoints pa \<le> n then Inl (LwError ''%s [%d] called with n=%d and npoints=%d'')
      else let ptr = getPoint_internal pa (unat n); zmflag = FLAGS_GET_ZM (pa_flags pa)
        in Inr (if zmflag = 1 then (ptr ! 0, ptr ! 1, ptr ! 2)
                else (ptr ! 0, ptr ! 1, if zmflag = 3 then ptr ! 3 else NO_M_VALUE)))"

text \<open>The ordinates of a \<open>POINT4D\<close> that a point array stores.\<close>

definition point_ordinates :: "nat \<Rightarrow> point4d \<Rightarrow> dbl list" where
  "point_ordinates zm p =
     (if zm = 3 then [px p, py p, pz p, pm p] else if zm = 2 then [px p, py p, pz p]
      else if zm = 1 then [px p, py p, pm p] else [px p, py p])"

definition ptarray_set_point4d :: "ptarray \<Rightarrow> u32 \<Rightarrow> point4d \<Rightarrow> ptarray res" where
  "ptarray_set_point4d pa n p4d =
     (if npoints pa \<le> n then Inl (LwError ''assert(n < pa->npoints)'')
      else let d = serialized_pointlist pa; k = pa_ndims pa * unat n
        in Inr (pa\<lparr>serialized_pointlist :=
             take k d @ point_ordinates (FLAGS_GET_ZM (pa_flags pa)) p4d @ drop (k + pa_ndims pa) d\<rparr>))"

definition ptarray_startpoint :: "ptarray \<Rightarrow> point4d option" where
  "ptarray_startpoint pa = getPoint4d_p pa 0"

section \<open>Insertion and removal\<close>

text \<open>The part of \<open>ptarray_insert_point\<close> that provides storage for one more point.\<close>

definition ptarray_more_storage :: "ptarray \<Rightarrow> ptarray res" where
  "ptarray_more_storage pa =
     (let pa = (if maxpoints pa = 0
                then pa\<lparr>maxpoints := 32, npoints := 0, serialized_pointlist := []\<rparr> else pa)
      in if maxpoints pa < npoints pa
         then Inl (LwError ''npoints (%d) is greater than maxpoints (%d)'')
         else
           let pa = (if npoints pa = maxpoints pa then pa\<lparr>maxpoints := maxpoints pa * 2\<rparr> else pa)
           in if maxpoints pa \<le> npoints pa then Inl MemFault else Inr pa)"

definition ptarray_insert_point :: "ptarray \<Rightarrow> point4d \<Rightarrow> u32 \<Rightarrow> ptarray res" where
  "ptarray_insert_point pa p pos =
     (if FLAGS_GET_READONLY (pa_flags pa) \<noteq> 0
      then Inl (LwError ''ptarray_insert_point: called on read-only point array'')
      else if npoints pa < pos
      then Inl (LwError ''ptarray_insert_point: offset out of range (%d)'')
      else rbind (ptarray_more_storage pa) (\<lambda>pa.
        let k = pa_ndims pa * unat pos; d = serialized_pointlist pa;
            gap = take (pa_ndims pa) (drop k d @ replicate (pa_ndims pa) 0);
            pa = pa\<lparr>serialized_pointlist := take k d @ gap @ drop k d, npoints := npoints pa + 1\<rparr>
        in ptarray_set_point4d pa pos p))"

definition ptarray_append_point :: "ptarray \<Rightarrow> point4d \<Rightarrow> bool \<Rightarrow> ptarray res" where
  "ptarray_append_point pa pt repeated_points =
     (if \<not> repeated_points \<and> 0 < npoints pa \<and>
         (case getPoint4d_p pa (npoints pa - 1) of
            Some tmp \<Rightarrow> dbl_eq (px pt) (px tmp) \<and> dbl_eq (py pt) (py tmp) \<and>
              (FLAGS_GET_Z (pa_flags pa) \<noteq> 0 \<longrightarrow> dbl_eq (pz pt) (pz tmp)) \<and>
              (FLAGS_GET_M (pa_flags pa) \<noteq> 0 \<longrightarrow> dbl_eq (pm pt) (pm tmp))
          | None \<Rightarrow> False)
      then Inr pa
      else ptarray_insert_point pa pt (npoints pa))"

definition ptarray_remove_point :: "ptarray \<Rightarrow> u32 \<Rightarrow> ptarray res" where
  "ptarray_remove_point pa pos =
     (if npoints pa \<le> pos
      then Inl (LwError ''ptarray_remove_point: offset out of range (%d)'')
      else
        let d = serialized_pointlist pa; nd = pa_ndims pa; w = unat pos
        in Inr (pa\<lparr>serialized_pointlist :=
                    (if pos < npoints pa - 1 then take (nd * w) d @ drop (nd * (w + 1)) d
                     else take (nd * w) d),
                  npoints := npoints pa - 1\<rparr>))"

text \<open>
  The array with a point added, or without one. \<open>pbuf\<close> is the \<open>POINT4D\<close> that takes the first
  \<open>pdims\<close> doubles at \<open>p\<close> and zeros; the point stored is its first \<open>ndims\<close> doubles.
\<close>

definition ptarray_addPoint :: "ptarray \<Rightarrow> dbl list \<Rightarrow> nat \<Rightarrow> u32 \<Rightarrow> ptarray res" where
  "ptarray_addPoint pa p pdims pos =
     (if pdims < 2 \<or> 4 < pdims
      then Inl (LwError ''ptarray_addPoint: point dimension out of range (%d)'')
      else if npoints pa < pos
      then Inl (LwError ''ptarray_addPoint: offset out of range (%d)'')
      else if length p < pdims then Inl MemFault
      else
        let pbuf = take 4 (take pdims p @ replicate 4 0); nd = pa_ndims pa;
            d = serialized_pointlist pa; w = unat pos
        in if npoints pa + 1 \<le> pos then Inl MemFault
           else Inr \<lparr>npoints = npoints pa + 1, maxpoints = npoints pa + 1,
             pa_flags = lwflags (FLAGS_GET_Z (pa_flags pa) \<noteq> 0) (FLAGS_GET_M (pa_flags pa) \<noteq> 0) False,
             serialized_pointlist = take (nd * w) d @ take nd pbuf @
               (if pos + 1 \<noteq> npoints pa + 1 then take (nd * unat (npoints pa - pos)) (drop (nd * w) d)
                else [])\<rparr>)"

definition ptarray_removePoint :: "ptarray \<Rightarrow> u32 \<Rightarrow> ptarray res" where
  "ptarray_removePoint pa which =
     (let nd = pa_ndims pa; d = serialized_pointlist pa; w = unat which
      in if npoints pa \<le> which then Inl MemFault
         else Inr \<lparr>npoints = npoints pa - 1, maxpoints = npoints pa - 1,
           pa_flags = lwflags (FLAGS_GET_Z (pa_flags pa) \<noteq> 0) (FLAGS_GET_M (pa_flags pa) \<noteq> 0) False,
           serialized_pointlist = take (nd * w) d @
             (if which < npoints pa - 1 then take (nd * unat (npoints pa - which - 1)) (drop (nd * (w + 1)) d)
              else [])\<rparr>)"

definition ptarray_merge :: "ptarray \<Rightarrow> ptarray \<Rightarrow> ptarray res" where
  "ptarray_merge pa1 pa2 =
     (if FLAGS_GET_ZM (pa_flags pa1) \<noteq> FLAGS_GET_ZM (pa_flags pa2)
      then Inl (LwError ''ptarray_cat: Mixed dimension'')
      else if npoints pa1 + npoints pa2 < npoints pa1 then Inl MemFault
      else
        let nd = pa_ndims pa1; n = npoints pa1 + npoints pa2
        in Inr \<lparr>npoints = n, maxpoints = n,
           pa_flags = lwflags (FLAGS_GET_Z (pa_flags pa1) \<noteq> 0) (FLAGS_GET_M (pa_flags pa1) \<noteq> 0) False,
           serialized_pointlist = take (nd * unat (npoints pa1)) (serialized_pointlist pa1) @
             take (nd * unat (npoints pa2)) (serialized_pointlist pa2)\<rparr>)"

section \<open>Copies and whole-array operations\<close>

definition ptarray_clone_deep :: "ptarray \<Rightarrow> ptarray" where
  "ptarray_clone_deep pa =
     \<lparr>npoints = npoints pa, maxpoints = npoints pa, pa_flags = FLAGS_SET_READONLY (pa_flags pa) False,
      serialized_pointlist =
        (if npoints pa = 0 then [] else take (unat (npoints pa) * pa_ndims pa) (serialized_pointlist pa))\<rparr>"

text \<open>The shallow copy shares the storage, which its read-only flag protects.\<close>

definition ptarray_clone :: "ptarray \<Rightarrow> ptarray" where
  "ptarray_clone pa = pa\<lparr>pa_flags := FLAGS_SET_READONLY (pa_flags pa) True\<rparr>"

text \<open>The index arithmetic of the loops is on \<open>uint32_t\<close>.\<close>

definition rev_idx :: "u32 \<Rightarrow> nat \<Rightarrow> nat \<Rightarrow> nat" where
  "rev_idx i nd j = unat (i * of_nat nd + of_nat j)"

definition ptarray_reverse_in_place :: "ptarray \<Rightarrow> ptarray" where
  "ptarray_reverse_in_place pa =
     (if npoints pa = 0 then pa
      else
        let last = npoints pa - 1; mid = npoints pa div 2; nd = pa_ndims pa
        in pa\<lparr>serialized_pointlist :=
             fold (\<lambda>i. fold (\<lambda>j d.
                 let buf = d ! rev_idx (of_nat i) nd j;
                     d = d[rev_idx (of_nat i) nd j := d ! rev_idx (last - of_nat i) nd j]
                 in d[rev_idx (last - of_nat i) nd j := buf]) [0..<nd])
               [0..<unat mid] (serialized_pointlist pa)\<rparr>)"

text \<open>A loop that reads each point, changes it and writes it back.\<close>

definition ptarray_map4d :: "(point4d \<Rightarrow> point4d) \<Rightarrow> ptarray \<Rightarrow> ptarray res" where
  "ptarray_map4d f pa =
     fold (\<lambda>i r. rbind r (\<lambda>pa.
         case getPoint4d_p pa (of_nat i) of
           None \<Rightarrow> Inl MemFault
         | Some p \<Rightarrow> ptarray_set_point4d pa (of_nat i) (f p)))
       [0..<unat (npoints pa)] (Inr pa)"

definition ptarray_flip_coordinates :: "ptarray \<Rightarrow> ptarray res" where
  "ptarray_flip_coordinates pa = ptarray_map4d (\<lambda>p. p\<lparr>px := py p, py := px p\<rparr>) pa"

datatype LWORD = LWORD_X | LWORD_Y | LWORD_Z | LWORD_M

fun ord_get :: "LWORD \<Rightarrow> point4d \<Rightarrow> dbl" where
  "ord_get LWORD_X p = px p"
| "ord_get LWORD_Y p = py p"
| "ord_get LWORD_Z p = pz p"
| "ord_get LWORD_M p = pm p"

fun ord_set :: "LWORD \<Rightarrow> dbl \<Rightarrow> point4d \<Rightarrow> point4d" where
  "ord_set LWORD_X d p = p\<lparr>px := d\<rparr>"
| "ord_set LWORD_Y d p = p\<lparr>py := d\<rparr>"
| "ord_set LWORD_Z d p = p\<lparr>pz := d\<rparr>"
| "ord_set LWORD_M d p = p\<lparr>pm := d\<rparr>"

definition ptarray_swap_ordinates :: "LWORD \<Rightarrow> LWORD \<Rightarrow> ptarray \<Rightarrow> ptarray res" where
  "ptarray_swap_ordinates o1 o2 pa =
     ptarray_map4d (\<lambda>p. let d = ord_get o2 p; p = ord_set o2 (ord_get o1 p) p in ord_set o1 d p) pa"

definition ptarray_same :: "ptarray \<Rightarrow> ptarray \<Rightarrow> bool" where
  "ptarray_same pa1 pa2 \<longleftrightarrow>
     (if FLAGS_GET_ZM (pa_flags pa1) \<noteq> FLAGS_GET_ZM (pa_flags pa2) then False
      else if npoints pa1 \<noteq> npoints pa2 then False
      else list_all (\<lambda>i. take (pa_ndims pa1) (getPoint_internal pa1 i)
                         = take (pa_ndims pa1) (getPoint_internal pa2 i)) [0..<unat (npoints pa1)])"

text \<open>Closure: \<open>memcmp\<close> of the first and the last point, on \<open>k\<close> doubles; the result is an \<open>int\<close>.\<close>

definition ends_equal :: "nat \<Rightarrow> ptarray \<Rightarrow> nat" where
  "ends_equal k pa =
     (if npoints pa \<le> 1 then unat (npoints pa)
      else of_bool (take k (getPoint_internal pa 0)
                    = take k (getPoint_internal pa (unat (npoints pa - 1)))))"

definition ptarray_is_closed :: "ptarray \<Rightarrow> nat" where
  "ptarray_is_closed pa = ends_equal (pa_ndims pa) pa"

definition ptarray_is_closed_2d :: "ptarray \<Rightarrow> nat" where
  "ptarray_is_closed_2d pa = ends_equal 2 pa"

definition ptarray_is_closed_3d :: "ptarray \<Rightarrow> nat" where
  "ptarray_is_closed_3d pa = ends_equal 3 pa"

definition ptarray_is_closed_z :: "ptarray \<Rightarrow> nat" where
  "ptarray_is_closed_z pa =
     (if FLAGS_GET_Z (pa_flags pa) \<noteq> 0 then ptarray_is_closed_3d pa else ptarray_is_closed_2d pa)"

definition ptarray_force_dims :: "ptarray \<Rightarrow> bool \<Rightarrow> bool \<Rightarrow> dbl \<Rightarrow> dbl \<Rightarrow> ptarray res" where
  "ptarray_force_dims pa hasz hasm zval mval =
     fold (\<lambda>i r. rbind r (\<lambda>pa_out.
         case getPoint4d_p pa (of_nat i) of
           None \<Rightarrow> Inl MemFault
         | Some pt \<Rightarrow>
             let pt = (if hasz \<and> FLAGS_GET_Z (pa_flags pa) = 0 then pt\<lparr>pz := zval\<rparr> else pt);
                 pt = (if hasm \<and> FLAGS_GET_M (pa_flags pa) = 0 then pt\<lparr>pm := mval\<rparr> else pt)
             in ptarray_append_point pa_out pt True))
       [0..<unat (npoints pa)] (Inr (ptarray_construct_empty hasz hasm (npoints pa)))"

text \<open>\<open>pt\<close> is compared as the \<open>ndims\<close> doubles at its address.\<close>

definition ptarray_scroll_in_place :: "ptarray \<Rightarrow> point4d \<Rightarrow> ptarray res" where
  "ptarray_scroll_in_place pa pt =
     (if ptarray_is_closed_2d pa = 0
      then Inl (LwError ''ptarray_scroll_in_place: input POINTARRAY is not closed'')
      else
        let nd = pa_ndims pa; n = unat (npoints pa); d = serialized_pointlist pa
        in case find (\<lambda>it. take nd (getPoint_internal pa it) = take nd [px pt, py pt, pz pt, pm pt]) [0..<n] of
             None \<Rightarrow> Inl (LwError ''ptarray_scroll_in_place: input POINTARRAY does not contain the given point'')
           | Some it \<Rightarrow>
               if it = 0 then Inr pa
               else Inr (pa\<lparr>serialized_pointlist :=
                     take (nd * (n - it)) (getPoint_internal pa it) @ take (nd * it) (getPoint_internal pa 1)\<rparr>))"

section \<open>Arrays as lists of points\<close>

definition pa_points :: "ptarray \<Rightarrow> dbl list list" where
  "pa_points pa = chunks (pa_ndims pa) (unat (npoints pa)) (serialized_pointlist pa)"

definition pa_wf :: "ptarray \<Rightarrow> bool" where
  "pa_wf pa \<longleftrightarrow> length (serialized_pointlist pa) = pa_ndims pa * unat (npoints pa) \<and>
     npoints pa \<le> maxpoints pa"

lemma ndims_pos [simp]: "0 < FLAGS_NDIMS f" "FLAGS_NDIMS f \<noteq> 0"
  using FLAGS_NDIMS_cases[of f] by auto

lemma pa_concat: "pa_wf pa \<Longrightarrow> serialized_pointlist pa = concat (pa_points pa)"
  by (simp add: pa_wf_def pa_points_def concat_chunks)

lemma pa_points_length [simp]: "length (pa_points pa) = unat (npoints pa)"
  by (simp add: pa_points_def)

lemma pa_points_dims: "pa_wf pa \<Longrightarrow> p \<in> set (pa_points pa) \<Longrightarrow> length p = pa_ndims pa"
  by (auto simp: pa_wf_def pa_points_def dest: length_in_chunks)

lemma pa_pointsI:
  assumes "serialized_pointlist pa = concat ps" and "\<And>p. p \<in> set ps \<Longrightarrow> length p = pa_ndims pa"
    and "unat (npoints pa) = length ps" and "npoints pa \<le> maxpoints pa"
  shows "pa_wf pa \<and> pa_points pa = ps"
  using assms chunks_of_concat[of ps] length_concat_const[of ps]
  by (simp add: pa_wf_def pa_points_def)

lemma pa_wf_construct_empty [simp]:
  "pa_wf (ptarray_construct_empty z m n)" "pa_points (ptarray_construct_empty z m n) = []"
  by (simp_all add: pa_wf_def ptarray_construct_empty_def pa_points_def)

lemma take_points: "pa_wf pa \<Longrightarrow> take (pa_ndims pa * k) (serialized_pointlist pa) = concat (take k (pa_points pa))"
  unfolding pa_concat by (rule take_concat_const) (rule pa_points_dims)

lemma drop_points: "pa_wf pa \<Longrightarrow> drop (pa_ndims pa * k) (serialized_pointlist pa) = concat (drop k (pa_points pa))"
  unfolding pa_concat by (rule drop_concat_const) (rule pa_points_dims)

lemma getPoint_internal_points: "pa_wf pa \<Longrightarrow> getPoint_internal pa k = concat (drop k (pa_points pa))"
  by (simp add: getPoint_internal_def drop_points)

lemma getPoint_internal_nth:
  "pa_wf pa \<Longrightarrow> k < unat (npoints pa) \<Longrightarrow> take (pa_ndims pa) (getPoint_internal pa k) = pa_points pa ! k"
  using pa_points_dims[of pa "pa_points pa ! k"]
  by (simp add: getPoint_internal_points Cons_nth_drop_Suc[symmetric])

lemma length_point_ordinates [simp]: "length (point_ordinates (FLAGS_GET_ZM f) p) = FLAGS_NDIMS f"
  by (simp add: point_ordinates_def FLAGS_GET_ZM_def FLAGS_NDIMS_def flags_simps)

lemma set_point4d_points:
  assumes "pa_wf pa" and "unat n < unat (npoints pa)"
  shows "\<exists>pa'. ptarray_set_point4d pa n p = Inr pa' \<and> pa_wf pa' \<and> pa_flags pa' = pa_flags pa \<and>
    npoints pa' = npoints pa \<and> maxpoints pa' = maxpoints pa \<and>
    pa_points pa' = (pa_points pa)[unat n := point_ordinates (FLAGS_GET_ZM (pa_flags pa)) p]"
proof -
  let ?ps = "pa_points pa" and ?o = "point_ordinates (FLAGS_GET_ZM (pa_flags pa)) p"
  let ?k = "pa_ndims pa * unat n"
  have "drop (?k + pa_ndims pa) (serialized_pointlist pa) = concat (drop (Suc (unat n)) ?ps)"
    using drop_points[OF assms(1), of "Suc (unat n)"] by (simp add: add.commute)
  then have l: "take ?k (serialized_pointlist pa) @ ?o @ drop (?k + pa_ndims pa) (serialized_pointlist pa)
      = concat (?ps[unat n := ?o])"
    using assms take_points[OF assms(1), of "unat n"] by (simp add: upd_conv_take_nth_drop)
  let ?pa = "pa\<lparr>serialized_pointlist := concat (?ps[unat n := ?o])\<rparr>"
  have "pa_wf ?pa \<and> pa_points ?pa = ?ps[unat n := ?o]"
    using assms pa_points_dims[OF assms(1)] set_update_subset_insert[of ?ps "unat n" ?o]
    by (intro pa_pointsI) (auto simp: pa_wf_def)
  moreover have "ptarray_set_point4d pa n p = Inr ?pa"
    using assms l by (simp add: ptarray_set_point4d_def Let_def word_le_nat_alt)
  ultimately show ?thesis by simp
qed

lemma more_storage:
  assumes wf: "pa_wf pa" and room: "unat (npoints pa) < 2 ^ 31"
  shows "\<exists>m. ptarray_more_storage pa = Inr (pa\<lparr>maxpoints := m\<rparr>) \<and> npoints pa < m"
proof (cases "maxpoints pa = 0")
  case True
  then have "npoints pa = 0" "serialized_pointlist pa = []" using wf by (auto simp: pa_wf_def)
  with True have "pa\<lparr>maxpoints := 32, npoints := 0, serialized_pointlist := []\<rparr> = pa\<lparr>maxpoints := 32\<rparr>"
    by (cases pa) simp
  with True \<open>npoints pa = 0\<close> show ?thesis
    by (intro exI[of _ 32]) (simp add: ptarray_more_storage_def)
next
  case False
  have le: "npoints pa \<le> maxpoints pa" using wf by (simp add: pa_wf_def)
  show ?thesis
  proof (cases "npoints pa = maxpoints pa")
    case True
    then have "unat (maxpoints pa * 2) = unat (maxpoints pa) * 2"
      using room by (subst unat_mult_lem[THEN iffD1]) simp_all
    then have "maxpoints pa < maxpoints pa * 2"
      using False by (simp add: word_less_nat_alt unat_gt_0)
    then show ?thesis using False True
      by (intro exI[of _ "maxpoints pa * 2"]) (simp add: ptarray_more_storage_def leD)
  next
    case neq: False
    then have "npoints pa < maxpoints pa" using le by simp
    then show ?thesis using False neq
      by (intro exI[of _ "maxpoints pa"]) (simp add: ptarray_more_storage_def leD)
  qed
qed

lemma insert_point_points:
  assumes wf: "pa_wf pa" and ro: "\<not> bit (pa_flags pa) 4" and pos: "pos \<le> npoints pa"
    and room: "unat (npoints pa) < 2 ^ 31"
  shows "\<exists>pa'. ptarray_insert_point pa p pos = Inr pa' \<and> pa_wf pa' \<and> pa_flags pa' = pa_flags pa \<and>
    unat (npoints pa') = Suc (unat (npoints pa)) \<and>
    pa_points pa' = take (unat pos) (pa_points pa) @
      [point_ordinates (FLAGS_GET_ZM (pa_flags pa)) p] @ drop (unat pos) (pa_points pa)"
proof -
  let ?ps = "pa_points pa" and ?nd = "pa_ndims pa" and ?w = "unat pos"
  obtain m where m: "ptarray_more_storage pa = Inr (pa\<lparr>maxpoints := m\<rparr>)" "npoints pa < m"
    using more_storage[OF wf room] by blast
  have n1: "unat (npoints pa + 1) = Suc (unat (npoints pa))"
    using room by (subst unat_add_lem[THEN iffD1]) simp_all
  define gap where "gap = take ?nd (drop (?nd * ?w) (serialized_pointlist pa) @ replicate ?nd 0)"
  define pa3 where "pa3 = pa\<lparr>maxpoints := m, serialized_pointlist := take (?nd * ?w) (serialized_pointlist pa) @ gap
      @ drop (?nd * ?w) (serialized_pointlist pa), npoints := npoints pa + 1\<rparr>"
  have "pa_wf pa3 \<and> pa_points pa3 = take ?w ?ps @ [gap] @ drop ?w ?ps"
  proof (rule pa_pointsI)
    show "serialized_pointlist pa3 = concat (take ?w ?ps @ [gap] @ drop ?w ?ps)"
      by (simp add: pa3_def take_points[OF wf] drop_points[OF wf])
    show "length p = pa_ndims pa3" if "p \<in> set (take ?w ?ps @ [gap] @ drop ?w ?ps)" for p
      using that pa_points_dims[OF wf] in_set_takeD[of p ?w ?ps] in_set_dropD[of p ?w ?ps]
      by (auto simp: pa3_def gap_def)
    show "unat (npoints pa3) = length (take ?w ?ps @ [gap] @ drop ?w ?ps)"
      using pos n1 by (simp add: pa3_def word_le_nat_alt)
    show "npoints pa3 \<le> maxpoints pa3"
      using m(2) n1 by (simp add: pa3_def word_le_nat_alt word_less_nat_alt)
  qed
  moreover have "?w < unat (npoints pa3)" using n1 pos by (simp add: pa3_def word_le_nat_alt)
  ultimately obtain pa4 where pa4: "ptarray_set_point4d pa3 pos p = Inr pa4" "pa_wf pa4"
      "pa_flags pa4 = pa_flags pa3" "npoints pa4 = npoints pa3"
      "pa_points pa4 = (take ?w ?ps @ [gap] @ drop ?w ?ps)[?w := point_ordinates (FLAGS_GET_ZM (pa_flags pa)) p]"
    using set_point4d_points[of pa3 pos p] by (auto simp: pa3_def)
  have "ptarray_insert_point pa p pos = ptarray_set_point4d pa3 pos p"
    using ro pos by (simp add: ptarray_insert_point_def flags_simps m Let_def leD
        pa3_def gap_def del: take_append)
  moreover have "length (take ?w ?ps) = ?w" using pos by (simp add: word_le_nat_alt)
  ultimately show ?thesis using pa4 n1 by (simp add: list_update_append pa3_def)
qed

lemma remove_point_points:
  assumes wf: "pa_wf pa" and pos: "pos < npoints pa"
  shows "\<exists>pa'. ptarray_remove_point pa pos = Inr pa' \<and> pa_wf pa' \<and> pa_flags pa' = pa_flags pa \<and>
    maxpoints pa' = maxpoints pa \<and> Suc (unat (npoints pa')) = unat (npoints pa) \<and>
    pa_points pa' = take (unat pos) (pa_points pa) @ drop (Suc (unat pos)) (pa_points pa)"
proof -
  let ?ps = "pa_points pa" and ?nd = "pa_ndims pa" and ?w = "unat pos"
  have n0: "npoints pa \<noteq> 0" using pos by auto
  have w: "?w < unat (npoints pa)" using pos by (simp add: word_less_nat_alt)
  have n1: "unat (npoints pa - 1) = unat (npoints pa) - 1"
    using n0 by (simp add: unat_minus_one)
  have last: "pos < npoints pa - 1 \<longleftrightarrow> Suc ?w < unat (npoints pa)"
    using n1 by (auto simp: word_less_nat_alt)
  let ?l = "concat (take ?w ?ps @ drop (Suc ?w) ?ps)"
  let ?pa = "pa\<lparr>serialized_pointlist := ?l, npoints := npoints pa - 1\<rparr>"
  have d: "drop (?nd * (?w + 1)) (serialized_pointlist pa) = concat (drop (Suc ?w) ?ps)"
    using drop_points[OF wf, of "Suc ?w"] by simp
  have "ptarray_remove_point pa pos = Inr ?pa"
    using pos w last unfolding ptarray_remove_point_def Let_def d take_points[OF wf]
    by (simp add: leD)
  moreover have "pa_wf ?pa \<and> pa_points ?pa = take ?w ?ps @ drop (Suc ?w) ?ps"
  proof (rule pa_pointsI)
    show "length p = pa_ndims ?pa" if "p \<in> set (take ?w ?ps @ drop (Suc ?w) ?ps)" for p
      using that pa_points_dims[OF wf] in_set_takeD[of p ?w ?ps] in_set_dropD[of p "Suc ?w" ?ps] by auto
    show "unat (npoints ?pa) = length (take ?w ?ps @ drop (Suc ?w) ?ps)"
      using w n1 by simp
    show "npoints ?pa \<le> maxpoints ?pa"
      using wf n1 by (auto simp: pa_wf_def word_le_nat_alt)
  qed simp
  ultimately show ?thesis using n1 w by simp
qed

text \<open>C8: Inserting a point into a writable array of fewer than $2^{31}$ points succeeds at every
  offset up to the end, growing the storage when it is full, and puts the point's ordinates at the
  offset; removing it gives the old points back. Offsets beyond the end and read-only arrays are
  errors.\<close>

theorem ptarray_insert_remove:
  assumes "pa_wf pa" and "unat (npoints pa) < 2 ^ 31"
  shows "(FLAGS_GET_READONLY (pa_flags pa) = 0 \<and> pos \<le> npoints pa \<longrightarrow>
      (\<exists>pa' pa''. ptarray_insert_point pa p pos = Inr pa' \<and> pa_wf pa' \<and>
         pa_points pa' = take (unat pos) (pa_points pa) @
           [point_ordinates (FLAGS_GET_ZM (pa_flags pa)) p] @ drop (unat pos) (pa_points pa) \<and>
         ptarray_remove_point pa' pos = Inr pa'' \<and> pa_wf pa'' \<and> pa_points pa'' = pa_points pa)) \<and>
    (FLAGS_GET_READONLY (pa_flags pa) \<noteq> 0 \<or> npoints pa < pos \<longrightarrow>
      (\<exists>msg. ptarray_insert_point pa p pos = Inl (LwError msg)))"
proof (intro conjI impI)
  assume a: "FLAGS_GET_READONLY (pa_flags pa) = 0 \<and> pos \<le> npoints pa"
  let ?ps = "pa_points pa"
  obtain pa' where i: "ptarray_insert_point pa p pos = Inr pa'" "pa_wf pa'"
      "unat (npoints pa') = Suc (unat (npoints pa))"
      "pa_points pa' = take (unat pos) ?ps @
        [point_ordinates (FLAGS_GET_ZM (pa_flags pa)) p] @ drop (unat pos) ?ps"
    using insert_point_points[OF assms(1) _ _ assms(2), of pos p] a by (auto simp: flags_simps)
  have "pos < npoints pa'" using a i(3) by (simp add: word_less_nat_alt word_le_nat_alt)
  then obtain pa'' where "ptarray_remove_point pa' pos = Inr pa''" "pa_wf pa''"
      "pa_points pa'' = take (unat pos) (pa_points pa') @ drop (Suc (unat pos)) (pa_points pa')"
    using remove_point_points[OF i(2)] by blast
  moreover have "take (unat pos) (pa_points pa') @ drop (Suc (unat pos)) (pa_points pa') = ?ps"
    using a unfolding i(4) by (simp add: word_le_nat_alt)
  ultimately show "\<exists>pa' pa''. ptarray_insert_point pa p pos = Inr pa' \<and> pa_wf pa' \<and>
         pa_points pa' = take (unat pos) ?ps @
           [point_ordinates (FLAGS_GET_ZM (pa_flags pa)) p] @ drop (unat pos) ?ps \<and>
         ptarray_remove_point pa' pos = Inr pa'' \<and> pa_wf pa'' \<and> pa_points pa'' = ?ps"
    using i by (intro exI[of _ pa'] exI[of _ pa'']) simp
qed (auto simp: ptarray_insert_point_def)

text \<open>Three points in an array with room for two.\<close>

definition pa_example :: ptarray where
  "pa_example = \<lparr>npoints = 2, maxpoints = 2, pa_flags = lwflags True False False,
     serialized_pointlist = [1, 2, 3, 4, 5, 6]\<rparr>"

theorem ptarray_insert_remove_witness:
  "\<exists>pa' pa''. ptarray_insert_point pa_example \<lparr>px = 7, py = 8, pz = 9, pm = 0\<rparr> 1 = Inr pa' \<and>
     pa_points pa' = [[1, 2, 3], [7, 8, 9], [4, 5, 6]] \<and>
     ptarray_remove_point pa' 1 = Inr pa'' \<and> pa_points pa'' = [[1, 2, 3], [4, 5, 6]]"
proof -
  have d: "FLAGS_NDIMS (pa_flags pa_example) = 3" "FLAGS_GET_READONLY (pa_flags pa_example) = 0"
      "FLAGS_GET_ZM (pa_flags pa_example) = 2"
    by (simp_all add: pa_example_def FLAGS_NDIMS_def FLAGS_GET_ZM_def flags_simps)
  have w: "pa_wf pa_example" by (simp add: pa_wf_def d) (simp add: pa_example_def)
  have n: "npoints pa_example = 2" by (simp add: pa_example_def)
  have p: "pa_points pa_example = [[1, 2, 3], [4, 5, 6]]"
    by code_simp
  show ?thesis
    using ptarray_insert_remove[OF w, of 1 "\<lparr>px = 7, py = 8, pz = 9, pm = 0\<rparr>"]
    by (simp add: d n p point_ordinates_def) blast
qed

section \<open>Reversal\<close>

lemma swap_points:
  assumes len: "\<And>x. x \<in> set ps \<Longrightarrow> length x = nd" and ik: "i < k" "k < length ps"
  shows "m \<le> nd \<Longrightarrow>
    fold (\<lambda>j d. (d[nd * i + j := d ! (nd * k + j)])[nd * k + j := d ! (nd * i + j)]) [0..<m] (concat ps)
    = concat (ps[i := take m (ps ! k) @ drop m (ps ! i), k := take m (ps ! i) @ drop m (ps ! k)])"
proof (induction m)
  case 0
  then show ?case using ik by (simp add: list_update_swap[symmetric])
next
  case (Suc m)
  let ?a = "ps ! i" and ?b = "ps ! k"
  define x where "x = take m ?b @ drop m ?a"
  define y where "y = take m ?a @ drop m ?b"
  let ?qs = "ps[i := x, k := y]"
  have ne: "i < length ps" "i \<noteq> k" using ik by auto
  have m: "m < nd" using Suc.prems by simp
  have la: "length ?a = nd" "length ?b = nd" using len ne ik by simp_all
  have lxy: "length x = nd" "length y = nd" using la m by (simp_all add: x_def y_def)
  have lu: "length z = nd" if "z \<in> set (ps[i := u, k := v])" "length u = nd" "length v = nd" for z u v
    using that len set_update_subset_insert[of "ps[i := u]" k v] set_update_subset_insert[of ps i u] by auto
  have nx: "?qs ! i = x" "?qs ! k = y" using ne ik by simp_all
  have xy: "x ! m = ?a ! m" "y ! m = ?b ! m" using la m by (simp_all add: x_def y_def nth_append)
  have "fold (\<lambda>j d. (d[nd * i + j := d ! (nd * k + j)])[nd * k + j := d ! (nd * i + j)]) [0..<Suc m] (concat ps)
      = ((concat ?qs)[nd * i + m := concat ?qs ! (nd * k + m)])[nd * k + m := concat ?qs ! (nd * i + m)]"
    using Suc m by (simp add: x_def y_def)
  also have "concat ?qs ! (nd * k + m) = ?b ! m"
    using nth_concat_const[of ?qs nd k m] lu lxy ik m nx xy by simp
  also have "concat ?qs ! (nd * i + m) = ?a ! m"
    using nth_concat_const[of ?qs nd i m] lu lxy ne m nx xy by simp
  also have "(concat ?qs)[nd * i + m := ?b ! m] = concat (ps[i := x[m := ?b ! m], k := y])"
    using update_concat_const[of ?qs nd i m "?b ! m"] lu lxy ne m nx
    by (simp add: list_update_swap[of i k])
  also have "(concat (ps[i := x[m := ?b ! m], k := y]))[nd * k + m := ?a ! m]
      = concat (ps[i := x[m := ?b ! m], k := y[m := ?a ! m]])"
    using update_concat_const[of "ps[i := x[m := ?b ! m], k := y]" nd k m "?a ! m"] lu lxy ik m by simp
  also have "x[m := ?b ! m] = take (Suc m) ?b @ drop (Suc m) ?a"
    using la m by (simp add: x_def list_update_append take_Suc_conv_app_nth Cons_nth_drop_Suc[symmetric])
  also have "y[m := ?a ! m] = take (Suc m) ?a @ drop (Suc m) ?b"
    using la m by (simp add: y_def list_update_append take_Suc_conv_app_nth Cons_nth_drop_Suc[symmetric])
  finally show ?case .
qed

lemma rev_by_swaps:
  "m \<le> length ps div 2 \<Longrightarrow>
   fold (\<lambda>i ps. ps[i := ps ! (length ps - 1 - i), length ps - 1 - i := ps ! i]) [0..<m] ps
   = rev (drop (length ps - m) ps) @ drop m (take (length ps - m) ps) @ rev (take m ps)"
proof (induction m)
  case 0
  then show ?case by simp
next
  case (Suc m)
  let ?n = "length ps"
  have m: "m < ?n - 1 - m" "m < ?n" using Suc.prems by linarith+
  define qs where "qs = rev (drop (?n - m) ps) @ drop m (take (?n - m) ps) @ rev (take m ps)"
  have lq: "length qs = ?n" using m by (simp add: qs_def)
  have q: "qs ! i = (if i < m \<or> ?n - m \<le> i then ps ! (?n - 1 - i) else ps ! i)" if "i < ?n" for i
    using that m by (auto simp: qs_def nth_append rev_nth min_def)
  show ?case
  proof (rule nth_equalityI)
    have f: "fold (\<lambda>i ps. ps[i := ps ! (length ps - 1 - i), length ps - 1 - i := ps ! i]) [0..<Suc m] ps
      = qs[m := qs ! (?n - 1 - m), ?n - 1 - m := qs ! m]"
      using Suc m lq by (simp add: qs_def[symmetric])
    show "length (fold (\<lambda>i ps. ps[i := ps ! (length ps - 1 - i), length ps - 1 - i := ps ! i]) [0..<Suc m] ps)
      = length (rev (drop (?n - Suc m) ps) @ drop (Suc m) (take (?n - Suc m) ps) @ rev (take (Suc m) ps))"
      unfolding f using m lq by simp
    fix i assume "i < length (fold (\<lambda>i ps. ps[i := ps ! (length ps - 1 - i), length ps - 1 - i := ps ! i]) [0..<Suc m] ps)"
    then have i: "i < ?n" unfolding f using lq by simp
    show "fold (\<lambda>i ps. ps[i := ps ! (length ps - 1 - i), length ps - 1 - i := ps ! i]) [0..<Suc m] ps ! i
      = (rev (drop (?n - Suc m) ps) @ drop (Suc m) (take (?n - Suc m) ps) @ rev (take (Suc m) ps)) ! i"
      unfolding f using i m lq q[OF i] q[of m] q[of "?n - 1 - m"]
      by (auto simp: nth_list_update nth_append rev_nth min_def)
  qed
qed

lemma rev_by_swaps_all:
  "fold (\<lambda>i ps. ps[i := ps ! (length ps - 1 - i), length ps - 1 - i := ps ! i]) [0..<length ps div 2] ps = rev ps"
proof -
  let ?n = "length ps" and ?m = "length ps div 2"
  have "rev ps = rev (drop (?n - ?m) ps) @ rev (drop ?m (take (?n - ?m) ps)) @ rev (take ?m ps)"
    by (metis append_take_drop_id rev_append append_assoc div_le_dividend drop_take le_diff_conv2 mult_2 take_take
        diff_le_self min.absorb1 times_div_less_eq_dividend add.commute)
  moreover have "length (drop ?m (take (?n - ?m) ps)) \<le> 1" by simp
  then have "rev (drop ?m (take (?n - ?m) ps)) = drop ?m (take (?n - ?m) ps)"
    by (cases "drop ?m (take (?n - ?m) ps)") auto
  ultimately show ?thesis using rev_by_swaps[of ?m ps] by (simp only: order_refl)
qed

lemma fold_simulation:
  assumes "\<And>i x. i \<in> set is \<Longrightarrow> P x \<Longrightarrow> f i (h x) = h (g i x) \<and> P (g i x)"
  shows "P x \<Longrightarrow> fold f is (h x) = h (fold g is x)"
  using assms by (induction "is" arbitrary: x) auto

lemma rev_idx_nat:
  assumes "i < n" "j < nd" "nd * n < 2 ^ 32"
  shows "rev_idx (of_nat i) nd j = nd * i + j"
proof -
  have "nd * i + j < nd * Suc i" using assms(2) by simp
  also have "\<dots> \<le> nd * n" using assms(1) by (intro mult_le_mono2) simp
  finally have "nd * i + j < 2 ^ 32" using assms(3) by simp
  moreover have "(of_nat i * of_nat nd + of_nat j :: u32) = of_nat (nd * i + j)" by (simp add: mult.commute)
  ultimately show ?thesis unfolding rev_idx_def by (simp add: unsigned_of_nat take_bit_nat_eq_self del: of_nat_add of_nat_mult)
qed

lemma fold_cong_set: "(\<And>x a. x \<in> set xs \<Longrightarrow> f x a = g x a) \<Longrightarrow> fold f xs a = fold g xs a"
  by (induction xs arbitrary: a) simp_all

lemma reverse_in_place_points:
  assumes wf: "pa_wf pa" and size: "pa_ndims pa * unat (npoints pa) < 2 ^ 32"
  shows "let pa' = ptarray_reverse_in_place pa
    in pa_wf pa' \<and> pa_points pa' = rev (pa_points pa) \<and> npoints pa' = npoints pa \<and>
       maxpoints pa' = maxpoints pa \<and> pa_flags pa' = pa_flags pa \<and> ptarray_reverse_in_place pa' = pa"
proof -
  have main: "serialized_pointlist (ptarray_reverse_in_place q) = concat (rev (pa_points q)) \<and>
     ptarray_reverse_in_place q = q\<lparr>serialized_pointlist := concat (rev (pa_points q))\<rparr>"
    if wf: "pa_wf q" and size: "pa_ndims q * unat (npoints q) < 2 ^ 32" for q
  proof (cases "npoints q = 0")
    case True
    then have "serialized_pointlist q = []" "pa_points q = []"
      using wf by (simp_all add: pa_wf_def pa_points_def)
    then show ?thesis using True by (cases q) (simp add: ptarray_reverse_in_place_def)
  next
    case False
    define n where "n = unat (npoints q)"
    define nd where "nd = pa_ndims q"
    have size': "nd * n < 2 ^ 32" using size by (simp add: n_def nd_def)
    let ?swap = "\<lambda>i ps. ps[i := ps ! (length ps - 1 - i), length ps - 1 - i := ps ! i]"
    have mid: "unat (npoints q div 2) = n div 2" by (simp add: n_def unat_div)
    have last: "npoints q - 1 - of_nat i = of_nat (n - 1 - i)" if "i < n div 2" for i
    proof -
      have "npoints q = of_nat n" by (simp add: n_def)
      moreover have "n = Suc ((n - 1 - i) + i)" using that by linarith
      ultimately have "npoints q = of_nat (Suc ((n - 1 - i) + i))" by metis
      then show ?thesis by simp
    qed
    have inner: "fold (\<lambda>j d. let buf = d ! rev_idx (of_nat i) nd j;
          d = d[rev_idx (of_nat i) nd j := d ! rev_idx (npoints q - 1 - of_nat i) nd j]
          in d[rev_idx (npoints q - 1 - of_nat i) nd j := buf]) [0..<nd] (concat ps) = concat (?swap i ps)"
      if i: "i \<in> set [0..<n div 2]" and ps: "length ps = n" "\<forall>p \<in> set ps. length p = nd"
      for i and ps :: "dbl list list"
    proof -
      have lt: "i < n div 2" "i < n" "n - 1 - i < n" "i < n - 1 - i" using i by auto
      have "fold (\<lambda>j d. let buf = d ! rev_idx (of_nat i) nd j;
          d = d[rev_idx (of_nat i) nd j := d ! rev_idx (npoints q - 1 - of_nat i) nd j]
          in d[rev_idx (npoints q - 1 - of_nat i) nd j := buf]) [0..<nd] (concat ps)
        = fold (\<lambda>j d. (d[nd * i + j := d ! (nd * (n - 1 - i) + j)])[nd * (n - 1 - i) + j := d ! (nd * i + j)])
            [0..<nd] (concat ps)"
      proof (intro fold_cong_set)
        fix j and d :: "dbl list" assume "j \<in> set [0..<nd]"
        then have j: "j < nd" by simp
        show "(let buf = d ! rev_idx (of_nat i) nd j;
            d = d[rev_idx (of_nat i) nd j := d ! rev_idx (npoints q - 1 - of_nat i) nd j]
            in d[rev_idx (npoints q - 1 - of_nat i) nd j := buf])
          = (d[nd * i + j := d ! (nd * (n - 1 - i) + j)])[nd * (n - 1 - i) + j := d ! (nd * i + j)]"
          unfolding last[OF lt(1)] Let_def rev_idx_nat[OF lt(2) j size'] rev_idx_nat[OF lt(3) j size']
          by (rule refl)
      qed
      also have "\<dots> = concat (?swap i ps)"
        using swap_points[of ps nd i "n - 1 - i" nd] ps lt by simp
      finally show ?thesis .
    qed
    have "serialized_pointlist (ptarray_reverse_in_place q)
        = fold (\<lambda>i. fold (\<lambda>j d. let buf = d ! rev_idx (of_nat i) nd j;
            d = d[rev_idx (of_nat i) nd j := d ! rev_idx (npoints q - 1 - of_nat i) nd j]
            in d[rev_idx (npoints q - 1 - of_nat i) nd j := buf]) [0..<nd]) [0..<n div 2] (concat (pa_points q))"
      using False by (simp add: ptarray_reverse_in_place_def Let_def mid nd_def[symmetric] pa_concat[OF wf])
    also have "\<dots> = concat (fold ?swap [0..<n div 2] (pa_points q))"
    proof (rule fold_simulation[where P = "\<lambda>ps. length ps = n \<and> (\<forall>p \<in> set ps. length p = nd)"])
      fix i and ps :: "dbl list list"
      assume i: "i \<in> set [0..<n div 2]" and ps: "length ps = n \<and> (\<forall>p \<in> set ps. length p = nd)"
      have "length p = nd" if p: "p \<in> set (?swap i ps)" for p
      proof -
        have "set (?swap i ps) \<subseteq> set ps"
          using i ps by (intro subsetI) (auto dest!: subsetD[OF set_update_subset_insert])
        then show ?thesis using p ps by blast
      qed
      then show "fold (\<lambda>j d. let buf = d ! rev_idx (of_nat i) nd j;
            d = d[rev_idx (of_nat i) nd j := d ! rev_idx (npoints q - 1 - of_nat i) nd j]
            in d[rev_idx (npoints q - 1 - of_nat i) nd j := buf]) [0..<nd] (concat ps) = concat (?swap i ps) \<and>
          length (?swap i ps) = n \<and> (\<forall>p \<in> set (?swap i ps). length p = nd)"
        using inner[OF i, of ps] ps by simp
    qed (simp add: n_def nd_def pa_points_dims[OF wf])
    also have "fold ?swap [0..<n div 2] (pa_points q) = rev (pa_points q)"
      using rev_by_swaps_all[of "pa_points q"] by (simp add: n_def)
    finally show ?thesis using False by (simp add: ptarray_reverse_in_place_def Let_def)
  qed
  let ?pa = "ptarray_reverse_in_place pa"
  have e: "?pa = pa\<lparr>serialized_pointlist := concat (rev (pa_points pa))\<rparr>" using main[OF wf size] by simp
  have wf': "pa_wf ?pa \<and> pa_points ?pa = rev (pa_points pa)"
    using wf pa_points_dims[OF wf] by (intro pa_pointsI) (auto simp: e pa_wf_def)
  moreover have "ptarray_reverse_in_place ?pa = pa"
    using main[of ?pa] wf' size by (simp add: e pa_concat[OF wf, symmetric])
  ultimately show ?thesis by (simp add: Let_def) (simp add: e)
qed

text \<open>C16: Reversing in place, by swaps of single ordinates, reverses the list of points, for any array
  whose ordinates can be indexed by 32 bits (the index is computed on \<open>uint32_t\<close>); it changes
  neither the dimensions nor the storage, and reversing twice is the identity.\<close>

theorem ptarray_reverse_in_place_correct:
  assumes wf: "pa_wf pa" and size: "pa_ndims pa * unat (npoints pa) < 2 ^ 32"
  shows "let pa' = ptarray_reverse_in_place pa
    in pa_wf pa' \<and> pa_points pa' = rev (pa_points pa) \<and> npoints pa' = npoints pa \<and>
       maxpoints pa' = maxpoints pa \<and> pa_flags pa' = pa_flags pa \<and> ptarray_reverse_in_place pa' = pa"
  by (rule reverse_in_place_points[OF assms])

theorem ptarray_reverse_in_place_witness:
  "pa_points (ptarray_reverse_in_place pa_example) = [[4, 5, 6], [1, 2, 3]]"
proof -
  have d: "FLAGS_NDIMS (pa_flags pa_example) = 3"
    by (simp add: pa_example_def FLAGS_NDIMS_def flags_simps)
  have w: "pa_wf pa_example" by (simp add: pa_wf_def d) (simp add: pa_example_def)
  have p: "pa_points pa_example = [[1, 2, 3], [4, 5, 6]]" by code_simp
  have "pa_ndims pa_example * unat (npoints pa_example) < 2 ^ 32" by (simp add: d) (simp add: pa_example_def)
  from ptarray_reverse_in_place_correct[OF w this] show ?thesis by (simp add: Let_def p)
qed

section \<open>Scrolling a ring\<close>

lemma point_prefix_len: "length (take (FLAGS_NDIMS f) [a, b, c, d]) = FLAGS_NDIMS f"
  using FLAGS_NDIMS_cases[of f] by auto

text \<open>Scrolling on the list of points: the closing point is dropped, the rest is rotated and closed again.\<close>

lemma scroll_points:
  assumes "0 < it" and "it < length ps"
  defines "qs \<equiv> drop it ps @ take it (tl ps)"
  shows "length qs = length ps" "hd qs = ps ! it" "last qs = ps ! it"
    "last ps = hd ps \<Longrightarrow> butlast qs = rotate it (butlast ps)"
proof -
  have ne: "ps \<noteq> []" using assms(2) by auto
  show len: "length qs = length ps" using assms(2) by (simp add: qs_def)
  show "hd qs = ps ! it" using assms(2) by (simp add: qs_def hd_append hd_drop_conv_nth)
  have "0 < length (tl ps)" using assms(1,2) by simp
  then have "tl ps \<noteq> []" by blast
  then show "last qs = ps ! it"
    using assms(1,2) ne by (cases it) (auto simp: qs_def last_append last_conv_nth nth_tl)
  assume "last ps = hd ps"
  then have l: "ps ! (length ps - 1) = ps ! 0" using ne by (simp add: last_conv_nth hd_conv_nth)
  have "butlast qs = drop it (butlast ps) @ take it (butlast ps)"
  proof (rule nth_equalityI)
    show "length (butlast qs) = length (drop it (butlast ps) @ take it (butlast ps))"
      using assms(2) len by simp
    fix i assume "i < length (butlast qs)"
    then have "i < length ps - 1" using len by simp
    then show "butlast qs ! i = (drop it (butlast ps) @ take it (butlast ps)) ! i"
      using assms(1,2) l unfolding qs_def
      by (cases "i + it = length ps - 1") (auto simp: nth_butlast nth_append nth_tl add.commute Suc_diff_le)
  qed
  then show "butlast qs = rotate it (butlast ps)" using assms(2)
    by (cases "it = length ps - 1") (simp_all add: rotate_drop_take mod_less)
qed

lemma scroll_array:
  assumes wf: "pa_wf pa" and "ptarray_is_closed_2d pa \<noteq> 0"
    and "find (\<lambda>it. pa_points pa ! it = take (pa_ndims pa) [px pt, py pt, pz pt, pm pt]) [0..<unat (npoints pa)] = Some it"
    and it: "0 < it" "it < unat (npoints pa)"
  defines "qs \<equiv> drop it (pa_points pa) @ take it (tl (pa_points pa))"
  defines "pa' \<equiv> pa\<lparr>serialized_pointlist := concat qs\<rparr>"
  shows "ptarray_scroll_in_place pa pt = Inr pa'" "pa_wf pa'" "pa_points pa' = qs"
proof -
  let ?ps = "pa_points pa" and ?n = "unat (npoints pa)" and ?nd = "pa_ndims pa"
  let ?pt = "take (pa_ndims pa) [px pt, py pt, pz pt, pm pt]"
  have f: "find (\<lambda>it. take ?nd (getPoint_internal pa it) = ?pt) [0..<?n] = find (\<lambda>it. ?ps ! it = ?pt) [0..<?n]"
    by (rule find_cong) (simp_all add: getPoint_internal_nth[OF wf])
  have d: "take (?nd * (?n - it)) (getPoint_internal pa it) = concat (drop it ?ps)"
    using pa_points_dims[OF wf] in_set_dropD[of _ it ?ps] it
    by (subst getPoint_internal_points[OF wf], subst take_concat_const) auto
  have t: "take (?nd * it) (getPoint_internal pa 1) = concat (take it (tl ?ps))"
    using pa_points_dims[OF wf] in_set_dropD[of _ 1 ?ps] it
    by (subst getPoint_internal_points[OF wf], subst take_concat_const) (auto simp: drop_Suc)
  show "ptarray_scroll_in_place pa pt = Inr pa'"
    using assms(2,3) it d t by (simp add: ptarray_scroll_in_place_def Let_def f pa'_def qs_def)
  have ne: "?ps \<noteq> []" using it by (metis length_greater_0_conv not_less_zero pa_points_length neq0_conv)
  have "pa_wf pa' \<and> pa_points pa' = qs"
    using wf scroll_points(1)[of it ?ps] it pa_points_dims[OF wf] in_set_dropD[of _ it ?ps] in_set_takeD[of _ it "tl ?ps"]
      list.set_sel(2)[OF ne] by (intro pa_pointsI) (auto simp: pa'_def pa_wf_def qs_def)
  then show "pa_wf pa'" "pa_points pa' = qs" by simp_all
qed


definition ring_example :: ptarray where
  "ring_example = \<lparr>npoints = 4, maxpoints = 4, pa_flags = lwflags False True False,
     serialized_pointlist = [1, 1, 10, 2, 1, 20, 2, 2, 30, 1, 1, 10]\<rparr>"


lemma ptarray_scroll_xym:
  "getPoint4d_p ring_example 2 = Some \<lparr>px = 2, py = 2, pz = 0, pm = 30\<rparr>"
  "ptarray_scroll_in_place ring_example \<lparr>px = 2, py = 2, pz = 0, pm = 30\<rparr> =
     Inl (LwError ''ptarray_scroll_in_place: input POINTARRAY does not contain the given point'')"
  by code_simp+

end
