(* ===== verification/LwGeom.thy ===== *)
theory LwGeom
  imports PtArray
begin

text \<open>
  Geometries (liblwgeom.h.in, the constructors of lwpoint.c, lwline.c, lwcircstring.c, lwtriangle.c,
  lwpoly.c, lwcollection.c and lwcurvepoly.c, and \<open>lwgeom_is_empty\<close> of lwinline.h). A geometry is a
  value: the C structs own their children. The four point-array types share the layout of
  \<open>LWLINE\<close>; every type that the code treats as an \<open>LWCOLLECTION\<close> is \<open>LwColl\<close> with its type code.
  The counts \<open>nrings\<close> and \<open>ngeoms\<close> are the lengths of the lists; the capacities \<open>maxrings\<close> and
  \<open>maxgeoms\<close> are left out here.
\<close>

section \<open>Data\<close>

record gbox =
  gb_flags :: u16
  xmin :: dbl
  xmax :: dbl
  ymin :: dbl
  ymax :: dbl
  zmin :: dbl
  zmax :: dbl
  mmin :: dbl
  mmax :: dbl

record lwhdr =
  g_bbox :: "gbox option"
  g_srid :: i32
  g_flags :: u16

record ellipse =
  el_points :: ptarray
  el_minor :: dbl
  el_clockwise :: dbl
  el_rotation :: dbl
  el_axis :: dbl
  el_ratio :: dbl

datatype lwgeom =
    LwPoint lwhdr ptarray
  | LwLine lwhdr ptarray
  | LwCircString lwhdr ptarray
  | LwTriangle lwhdr ptarray
  | LwPoly lwhdr "ptarray list"
  | LwEllipse lwhdr ellipse
  | LwBezier lwhdr ptarray
  | LwColl u8 lwhdr "lwgeom list"

fun lwgeom_get_type :: "lwgeom \<Rightarrow> u8" where
  "lwgeom_get_type (LwPoint _ _) = POINTTYPE"
| "lwgeom_get_type (LwLine _ _) = LINETYPE"
| "lwgeom_get_type (LwCircString _ _) = CIRCSTRINGTYPE"
| "lwgeom_get_type (LwTriangle _ _) = TRIANGLETYPE"
| "lwgeom_get_type (LwPoly _ _) = POLYGONTYPE"
| "lwgeom_get_type (LwEllipse _ _) = ELLIPSETYPE"
| "lwgeom_get_type (LwBezier _ _) = BEZIERTYPE"
| "lwgeom_get_type (LwColl ty _ _) = ty"

fun g_hdr :: "lwgeom \<Rightarrow> lwhdr" where
  "g_hdr (LwPoint h _) = h"
| "g_hdr (LwLine h _) = h"
| "g_hdr (LwCircString h _) = h"
| "g_hdr (LwTriangle h _) = h"
| "g_hdr (LwPoly h _) = h"
| "g_hdr (LwEllipse h _) = h"
| "g_hdr (LwBezier h _) = h"
| "g_hdr (LwColl _ h _) = h"

definition lwgeom_has_z :: "lwgeom \<Rightarrow> nat" where
  "lwgeom_has_z g = FLAGS_GET_Z (g_flags (g_hdr g))"

definition lwgeom_has_m :: "lwgeom \<Rightarrow> nat" where
  "lwgeom_has_m g = FLAGS_GET_M (g_flags (g_hdr g))"

definition lwgeom_ndims :: "lwgeom \<Rightarrow> nat" where
  "lwgeom_ndims g = FLAGS_NDIMS (g_flags (g_hdr g))"

definition lwgeom_get_srid :: "lwgeom \<Rightarrow> i32" where
  "lwgeom_get_srid g = g_srid (g_hdr g)"

definition lwgeom_has_srid :: "lwgeom \<Rightarrow> bool" where
  "lwgeom_has_srid g \<longleftrightarrow> g_srid (g_hdr g) \<noteq> SRID_UNKNOWN"

definition lwgeom_is_collection :: "lwgeom \<Rightarrow> bool" where
  "lwgeom_is_collection g \<longleftrightarrow> lwtype_is_collection (lwgeom_get_type g)"

text \<open>\<open>lwgeom_is_solid\<close> reads the geodetic flag.\<close>

definition lwgeom_is_solid :: "lwgeom \<Rightarrow> nat" where
  "lwgeom_is_solid g = FLAGS_GET_GEODETIC (g_flags (g_hdr g))"

section \<open>Emptiness\<close>

definition lwline_is_empty :: "ptarray \<Rightarrow> bool" where
  "lwline_is_empty pa \<longleftrightarrow> npoints pa < 1"

definition lwpoly_is_empty :: "ptarray list \<Rightarrow> bool" where
  "lwpoly_is_empty rings \<longleftrightarrow> rings = [] \<or> npoints (hd rings) < 1"

fun lwgeom_is_empty :: "lwgeom \<Rightarrow> bool" where
  "lwgeom_is_empty (LwPoint _ pa) = lwline_is_empty pa"
| "lwgeom_is_empty (LwLine _ pa) = lwline_is_empty pa"
| "lwgeom_is_empty (LwCircString _ pa) = lwline_is_empty pa"
| "lwgeom_is_empty (LwTriangle _ pa) = lwline_is_empty pa"
| "lwgeom_is_empty (LwPoly _ rings) = lwpoly_is_empty rings"
| "lwgeom_is_empty (LwEllipse _ _) = False"
| "lwgeom_is_empty (LwBezier _ _) = False"
| "lwgeom_is_empty (LwColl _ _ gs) = list_all lwgeom_is_empty gs"

section \<open>Constructors\<close>

definition empty_hdr :: "i32 \<Rightarrow> bool \<Rightarrow> bool \<Rightarrow> lwhdr" where
  "empty_hdr srid hasz hasm = \<lparr>g_bbox = None, g_srid = srid, g_flags = lwflags hasz hasm False\<rparr>"

definition lwpoint_construct_empty :: "i32 \<Rightarrow> bool \<Rightarrow> bool \<Rightarrow> lwgeom" where
  "lwpoint_construct_empty srid hasz hasm =
     LwPoint (empty_hdr srid hasz hasm) (ptarray_construct_empty hasz hasm 0)"

definition lwline_construct_empty :: "i32 \<Rightarrow> bool \<Rightarrow> bool \<Rightarrow> lwgeom" where
  "lwline_construct_empty srid hasz hasm =
     LwLine (empty_hdr srid hasz hasm) (ptarray_construct_empty hasz hasm 1)"

definition lwcircstring_construct_empty :: "i32 \<Rightarrow> bool \<Rightarrow> bool \<Rightarrow> lwgeom" where
  "lwcircstring_construct_empty srid hasz hasm =
     LwCircString (empty_hdr srid hasz hasm) (ptarray_construct_empty hasz hasm 1)"

definition lwtriangle_construct_empty :: "i32 \<Rightarrow> bool \<Rightarrow> bool \<Rightarrow> lwgeom" where
  "lwtriangle_construct_empty srid hasz hasm =
     LwTriangle (empty_hdr srid hasz hasm) (ptarray_construct_empty hasz hasm 1)"

definition lwpoly_construct_empty :: "i32 \<Rightarrow> bool \<Rightarrow> bool \<Rightarrow> lwgeom" where
  "lwpoly_construct_empty srid hasz hasm = LwPoly (empty_hdr srid hasz hasm) []"

definition lwcurvepoly_construct_empty :: "i32 \<Rightarrow> bool \<Rightarrow> bool \<Rightarrow> lwgeom" where
  "lwcurvepoly_construct_empty srid hasz hasm = LwColl CURVEPOLYTYPE (empty_hdr srid hasz hasm) []"

definition lwcollection_construct_empty :: "u8 \<Rightarrow> i32 \<Rightarrow> bool \<Rightarrow> bool \<Rightarrow> lwgeom res" where
  "lwcollection_construct_empty type srid hasz hasm =
     (if \<not> lwtype_is_collection type
      then Inl (LwError ''Non-collection type specified in collection constructor!'')
      else Inr (LwColl type (empty_hdr srid hasz hasm) []))"

text \<open>A point takes the dimension flags of its array, the other types the whole flags word.\<close>

definition lwpoint_construct :: "i32 \<Rightarrow> gbox option \<Rightarrow> ptarray \<Rightarrow> lwgeom" where
  "lwpoint_construct srid bbox point =
     (let fl = FLAGS_SET_Z 0 (FLAGS_GET_Z (pa_flags point) \<noteq> 0);
          fl = FLAGS_SET_M fl (FLAGS_GET_M (pa_flags point) \<noteq> 0);
          fl = FLAGS_SET_BBOX fl (bbox \<noteq> None)
      in LwPoint \<lparr>g_bbox = bbox, g_srid = srid, g_flags = fl\<rparr> point)"

definition points_hdr :: "i32 \<Rightarrow> gbox option \<Rightarrow> ptarray \<Rightarrow> lwhdr" where
  "points_hdr srid bbox points =
     \<lparr>g_bbox = bbox, g_srid = srid, g_flags = FLAGS_SET_BBOX (pa_flags points) (bbox \<noteq> None)\<rparr>"

definition lwline_construct :: "i32 \<Rightarrow> gbox option \<Rightarrow> ptarray \<Rightarrow> lwgeom" where
  "lwline_construct srid bbox points = LwLine (points_hdr srid bbox points) points"

definition lwcircstring_construct :: "i32 \<Rightarrow> gbox option \<Rightarrow> ptarray \<Rightarrow> lwgeom" where
  "lwcircstring_construct srid bbox points = LwCircString (points_hdr srid bbox points) points"

definition lwtriangle_construct :: "i32 \<Rightarrow> gbox option \<Rightarrow> ptarray \<Rightarrow> lwgeom" where
  "lwtriangle_construct srid bbox points = LwTriangle (points_hdr srid bbox points) points"

definition lwpoly_construct :: "i32 \<Rightarrow> gbox option \<Rightarrow> ptarray list \<Rightarrow> lwgeom res" where
  "lwpoly_construct srid bbox points =
     (if points = [] then Inl (LwError ''lwpoly_construct: need at least 1 ring'')
      else
        let fl = pa_flags (hd points); zm = FLAGS_GET_ZM fl
        in if list_ex (\<lambda>pa. zm \<noteq> FLAGS_GET_ZM (pa_flags pa)) (tl points)
           then Inl (LwError ''lwpoly_construct: mixed dimensioned rings'')
           else Inr (LwPoly \<lparr>g_bbox = bbox, g_srid = srid,
               g_flags = FLAGS_SET_BBOX (lwflags (FLAGS_GET_Z fl \<noteq> 0) (FLAGS_GET_M fl \<noteq> 0) False)
                 (bbox \<noteq> None)\<rparr> points))"

definition lwcollection_construct :: "u8 \<Rightarrow> i32 \<Rightarrow> gbox option \<Rightarrow> lwgeom list \<Rightarrow> lwgeom res" where
  "lwcollection_construct type srid bbox geoms =
     (if \<not> lwtype_is_collection type
      then Inl (LwError ''Non-collection type specified in collection constructor!'')
      else
        let fl = (case geoms of [] \<Rightarrow> 0 | g # _ \<Rightarrow> g_flags (g_hdr g));
            zm = FLAGS_GET_ZM fl
        in if list_ex (\<lambda>g. zm \<noteq> FLAGS_GET_ZM (g_flags (g_hdr g))) (tl geoms)
           then Inl (LwError ''lwcollection_construct: mixed dimension geometries: %d/%d'')
           else Inr (LwColl type \<lparr>g_bbox = bbox, g_srid = srid,
               g_flags = FLAGS_SET_BBOX (lwflags (FLAGS_GET_Z fl \<noteq> 0) (FLAGS_GET_M fl \<noteq> 0) False)
                 (bbox \<noteq> None)\<rparr> geoms))"

section \<open>Adding members\<close>

text \<open>Both functions are called on collections only; the results are the members after the call.\<close>

definition lwpoly_add_ring :: "ptarray list \<Rightarrow> ptarray \<Rightarrow> ptarray list" where
  "lwpoly_add_ring rings pa = rings @ [pa]"

definition lwcollection_add_lwgeom :: "u8 \<Rightarrow> lwgeom list \<Rightarrow> lwgeom \<Rightarrow> lwgeom list res" where
  "lwcollection_add_lwgeom type geoms geom =
     (if \<not> lwcollection_allows_subtype type (lwgeom_get_type geom)
      then Inl (LwError ''%s cannot contain %s element'')
      else Inr (geoms @ [geom]))"

text \<open>\<open>None\<close>: \<open>LW_FAILURE\<close>.\<close>

definition lwcurvepoly_add_ring :: "lwgeom list \<Rightarrow> lwgeom \<Rightarrow> lwgeom list option" where
  "lwcurvepoly_add_ring rings ring =
     (if \<not> (lwgeom_get_type ring = LINETYPE \<or> lwgeom_get_type ring = CIRCSTRINGTYPE \<or>
            lwgeom_get_type ring = COMPOUNDTYPE \<or> lwgeom_get_type ring = ELLIPSETYPE \<or>
            lwgeom_get_type ring = BEZIERTYPE)
      then None
      else Some (rings @ [ring]))"

end
