(* ===== verification/WkbOut.thy ===== *)
theory WkbOut
  imports LwGeom
begin

text \<open>
  The well-known-binary writer (liblwgeom/lwout_wkb.c). A writer that takes a cursor \<open>buf\<close> into the
  output and returns the cursor behind what it wrote is the list of the bytes written, and a
  sequence of such calls is a concatenation. \<open>be\<close> is \<open>IS_BIG_ENDIAN\<close>, the byte order of the
  machine. Sizes are \<open>size_t\<close>; the product in \<open>ptarray_to_wkb_size\<close> is computed on \<open>uint32_t\<close>.
\<close>

section \<open>Variants and type codes\<close>

abbreviation WKB_ISO :: u8 where "WKB_ISO \<equiv> 0x01"
abbreviation WKB_SFSQL :: u8 where "WKB_SFSQL \<equiv> 0x02"
abbreviation WKB_EXTENDED :: u8 where "WKB_EXTENDED \<equiv> 0x04"
abbreviation WKB_NDR :: u8 where "WKB_NDR \<equiv> 0x08"
abbreviation WKB_XDR :: u8 where "WKB_XDR \<equiv> 0x10"
abbreviation WKB_HEX :: u8 where "WKB_HEX \<equiv> 0x20"
abbreviation WKB_NO_NPOINTS :: u8 where "WKB_NO_NPOINTS \<equiv> 0x40"
abbreviation WKB_NO_SRID :: u8 where "WKB_NO_SRID \<equiv> 0x80"

abbreviation WKB_DOUBLE_SIZE :: nat where "WKB_DOUBLE_SIZE \<equiv> 8"
abbreviation WKB_INT_SIZE :: nat where "WKB_INT_SIZE \<equiv> 4"
abbreviation WKB_BYTE_SIZE :: nat where "WKB_BYTE_SIZE \<equiv> 1"

abbreviation WKBZOFFSET :: u32 where "WKBZOFFSET \<equiv> 0x80000000"
abbreviation WKBMOFFSET :: u32 where "WKBMOFFSET \<equiv> 0x40000000"
abbreviation WKBSRIDFLAG :: u32 where "WKBSRIDFLAG \<equiv> 0x20000000"

text \<open>The test \<open>variant & flag\<close>.\<close>

definition vbit :: "u8 \<Rightarrow> u8 \<Rightarrow> bool" where
  "vbit variant fl \<longleftrightarrow> variant AND fl \<noteq> 0"

definition lwgeom_wkb_needs_srid :: "lwgeom \<Rightarrow> u8 \<Rightarrow> bool" where
  "lwgeom_wkb_needs_srid geom variant \<longleftrightarrow>
     (if vbit variant WKB_NO_SRID then False
      else if vbit variant WKB_EXTENDED \<and> lwgeom_has_srid geom then True
      else False)"

text \<open>\<open>WKB_*_TYPE\<close> by type; the model's types are those the switch knows, or \<open>None\<close>.\<close>

definition wkb_simple_type :: "u8 \<Rightarrow> u32 option" where
  "wkb_simple_type type =
     (if type = POINTTYPE then Some 1
      else if type = LINETYPE then Some 2
      else if type = POLYGONTYPE then Some 3
      else if type = MULTIPOINTTYPE then Some 4
      else if type = MULTILINETYPE then Some 5
      else if type = MULTIPOLYGONTYPE then Some 6
      else if type = COLLECTIONTYPE then Some 7
      else if type = CIRCSTRINGTYPE then Some 8
      else if type = COMPOUNDTYPE then Some 9
      else if type = CURVEPOLYTYPE then Some 10
      else if type = MULTICURVETYPE then Some 11
      else if type = MULTISURFACETYPE then Some 12
      else if type = POLYHEDRALSURFACETYPE then Some 15
      else if type = TINTYPE then Some 16
      else if type = TRIANGLETYPE then Some 17
      else if type = ELLIPSETYPE then Some 18
      else if type = BEZIERTYPE then Some 19
      else None)"

definition lwgeom_wkb_type :: "lwgeom \<Rightarrow> u8 \<Rightarrow> u32 res" where
  "lwgeom_wkb_type geom variant =
     (case wkb_simple_type (lwgeom_get_type geom) of
        None \<Rightarrow> Inl (LwError ''%s: Unsupported geometry type: %s'')
      | Some wkb_type \<Rightarrow>
          let fl = g_flags (g_hdr geom)
          in Inr (if vbit variant WKB_EXTENDED then
               let wkb_type = (if FLAGS_GET_Z fl \<noteq> 0 then wkb_type OR WKBZOFFSET else wkb_type);
                   wkb_type = (if FLAGS_GET_M fl \<noteq> 0 then wkb_type OR WKBMOFFSET else wkb_type)
               in if lwgeom_wkb_needs_srid geom variant then wkb_type OR WKBSRIDFLAG else wkb_type
             else if vbit variant WKB_ISO then
               let wkb_type = (if FLAGS_GET_Z fl \<noteq> 0 then wkb_type + 1000 else wkb_type)
               in if FLAGS_GET_M fl \<noteq> 0 then wkb_type + 2000 else wkb_type
             else wkb_type))"

section \<open>Scalars\<close>

definition hexchr :: "u8 list" where
  "hexchr = map of_char ''0123456789ABCDEF''"

definition hexpair :: "u8 \<Rightarrow> u8 list" where
  "hexpair b = [hexchr ! unat (drop_bit 4 b), hexchr ! unat (b AND 0x0F)]"

definition hexbytes_from_bytes :: "u8 list \<Rightarrow> u8 list res" where
  "hexbytes_from_bytes bytes =
     (if bytes = [] then Inl (LwError ''hexbutes_from_bytes: invalid input'')
      else Inr (concat (map hexpair bytes)))"

definition endian_to_wkb_buf :: "u8 \<Rightarrow> u8 list" where
  "endian_to_wkb_buf variant =
     (if vbit variant WKB_HEX
      then [of_char CHR ''0'', if vbit variant WKB_NDR then of_char CHR ''1'' else of_char CHR ''0'']
      else [if vbit variant WKB_NDR then 1 else 0])"

definition wkb_swap_bytes :: "bool \<Rightarrow> u8 \<Rightarrow> bool" where
  "wkb_swap_bytes be variant \<longleftrightarrow>
     \<not> (vbit variant WKB_NDR \<and> \<not> be \<or> \<not> vbit variant WKB_NDR \<and> be)"

text \<open>
  The loops that write the \<open>n\<close> bytes of an object at \<open>iptr\<close>: the hexadecimal digits of each, or
  the bytes themselves, in reverse order iff the byte orders of machine and variant differ.
\<close>

definition scalar_to_wkb_buf :: "bool \<Rightarrow> nat \<Rightarrow> u8 list \<Rightarrow> u8 \<Rightarrow> u8 list" where
  "scalar_to_wkb_buf be n iptr variant =
     (let swap = wkb_swap_bytes be variant
      in if vbit variant WKB_HEX
         then concat (map (\<lambda>i. let j = (if swap then n - 1 - i else i) in hexpair (iptr ! j)) [0..<n])
         else if swap then map (\<lambda>i. iptr ! (n - 1 - i)) [0..<n]
         else iptr)"

definition integer_to_wkb_buf :: "bool \<Rightarrow> u32 \<Rightarrow> u8 \<Rightarrow> u8 list" where
  "integer_to_wkb_buf be ival variant =
     scalar_to_wkb_buf be WKB_INT_SIZE (mem_bytes be WKB_INT_SIZE ival) variant"

definition double_to_wkb_buf :: "bool \<Rightarrow> dbl \<Rightarrow> u8 \<Rightarrow> u8 list" where
  "double_to_wkb_buf be d variant =
     scalar_to_wkb_buf be WKB_DOUBLE_SIZE (mem_bytes be WKB_DOUBLE_SIZE d) variant"

definition double_nan_to_wkb_buf :: "u8 \<Rightarrow> u8 list" where
  "double_nan_to_wkb_buf variant =
     (let ndr_nan = [0x00, 0x00, 0x00, 0x00, 0x00, 0x00, 0xf8, 0x7f];
          xdr_nan = [0x7f, 0xf8, 0x00, 0x00, 0x00, 0x00, 0x00, 0x00];
          nan = (if vbit variant WKB_NDR then ndr_nan else xdr_nan)
      in if vbit variant WKB_HEX then concat (map hexpair nan) else nan)"

section \<open>Empty geometries\<close>

text \<open>The array whose dimensions \<open>POINT EMPTY\<close> is written with.\<close>

definition empty_point_dims :: "lwgeom \<Rightarrow> nat option" where
  "empty_point_dims geom = (case geom of LwPoint _ pa \<Rightarrow> Some (pa_ndims pa) | _ \<Rightarrow> None)"

definition empty_to_wkb_size :: "lwgeom \<Rightarrow> u8 \<Rightarrow> nat" where
  "empty_to_wkb_size geom variant =
     WKB_BYTE_SIZE + WKB_INT_SIZE
     + (if lwgeom_wkb_needs_srid geom variant then WKB_INT_SIZE else 0)
     + (case empty_point_dims geom of Some nd \<Rightarrow> WKB_DOUBLE_SIZE * nd | None \<Rightarrow> WKB_INT_SIZE)"

text \<open>Endian flag, type and optional SRID, which every writer starts with.\<close>

definition wkb_prefix :: "bool \<Rightarrow> lwgeom \<Rightarrow> u8 \<Rightarrow> u8 list res" where
  "wkb_prefix be geom variant =
     rbind (lwgeom_wkb_type geom variant) (\<lambda>wkb_type. Inr (
       endian_to_wkb_buf variant @ integer_to_wkb_buf be wkb_type variant @
       (if lwgeom_wkb_needs_srid geom variant
        then integer_to_wkb_buf be (g_srid (g_hdr geom)) variant else [])))"

definition empty_to_wkb_buf :: "bool \<Rightarrow> lwgeom \<Rightarrow> u8 \<Rightarrow> u8 list res" where
  "empty_to_wkb_buf be geom variant =
     rbind (wkb_prefix be geom variant) (\<lambda>pre. Inr (pre @
       (case empty_point_dims geom of
          Some nd \<Rightarrow> concat (map (\<lambda>i. double_nan_to_wkb_buf variant) [0..<nd])
        | None \<Rightarrow> integer_to_wkb_buf be 0 variant)))"

section \<open>Point arrays\<close>

definition ptarray_to_wkb_size :: "ptarray \<Rightarrow> u8 \<Rightarrow> nat" where
  "ptarray_to_wkb_size pa variant =
     (let dims = (if vbit variant (WKB_ISO OR WKB_EXTENDED) then pa_ndims pa else 2)
      in (if \<not> vbit variant WKB_NO_NPOINTS then WKB_INT_SIZE else 0)
         + unat (npoints pa * of_nat dims * of_nat WKB_DOUBLE_SIZE))"

text \<open>The bulk copy moves the bytes of the ordinates as they lie in memory.\<close>

definition ptarray_to_wkb_buf :: "bool \<Rightarrow> ptarray \<Rightarrow> u8 \<Rightarrow> u8 list" where
  "ptarray_to_wkb_buf be pa variant =
     (let pa_dims = pa_ndims pa;
          dims = (if vbit variant WKB_ISO \<or> vbit variant WKB_EXTENDED then pa_dims else 2)
      in (if \<not> vbit variant WKB_NO_NPOINTS then integer_to_wkb_buf be (npoints pa) variant else []) @
         (if npoints pa \<noteq> 0 \<and> dims = pa_dims \<and> \<not> wkb_swap_bytes be variant \<and> \<not> vbit variant WKB_HEX
          then take (unat (npoints pa * of_nat dims * of_nat WKB_DOUBLE_SIZE))
                 (concat (map (mem_bytes be WKB_DOUBLE_SIZE) (getPoint_internal pa 0)))
          else concat (map (\<lambda>i. let dbl_ptr = getPoint_internal pa i
                 in concat (map (\<lambda>j. double_to_wkb_buf be (dbl_ptr ! j) variant) [0..<dims]))
                 [0..<unat (npoints pa)])))"

section \<open>Geometries\<close>

definition lwpoint_to_wkb_size :: "lwgeom \<Rightarrow> ptarray \<Rightarrow> u8 \<Rightarrow> nat" where
  "lwpoint_to_wkb_size geom pa variant =
     (if vbit variant WKB_EXTENDED \<and> lwgeom_is_empty geom then empty_to_wkb_size geom variant
      else WKB_BYTE_SIZE + WKB_INT_SIZE
           + (if lwgeom_wkb_needs_srid geom variant then WKB_INT_SIZE else 0)
           + ptarray_to_wkb_size pa (variant OR WKB_NO_NPOINTS))"

definition lwpoint_to_wkb_buf :: "bool \<Rightarrow> lwgeom \<Rightarrow> ptarray \<Rightarrow> u8 \<Rightarrow> u8 list res" where
  "lwpoint_to_wkb_buf be geom pa variant =
     (if vbit variant WKB_EXTENDED \<and> lwgeom_is_empty geom then empty_to_wkb_buf be geom variant
      else rbind (wkb_prefix be geom variant) (\<lambda>pre.
        Inr (pre @ ptarray_to_wkb_buf be pa (variant OR WKB_NO_NPOINTS))))"

definition lwline_to_wkb_size :: "lwgeom \<Rightarrow> ptarray \<Rightarrow> u8 \<Rightarrow> nat" where
  "lwline_to_wkb_size geom pa variant =
     (if vbit variant WKB_EXTENDED \<and> lwgeom_is_empty geom then empty_to_wkb_size geom variant
      else WKB_BYTE_SIZE + WKB_INT_SIZE
           + (if lwgeom_wkb_needs_srid geom variant then WKB_INT_SIZE else 0)
           + ptarray_to_wkb_size pa variant)"

definition lwline_to_wkb_buf :: "bool \<Rightarrow> lwgeom \<Rightarrow> ptarray \<Rightarrow> u8 \<Rightarrow> u8 list res" where
  "lwline_to_wkb_buf be geom pa variant =
     (if vbit variant WKB_EXTENDED \<and> lwgeom_is_empty geom then empty_to_wkb_buf be geom variant
      else rbind (wkb_prefix be geom variant) (\<lambda>pre. Inr (pre @ ptarray_to_wkb_buf be pa variant)))"

definition lwtriangle_to_wkb_size :: "lwgeom \<Rightarrow> ptarray \<Rightarrow> u8 \<Rightarrow> nat" where
  "lwtriangle_to_wkb_size geom pa variant =
     (if vbit variant WKB_EXTENDED \<and> lwgeom_is_empty geom then empty_to_wkb_size geom variant
      else WKB_BYTE_SIZE + WKB_INT_SIZE + WKB_INT_SIZE
           + (if lwgeom_wkb_needs_srid geom variant then WKB_INT_SIZE else 0)
           + ptarray_to_wkb_size pa variant)"

definition lwtriangle_to_wkb_buf :: "bool \<Rightarrow> lwgeom \<Rightarrow> ptarray \<Rightarrow> u8 \<Rightarrow> u8 list res" where
  "lwtriangle_to_wkb_buf be geom pa variant =
     (if vbit variant WKB_EXTENDED \<and> lwgeom_is_empty geom then empty_to_wkb_buf be geom variant
      else rbind (wkb_prefix be geom variant) (\<lambda>pre.
        Inr (pre @ integer_to_wkb_buf be 1 variant @ ptarray_to_wkb_buf be pa variant)))"

definition lwpoly_to_wkb_size :: "lwgeom \<Rightarrow> ptarray list \<Rightarrow> u8 \<Rightarrow> nat" where
  "lwpoly_to_wkb_size geom rings variant =
     (if vbit variant WKB_EXTENDED \<and> lwgeom_is_empty geom then empty_to_wkb_size geom variant
      else WKB_BYTE_SIZE + WKB_INT_SIZE + WKB_INT_SIZE
           + (if lwgeom_wkb_needs_srid geom variant then WKB_INT_SIZE else 0)
           + sum_list (map (\<lambda>pa. ptarray_to_wkb_size pa variant) rings))"

definition lwpoly_to_wkb_buf :: "bool \<Rightarrow> lwgeom \<Rightarrow> ptarray list \<Rightarrow> u8 \<Rightarrow> u8 list res" where
  "lwpoly_to_wkb_buf be geom rings variant =
     (if vbit variant WKB_EXTENDED \<and> lwgeom_is_empty geom then empty_to_wkb_buf be geom variant
      else rbind (wkb_prefix be geom variant) (\<lambda>pre.
        Inr (pre @ integer_to_wkb_buf be (of_nat (length rings)) variant @
             concat (map (\<lambda>pa. ptarray_to_wkb_buf be pa variant) rings))))"

definition lwellipse_to_wkb_size :: "lwgeom \<Rightarrow> ellipse \<Rightarrow> u8 \<Rightarrow> nat" where
  "lwellipse_to_wkb_size geom e variant =
     WKB_BYTE_SIZE + WKB_INT_SIZE
     + (if lwgeom_wkb_needs_srid geom variant then WKB_INT_SIZE else 0)
     + ptarray_to_wkb_size (el_points e) variant + 5 * WKB_DOUBLE_SIZE"

definition lwellipse_to_wkb_buf :: "bool \<Rightarrow> lwgeom \<Rightarrow> ellipse \<Rightarrow> u8 \<Rightarrow> u8 list res" where
  "lwellipse_to_wkb_buf be geom e variant =
     rbind (wkb_prefix be geom variant) (\<lambda>pre.
       Inr (pre @ ptarray_to_wkb_buf be (el_points e) variant @
            double_to_wkb_buf be (el_minor e) variant @
            double_to_wkb_buf be (el_clockwise e) variant @
            double_to_wkb_buf be (el_rotation e) variant @
            double_to_wkb_buf be (el_axis e) variant @
            double_to_wkb_buf be (el_ratio e) variant))"

definition lwbezier_to_wkb_size :: "lwgeom \<Rightarrow> ptarray \<Rightarrow> u8 \<Rightarrow> nat" where
  "lwbezier_to_wkb_size geom pa variant =
     WKB_BYTE_SIZE + WKB_INT_SIZE
     + (if lwgeom_wkb_needs_srid geom variant then WKB_INT_SIZE else 0)
     + ptarray_to_wkb_size pa variant"

definition lwbezier_to_wkb_buf :: "bool \<Rightarrow> lwgeom \<Rightarrow> ptarray \<Rightarrow> u8 \<Rightarrow> u8 list res" where
  "lwbezier_to_wkb_buf be geom pa variant =
     rbind (wkb_prefix be geom variant) (\<lambda>pre. Inr (pre @ ptarray_to_wkb_buf be pa variant))"

text \<open>The collection writers, given what the geometry writer does on the members.\<close>

definition lwcollection_to_wkb_size :: "(lwgeom \<Rightarrow> u8 \<Rightarrow> nat) \<Rightarrow> lwgeom \<Rightarrow> lwgeom list \<Rightarrow> u8 \<Rightarrow> nat" where
  "lwcollection_to_wkb_size member_size geom geoms variant =
     WKB_BYTE_SIZE + WKB_INT_SIZE + WKB_INT_SIZE
     + (if lwgeom_wkb_needs_srid geom variant then WKB_INT_SIZE else 0)
     + sum_list (map (\<lambda>g. member_size g (variant OR WKB_NO_SRID)) geoms)"

text \<open>The bytes of a list of members, up to the first that fails.\<close>

primrec concat_res :: "u8 list res list \<Rightarrow> u8 list res" where
  "concat_res [] = Inr []"
| "concat_res (r # rs) = rbind r (\<lambda>bs. rbind (concat_res rs) (\<lambda>bss. Inr (bs @ bss)))"

definition lwcollection_to_wkb_buf ::
  "bool \<Rightarrow> (lwgeom \<Rightarrow> u8 \<Rightarrow> u8 list res) \<Rightarrow> lwgeom \<Rightarrow> lwgeom list \<Rightarrow> u8 \<Rightarrow> u8 list res" where
  "lwcollection_to_wkb_buf be member_buf geom geoms variant =
     rbind (wkb_prefix be geom variant) (\<lambda>pre.
       rbind (concat_res (map (\<lambda>g. member_buf g (variant OR WKB_NO_SRID)) geoms)) (\<lambda>sub.
         Inr (pre @ integer_to_wkb_buf be (of_nat (length geoms)) variant @ sub)))"

lemma lwcollection_to_wkb_size_cong [fundef_cong]:
  "geom = geom' \<Longrightarrow> geoms = geoms' \<Longrightarrow> variant = variant' \<Longrightarrow>
   (\<And>g v. g \<in> set geoms' \<Longrightarrow> f g v = f' g v) \<Longrightarrow>
   lwcollection_to_wkb_size f geom geoms variant = lwcollection_to_wkb_size f' geom' geoms' variant'"
  by (simp add: lwcollection_to_wkb_size_def cong: map_cong)

lemma lwcollection_to_wkb_buf_cong [fundef_cong]:
  "be = be' \<Longrightarrow> geom = geom' \<Longrightarrow> geoms = geoms' \<Longrightarrow> variant = variant' \<Longrightarrow>
   (\<And>g v. g \<in> set geoms' \<Longrightarrow> f g v = f' g v) \<Longrightarrow>
   lwcollection_to_wkb_buf be f geom geoms variant = lwcollection_to_wkb_buf be' f' geom' geoms' variant'"
  by (simp add: lwcollection_to_wkb_buf_def cong: map_cong)

text \<open>A type code the switch does not know raises the error that \<open>lwgeom_to_wkb_buf\<close> raises on it.\<close>

function lwgeom_to_wkb_size :: "lwgeom \<Rightarrow> u8 \<Rightarrow> nat" where
  "lwgeom_to_wkb_size geom variant =
     (if \<not> vbit variant WKB_EXTENDED \<and> lwgeom_is_empty geom then empty_to_wkb_size geom variant
      else case geom of
        LwPoint _ pa \<Rightarrow> lwpoint_to_wkb_size geom pa variant
      | LwLine _ pa \<Rightarrow> lwline_to_wkb_size geom pa variant
      | LwCircString _ pa \<Rightarrow> lwline_to_wkb_size geom pa variant
      | LwPoly _ rings \<Rightarrow> lwpoly_to_wkb_size geom rings variant
      | LwTriangle _ pa \<Rightarrow> lwtriangle_to_wkb_size geom pa variant
      | LwEllipse _ e \<Rightarrow> lwellipse_to_wkb_size geom e variant
      | LwBezier _ pa \<Rightarrow> lwbezier_to_wkb_size geom pa variant
      | LwColl _ _ geoms \<Rightarrow> lwcollection_to_wkb_size (\<lambda>g v. lwgeom_to_wkb_size g v) geom geoms variant)"
  by pat_completeness auto
termination
  by (relation "measure (\<lambda>(g, v). size g)") (auto simp: size_list_estimation' less_Suc_eq_le)

function lwgeom_to_wkb_buf :: "bool \<Rightarrow> lwgeom \<Rightarrow> u8 \<Rightarrow> u8 list res" where
  "lwgeom_to_wkb_buf be geom variant =
     (if lwgeom_is_empty geom \<and> \<not> vbit variant WKB_EXTENDED then empty_to_wkb_buf be geom variant
      else case geom of
        LwPoint _ pa \<Rightarrow> lwpoint_to_wkb_buf be geom pa variant
      | LwLine _ pa \<Rightarrow> lwline_to_wkb_buf be geom pa variant
      | LwCircString _ pa \<Rightarrow> lwline_to_wkb_buf be geom pa variant
      | LwPoly _ rings \<Rightarrow> lwpoly_to_wkb_buf be geom rings variant
      | LwTriangle _ pa \<Rightarrow> lwtriangle_to_wkb_buf be geom pa variant
      | LwEllipse _ e \<Rightarrow> lwellipse_to_wkb_buf be geom e variant
      | LwBezier _ pa \<Rightarrow> lwbezier_to_wkb_buf be geom pa variant
      | LwColl _ _ geoms \<Rightarrow> lwcollection_to_wkb_buf be (\<lambda>g v. lwgeom_to_wkb_buf be g v) geom geoms variant)"
  by pat_completeness auto
termination
  by (relation "measure (\<lambda>(be, g, v). size g)") (auto simp: size_list_estimation' less_Suc_eq_le)

declare lwgeom_to_wkb_size.simps [simp del] lwgeom_to_wkb_buf.simps [simp del]

text \<open>The default byte order; the number of bytes written is an \<open>int\<close>.\<close>

definition wkb_default_order :: "bool \<Rightarrow> u8 \<Rightarrow> u8" where
  "wkb_default_order be variant =
     (if \<not> (vbit variant WKB_NDR \<or> vbit variant WKB_XDR) \<or> vbit variant WKB_NDR \<and> vbit variant WKB_XDR
      then if be then variant OR WKB_XDR else variant OR WKB_NDR
      else variant)"

definition lwgeom_to_wkb_write_buf :: "bool \<Rightarrow> lwgeom \<Rightarrow> u8 \<Rightarrow> u8 list res" where
  "lwgeom_to_wkb_write_buf be geom variant =
     lwgeom_to_wkb_buf be geom (wkb_default_order be variant)"

text \<open>
  The writer does not look at the size of the buffer: writing past it is a fault. The number of
  bytes written is taken as an \<open>int\<close>. The hexadecimal form ends in a NUL in the \<open>char*\<close> result
  and not in the \<open>varlena\<close> one, whose result here is the payload.
\<close>

definition lwgeom_to_wkb_buffer :: "bool \<Rightarrow> lwgeom \<Rightarrow> u8 \<Rightarrow> u8 list res" where
  "lwgeom_to_wkb_buffer be geom variant =
     (let b_size = lwgeom_to_wkb_size geom variant;
          b_size = (if vbit variant WKB_HEX then 2 * b_size + 1 else b_size)
      in rbind (lwgeom_to_wkb_write_buf be geom variant) (\<lambda>buffer.
           let written_size = sint (of_nat (length buffer) :: i32)
           in if b_size < length buffer then Inl MemFault
              else if vbit variant WKB_HEX \<and> \<not> (0 \<le> written_size \<and> written_size < int b_size)
              then Inl MemFault
              else
                let buffer = (if vbit variant WKB_HEX then buffer @ [0] else buffer);
                    written_size = (if vbit variant WKB_HEX then written_size + 1 else written_size)
                in if written_size \<noteq> int b_size
                   then Inl (LwError ''Output WKB is not the same size as the allocated buffer. Variant: %u, Geom: %s'')
                   else Inr buffer))"

definition lwgeom_to_hexwkb_buffer :: "bool \<Rightarrow> lwgeom \<Rightarrow> u8 \<Rightarrow> u8 list res" where
  "lwgeom_to_hexwkb_buffer be geom variant = lwgeom_to_wkb_buffer be geom (variant OR WKB_HEX)"

definition lwgeom_to_wkb_varlena :: "bool \<Rightarrow> lwgeom \<Rightarrow> u8 \<Rightarrow> u8 list res" where
  "lwgeom_to_wkb_varlena be geom variant =
     (let b_size = lwgeom_to_wkb_size geom variant;
          b_size = (if vbit variant WKB_HEX then 2 * b_size else b_size)
      in rbind (lwgeom_to_wkb_write_buf be geom variant) (\<lambda>buffer.
           if b_size < length buffer then Inl MemFault
           else if sint (of_nat (length buffer) :: i32) \<noteq> int b_size
           then Inl (LwError ''Output WKB is not the same size as the allocated buffer. Variant: %u, Geom: %s'')
           else Inr buffer))"

lemma vbit_or: "vbit (v OR w) f \<longleftrightarrow> vbit v f \<or> vbit w f"
proof -
  have "(v OR w) AND f = (v AND f) OR (w AND f)" by (rule bit.conj_disj_distrib2)
  then show ?thesis by (simp add: vbit_def or_eq_0_iff)
qed

lemma vbit_flag_or: "vbit v (f OR g) \<longleftrightarrow> vbit v f \<or> vbit v g"
proof -
  have "v AND (f OR g) = (v AND f) OR (v AND g)" by (rule bit.conj_disj_distrib)
  then show ?thesis by (simp add: vbit_def or_eq_0_iff)
qed

lemma vbit_consts [simp]:
  "\<not> vbit WKB_NO_SRID WKB_HEX" "\<not> vbit WKB_NO_SRID WKB_EXTENDED" "\<not> vbit WKB_NO_SRID WKB_ISO"
  "\<not> vbit WKB_NO_SRID WKB_NDR" "\<not> vbit WKB_NO_SRID WKB_NO_NPOINTS" "vbit WKB_NO_SRID WKB_NO_SRID"
  "\<not> vbit WKB_NO_NPOINTS WKB_HEX" "\<not> vbit WKB_NO_NPOINTS WKB_EXTENDED" "\<not> vbit WKB_NO_NPOINTS WKB_ISO"
  "\<not> vbit WKB_NO_NPOINTS WKB_NDR" "\<not> vbit WKB_NO_NPOINTS WKB_NO_SRID" "vbit WKB_NO_NPOINTS WKB_NO_NPOINTS"
  "\<not> vbit WKB_XDR WKB_HEX" "\<not> vbit WKB_NDR WKB_HEX" "vbit WKB_HEX WKB_HEX"
  "\<not> vbit WKB_XDR WKB_EXTENDED" "\<not> vbit WKB_NDR WKB_EXTENDED"
  by (simp_all add: vbit_def)

end
