(* ===== verification/WkbSpec.thy ===== *)
theory WkbSpec
  imports WkbOut
begin

text \<open>
  What the writer of theory \<open>WkbOut\<close> writes: a byte string that depends on the geometry and the
  variant only, in binary or in hexadecimal. The lemmas reduce every writer to it, on machines of
  either byte order, and show that the size function and the buffers allocated with it fit.
\<close>

section \<open>The format\<close>

definition enc_int :: "u8 \<Rightarrow> u32 \<Rightarrow> u8 list" where
  "enc_int v i = mem_bytes (\<not> vbit v WKB_NDR) 4 i"

definition enc_dbl :: "u8 \<Rightarrow> dbl \<Rightarrow> u8 list" where
  "enc_dbl v d = mem_bytes (\<not> vbit v WKB_NDR) 8 d"

definition wkb_dims :: "u8 \<Rightarrow> ptarray \<Rightarrow> nat" where
  "wkb_dims v pa = (if vbit v WKB_ISO \<or> vbit v WKB_EXTENDED then pa_ndims pa else 2)"

definition enc_pa :: "u8 \<Rightarrow> ptarray \<Rightarrow> u8 list" where
  "enc_pa v pa = (if vbit v WKB_NO_NPOINTS then [] else enc_int v (npoints pa)) @
     concat (map (\<lambda>p. concat (map (enc_dbl v) (take (wkb_dims v pa) p))) (pa_points pa))"

definition enc_prefix :: "u8 \<Rightarrow> lwgeom \<Rightarrow> u8 list" where
  "enc_prefix v g =
     [if vbit v WKB_NDR then 1 else 0] @ enc_int v (projr (lwgeom_wkb_type g v)) @
     (if lwgeom_wkb_needs_srid g v then enc_int v (g_srid (g_hdr g)) else [])"

fun is_coll :: "lwgeom \<Rightarrow> bool" where
  "is_coll (LwColl _ _ _) = True"
| "is_coll _ = False"

function wkb_spec :: "lwgeom \<Rightarrow> u8 \<Rightarrow> u8 list" where
  "wkb_spec g v = enc_prefix v g @
     (if lwgeom_is_empty g \<and> \<not> (vbit v WKB_EXTENDED \<and> is_coll g)
      then (case g of
          LwPoint _ pa \<Rightarrow> concat (replicate (pa_ndims pa) (enc_dbl v dbl_nan))
        | _ \<Rightarrow> enc_int v 0)
      else (case g of
          LwPoint _ pa \<Rightarrow> enc_pa (v OR WKB_NO_NPOINTS) pa
        | LwLine _ pa \<Rightarrow> enc_pa v pa
        | LwCircString _ pa \<Rightarrow> enc_pa v pa
        | LwTriangle _ pa \<Rightarrow> enc_int v 1 @ enc_pa v pa
        | LwPoly _ rings \<Rightarrow> enc_int v (of_nat (length rings)) @ concat (map (enc_pa v) rings)
        | LwEllipse _ e \<Rightarrow> enc_pa v (el_points e) @ concat (map (enc_dbl v)
            [el_minor e, el_clockwise e, el_rotation e, el_axis e, el_ratio e])
        | LwBezier _ pa \<Rightarrow> enc_pa v pa
        | LwColl _ _ gs \<Rightarrow> enc_int v (of_nat (length gs)) @
            concat (map (\<lambda>g. wkb_spec g (v OR WKB_NO_SRID)) gs)))"
  by pat_completeness auto
termination
  by (relation "measure (\<lambda>(g, v). size g)") (auto simp: size_list_estimation' less_Suc_eq_le)

declare wkb_spec.simps [simp del]

text \<open>The hexadecimal form.\<close>

definition wkb_text :: "u8 \<Rightarrow> u8 list \<Rightarrow> u8 list" where
  "wkb_text v bs = (if vbit v WKB_HEX then concat (map hexpair bs) else bs)"

section \<open>Geometries the writer handles\<close>

text \<open>
  Point arrays whose ordinates are there, with a size that fits the 32 bit product; the type code
  of a collection is one.
\<close>

definition pa_ok :: "ptarray \<Rightarrow> bool" where
  "pa_ok pa \<longleftrightarrow> pa_wf pa \<and> unat (npoints pa) * pa_ndims pa * 8 < 2 ^ 32"

fun geom_ok :: "lwgeom \<Rightarrow> bool" where
  "geom_ok (LwPoint _ pa) = pa_ok pa"
| "geom_ok (LwLine _ pa) = pa_ok pa"
| "geom_ok (LwCircString _ pa) = pa_ok pa"
| "geom_ok (LwTriangle _ pa) = pa_ok pa"
| "geom_ok (LwPoly _ rings) = list_all pa_ok rings"
| "geom_ok (LwEllipse _ e) = pa_ok (el_points e)"
| "geom_ok (LwBezier _ pa) = pa_ok pa"
| "geom_ok (LwColl ty _ gs) = (lwtype_is_collection ty \<and> list_all geom_ok gs)"

section \<open>The writers write the format\<close>

lemma wkb_text_append [simp]: "wkb_text v (xs @ ys) = wkb_text v xs @ wkb_text v ys"
  by (simp add: wkb_text_def)

lemma wkb_text_Nil [simp]: "wkb_text v [] = []"
  by (simp add: wkb_text_def)

lemma wkb_text_concat: "wkb_text v (concat xss) = concat (map (wkb_text v) xss)"
  by (induction xss) simp_all

lemma wkb_text_or [simp]:
  "wkb_text (v OR WKB_NO_SRID) = wkb_text v" "wkb_text (v OR WKB_NO_NPOINTS) = wkb_text v"
  by (simp_all add: wkb_text_def vbit_or fun_eq_iff)

lemma map_rev_nth: "length xs = n \<Longrightarrow> map (\<lambda>i. xs ! (n - 1 - i)) [0..<n] = rev xs"
  by (rule nth_equalityI) (simp_all add: rev_nth)

lemma scalar_spec:
  "scalar_to_wkb_buf be n (mem_bytes be n w) v = wkb_text v (mem_bytes (\<not> vbit v WKB_NDR) n w)"
proof -
  let ?bs = "mem_bytes be n w"
  have "map (\<lambda>i. hexpair (?bs ! (n - 1 - i))) [0..<n] = map hexpair (rev ?bs)"
    using map_rev_nth[of ?bs n] by (metis (no_types, lifting) length_mem_bytes list.map_comp map_eq_conv comp_apply)
  moreover have "map (\<lambda>i. hexpair (?bs ! i)) [0..<n] = map hexpair ?bs"
    by (rule nth_equalityI) simp_all
  ultimately show ?thesis
    using map_rev_nth[of ?bs n]
    by (cases be; cases "vbit v WKB_NDR")
      (simp_all add: scalar_to_wkb_buf_def wkb_swap_bytes_def wkb_text_def Let_def rev_mem_bytes)
qed

lemma integer_spec: "integer_to_wkb_buf be i v = wkb_text v (enc_int v i)"
  by (simp add: integer_to_wkb_buf_def scalar_spec enc_int_def)

lemma double_spec: "double_to_wkb_buf be d v = wkb_text v (enc_dbl v d)"
  by (simp add: double_to_wkb_buf_def scalar_spec enc_dbl_def)

lemma nan_bytes:
  "mem_bytes False 8 dbl_nan = [0x00, 0x00, 0x00, 0x00, 0x00, 0x00, 0xf8, 0x7f]"
  "mem_bytes True 8 dbl_nan = [0x7f, 0xf8, 0x00, 0x00, 0x00, 0x00, 0x00, 0x00]"
  by (code_simp, code_simp)

lemma nan_spec: "double_nan_to_wkb_buf v = wkb_text v (enc_dbl v dbl_nan)"
  by (simp add: double_nan_to_wkb_buf_def enc_dbl_def nan_bytes wkb_text_def Let_def)

lemma endian_spec: "endian_to_wkb_buf v = wkb_text v [if vbit v WKB_NDR then 1 else 0]"
  by (simp add: endian_to_wkb_buf_def wkb_text_def hexpair_def hexchr_def)

lemma prefix_spec:
  "lwgeom_wkb_type g v = Inr t \<Longrightarrow> wkb_prefix be g v = Inr (wkb_text v (enc_prefix v g))"
  unfolding wkb_prefix_def enc_prefix_def wkb_text_append endian_spec integer_spec by simp

lemma unat_mult3:
  assumes "a * b * c < 2 ^ 32"
  shows "unat (of_nat a * of_nat b * of_nat c :: u32) = a * b * c"
proof -
  have "(of_nat a * of_nat b * of_nat c :: u32) = of_nat (a * b * c)" by simp
  then show ?thesis using assms
    by (simp add: unsigned_of_nat take_bit_nat_eq_self del: of_nat_mult)
qed

lemma pa_bytes_nat:
  assumes "pa_ok pa" and "k \<le> pa_ndims pa"
  shows "unat (npoints pa * of_nat k * of_nat 8) = unat (npoints pa) * k * 8"
proof -
  have "unat (npoints pa) * k * 8 \<le> unat (npoints pa) * pa_ndims pa * 8"
    using assms(2) by (intro mult_le_mono) simp_all
  moreover have "unat (npoints pa) * pa_ndims pa * 8 < 2 ^ 32" using assms(1) unfolding pa_ok_def by blast
  ultimately have "unat (npoints pa) * k * 8 < 2 ^ 32" by (rule le_less_trans)
  from unat_mult3[OF this] show ?thesis by simp
qed

lemma wkb_dims_le: "wkb_dims v pa \<le> pa_ndims pa"
  using FLAGS_NDIMS_cases[of "pa_flags pa"] by (auto simp: wkb_dims_def)

lemma getPoint_internal_ordinate:
  assumes "pa_wf pa" and "i < unat (npoints pa)" and "j < pa_ndims pa"
  shows "getPoint_internal pa i ! j = pa_points pa ! i ! j"
  using getPoint_internal_nth[OF assms(1,2)] assms(3) by (metis nth_take)

lemma map_points:
  assumes "pa_wf pa" and "k \<le> pa_ndims pa"
  shows "map (\<lambda>i. map (\<lambda>j. f (getPoint_internal pa i ! j)) [0..<k]) [0..<unat (npoints pa)]
    = map (\<lambda>p. map f (take k p)) (pa_points pa)"
proof (rule nth_equalityI)
  fix i assume "i < length (map (\<lambda>i. map (\<lambda>j. f (getPoint_internal pa i ! j)) [0..<k]) [0..<unat (npoints pa)])"
  then have i: "i < unat (npoints pa)" by simp
  have "length (pa_points pa ! i) = pa_ndims pa" using i pa_points_dims[OF assms(1)] by simp
  then have "map (\<lambda>j. f (getPoint_internal pa i ! j)) [0..<k] = map f (take k (pa_points pa ! i))"
    using assms i by (intro nth_equalityI) (simp_all add: getPoint_internal_ordinate)
  then show "map (\<lambda>i. map (\<lambda>j. f (getPoint_internal pa i ! j)) [0..<k]) [0..<unat (npoints pa)] ! i
      = map (\<lambda>p. map f (take k p)) (pa_points pa) ! i"
    using i by simp
qed simp

lemma ptarray_spec:
  assumes ok: "pa_ok pa"
  shows "ptarray_to_wkb_buf be pa v = wkb_text v (enc_pa v pa)"
proof -
  let ?k = "wkb_dims v pa" and ?n = "unat (npoints pa)"
  have wf: "pa_wf pa" using ok by (simp add: pa_ok_def)
  have slow: "concat (map (\<lambda>i. let dbl_ptr = getPoint_internal pa i
        in concat (map (\<lambda>j. double_to_wkb_buf be (dbl_ptr ! j) v) [0..<?k])) [0..<?n])
      = wkb_text v (concat (map (\<lambda>p. concat (map (enc_dbl v) (take ?k p))) (pa_points pa)))"
  proof -
    have "concat (map (\<lambda>i. concat (map (\<lambda>j. double_to_wkb_buf be (getPoint_internal pa i ! j) v) [0..<?k])) [0..<?n])
        = concat (map concat (map (\<lambda>p. map (\<lambda>d. double_to_wkb_buf be d v) (take ?k p)) (pa_points pa)))"
      unfolding map_points[OF wf wkb_dims_le, symmetric] by (simp add: comp_def)
    then show ?thesis by (simp add: Let_def wkb_text_concat double_spec comp_def)
  qed
  have fast: "take (unat (npoints pa * of_nat ?k * of_nat 8)) (concat (map (mem_bytes be 8) (getPoint_internal pa 0)))
      = wkb_text v (concat (map (\<lambda>p. concat (map (enc_dbl v) (take ?k p))) (pa_points pa)))"
    if "?k = pa_ndims pa" "\<not> wkb_swap_bytes be v" "\<not> vbit v WKB_HEX"
  proof -
    have be: "be = (\<not> vbit v WKB_NDR)" using that(2) by (auto simp: wkb_swap_bytes_def)
    have "getPoint_internal pa 0 = concat (pa_points pa)"
      using getPoint_internal_points[OF wf, of 0] by simp
    moreover have "length (concat (pa_points pa)) = pa_ndims pa * ?n"
      using pa_concat[OF wf] wf by (simp add: pa_wf_def)
    moreover have "length (concat (map (mem_bytes be 8) (concat (pa_points pa)))) = 8 * length (concat (pa_points pa))"
      by (rule concat_const_length) simp
    ultimately have "take (unat (npoints pa * of_nat ?k * of_nat 8)) (concat (map (mem_bytes be 8) (getPoint_internal pa 0)))
        = concat (map (mem_bytes be 8) (concat (pa_points pa)))"
      using pa_bytes_nat[OF ok wkb_dims_le, of v] that(1) by simp
    also have "\<dots> = concat (map (\<lambda>p. concat (map (mem_bytes be 8) p)) (pa_points pa))"
      by (rule concat_map_concat)
    also have "\<dots> = concat (map (\<lambda>p. concat (map (enc_dbl v) (take ?k p))) (pa_points pa))"
      using pa_points_dims[OF wf] that(1) by (intro arg_cong[of _ _ concat] map_cong) (auto simp: enc_dbl_def be)
    finally show ?thesis using that(3) by (simp add: wkb_text_def)
  qed
  have k: "(if vbit v WKB_ISO \<or> vbit v WKB_EXTENDED then pa_ndims pa else 2) = ?k"
    by (simp add: wkb_dims_def)
  show ?thesis
    unfolding ptarray_to_wkb_buf_def Let_def k slow[unfolded Let_def] enc_pa_def wkb_text_append integer_spec
    using fast by auto
qed

lemma wkb_type_ok: "geom_ok g \<Longrightarrow> \<exists>t. lwgeom_wkb_type g v = Inr t"
  by (cases g) (auto simp: lwgeom_wkb_type_def wkb_simple_type_def Let_def lwtype_is_collection_def)

lemma concat_replicate_text: "concat (map (\<lambda>i. wkb_text v xs) [0..<n]) = wkb_text v (concat (replicate n xs))"
  by (induction n) (simp_all add: replicate_append_same[symmetric] del: replicate_Suc add: replicate_Suc)

lemma empty_spec:
  "geom_ok g \<Longrightarrow> empty_to_wkb_buf be g v = Inr (wkb_text v (enc_prefix v g @
     (case g of LwPoint _ pa \<Rightarrow> concat (replicate (pa_ndims pa) (enc_dbl v dbl_nan)) | _ \<Rightarrow> enc_int v 0)))"
  using wkb_type_ok[of g v]
  by (cases g) (auto simp: empty_to_wkb_buf_def empty_point_dims_def prefix_spec nan_spec integer_spec
    concat_replicate_text)

lemma concat_res_Inr:
  "(\<And>g. g \<in> set gs \<Longrightarrow> f g = Inr (h g)) \<Longrightarrow> concat_res (map f gs) = Inr (concat (map h gs))"
  by (induction gs) simp_all

lemma lwgeom_to_wkb_buf_spec:
  "geom_ok g \<Longrightarrow> lwgeom_to_wkb_buf be g v = Inr (wkb_text v (wkb_spec g v))"
proof (induction g arbitrary: v)
  case (LwColl ty h gs)
  obtain t where t: "lwgeom_wkb_type (LwColl ty h gs) v = Inr t" using wkb_type_ok[OF LwColl.prems] by blast
  have m: "concat_res (map (\<lambda>g. lwgeom_to_wkb_buf be g (v OR WKB_NO_SRID)) gs)
      = Inr (concat (map (\<lambda>g. wkb_text v (wkb_spec g (v OR WKB_NO_SRID))) gs))"
    using LwColl by (intro concat_res_Inr) (auto simp: list_all_iff)
  show ?case
    using empty_spec[OF LwColl.prems, of be v] m
    by (subst lwgeom_to_wkb_buf.simps, subst wkb_spec.simps)
      (auto simp: lwcollection_to_wkb_buf_def prefix_spec[OF t] integer_spec wkb_text_concat comp_def)
next
  case (LwPoly h rings)
  then have "concat (map (\<lambda>pa. ptarray_to_wkb_buf be pa v) rings) = concat (map (\<lambda>pa. wkb_text v (enc_pa v pa)) rings)"
    by (intro arg_cong[of _ _ concat] map_cong) (auto simp: list_all_iff ptarray_spec)
  then show ?case using empty_spec[OF LwPoly.prems, of be v] wkb_type_ok[OF LwPoly.prems, of v]
    by (subst lwgeom_to_wkb_buf.simps, subst wkb_spec.simps)
      (auto simp: lwpoly_to_wkb_buf_def prefix_spec integer_spec wkb_text_concat comp_def)
next
  case (LwPoint h pa)
  then show ?case using empty_spec[OF LwPoint.prems, of be v] wkb_type_ok[OF LwPoint.prems, of v]
    by (subst lwgeom_to_wkb_buf.simps, subst wkb_spec.simps)
      (auto simp: lwpoint_to_wkb_buf_def prefix_spec ptarray_spec)
next
  case (LwLine h pa)
  then show ?case using empty_spec[OF LwLine.prems, of be v] wkb_type_ok[OF LwLine.prems, of v]
    by (subst lwgeom_to_wkb_buf.simps, subst wkb_spec.simps)
      (auto simp: lwline_to_wkb_buf_def prefix_spec ptarray_spec)
next
  case (LwCircString h pa)
  then show ?case using empty_spec[OF LwCircString.prems, of be v] wkb_type_ok[OF LwCircString.prems, of v]
    by (subst lwgeom_to_wkb_buf.simps, subst wkb_spec.simps)
      (auto simp: lwline_to_wkb_buf_def prefix_spec ptarray_spec)
next
  case (LwTriangle h pa)
  then show ?case using empty_spec[OF LwTriangle.prems, of be v] wkb_type_ok[OF LwTriangle.prems, of v]
    by (subst lwgeom_to_wkb_buf.simps, subst wkb_spec.simps)
      (auto simp: lwtriangle_to_wkb_buf_def prefix_spec ptarray_spec integer_spec)
next
  case (LwEllipse h e)
  then show ?case using wkb_type_ok[OF LwEllipse.prems, of v]
    by (subst lwgeom_to_wkb_buf.simps, subst wkb_spec.simps)
      (auto simp: lwellipse_to_wkb_buf_def prefix_spec ptarray_spec double_spec)
next
  case (LwBezier h pa)
  then show ?case using wkb_type_ok[OF LwBezier.prems, of v]
    by (subst lwgeom_to_wkb_buf.simps, subst wkb_spec.simps)
      (auto simp: lwbezier_to_wkb_buf_def prefix_spec ptarray_spec)
qed

section \<open>The size function is exact\<close>

lemma length_enc [simp]: "length (enc_int v i) = 4" "length (enc_dbl v d) = 8"
  by (simp_all add: enc_int_def enc_dbl_def)

lemma length_enc_pa: "pa_ok pa \<Longrightarrow> length (enc_pa v pa) = ptarray_to_wkb_size pa v"
proof -
  assume ok: "pa_ok pa"
  then have wf: "pa_wf pa" by (simp add: pa_ok_def)
  have "length (concat (map (enc_dbl v) (take (wkb_dims v pa) p))) = wkb_dims v pa * 8" if "p \<in> set (pa_points pa)" for p
    using pa_points_dims[OF wf that] wkb_dims_le[of v pa] by (subst concat_const_length) auto
  then have "length (concat (map (\<lambda>p. concat (map (enc_dbl v) (take (wkb_dims v pa) p))) (pa_points pa)))
      = wkb_dims v pa * 8 * unat (npoints pa)"
    by (subst concat_const_length) auto
  moreover have "(if vbit v (WKB_ISO OR WKB_EXTENDED) then pa_ndims pa else 2) = wkb_dims v pa"
    unfolding vbit_flag_or by (simp add: wkb_dims_def)
  ultimately show ?thesis using pa_bytes_nat[OF ok wkb_dims_le, of v]
    unfolding enc_pa_def ptarray_to_wkb_size_def Let_def by (simp only:) simp
qed

lemma length_prefix:
  "length (enc_prefix v g) = 5 + (if lwgeom_wkb_needs_srid g v then 4 else 0)"
  by (simp add: enc_prefix_def)

lemma length_empty:
  "length (enc_prefix v g @
     (case g of LwPoint _ pa \<Rightarrow> concat (replicate (pa_ndims pa) (enc_dbl v dbl_nan)) | _ \<Rightarrow> enc_int v 0))
   = empty_to_wkb_size g v"
proof -
  have "length (concat (replicate n (enc_dbl v d))) = 8 * n" for n d by (induction n) simp_all
  then show ?thesis
    by (cases g) (simp_all add: empty_to_wkb_size_def empty_point_dims_def length_prefix)
qed

lemma length_concat_sum: "length (concat (map f xs)) = sum_list (map (\<lambda>x. length (f x)) xs)"
  by (simp add: length_concat comp_def)

lemma wkb_spec_length: "geom_ok g \<Longrightarrow> length (wkb_spec g v) = lwgeom_to_wkb_size g v"
proof (induction g arbitrary: v)
  case (LwColl ty h gs)
  then have "map (\<lambda>g. length (wkb_spec g (v OR WKB_NO_SRID))) gs = map (\<lambda>g. lwgeom_to_wkb_size g (v OR WKB_NO_SRID)) gs"
    by (auto simp: list_all_iff)
  then have "sum_list (map (\<lambda>g. length (wkb_spec g (v OR WKB_NO_SRID))) gs)
      = sum_list (map (\<lambda>g. lwgeom_to_wkb_size g (v OR WKB_NO_SRID)) gs)" by (rule arg_cong)
  then show ?case
    using length_empty[of v "LwColl ty h gs"]
    by (subst lwgeom_to_wkb_size.simps, subst wkb_spec.simps)
      (auto simp: lwcollection_to_wkb_size_def length_prefix length_concat_sum)
next
  case (LwPoly h rings)
  then have "sum_list (map (\<lambda>pa. length (enc_pa v pa)) rings) = sum_list (map (\<lambda>pa. ptarray_to_wkb_size pa v) rings)"
    by (intro arg_cong[of _ _ sum_list] map_cong) (auto simp: list_all_iff length_enc_pa)
  then show ?case using length_empty[of v "LwPoly h rings"]
    by (subst lwgeom_to_wkb_size.simps, subst wkb_spec.simps)
      (auto simp: lwpoly_to_wkb_size_def length_prefix length_concat_sum)
next
  case (LwPoint h pa)
  then show ?case using length_empty[of v "LwPoint h pa"]
    by (subst lwgeom_to_wkb_size.simps, subst wkb_spec.simps)
      (auto simp: lwpoint_to_wkb_size_def length_prefix length_enc_pa)
next
  case (LwLine h pa)
  then show ?case using length_empty[of v "LwLine h pa"]
    by (subst lwgeom_to_wkb_size.simps, subst wkb_spec.simps)
      (auto simp: lwline_to_wkb_size_def length_prefix length_enc_pa)
next
  case (LwCircString h pa)
  then show ?case using length_empty[of v "LwCircString h pa"]
    by (subst lwgeom_to_wkb_size.simps, subst wkb_spec.simps)
      (auto simp: lwline_to_wkb_size_def length_prefix length_enc_pa)
next
  case (LwTriangle h pa)
  then show ?case using length_empty[of v "LwTriangle h pa"]
    by (subst lwgeom_to_wkb_size.simps, subst wkb_spec.simps)
      (auto simp: lwtriangle_to_wkb_size_def length_prefix length_enc_pa)
next
  case (LwEllipse h e)
  then show ?case
    by (subst lwgeom_to_wkb_size.simps, subst wkb_spec.simps)
      (auto simp: lwellipse_to_wkb_size_def length_prefix length_enc_pa)
next
  case (LwBezier h pa)
  then show ?case
    by (subst lwgeom_to_wkb_size.simps, subst wkb_spec.simps)
      (auto simp: lwbezier_to_wkb_size_def length_prefix length_enc_pa)
qed

lemma length_hexpair [simp]: "length (hexpair b) = 2"
  by (simp add: hexpair_def)

lemma length_wkb_text: "length (wkb_text v bs) = (if vbit v WKB_HEX then 2 else 1) * length bs"
  by (simp add: wkb_text_def concat_const_length)

text \<open>The default byte order leaves the flags alone that the size depends on.\<close>

definition same_content :: "u8 \<Rightarrow> u8 \<Rightarrow> bool" where
  "same_content v w \<longleftrightarrow> vbit v WKB_ISO = vbit w WKB_ISO \<and> vbit v WKB_EXTENDED = vbit w WKB_EXTENDED \<and>
     vbit v WKB_NO_NPOINTS = vbit w WKB_NO_NPOINTS \<and> vbit v WKB_NO_SRID = vbit w WKB_NO_SRID"

lemma same_content_or: "same_content v w \<Longrightarrow> same_content (v OR f) (w OR f)"
  by (simp add: same_content_def vbit_or)

lemma extended_cong: "same_content v w \<Longrightarrow> vbit v WKB_EXTENDED = vbit w WKB_EXTENDED"
  by (simp add: same_content_def)

lemma needs_srid_cong: "same_content v w \<Longrightarrow> lwgeom_wkb_needs_srid g v = lwgeom_wkb_needs_srid g w"
  by (simp add: same_content_def lwgeom_wkb_needs_srid_def)

lemma ptarray_size_cong: "same_content v w \<Longrightarrow> ptarray_to_wkb_size pa v = ptarray_to_wkb_size pa w"
  unfolding ptarray_to_wkb_size_def vbit_flag_or by (simp add: same_content_def)

lemma empty_size_cong: "same_content v w \<Longrightarrow> empty_to_wkb_size g v = empty_to_wkb_size g w"
  by (simp add: empty_to_wkb_size_def needs_srid_cong)

lemma size_variant_cong: "same_content v w \<Longrightarrow> lwgeom_to_wkb_size g v = lwgeom_to_wkb_size g w"
proof (induction g arbitrary: v w)
  case (LwColl ty h gs)
  have e: "vbit v WKB_EXTENDED = vbit w WKB_EXTENDED" using LwColl.prems by (simp add: same_content_def)
  have "map (\<lambda>g. lwgeom_to_wkb_size g (v OR WKB_NO_SRID)) gs = map (\<lambda>g. lwgeom_to_wkb_size g (w OR WKB_NO_SRID)) gs"
    using LwColl.IH same_content_or[OF LwColl.prems, of WKB_NO_SRID] by auto
  then have "sum_list (map (\<lambda>g. lwgeom_to_wkb_size g (v OR WKB_NO_SRID)) gs)
      = sum_list (map (\<lambda>g. lwgeom_to_wkb_size g (w OR WKB_NO_SRID)) gs)" by (rule arg_cong)
  then show ?case
    using e needs_srid_cong[OF LwColl.prems] empty_size_cong[OF LwColl.prems]
    by (subst (1 2) lwgeom_to_wkb_size.simps) (simp add: lwcollection_to_wkb_size_def)
qed (subst (1 2) lwgeom_to_wkb_size.simps,
     simp add: lwpoint_to_wkb_size_def lwline_to_wkb_size_def lwtriangle_to_wkb_size_def
       lwpoly_to_wkb_size_def lwellipse_to_wkb_size_def lwbezier_to_wkb_size_def needs_srid_cong
       empty_size_cong ptarray_size_cong[OF same_content_or] ptarray_size_cong extended_cong)+

lemma default_order_content: "same_content v (wkb_default_order be v)"
  by (simp add: wkb_default_order_def same_content_def vbit_or) (simp add: vbit_def)

lemma default_order_hex: "vbit (wkb_default_order be v) WKB_HEX = vbit v WKB_HEX"
  by (simp add: wkb_default_order_def vbit_or)

lemma sint_of_nat_small: "n < 2147483648 \<Longrightarrow> sint (of_nat n :: i32) = int n"
  by (subst sint_small) (simp_all add: unsigned_of_nat take_bit_nat_eq_self)

lemma wkb_writer_spec:
  assumes ok: "geom_ok g" and fits: "2 * lwgeom_to_wkb_size g variant + 1 < 2 ^ 31"
  shows "let v = wkb_default_order be variant; bs = wkb_text v (wkb_spec g v)
    in length (wkb_spec g v) = lwgeom_to_wkb_size g variant \<and>
       (\<forall>machine. lwgeom_to_wkb_buf machine g v = Inr bs) \<and>
       lwgeom_to_wkb_buffer be g variant = Inr (if vbit variant WKB_HEX then bs @ [0] else bs) \<and>
       lwgeom_to_wkb_varlena be g variant = Inr bs"
proof -
  let ?v = "wkb_default_order be variant"
  have len: "length (wkb_spec g ?v) = lwgeom_to_wkb_size g variant"
    using wkb_spec_length[OF ok] size_variant_cong[OF default_order_content] by simp
  have w: "lwgeom_to_wkb_write_buf be g variant = Inr (wkb_text ?v (wkb_spec g ?v))"
    using lwgeom_to_wkb_buf_spec[OF ok] by (simp add: lwgeom_to_wkb_write_buf_def)
  have l: "length (wkb_text ?v (wkb_spec g ?v)) = (if vbit variant WKB_HEX then 2 else 1) * lwgeom_to_wkb_size g variant"
    by (simp add: length_wkb_text len default_order_hex)
  have f: "2 * lwgeom_to_wkb_size g variant < 2147483648" using fits by simp
  have s: "sint (of_nat (length (wkb_text ?v (wkb_spec g ?v))) :: i32) = int (length (wkb_text ?v (wkb_spec g ?v)))"
    using f l by (intro sint_of_nat_small) auto
  show ?thesis
    using len lwgeom_to_wkb_buf_spec[OF ok] l s
    by (cases "vbit variant WKB_HEX")
      (simp_all add: Let_def lwgeom_to_wkb_buffer_def lwgeom_to_wkb_varlena_def w)
qed


text \<open>A collection of a point and an empty polygon.\<close>

definition wkb_example :: lwgeom where
  "wkb_example = LwColl COLLECTIONTYPE \<lparr>g_bbox = None, g_srid = 4326, g_flags = lwflags True False False\<rparr>
     [LwPoint (empty_hdr 0 True False) \<lparr>npoints = 1, maxpoints = 1, pa_flags = lwflags True False False,
        serialized_pointlist = [0x3FF0000000000000, 0x4000000000000000, 0x4008000000000000]\<rparr>,
      lwpoly_construct_empty 0 True False]"

lemma wkb_example_ok: "geom_ok wkb_example"
  by (simp add: wkb_example_def lwpoly_construct_empty_def lwtype_is_collection_def pa_ok_def pa_wf_def
    FLAGS_NDIMS_bits flags_simps)

lemma wkb_example_size: "lwgeom_to_wkb_size wkb_example (WKB_EXTENDED OR WKB_HEX) = 51"
  by code_simp


end
