(* ===== verification/WkbIn.thy ===== *)
theory WkbIn
  imports LwGeom
begin

text \<open>
  The well-known-binary parser (liblwgeom/lwin_wkb.c). The state is the C struct, with the bytes
  from \<open>pos\<close> to the end of the input in place of \<open>wkb\<close>, \<open>wkb_size\<close> and \<open>pos\<close>. Since \<open>lwerror\<close>
  does not return, the \<open>error\<close> flag is never seen set and is left out. The recursion of
  \<open>lwgeom_from_wkb_state\<close> takes the call depth still available; the loops run over their counts.
  \<open>be\<close> is the byte order of the machine.
\<close>

section \<open>State and scalars\<close>

record wkb_parse_state =
  pos :: "u8 list"
  st_srid :: i32
  swap_bytes :: bool
  st_check :: u8
  st_lwtype :: u8
  has_z :: bool
  has_m :: bool
  has_srid :: bool
  st_depth :: u8

abbreviation LW_PARSER_MAX_DEPTH :: u8 where "LW_PARSER_MAX_DEPTH \<equiv> 200"
abbreviation LW_PARSER_CHECK_MINPOINTS :: u8 where "LW_PARSER_CHECK_MINPOINTS \<equiv> 1"
abbreviation LW_PARSER_CHECK_ODD :: u8 where "LW_PARSER_CHECK_ODD \<equiv> 2"
abbreviation LW_PARSER_CHECK_CLOSURE :: u8 where "LW_PARSER_CHECK_CLOSURE \<equiv> 4"
abbreviation LW_PARSER_CHECK_ZCLOSURE :: u8 where "LW_PARSER_CHECK_ZCLOSURE \<equiv> 8"

definition checks :: "wkb_parse_state \<Rightarrow> u8 \<Rightarrow> bool" where
  "checks s c \<longleftrightarrow> st_check s AND c \<noteq> 0"

definition wkb_parse_state_check :: "wkb_parse_state \<Rightarrow> nat \<Rightarrow> unit res" where
  "wkb_parse_state_check s next =
     (if length (pos s) < next then Inl (LwError ''WKB structure does not match expected size!'')
      else Inr ())"

definition byte_from_wkb_state :: "wkb_parse_state \<Rightarrow> (u8 \<times> wkb_parse_state) res" where
  "byte_from_wkb_state s =
     rbind (wkb_parse_state_check s 1) (\<lambda>_. Inr (hd (pos s), s\<lparr>pos := tl (pos s)\<rparr>))"

text \<open>The loop that turns the bytes of an object around.\<close>

definition swap_object :: "u8 list \<Rightarrow> u8 list" where
  "swap_object bs =
     fold (\<lambda>j bs. bs[j := bs ! (length bs - 1 - j), length bs - 1 - j := bs ! j])
       [0..<length bs div 2] bs"

definition integer_from_wkb_state :: "bool \<Rightarrow> wkb_parse_state \<Rightarrow> (u32 \<times> wkb_parse_state) res" where
  "integer_from_wkb_state be s =
     rbind (wkb_parse_state_check s 4) (\<lambda>_.
       let i = take 4 (pos s)
       in Inr (mem_word be (if swap_bytes s then swap_object i else i), s\<lparr>pos := drop 4 (pos s)\<rparr>))"

definition double_from_wkb_state :: "bool \<Rightarrow> wkb_parse_state \<Rightarrow> (dbl \<times> wkb_parse_state) res" where
  "double_from_wkb_state be s =
     (if length (pos s) < 8 then Inl MemFault
      else
        let d = take 8 (pos s)
        in Inr (mem_word be (if swap_bytes s then swap_object d else d), s\<lparr>pos := drop 8 (pos s)\<rparr>))"

primrec doubles_from_wkb_state :: "bool \<Rightarrow> nat \<Rightarrow> wkb_parse_state \<Rightarrow> (dbl list \<times> wkb_parse_state) res" where
  "doubles_from_wkb_state be 0 s = Inr ([], s)"
| "doubles_from_wkb_state be (Suc n) s =
     rbind (double_from_wkb_state be s) (\<lambda>(d, s).
       rbind (doubles_from_wkb_state be n s) (\<lambda>(ds, s). Inr (d # ds, s)))"

section \<open>Types\<close>

definition lwtype_of_wkb :: "u32 \<Rightarrow> u8 option" where
  "lwtype_of_wkb wkb_simple_type =
     (if wkb_simple_type = 1 then Some POINTTYPE
      else if wkb_simple_type = 2 then Some LINETYPE
      else if wkb_simple_type = 3 then Some POLYGONTYPE
      else if wkb_simple_type = 4 then Some MULTIPOINTTYPE
      else if wkb_simple_type = 5 then Some MULTILINETYPE
      else if wkb_simple_type = 6 then Some MULTIPOLYGONTYPE
      else if wkb_simple_type = 7 then Some COLLECTIONTYPE
      else if wkb_simple_type = 8 then Some CIRCSTRINGTYPE
      else if wkb_simple_type = 9 then Some COMPOUNDTYPE
      else if wkb_simple_type = 10 then Some CURVEPOLYTYPE
      else if wkb_simple_type = 11 then Some MULTICURVETYPE
      else if wkb_simple_type = 12 then Some MULTISURFACETYPE
      else if wkb_simple_type = 15 then Some POLYHEDRALSURFACETYPE
      else if wkb_simple_type = 16 then Some TINTYPE
      else if wkb_simple_type = 17 then Some TRIANGLETYPE
      else if wkb_simple_type = 13 then Some CURVEPOLYTYPE
      else if wkb_simple_type = 14 then Some MULTICURVETYPE
      else if wkb_simple_type = 18 then Some ELLIPSETYPE
      else if wkb_simple_type = 19 then Some BEZIERTYPE
      else None)"

definition lwtype_from_wkb_state :: "wkb_parse_state \<Rightarrow> u32 \<Rightarrow> wkb_parse_state res" where
  "lwtype_from_wkb_state s wkb_type =
     (let s = s\<lparr>has_z := False, has_m := False, has_srid := False\<rparr>;
          s = (if wkb_type AND 0xF0000000 \<noteq> 0
               then s\<lparr>has_z := (wkb_type AND 0x80000000 \<noteq> 0), has_m := (wkb_type AND 0x40000000 \<noteq> 0),
                      has_srid := (wkb_type AND 0x20000000 \<noteq> 0)\<rparr>
               else s);
          wkb_type = wkb_type AND 0x0FFFFFFF
      in if 4000 \<le> wkb_type then Inl (LwError ''Unknown WKB type (%d)!'')
         else
           let wkb_simple_type = wkb_type mod 1000;
               s = (if 3000 \<le> wkb_type \<and> wkb_type < 4000 then s\<lparr>has_z := True, has_m := True\<rparr>
                    else if 2000 \<le> wkb_type \<and> wkb_type < 3000 then s\<lparr>has_m := True\<rparr>
                    else if 1000 \<le> wkb_type \<and> wkb_type < 2000 then s\<lparr>has_z := True\<rparr>
                    else s)
           in case lwtype_of_wkb wkb_simple_type of
                None \<Rightarrow> Inl (LwError ''Unknown WKB type (%d)! Full WKB type number was (%d).'')
              | Some ty \<Rightarrow> Inr (s\<lparr>st_lwtype := ty\<rparr>))"

section \<open>Point arrays and simple geometries\<close>

definition st_ndims :: "wkb_parse_state \<Rightarrow> nat" where
  "st_ndims s = 2 + (if has_z s then 1 else 0) + (if has_m s then 1 else 0)"

text \<open>\<open>n\<close> points, copied or read double by double.\<close>

definition points_from_wkb_state :: "bool \<Rightarrow> u32 \<Rightarrow> wkb_parse_state \<Rightarrow> (ptarray \<times> wkb_parse_state) res" where
  "points_from_wkb_state be n s =
     (let ndims = st_ndims s;
          pa_size = unat (n * of_nat ndims * 8 :: u32)
      in rbind (wkb_parse_state_check s pa_size) (\<lambda>_.
           if \<not> swap_bytes s
           then Inr (ptarray_construct_copy_data (has_z s) (has_m s) n
                       (map (mem_word be) (chunks 8 (pa_size div 8) (pos s))),
                     s\<lparr>pos := drop pa_size (pos s)\<rparr>)
           else rbind (doubles_from_wkb_state be (unat (n * of_nat ndims)) s) (\<lambda>(dlist, s).
             Inr ((ptarray_construct_empty (has_z s) (has_m s) n)
                    \<lparr>npoints := n, serialized_pointlist := dlist\<rparr>, s))))"

definition ptarray_from_wkb_state :: "bool \<Rightarrow> wkb_parse_state \<Rightarrow> (ptarray \<times> wkb_parse_state) res" where
  "ptarray_from_wkb_state be s =
     rbind (integer_from_wkb_state be s) (\<lambda>(n, s).
       if (0xFFFFFFFF :: u32) div 8 div 4 < n then Inl (LwError ''Pointarray length (%d) is too large'')
       else if n = 0 then Inr ((ptarray_construct_empty (has_z s) (has_m s) n)\<lparr>npoints := n\<rparr>, s)
       else points_from_wkb_state be n s)"

definition lwpoint_from_wkb_state :: "bool \<Rightarrow> wkb_parse_state \<Rightarrow> (lwgeom \<times> wkb_parse_state) res" where
  "lwpoint_from_wkb_state be s =
     rbind (points_from_wkb_state be 1 s) (\<lambda>(pa, s).
       let pt = getPoint_internal pa 0
       in if isnan (pt ! 0) \<and> isnan (pt ! 1)
          then Inr (lwpoint_construct_empty (st_srid s) (has_z s) (has_m s), s)
          else Inr (lwpoint_construct (st_srid s) None pa, s))"

definition lwline_from_wkb_state :: "bool \<Rightarrow> wkb_parse_state \<Rightarrow> (lwgeom \<times> wkb_parse_state) res" where
  "lwline_from_wkb_state be s =
     rbind (ptarray_from_wkb_state be s) (\<lambda>(pa, s).
       if npoints pa = 0 then Inr (lwline_construct_empty (st_srid s) (has_z s) (has_m s), s)
       else if checks s LW_PARSER_CHECK_MINPOINTS \<and> npoints pa < 2
       then Inl (LwError ''%s must have at least two points'')
       else Inr (lwline_construct (st_srid s) None pa, s))"

definition lwcircstring_from_wkb_state :: "bool \<Rightarrow> wkb_parse_state \<Rightarrow> (lwgeom \<times> wkb_parse_state) res" where
  "lwcircstring_from_wkb_state be s =
     rbind (ptarray_from_wkb_state be s) (\<lambda>(pa, s).
       if npoints pa = 0 then Inr (lwcircstring_construct_empty (st_srid s) (has_z s) (has_m s), s)
       else if checks s LW_PARSER_CHECK_MINPOINTS \<and> npoints pa < 3
       then Inl (LwError ''%s must have at least three points'')
       else if checks s LW_PARSER_CHECK_ODD \<and> npoints pa mod 2 = 0
       then Inl (LwError ''%s must have an odd number of points'')
       else Inr (lwcircstring_construct (st_srid s) None pa, s))"

primrec rings_from_wkb_state ::
  "bool \<Rightarrow> nat \<Rightarrow> ptarray list \<Rightarrow> wkb_parse_state \<Rightarrow> (ptarray list \<times> wkb_parse_state) res" where
  "rings_from_wkb_state be 0 rings s = Inr (rings, s)"
| "rings_from_wkb_state be (Suc n) rings s =
     rbind (ptarray_from_wkb_state be s) (\<lambda>(pa, s).
       if checks s LW_PARSER_CHECK_MINPOINTS \<and> npoints pa < 4
       then Inl (LwError ''%s must have at least four points in each ring'')
       else if checks s LW_PARSER_CHECK_CLOSURE \<and> ptarray_is_closed_2d pa = 0
       then Inl (LwError ''%s must have closed rings'')
       else rings_from_wkb_state be n (lwpoly_add_ring rings pa) s)"

definition lwpoly_from_wkb_state :: "bool \<Rightarrow> wkb_parse_state \<Rightarrow> (lwgeom \<times> wkb_parse_state) res" where
  "lwpoly_from_wkb_state be s =
     rbind (integer_from_wkb_state be s) (\<lambda>(nrings, s).
       let hdr = empty_hdr (st_srid s) (has_z s) (has_m s)
       in rbind (rings_from_wkb_state be (unat nrings) [] s) (\<lambda>(rings, s). Inr (LwPoly hdr rings, s)))"

definition lwtriangle_from_wkb_state :: "bool \<Rightarrow> wkb_parse_state \<Rightarrow> (lwgeom \<times> wkb_parse_state) res" where
  "lwtriangle_from_wkb_state be s =
     rbind (integer_from_wkb_state be s) (\<lambda>(nrings, s).
       if nrings = 0 then Inr (lwtriangle_construct_empty (st_srid s) (has_z s) (has_m s), s)
       else if nrings \<noteq> 1 then Inl (LwError ''Triangle has wrong number of rings: %d'')
       else rbind (ptarray_from_wkb_state be s) (\<lambda>(pa, s).
         if checks s LW_PARSER_CHECK_MINPOINTS \<and> npoints pa < 4
         then Inl (LwError ''%s must have at least four points'')
         else if checks s LW_PARSER_CHECK_ZCLOSURE \<and> ptarray_is_closed_z pa = 0
         then Inl (LwError ''%s must have closed rings'')
         else Inr (lwtriangle_construct (st_srid s) None pa, s)))"

definition lwellipse_from_wkb_state :: "bool \<Rightarrow> wkb_parse_state \<Rightarrow> (lwgeom \<times> wkb_parse_state) res" where
  "lwellipse_from_wkb_state be s =
     (let srid = st_srid s
      in rbind (ptarray_from_wkb_state be s) (\<lambda>(pa, s).
         rbind (double_from_wkb_state be s) (\<lambda>(minor, s).
         rbind (double_from_wkb_state be s) (\<lambda>(clockwise, s).
         rbind (double_from_wkb_state be s) (\<lambda>(rotation, s).
         rbind (double_from_wkb_state be s) (\<lambda>(axis, s).
         rbind (double_from_wkb_state be s) (\<lambda>(ratio, s).
           Inr (LwEllipse \<lparr>g_bbox = None, g_srid = srid, g_flags = pa_flags pa\<rparr>
                  \<lparr>el_points = pa, el_minor = minor, el_clockwise = clockwise, el_rotation = rotation,
                   el_axis = axis, el_ratio = ratio\<rparr>, s))))))))"

definition lwbezier_from_wkb_state :: "bool \<Rightarrow> wkb_parse_state \<Rightarrow> (lwgeom \<times> wkb_parse_state) res" where
  "lwbezier_from_wkb_state be s =
     (let srid = st_srid s
      in rbind (ptarray_from_wkb_state be s) (\<lambda>(pa, s).
           Inr (LwBezier \<lparr>g_bbox = None, g_srid = srid, g_flags = pa_flags pa\<rparr> pa, s)))"

section \<open>Collections\<close>

text \<open>\<open>rd\<close> reads one geometry; \<open>add\<close> adds it to those read before.\<close>

primrec members_from_wkb_state ::
  "(wkb_parse_state \<Rightarrow> (lwgeom \<times> wkb_parse_state) res) \<Rightarrow> (lwgeom list \<Rightarrow> lwgeom \<Rightarrow> lwgeom list res)
   \<Rightarrow> nat \<Rightarrow> lwgeom list \<Rightarrow> wkb_parse_state \<Rightarrow> (lwgeom list \<times> wkb_parse_state) res" where
  "members_from_wkb_state rd add 0 gs s = Inr (gs, s)"
| "members_from_wkb_state rd add (Suc n) gs s =
     rbind (rd s) (\<lambda>(g, s). rbind (add gs g) (\<lambda>gs. members_from_wkb_state rd add n gs s))"

definition lwcurvepoly_from_wkb_state ::
  "bool \<Rightarrow> (wkb_parse_state \<Rightarrow> (lwgeom \<times> wkb_parse_state) res) \<Rightarrow> wkb_parse_state
   \<Rightarrow> (lwgeom \<times> wkb_parse_state) res" where
  "lwcurvepoly_from_wkb_state be rd s =
     rbind (integer_from_wkb_state be s) (\<lambda>(ngeoms, s).
       let hdr = empty_hdr (st_srid s) (has_z s) (has_m s)
       in rbind (members_from_wkb_state rd
             (\<lambda>gs g. case lwcurvepoly_add_ring gs g of
                None \<Rightarrow> Inl (LwError ''Unable to add geometry (%p) to curvepoly (%p)'')
              | Some gs \<Rightarrow> Inr gs) (unat ngeoms) [] s) (\<lambda>(gs, s). Inr (LwColl CURVEPOLYTYPE hdr gs, s)))"

definition lwcollection_from_wkb_state ::
  "bool \<Rightarrow> (wkb_parse_state \<Rightarrow> (lwgeom \<times> wkb_parse_state) res) \<Rightarrow> wkb_parse_state
   \<Rightarrow> (lwgeom \<times> wkb_parse_state) res" where
  "lwcollection_from_wkb_state be rd s =
     rbind (integer_from_wkb_state be s) (\<lambda>(ngeoms, s).
       let ty = st_lwtype s
       in rbind (lwcollection_construct_empty ty (st_srid s) (has_z s) (has_m s)) (\<lambda>col.
         if ngeoms = 0 then Inr (col, s)
         else
           let s = (if ty = POLYHEDRALSURFACETYPE
                    then s\<lparr>st_check := st_check s OR LW_PARSER_CHECK_ZCLOSURE\<rparr> else s);
               s = s\<lparr>st_depth := st_depth s + 1\<rparr>
           in if LW_PARSER_MAX_DEPTH \<le> st_depth s
              then Inl (LwError ''Geometry has too many chained collections'')
              else rbind (members_from_wkb_state rd (lwcollection_add_lwgeom ty) (unat ngeoms) [] s)
                (\<lambda>(gs, s). Inr (LwColl ty (g_hdr col) gs, s\<lparr>st_depth := st_depth s - 1\<rparr>))))"

section \<open>Geometries\<close>

text \<open>The part of \<open>lwgeom_from_wkb_state\<close> before the switch: endian byte, type number and SRID.\<close>

definition header_from_wkb_state :: "bool \<Rightarrow> wkb_parse_state \<Rightarrow> wkb_parse_state res" where
  "header_from_wkb_state be s =
     rbind (byte_from_wkb_state s) (\<lambda>(wkb_little_endian, s).
       if wkb_little_endian \<noteq> 1 \<and> wkb_little_endian \<noteq> 0
       then Inl (LwError ''Invalid endian flag value encountered.'')
       else
         let s = s\<lparr>swap_bytes := (if be \<and> wkb_little_endian \<noteq> 0 then True
                                   else if \<not> be \<and> wkb_little_endian = 0 then True
                                   else False)\<rparr>
         in rbind (integer_from_wkb_state be s) (\<lambda>(wkb_type, s).
            rbind (lwtype_from_wkb_state s wkb_type) (\<lambda>s.
              if has_srid s
              then rbind (integer_from_wkb_state be s) (\<lambda>(i, s). Inr (s\<lparr>st_srid := clamp_srid i\<rparr>))
              else Inr s)))"

text \<open>The switch; \<open>rd\<close> is the recursive call.\<close>

definition body_from_wkb_state ::
  "bool \<Rightarrow> (wkb_parse_state \<Rightarrow> (lwgeom \<times> wkb_parse_state) res) \<Rightarrow> wkb_parse_state
   \<Rightarrow> (lwgeom \<times> wkb_parse_state) res" where
  "body_from_wkb_state be rd s =
     (if st_lwtype s = POINTTYPE then lwpoint_from_wkb_state be s
      else if st_lwtype s = LINETYPE then lwline_from_wkb_state be s
      else if st_lwtype s = CIRCSTRINGTYPE then lwcircstring_from_wkb_state be s
      else if st_lwtype s = POLYGONTYPE then lwpoly_from_wkb_state be s
      else if st_lwtype s = TRIANGLETYPE then lwtriangle_from_wkb_state be s
      else if st_lwtype s = CURVEPOLYTYPE then lwcurvepoly_from_wkb_state be rd s
      else if st_lwtype s = ELLIPSETYPE then lwellipse_from_wkb_state be s
      else if st_lwtype s = BEZIERTYPE then lwbezier_from_wkb_state be s
      else if st_lwtype s \<in> {MULTIPOINTTYPE, MULTILINETYPE, MULTIPOLYGONTYPE, COMPOUNDTYPE,
          MULTICURVETYPE, MULTISURFACETYPE, POLYHEDRALSURFACETYPE, TINTYPE, COLLECTIONTYPE}
      then lwcollection_from_wkb_state be rd s
      else Inl (LwError ''%s: Unsupported geometry type: %s''))"

primrec lwgeom_from_wkb_state :: "bool \<Rightarrow> nat \<Rightarrow> wkb_parse_state \<Rightarrow> (lwgeom \<times> wkb_parse_state) res" where
  "lwgeom_from_wkb_state be 0 s = Inl StackOverflow"
| "lwgeom_from_wkb_state be (Suc d) s =
     rbind (header_from_wkb_state be s) (\<lambda>s. body_from_wkb_state be (lwgeom_from_wkb_state be d) s)"

definition wkb_initial_state :: "u8 list \<Rightarrow> u8 \<Rightarrow> wkb_parse_state" where
  "wkb_initial_state wkb chk =
     \<lparr>pos = wkb, st_srid = SRID_UNKNOWN, swap_bytes = False, st_check = chk, st_lwtype = 0,
      has_z = False, has_m = False, has_srid = False, st_depth = 1\<rparr>"

text \<open>\<open>None\<close> is the NULL for an empty input; \<open>d\<close> is the call depth the stack allows.\<close>

definition lwgeom_from_wkb :: "bool \<Rightarrow> nat \<Rightarrow> u8 list \<Rightarrow> u8 \<Rightarrow> lwgeom option res" where
  "lwgeom_from_wkb be d wkb chk =
     (if wkb = [] then Inr None
      else rbind (lwgeom_from_wkb_state be d (wkb_initial_state wkb chk)) (\<lambda>(g, s). Inr (Some g)))"

section \<open>Hexadecimal input\<close>

definition hex2char :: "u8 list" where
  "hex2char = replicate 48 20 @ [0,1,2,3,4,5,6,7,8,9] @ replicate 7 20 @ [10,11,12,13,14,15]
     @ replicate 26 20 @ [10,11,12,13,14,15] @ replicate 153 20"

text \<open>
  The index is \<open>(int)hexbuf[i]\<close>: where plain \<open>char\<close> is signed (\<open>sc\<close>), the bytes from 128 index
  before the table.
\<close>

definition hex_digit :: "bool \<Rightarrow> u8 \<Rightarrow> u8 res" where
  "hex_digit sc c = (if sc \<and> 128 \<le> c then Inl MemFault else Inr (hex2char ! unat c))"

fun hex_pairs :: "bool \<Rightarrow> u8 list \<Rightarrow> u8 list res" where
  "hex_pairs sc (c1 # c2 # cs) =
     rbind (hex_digit sc c1) (\<lambda>h1. rbind (hex_digit sc c2) (\<lambda>h2.
       if 15 < h1 \<or> 15 < h2 then Inl (LwError ''Invalid hex character (%c) encountered'')
       else rbind (hex_pairs sc cs) (\<lambda>bs.
         Inr ((push_bit 4 (h1 AND 0x0F) OR (h2 AND 0x0F)) # bs))))"
| "hex_pairs sc _ = Inr []"

definition bytes_from_hexbytes :: "bool \<Rightarrow> u8 list \<Rightarrow> u8 list res" where
  "bytes_from_hexbytes sc hexbuf =
     (if length hexbuf mod 2 \<noteq> 0
      then Inl (LwError ''Invalid hex string, length (%d) has to be a multiple of two!'')
      else hex_pairs sc hexbuf)"

text \<open>\<open>hexwkb\<close> are the characters before the NUL; the length is taken as an \<open>int\<close>.\<close>

definition lwgeom_from_hexwkb :: "bool \<Rightarrow> bool \<Rightarrow> nat \<Rightarrow> u8 list \<Rightarrow> u8 \<Rightarrow> lwgeom option res" where
  "lwgeom_from_hexwkb sc be d hexwkb chk =
     rbind (bytes_from_hexbytes sc hexwkb) (\<lambda>wkb. lwgeom_from_wkb be d wkb chk)"

end
