(* ===== verification/WkbRoundtrip.thy ===== *)
theory WkbRoundtrip
  imports WkbSpec WkbIn
begin

text \<open>
  Parsing what was written. \<open>wkb_canon\<close> is the geometry that comes back: the dimension flags only,
  no box, the SRID clamped and inherited, storage of the exact size, POINT(NaN NaN) and empty
  arrays as the empty geometries the constructors make.
\<close>

section \<open>Reading scalars and points\<close>

text \<open>\<open>reads v be s\<close>: the parser turns bytes around as the variant asks for on this machine.\<close>

definition reads :: "u8 \<Rightarrow> bool \<Rightarrow> wkb_parse_state \<Rightarrow> bool" where
  "reads v be s \<longleftrightarrow> swap_bytes s = (be = vbit v WKB_NDR)"

lemma swap_object_rev: "swap_object bs = rev bs"
  unfolding swap_object_def by (rule rev_by_swaps_all)

lemma mem_word_read:
  assumes "reads v be s" and "LENGTH('a) \<le> 8 * n"
  shows "mem_word be (if swap_bytes s then swap_object (mem_bytes (\<not> vbit v WKB_NDR) n w)
     else mem_bytes (\<not> vbit v WKB_NDR) n w) = (w :: 'a::len word)"
  using assms by (auto simp: reads_def swap_object_rev rev_mem_bytes)

lemma read_int:
  assumes "reads v be s" and "pos s = enc_int v i @ rest"
  shows "integer_from_wkb_state be s = Inr (i, s\<lparr>pos := rest\<rparr>)"
  using mem_word_read[OF assms(1), where n = 4 and w = i] assms(2)
  by (simp add: integer_from_wkb_state_def wkb_parse_state_check_def enc_int_def Let_def)

lemma read_double:
  assumes "reads v be s" and "pos s = enc_dbl v d @ rest"
  shows "double_from_wkb_state be s = Inr (d, s\<lparr>pos := rest\<rparr>)"
  using mem_word_read[OF assms(1), where n = 8 and w = d] assms(2)
  by (simp add: double_from_wkb_state_def enc_dbl_def Let_def)

lemma reads_pos [simp]: "reads v be (s\<lparr>pos := p\<rparr>) = reads v be s"
  by (simp add: reads_def)

lemma read_doubles:
  "reads v be s \<Longrightarrow> pos s = concat (map (enc_dbl v) ds) @ rest \<Longrightarrow>
   doubles_from_wkb_state be (length ds) s = Inr (ds, s\<lparr>pos := rest\<rparr>)"
proof (induction ds arbitrary: s)
  case Nil
  then show ?case by simp
next
  case (Cons d ds)
  let ?s = "s\<lparr>pos := concat (map (enc_dbl v) ds) @ rest\<rparr>"
  have "double_from_wkb_state be s = Inr (d, ?s)" using Cons.prems by (intro read_double) simp_all
  then show ?case using Cons.IH[of ?s] Cons.prems by simp
qed

definition built_pa :: "bool \<Rightarrow> bool \<Rightarrow> u32 \<Rightarrow> dbl list \<Rightarrow> ptarray" where
  "built_pa z m n ds =
     \<lparr>npoints = n, maxpoints = n, pa_flags = lwflags z m False, serialized_pointlist = ds\<rparr>"

lemma lwflags_ndims: "FLAGS_NDIMS (lwflags z m g) = 2 + of_bool z + of_bool m"
  by (simp add: FLAGS_NDIMS_bits flags_simps)

lemma read_points:
  assumes r: "reads v be s" and p: "pos s = concat (map (enc_dbl v) ds) @ rest"
    and l: "length ds = unat n * st_ndims s" and sz: "unat n * st_ndims s * 8 < 2 ^ 32"
  shows "points_from_wkb_state be n s = Inr (built_pa (has_z s) (has_m s) n ds, s\<lparr>pos := rest\<rparr>)"
proof -
  have u8: "unat (n * of_nat (st_ndims s) * 8 :: u32) = 8 * length ds"
    using unat_mult3[OF sz] l by simp
  have "unat n * st_ndims s * 1 < 2 ^ 32" using sz by linarith
  from unat_mult3[OF this] have u1: "unat (n * of_nat (st_ndims s) :: u32) = length ds" using l by simp
  have lb: "length (concat (map (enc_dbl v) ds)) = 8 * length ds" by (rule concat_const_length) simp
  have nd: "FLAGS_NDIMS (lwflags (has_z s) (has_m s) False) = st_ndims s"
    by (simp add: lwflags_ndims st_ndims_def)
  have c: "wkb_parse_state_check s (8 * length ds) = Inr ()"
    using lb by (simp add: wkb_parse_state_check_def p)
  have d: "drop (8 * length ds) (pos s) = rest" using lb by (simp add: p)
  show ?thesis
  proof (cases "swap_bytes s")
    case True
    then show ?thesis using read_doubles[OF r p]
      by (simp add: points_from_wkb_state_def Let_def u8 u1 c built_pa_def ptarray_construct_empty_def)
  next
    case False
    then have be: "be = (\<not> vbit v WKB_NDR)" using r by (auto simp: reads_def)
    have "chunks 8 (length ds) (pos s) = map (enc_dbl v) ds"
      unfolding p by (rule chunks_concat) simp_all
    then have "map (mem_word be) (chunks 8 (length ds) (pos s)) = ds"
      by (simp add: comp_def enc_dbl_def be)
    then show ?thesis using False nd
      by (simp add: points_from_wkb_state_def Let_def u8 c d built_pa_def
          ptarray_construct_copy_data_def l[symmetric])
  qed
qed

section \<open>Reading point arrays\<close>

text \<open>An array that agrees with the dimensions of its geometry and that the parser accepts.\<close>

definition pa_rt :: "lwhdr \<Rightarrow> ptarray \<Rightarrow> bool" where
  "pa_rt h pa \<longleftrightarrow> pa_wf pa \<and> npoints pa \<le> 134217727 \<and>
     FLAGS_GET_Z (pa_flags pa) = FLAGS_GET_Z (g_flags h) \<and> FLAGS_GET_M (pa_flags pa) = FLAGS_GET_M (g_flags h)"

definition hdr_z :: "lwhdr \<Rightarrow> bool" where "hdr_z h = (FLAGS_GET_Z (g_flags h) \<noteq> 0)"
definition hdr_m :: "lwhdr \<Rightarrow> bool" where "hdr_m h = (FLAGS_GET_M (g_flags h) \<noteq> 0)"

definition canon_pa :: "lwhdr \<Rightarrow> ptarray \<Rightarrow> ptarray" where
  "canon_pa h pa = built_pa (hdr_z h) (hdr_m h) (npoints pa) (serialized_pointlist pa)"

lemma pa_rt_ndims: "pa_rt h pa \<Longrightarrow> pa_ndims pa = 2 + of_bool (hdr_z h) + of_bool (hdr_m h)"
  by (simp add: pa_rt_def FLAGS_NDIMS_def hdr_z_def hdr_m_def) (simp add: flags_simps)

lemma pa_rt_size: "pa_rt h pa \<Longrightarrow> unat (npoints pa) * pa_ndims pa * 8 < 2 ^ 32"
proof -
  assume a: "pa_rt h pa"
  then have "unat (npoints pa) \<le> 134217727" by (simp add: pa_rt_def word_le_nat_alt)
  moreover have "pa_ndims pa \<le> 4" using FLAGS_NDIMS_cases[of "pa_flags pa"] by auto
  ultimately have "unat (npoints pa) * pa_ndims pa * 8 \<le> 134217727 * 4 * 8" by (intro mult_le_mono) simp_all
  then show ?thesis by simp
qed

lemma pa_rt_ok: "pa_rt h pa \<Longrightarrow> pa_ok pa"
  using pa_rt_size[of h pa] by (simp add: pa_ok_def pa_rt_def)

definition full_dims :: "u8 \<Rightarrow> bool" where
  "full_dims v \<longleftrightarrow> vbit v WKB_ISO \<or> vbit v WKB_EXTENDED"

lemma enc_pa_ordinates:
  assumes "pa_rt h pa" and "full_dims v"
  shows "enc_pa v pa = (if vbit v WKB_NO_NPOINTS then [] else enc_int v (npoints pa)) @
    concat (map (enc_dbl v) (serialized_pointlist pa))"
proof -
  have wf: "pa_wf pa" using assms by (simp add: pa_rt_def)
  have "concat (map (\<lambda>p. concat (map (enc_dbl v) (take (wkb_dims v pa) p))) (pa_points pa))
      = concat (map (\<lambda>p. concat (map (enc_dbl v) p)) (pa_points pa))"
    using assms(2) pa_points_dims[OF wf]
    by (intro arg_cong[of _ _ concat] map_cong) (auto simp: wkb_dims_def full_dims_def)
  then show ?thesis
    unfolding enc_pa_def pa_concat[OF wf] concat_map_concat by simp
qed

definition st_dims :: "lwhdr \<Rightarrow> wkb_parse_state \<Rightarrow> bool" where
  "st_dims h s \<longleftrightarrow> has_z s = hdr_z h \<and> has_m s = hdr_m h"

lemma st_dims_pos [simp]: "st_dims h (s\<lparr>pos := p\<rparr>) = st_dims h s"
  by (simp add: st_dims_def)

lemma st_dims_ndims: "st_dims h s \<Longrightarrow> pa_rt h pa \<Longrightarrow> st_ndims s = pa_ndims pa"
  by (simp add: pa_rt_ndims st_dims_def st_ndims_def)

lemma read_points_of:
  assumes "reads v be s" and "pos s = concat (map (enc_dbl v) (serialized_pointlist pa)) @ rest"
    and "st_dims h s" and "pa_rt h pa"
  shows "points_from_wkb_state be (npoints pa) s = Inr (canon_pa h pa, s\<lparr>pos := rest\<rparr>)"
proof -
  have "length (serialized_pointlist pa) = unat (npoints pa) * st_ndims s"
    using assms st_dims_ndims[OF assms(3,4)] by (simp add: pa_rt_def pa_wf_def)
  moreover have "unat (npoints pa) * st_ndims s * 8 < 2 ^ 32"
    using pa_rt_size[OF assms(4)] st_dims_ndims[OF assms(3,4)] by simp
  ultimately show ?thesis
    using read_points[OF assms(1,2)] assms(3) by (simp add: canon_pa_def st_dims_def)
qed

lemma read_ptarray:
  assumes "reads v be s" and "pos s = enc_pa v pa @ rest" and "\<not> vbit v WKB_NO_NPOINTS" and "full_dims v"
    and "st_dims h s" and "pa_rt h pa"
  shows "ptarray_from_wkb_state be s = Inr (canon_pa h pa, s\<lparr>pos := rest\<rparr>)"
proof -
  let ?s = "s\<lparr>pos := concat (map (enc_dbl v) (serialized_pointlist pa)) @ rest\<rparr>"
  have p: "pos s = enc_int v (npoints pa) @ concat (map (enc_dbl v) (serialized_pointlist pa)) @ rest"
    using assms(2,3) enc_pa_ordinates[OF assms(6,4)] by simp
  have i: "integer_from_wkb_state be s = Inr (npoints pa, ?s)" by (rule read_int[OF assms(1) p])
  have le: "npoints pa \<le> 134217727" using assms(6) by (simp add: pa_rt_def)
  show ?thesis
  proof (cases "npoints pa = 0")
    case True
    then have "serialized_pointlist pa = []" using assms(6) by (simp add: pa_rt_def pa_wf_def)
    then show ?thesis using True i assms(5)
      by (simp add: ptarray_from_wkb_state_def canon_pa_def built_pa_def ptarray_construct_empty_def st_dims_def)
  next
    case False
    have "points_from_wkb_state be (npoints pa) ?s = Inr (canon_pa h pa, ?s\<lparr>pos := rest\<rparr>)"
      using assms by (intro read_points_of) simp_all
    then show ?thesis using False i le by (simp add: ptarray_from_wkb_state_def leD)
  qed
qed

section \<open>Reading the header\<close>

lemma lwtype_of_simple: "wkb_simple_type ty = Some t \<Longrightarrow> lwtype_of_wkb t = Some ty \<and> t \<le> 19"
  by (auto simp: wkb_simple_type_def lwtype_of_wkb_def split: if_splits)

definition ext_type :: "u32 \<Rightarrow> bool \<Rightarrow> bool \<Rightarrow> bool \<Rightarrow> u32" where
  "ext_type t z m r =
     (let t = (if z then t OR WKBZOFFSET else t); t = (if m then t OR WKBMOFFSET else t)
      in if r then t OR WKBSRIDFLAG else t)"

definition iso_type :: "u32 \<Rightarrow> bool \<Rightarrow> bool \<Rightarrow> u32" where
  "iso_type t z m = (let t = (if z then t + 1000 else t) in if m then t + 2000 else t)"

lemma small_word_cases:
  assumes "(t :: u32) \<le> 19"
  shows "t \<in> set (map of_nat [0..<20])"
proof -
  have "unat t \<le> 19" using assms by (simp add: word_le_nat_alt)
  then have "unat t \<in> set [0..<20]" by simp
  moreover have "t = of_nat (unat t)" by simp
  ultimately show ?thesis by (metis image_eqI list.set_map)
qed

lemma ext_type_fields:
  "list_all (\<lambda>t. list_all (\<lambda>z. list_all (\<lambda>m. list_all (\<lambda>r.
     let x = ext_type t z m r in
       (x AND 0xF0000000 \<noteq> 0 \<longleftrightarrow> z \<or> m \<or> r) \<and> (x AND 0x80000000 \<noteq> 0 \<longleftrightarrow> z) \<and>
       (x AND 0x40000000 \<noteq> 0 \<longleftrightarrow> m) \<and> (x AND 0x20000000 \<noteq> 0 \<longleftrightarrow> r) \<and> x AND 0x0FFFFFFF = t)
     [True, False]) [True, False]) [True, False]) (map of_nat [0..<20])"
  by code_simp

lemma iso_type_fields:
  "list_all (\<lambda>t. list_all (\<lambda>z. list_all (\<lambda>m.
     let x = iso_type t z m in
       x AND 0xF0000000 = 0 \<and> x AND 0x0FFFFFFF = x \<and> x < 4000 \<and> x mod 1000 = t \<and>
       (3000 \<le> x \<longleftrightarrow> z \<and> m) \<and> (2000 \<le> x \<longleftrightarrow> m) \<and> (1000 \<le> x \<longleftrightarrow> z \<or> m))
     [True, False]) [True, False]) (map of_nat [0..<20])"
  by code_simp

lemma all_bool: "list_all P [True, False] \<longleftrightarrow> (\<forall>b. P b)"
  by (metis (full_types) list.pred_inject(1,2))

lemma if_has_flags:
  "(if z \<or> m \<or> r then s\<lparr>has_z := z, has_m := m, has_srid := r\<rparr> else s\<lparr>has_z := False, has_m := False, has_srid := False\<rparr>)
     = s\<lparr>has_z := z, has_m := m, has_srid := r\<rparr>"
  by auto

lemma ext_type_read:
  assumes ty: "lwtype_of_wkb t = Some ty" and le: "t \<le> 19"
  shows "lwtype_from_wkb_state s (ext_type t z m r) =
    Inr (s\<lparr>has_z := z, has_m := m, has_srid := r, st_lwtype := ty\<rparr>)"
proof -
  define x where "x = ext_type t z m r"
  have "(x AND 0xF0000000 \<noteq> 0 \<longleftrightarrow> z \<or> m \<or> r) \<and> (x AND 0x80000000 \<noteq> 0 \<longleftrightarrow> z) \<and>
       (x AND 0x40000000 \<noteq> 0 \<longleftrightarrow> m) \<and> (x AND 0x20000000 \<noteq> 0 \<longleftrightarrow> r) \<and> x AND 0x0FFFFFFF = t"
    using bspec[OF iffD1[OF list_all_iff ext_type_fields[unfolded all_bool]] small_word_cases[OF le],
        THEN spec, THEN spec, THEN spec, of z m r]
    unfolding x_def Let_def .
  then have f: "(x AND 0xF0000000 \<noteq> 0) = (z \<or> m \<or> r)" "(x AND 0x80000000 \<noteq> 0) = z"
       "(x AND 0x40000000 \<noteq> 0) = m" "(x AND 0x20000000 \<noteq> 0) = r" "x AND 0x0FFFFFFF = t"
    by blast+
  have u: "unat t \<le> 19" using le by (simp add: word_le_nat_alt)
  then have t: "(4000 \<le> t) = False" "(3000 \<le> t) = False" "(2000 \<le> t) = False" "(1000 \<le> t) = False"
    by (simp_all add: word_le_nat_alt)
  have "unat (t mod 1000) = unat t" using u by (simp add: unat_mod)
  then have m: "t mod 1000 = t" by (simp add: word_unat_eq_iff)
  have e: "s\<lparr>has_z := False, has_m := False, has_srid := False, has_z := z, has_m := m, has_srid := r\<rparr>
      = s\<lparr>has_z := z, has_m := m, has_srid := r\<rparr>" by simp
  show ?thesis
    unfolding x_def[symmetric] lwtype_from_wkb_state_def Let_def f t m simp_thms if_False ty option.case e
      if_has_flags by simp
qed

lemma iso_type_read:
  assumes ty: "lwtype_of_wkb t = Some ty" and le: "t \<le> 19"
  shows "lwtype_from_wkb_state s (iso_type t z m) =
    Inr (s\<lparr>has_z := z, has_m := m, has_srid := False, st_lwtype := ty\<rparr>)"
proof -
  define x where "x = iso_type t z m"
  have "x AND 0xF0000000 = 0 \<and> x AND 0x0FFFFFFF = x \<and> x < 4000 \<and> x mod 1000 = t \<and>
       (3000 \<le> x \<longleftrightarrow> z \<and> m) \<and> (2000 \<le> x \<longleftrightarrow> m) \<and> (1000 \<le> x \<longleftrightarrow> z \<or> m)"
    using bspec[OF iffD1[OF list_all_iff iso_type_fields[unfolded all_bool]] small_word_cases[OF le],
        THEN spec, THEN spec, of z m]
    unfolding x_def Let_def .
  then have f: "(x AND 0xF0000000 \<noteq> 0) = False" "x AND 0x0FFFFFFF = x" "(4000 \<le> x) = False" "x mod 1000 = t"
      "(x < 4000) = True" "(3000 \<le> x) = (z \<and> m)" "(2000 \<le> x) = m" "(1000 \<le> x) = (z \<or> m)"
      "(x < 3000) = (\<not> (z \<and> m))" "(x < 2000) = (\<not> m)"
    by (auto simp: not_le[symmetric])
  show ?thesis
    unfolding x_def[symmetric] lwtype_from_wkb_state_def Let_def f if_False ty option.case
    by (cases z; cases m) simp_all
qed

text \<open>The SRID in force behind the header.\<close>

definition new_srid :: "u8 \<Rightarrow> i32 \<Rightarrow> lwgeom \<Rightarrow> i32" where
  "new_srid v srid g = (if lwgeom_wkb_needs_srid g v then clamp_srid (g_srid (g_hdr g)) else srid)"

definition after_header :: "bool \<Rightarrow> u8 \<Rightarrow> lwgeom \<Rightarrow> u8 list \<Rightarrow> wkb_parse_state \<Rightarrow> wkb_parse_state" where
  "after_header be v g body s =
     s\<lparr>pos := body, swap_bytes := (be = vbit v WKB_NDR), has_z := hdr_z (g_hdr g), has_m := hdr_m (g_hdr g),
       has_srid := lwgeom_wkb_needs_srid g v, st_lwtype := lwgeom_get_type g, st_srid := new_srid v (st_srid s) g\<rparr>"

lemma wkb_type_of:
  assumes "wkb_simple_type (lwgeom_get_type g) = Some t" and "full_dims v"
  shows "lwgeom_wkb_type g v = Inr (if vbit v WKB_EXTENDED
      then ext_type t (hdr_z (g_hdr g)) (hdr_m (g_hdr g)) (lwgeom_wkb_needs_srid g v)
      else iso_type t (hdr_z (g_hdr g)) (hdr_m (g_hdr g)))"
  using assms by (auto simp: lwgeom_wkb_type_def ext_type_def iso_type_def hdr_z_def hdr_m_def full_dims_def Let_def)

lemma read_header:
  assumes ty: "wkb_simple_type (lwgeom_get_type g) = Some t" and full: "full_dims v"
    and p: "pos s = enc_prefix v g @ body"
  shows "header_from_wkb_state be s = Inr (after_header be v g body s)"
proof -
  let ?T = "projr (lwgeom_wkb_type g v)" and ?r = "lwgeom_wkb_needs_srid g v"
  let ?z = "hdr_z (g_hdr g)" and ?m = "hdr_m (g_hdr g)"
  let ?srid = "if ?r then enc_int v (g_srid (g_hdr g)) else []"
  let ?e = "if vbit v WKB_NDR then 1 else 0 :: u8"
  define s1 where "s1 = s\<lparr>pos := enc_int v ?T @ ?srid @ body, swap_bytes := (be = vbit v WKB_NDR)\<rparr>"
  define s2 where "s2 = s1\<lparr>pos := ?srid @ body\<rparr>"
  define s3 where "s3 = s2\<lparr>has_z := ?z, has_m := ?m, has_srid := ?r, st_lwtype := lwgeom_get_type g\<rparr>"
  note t = lwtype_of_simple[OF ty]
  have b: "byte_from_wkb_state s = Inr (?e, s\<lparr>pos := enc_int v ?T @ ?srid @ body\<rparr>)"
    by (simp add: byte_from_wkb_state_def wkb_parse_state_check_def p enc_prefix_def)
  have sw: "s\<lparr>pos := enc_int v ?T @ ?srid @ body,
      swap_bytes := (if be \<and> ?e \<noteq> 0 then True else if \<not> be \<and> ?e = 0 then True else False)\<rparr> = s1"
    by (cases be; cases "vbit v WKB_NDR") (simp_all add: s1_def)
  have r1: "reads v be s1" by (simp add: s1_def reads_def)
  have i: "integer_from_wkb_state be s1 = Inr (?T, s2)"
    using read_int[OF r1, of ?T "?srid @ body"] by (simp add: s2_def s1_def)
  have y: "lwtype_from_wkb_state s2 ?T = Inr s3"
  proof (cases "vbit v WKB_EXTENDED")
    case True
    then show ?thesis using ext_type_read[of t "lwgeom_get_type g" s2] t wkb_type_of[OF ty full]
      by (simp add: s3_def)
  next
    case False
    then have "\<not> ?r" by (simp add: lwgeom_wkb_needs_srid_def)
    then show ?thesis using iso_type_read[of t "lwgeom_get_type g" s2] t wkb_type_of[OF ty full] False
      by (simp add: s3_def)
  qed
  have r3: "reads v be s3" using r1 by (simp add: s3_def s2_def reads_def)
  have f: "(if has_srid s3 then rbind (integer_from_wkb_state be s3) (\<lambda>(i, s). Inr (s\<lparr>st_srid := clamp_srid i\<rparr>))
      else Inr s3) = Inr (after_header be v g body s)"
  proof (cases ?r)
    case True
    then have "integer_from_wkb_state be s3 = Inr (g_srid (g_hdr g), s3\<lparr>pos := body\<rparr>)"
      using read_int[OF r3, of "g_srid (g_hdr g)" body] by (simp add: s3_def s2_def)
    then show ?thesis using True
      by (simp add: s3_def s2_def s1_def after_header_def new_srid_def)
  next
    case False
    then show ?thesis by (simp add: s3_def s2_def s1_def after_header_def new_srid_def)
  qed
  have nb: "\<not> (?e \<noteq> 1 \<and> ?e \<noteq> 0)" by simp
  show ?thesis
    unfolding header_from_wkb_state_def b rbind_simps prod.case Let_def sw i y f if_not_P[OF nb]
    by (rule refl)
qed

section \<open>What comes back\<close>

definition nan_point :: "ptarray \<Rightarrow> bool" where
  "nan_point pa \<longleftrightarrow> isnan (serialized_pointlist pa ! 0) \<and> isnan (serialized_pointlist pa ! 1)"

fun wkb_canon :: "bool \<Rightarrow> i32 \<Rightarrow> lwgeom \<Rightarrow> lwgeom" where
  "wkb_canon ext srid (LwPoint h pa) =
     (if lwline_is_empty pa \<or> nan_point pa then lwpoint_construct_empty srid (hdr_z h) (hdr_m h)
      else lwpoint_construct srid None (canon_pa h pa))"
| "wkb_canon ext srid (LwLine h pa) =
     (if lwline_is_empty pa then lwline_construct_empty srid (hdr_z h) (hdr_m h)
      else lwline_construct srid None (canon_pa h pa))"
| "wkb_canon ext srid (LwCircString h pa) =
     (if lwline_is_empty pa then lwcircstring_construct_empty srid (hdr_z h) (hdr_m h)
      else lwcircstring_construct srid None (canon_pa h pa))"
| "wkb_canon ext srid (LwTriangle h pa) =
     (if lwline_is_empty pa then lwtriangle_construct_empty srid (hdr_z h) (hdr_m h)
      else lwtriangle_construct srid None (canon_pa h pa))"
| "wkb_canon ext srid (LwPoly h rings) =
     LwPoly (empty_hdr srid (hdr_z h) (hdr_m h)) (if lwpoly_is_empty rings then [] else map (canon_pa h) rings)"
| "wkb_canon ext srid (LwEllipse h e) =
     LwEllipse (empty_hdr srid (hdr_z h) (hdr_m h)) (e\<lparr>el_points := canon_pa h (el_points e)\<rparr>)"
| "wkb_canon ext srid (LwBezier h pa) =
     LwBezier (empty_hdr srid (hdr_z h) (hdr_m h)) (canon_pa h pa)"
| "wkb_canon ext srid (LwColl ty h gs) =
     LwColl ty (empty_hdr srid (hdr_z h) (hdr_m h))
       (if list_all lwgeom_is_empty gs \<and> \<not> ext then [] else map (wkb_canon ext srid) gs)"

text \<open>
  The geometries that come back under the checks \<open>chk\<close>: arrays agree with their geometry's
  dimensions, counts fit 32 bits, members are allowed in their collection, and the checks the
  parser makes hold. It always makes the closure check on the triangles of a polyhedral surface
  and, since the flag stays set, on any triangle behind one.
\<close>

fun wkb_rt :: "u8 \<Rightarrow> lwgeom \<Rightarrow> bool" where
  "wkb_rt chk (LwPoint h pa) = (pa_rt h pa \<and> npoints pa \<le> 1)"
| "wkb_rt chk (LwLine h pa) = (pa_rt h pa \<and>
     (npoints pa \<noteq> 0 \<and> vbit chk LW_PARSER_CHECK_MINPOINTS \<longrightarrow> 2 \<le> npoints pa))"
| "wkb_rt chk (LwCircString h pa) = (pa_rt h pa \<and>
     (npoints pa \<noteq> 0 \<and> vbit chk LW_PARSER_CHECK_MINPOINTS \<longrightarrow> 3 \<le> npoints pa) \<and>
     (npoints pa \<noteq> 0 \<and> vbit chk LW_PARSER_CHECK_ODD \<longrightarrow> npoints pa mod 2 \<noteq> 0))"
| "wkb_rt chk (LwTriangle h pa) = (pa_rt h pa \<and>
     (npoints pa \<noteq> 0 \<longrightarrow> (vbit chk LW_PARSER_CHECK_MINPOINTS \<longrightarrow> 4 \<le> npoints pa) \<and>
        ptarray_is_closed_z pa \<noteq> 0))"
| "wkb_rt chk (LwPoly h rings) = (list_all (pa_rt h) rings \<and> length rings < 2 ^ 32 \<and>
     (\<not> lwpoly_is_empty rings \<longrightarrow> list_all (\<lambda>pa.
        (vbit chk LW_PARSER_CHECK_MINPOINTS \<longrightarrow> 4 \<le> npoints pa) \<and>
        (vbit chk LW_PARSER_CHECK_CLOSURE \<longrightarrow> ptarray_is_closed_2d pa \<noteq> 0)) rings))"
| "wkb_rt chk (LwEllipse h e) = pa_rt h (el_points e)"
| "wkb_rt chk (LwBezier h pa) = pa_rt h pa"
| "wkb_rt chk (LwColl ty h gs) = (lwtype_is_collection ty \<and> length gs < 2 ^ 32 \<and>
     list_all (\<lambda>g. lwcollection_allows_subtype ty (lwgeom_get_type g) \<and> wkb_rt chk g) gs)"

text \<open>The nesting of collections that \<open>st_depth\<close> counts, and that of the calls.\<close>

fun coll_depth :: "lwgeom \<Rightarrow> nat" where
  "coll_depth (LwColl ty h gs) =
     (if gs = [] then 0
      else (if ty = CURVEPOLYTYPE then 0 else 1) + Max (set (map coll_depth gs)))"
| "coll_depth _ = 0"

fun geom_height :: "lwgeom \<Rightarrow> nat" where
  "geom_height (LwColl ty h gs) = Suc (if gs = [] then 0 else Max (set (map geom_height gs)))"
| "geom_height _ = 1"

lemma wkb_rt_ok: "wkb_rt chk g \<Longrightarrow> geom_ok g"
  by (induction g) (auto simp: list_all_iff pa_rt_ok)

lemma wkb_rt_type: "wkb_rt chk g \<Longrightarrow> \<exists>t. wkb_simple_type (lwgeom_get_type g) = Some t"
  by (cases g) (auto simp: wkb_simple_type_def lwtype_is_collection_def)

text \<open>What the parse functions leave: the rest of the input, and the fields that later members see.\<close>

definition left_by :: "u8 \<Rightarrow> wkb_parse_state \<Rightarrow> u8 list \<Rightarrow> wkb_parse_state \<Rightarrow> bool" where
  "left_by chk s rest s' \<longleftrightarrow> pos s' = rest \<and> st_srid s' = st_srid s \<and> st_depth s' = st_depth s \<and>
     st_check s' AND 7 = chk AND 7"

lemma checks_left:
  assumes "st_check s AND 7 = chk AND 7"
  shows "checks s 1 = vbit chk 1" "checks s 2 = vbit chk 2" "checks s 4 = vbit chk 4"
proof -
  have "c = 7 AND c \<Longrightarrow> st_check s AND c = chk AND c" for c
    using assms by (metis and.assoc)
  from this[of 1] this[of 2] this[of 4]
  show "checks s 1 = vbit chk 1" "checks s 2 = vbit chk 2" "checks s 4 = vbit chk 4"
    by (simp_all add: checks_def vbit_def)
qed

section \<open>Reading the simple geometries\<close>

lemma enc_or [simp]:
  "enc_dbl (v OR WKB_NO_NPOINTS) = enc_dbl v" "enc_dbl (v OR WKB_NO_SRID) = enc_dbl v"
  "enc_int (v OR WKB_NO_SRID) = enc_int v"
  by (simp_all add: enc_dbl_def enc_int_def vbit_or fun_eq_iff)

lemma full_dims_or [simp]:
  "full_dims (v OR WKB_NO_NPOINTS) = full_dims v" "full_dims (v OR WKB_NO_SRID) = full_dims v"
  by (simp_all add: full_dims_def vbit_or)

lemma canon_pa_simps [simp]:
  "npoints (canon_pa h pa) = npoints pa" "pa_flags (canon_pa h pa) = lwflags (hdr_z h) (hdr_m h) False"
  "serialized_pointlist (canon_pa h pa) = serialized_pointlist pa"
  by (simp_all add: canon_pa_def built_pa_def)

lemma canon_pa_closed:
  assumes "pa_rt h pa"
  shows "ptarray_is_closed_2d (canon_pa h pa) = ptarray_is_closed_2d pa"
    and "ptarray_is_closed_z (canon_pa h pa) = ptarray_is_closed_z pa"
proof -
  have nd: "pa_ndims (canon_pa h pa) = pa_ndims pa"
    using pa_rt_ndims[OF assms] by (simp add: lwflags_ndims)
  have z: "FLAGS_GET_Z (pa_flags (canon_pa h pa)) \<noteq> 0 \<longleftrightarrow> FLAGS_GET_Z (pa_flags pa) \<noteq> 0"
    using assms by (simp add: pa_rt_def hdr_z_def) (simp add: flags_simps)
  have "ends_equal k (canon_pa h pa) = ends_equal k pa" for k
    using nd by (simp add: ends_equal_def getPoint_internal_def)
  then show "ptarray_is_closed_2d (canon_pa h pa) = ptarray_is_closed_2d pa"
    and "ptarray_is_closed_z (canon_pa h pa) = ptarray_is_closed_z pa"
    using z by (simp_all add: ptarray_is_closed_2d_def ptarray_is_closed_3d_def ptarray_is_closed_z_def)
qed

lemma read_point_body:
  assumes r: "reads v be s" and d: "st_dims h s" and rt: "wkb_rt chk (LwPoint h pa)" and full: "full_dims v"
    and p: "pos s = (if lwline_is_empty pa then concat (replicate (pa_ndims pa) (enc_dbl v dbl_nan))
      else enc_pa (v OR WKB_NO_NPOINTS) pa) @ rest"
  shows "lwpoint_from_wkb_state be s = Inr (wkb_canon ext (st_srid s) (LwPoint h pa), s\<lparr>pos := rest\<rparr>)"
proof (cases "lwline_is_empty pa")
  case True
  let ?nan = "replicate (pa_ndims pa) dbl_nan"
  have nd: "st_ndims s = pa_ndims pa" using st_dims_ndims[OF d] rt by simp
  then have "2 \<le> st_ndims s" using FLAGS_NDIMS_cases[of "pa_flags pa"] by auto
  moreover have "unat (1 :: u32) * st_ndims s * 8 < 2 ^ 32"
    using nd FLAGS_NDIMS_cases[of "pa_flags pa"] by auto
  then have "points_from_wkb_state be 1 s = Inr (built_pa (has_z s) (has_m s) 1 ?nan, s\<lparr>pos := rest\<rparr>)"
    using True p nd by (intro read_points[OF r]) simp_all
  ultimately show ?thesis using True d nd
    by (simp add: lwpoint_from_wkb_state_def getPoint_internal_def built_pa_def st_dims_def Let_def)
next
  case False
  then have n1: "npoints pa = 1" using rt
    by (simp add: lwline_is_empty_def word_le_nat_alt word_less_nat_alt word_unat_eq_iff)
  have prt: "pa_rt h pa" using rt by simp
  have "pos s = concat (map (enc_dbl v) (serialized_pointlist pa)) @ rest"
    using False p enc_pa_ordinates[OF prt, of "v OR WKB_NO_NPOINTS"] full by (simp add: vbit_or)
  from read_points_of[OF r this d prt]
  have "points_from_wkb_state be 1 s = Inr (canon_pa h pa, s\<lparr>pos := rest\<rparr>)" by (simp add: n1)
  then show ?thesis using False d
    by (simp add: lwpoint_from_wkb_state_def getPoint_internal_def nan_point_def st_dims_def Let_def)
qed

lemma is_empty_npoints: "lwline_is_empty pa \<longleftrightarrow> npoints pa = 0"
  by (simp add: lwline_is_empty_def word_less_nat_alt unat_eq_0)

lemma checks_pos [simp]: "checks (s\<lparr>pos := p\<rparr>) c = checks s c"
  by (simp add: checks_def)

lemma enc_pa_empty:
  assumes "lwline_is_empty pa" and "pa_rt h pa" and "\<not> vbit v WKB_NO_NPOINTS"
  shows "enc_pa v pa = enc_int v 0"
proof -
  have "npoints pa = 0" using assms(1) by (simp add: is_empty_npoints)
  moreover from this have "pa_points pa = []" by (simp add: pa_points_def)
  ultimately show ?thesis using assms(3) by (simp add: enc_pa_def)
qed

lemma le_not_less_u32: "(n :: u32) \<le> m \<Longrightarrow> \<not> m < n"
  by simp

lemma read_line_body:
  assumes r: "reads v be s" and d: "st_dims h s" and rt: "wkb_rt chk (LwLine h pa)" and full: "full_dims v"
    and np: "\<not> vbit v WKB_NO_NPOINTS" and c: "st_check s AND 7 = chk AND 7" and p: "pos s = enc_pa v pa @ rest"
  shows "lwline_from_wkb_state be s = Inr (wkb_canon ext (st_srid s) (LwLine h pa), s\<lparr>pos := rest\<rparr>)"
proof -
  have "ptarray_from_wkb_state be s = Inr (canon_pa h pa, s\<lparr>pos := rest\<rparr>)"
    using rt by (intro read_ptarray[OF r p np full d]) simp
  then show ?thesis using rt d checks_left[OF c]
    by (auto simp: lwline_from_wkb_state_def is_empty_npoints st_dims_def odd_iff_mod_2_eq_one[symmetric])
qed

lemma read_circ_body:
  assumes r: "reads v be s" and d: "st_dims h s" and rt: "wkb_rt chk (LwCircString h pa)" and full: "full_dims v"
    and np: "\<not> vbit v WKB_NO_NPOINTS" and c: "st_check s AND 7 = chk AND 7" and p: "pos s = enc_pa v pa @ rest"
  shows "lwcircstring_from_wkb_state be s = Inr (wkb_canon ext (st_srid s) (LwCircString h pa), s\<lparr>pos := rest\<rparr>)"
proof -
  have "ptarray_from_wkb_state be s = Inr (canon_pa h pa, s\<lparr>pos := rest\<rparr>)"
    using rt by (intro read_ptarray[OF r p np full d]) simp
  then show ?thesis using rt d checks_left[OF c]
    by (auto simp: lwcircstring_from_wkb_state_def is_empty_npoints st_dims_def odd_iff_mod_2_eq_one[symmetric])
qed

lemma read_bezier_body:
  assumes r: "reads v be s" and d: "st_dims h s" and rt: "wkb_rt chk (LwBezier h pa)" and full: "full_dims v"
    and np: "\<not> vbit v WKB_NO_NPOINTS" and p: "pos s = enc_pa v pa @ rest"
  shows "lwbezier_from_wkb_state be s = Inr (wkb_canon ext (st_srid s) (LwBezier h pa), s\<lparr>pos := rest\<rparr>)"
proof -
  have "ptarray_from_wkb_state be s = Inr (canon_pa h pa, s\<lparr>pos := rest\<rparr>)"
    using rt by (intro read_ptarray[OF r p np full d]) simp
  then show ?thesis by (simp add: lwbezier_from_wkb_state_def empty_hdr_def)
qed

lemma read_ellipse_body:
  assumes r: "reads v be s" and d: "st_dims h s" and rt: "wkb_rt chk (LwEllipse h e)" and full: "full_dims v"
    and np: "\<not> vbit v WKB_NO_NPOINTS"
    and p: "pos s = enc_pa v (el_points e) @ concat (map (enc_dbl v)
      [el_minor e, el_clockwise e, el_rotation e, el_axis e, el_ratio e]) @ rest"
  shows "lwellipse_from_wkb_state be s = Inr (wkb_canon ext (st_srid s) (LwEllipse h e), s\<lparr>pos := rest\<rparr>)"
proof -
  let ?t = "\<lambda>ds. s\<lparr>pos := concat (map (enc_dbl v) ds) @ rest\<rparr>"
  have a: "ptarray_from_wkb_state be s = Inr (canon_pa h (el_points e),
      ?t [el_minor e, el_clockwise e, el_rotation e, el_axis e, el_ratio e])"
    using rt by (intro read_ptarray[OF r p np full d]) simp
  have t: "double_from_wkb_state be (?t (x # ds)) = Inr (x, ?t ds)" for x ds
    using read_double[of v be "?t (x # ds)" x "concat (map (enc_dbl v) ds) @ rest"] r by simp
  show ?thesis
    unfolding lwellipse_from_wkb_state_def Let_def a rbind_simps prod.case t
    by (simp add: empty_hdr_def)
qed

lemma read_triangle_body:
  assumes r: "reads v be s" and d: "st_dims h s" and rt: "wkb_rt chk (LwTriangle h pa)" and full: "full_dims v"
    and np: "\<not> vbit v WKB_NO_NPOINTS" and c: "st_check s AND 7 = chk AND 7"
    and p: "pos s = (if lwline_is_empty pa then enc_int v 0 else enc_int v 1 @ enc_pa v pa) @ rest"
  shows "lwtriangle_from_wkb_state be s = Inr (wkb_canon ext (st_srid s) (LwTriangle h pa), s\<lparr>pos := rest\<rparr>)"
proof (cases "lwline_is_empty pa")
  case True
  then have "integer_from_wkb_state be s = Inr (0, s\<lparr>pos := rest\<rparr>)" using p by (intro read_int[OF r]) simp
  then show ?thesis using True d by (simp add: lwtriangle_from_wkb_state_def st_dims_def)
next
  case False
  let ?s = "s\<lparr>pos := enc_pa v pa @ rest\<rparr>"
  have prt: "pa_rt h pa" using rt by simp
  have i: "integer_from_wkb_state be s = Inr (1, ?s)" using p False by (intro read_int[OF r]) simp
  have a: "ptarray_from_wkb_state be ?s = Inr (canon_pa h pa, ?s\<lparr>pos := rest\<rparr>)"
    using r d by (intro read_ptarray[OF _ _ np full _ prt]) simp_all
  show ?thesis using False rt d checks_left[OF c] canon_pa_closed[OF prt] i a
    by (auto simp: lwtriangle_from_wkb_state_def is_empty_npoints st_dims_def odd_iff_mod_2_eq_one[symmetric])
qed

lemma read_rings:
  assumes full: "full_dims v" and np: "\<not> vbit v WKB_NO_NPOINTS"
  shows "reads v be s \<Longrightarrow> st_dims h s \<Longrightarrow> st_check s AND 7 = chk AND 7 \<Longrightarrow>
    pos s = concat (map (enc_pa v) rs) @ rest \<Longrightarrow> list_all (pa_rt h) rs \<Longrightarrow>
    list_all (\<lambda>pa. (vbit chk LW_PARSER_CHECK_MINPOINTS \<longrightarrow> 4 \<le> npoints pa) \<and>
        (vbit chk LW_PARSER_CHECK_CLOSURE \<longrightarrow> ptarray_is_closed_2d pa \<noteq> 0)) rs \<Longrightarrow>
    rings_from_wkb_state be (length rs) acc s = Inr (acc @ map (canon_pa h) rs, s\<lparr>pos := rest\<rparr>)"
proof (induction rs arbitrary: s acc)
  case Nil
  then show ?case by simp
next
  case (Cons pa rs)
  let ?s = "s\<lparr>pos := concat (map (enc_pa v) rs) @ rest\<rparr>"
  have prt: "pa_rt h pa" using Cons.prems by simp
  have a: "ptarray_from_wkb_state be s = Inr (canon_pa h pa, ?s)"
    using Cons.prems by (intro read_ptarray[OF _ _ np full _ prt]) simp_all
  have "rings_from_wkb_state be (length rs) (acc @ [canon_pa h pa]) ?s
      = Inr ((acc @ [canon_pa h pa]) @ map (canon_pa h) rs, ?s\<lparr>pos := rest\<rparr>)"
    using Cons.prems by (intro Cons.IH) simp_all
  then show ?case
    using a Cons.prems checks_left[OF Cons.prems(3)] canon_pa_closed[OF prt]
    by (auto simp: lwpoly_add_ring_def)
qed

lemma read_poly_body:
  assumes r: "reads v be s" and d: "st_dims h s" and rt: "wkb_rt chk (LwPoly h rings)" and full: "full_dims v"
    and np: "\<not> vbit v WKB_NO_NPOINTS" and c: "st_check s AND 7 = chk AND 7"
    and p: "pos s = (if lwpoly_is_empty rings then enc_int v 0
      else enc_int v (of_nat (length rings)) @ concat (map (enc_pa v) rings)) @ rest"
  shows "lwpoly_from_wkb_state be s = Inr (wkb_canon ext (st_srid s) (LwPoly h rings), s\<lparr>pos := rest\<rparr>)"
proof (cases "lwpoly_is_empty rings")
  case True
  then have "integer_from_wkb_state be s = Inr (0, s\<lparr>pos := rest\<rparr>)" using p by (intro read_int[OF r]) simp
  then show ?thesis using True d by (simp add: lwpoly_from_wkb_state_def st_dims_def)
next
  case False
  let ?s = "s\<lparr>pos := concat (map (enc_pa v) rings) @ rest\<rparr>"
  have i: "integer_from_wkb_state be s = Inr (of_nat (length rings), ?s)"
    using p False by (intro read_int[OF r]) simp
  have n: "unat (of_nat (length rings) :: u32) = length rings"
    using rt by (simp add: unsigned_of_nat take_bit_nat_eq_self)
  have "list_all (pa_rt h) rings" and "list_all (\<lambda>pa. (vbit chk LW_PARSER_CHECK_MINPOINTS \<longrightarrow> 4 \<le> npoints pa) \<and>
        (vbit chk LW_PARSER_CHECK_CLOSURE \<longrightarrow> ptarray_is_closed_2d pa \<noteq> 0)) rings"
    using rt False unfolding wkb_rt.simps by blast+
  then have "rings_from_wkb_state be (length rings) [] ?s = Inr ([] @ map (canon_pa h) rings, ?s\<lparr>pos := rest\<rparr>)"
    using r d c by (intro read_rings[OF full np]) simp_all
  then show ?thesis using False d i n by (simp add: lwpoly_from_wkb_state_def st_dims_def Let_def)
qed

section \<open>Reading any geometry\<close>

lemma canon_type [simp]: "lwgeom_get_type (wkb_canon ext srid g) = lwgeom_get_type g"
  by (cases g) (simp_all add: lwpoint_construct_empty_def lwpoint_construct_def lwline_construct_empty_def
    lwline_construct_def lwcircstring_construct_empty_def lwcircstring_construct_def
    lwtriangle_construct_empty_def lwtriangle_construct_def Let_def)

lemma read_members:
  assumes rd: "\<And>g s rest. g \<in> set gs \<Longrightarrow> pos s = f g @ rest \<Longrightarrow> st_check s AND 7 = chk AND 7 \<Longrightarrow>
      coll_depth g + unat (st_depth s) < 200 \<Longrightarrow>
      \<exists>s'. rd s = Inr (wkb_canon ext (st_srid s) g, s') \<and> left_by chk s rest s'"
    and add: "\<And>acc g srid. g \<in> set gs \<Longrightarrow> add acc (wkb_canon ext srid g) = Inr (acc @ [wkb_canon ext srid g])"
    and depth: "\<And>g. g \<in> set gs \<Longrightarrow> coll_depth g \<le> k" and k: "k + unat (st_depth s) < 200"
    and c: "st_check s AND 7 = chk AND 7" and p: "pos s = concat (map f gs) @ rest"
  shows "\<exists>s'. members_from_wkb_state rd add (length gs) acc s = Inr (acc @ map (wkb_canon ext (st_srid s)) gs, s') \<and>
    left_by chk s rest s'"
  using assms
proof (induction gs arbitrary: s acc)
  case Nil
  then show ?case by (simp add: left_by_def)
next
  case (Cons g gs)
  have "coll_depth g + unat (st_depth s) < 200" using Cons.prems(3)[of g] Cons.prems(4) by simp
  then obtain s1 where s1: "rd s = Inr (wkb_canon ext (st_srid s) g, s1)"
      and l: "left_by chk s (concat (map f gs) @ rest) s1"
    using Cons.prems(1)[of g s "concat (map f gs) @ rest"] Cons.prems(5,6) by auto
  have "\<exists>s'. members_from_wkb_state rd add (length gs) (acc @ [wkb_canon ext (st_srid s) g]) s1
      = Inr ((acc @ [wkb_canon ext (st_srid s) g]) @ map (wkb_canon ext (st_srid s1)) gs, s') \<and> left_by chk s1 rest s'"
    using Cons.prems l by (intro Cons.IH) (auto simp: left_by_def)
  then show ?case using s1 Cons.prems(2)[of g] l by (auto simp: left_by_def)
qed

lemma depth_or_7: "(c OR 8 :: u8) AND 7 = c AND 7"
proof -
  have "(c OR 8) AND 7 = (c AND 7) OR (8 AND 7)" by (rule bit.conj_disj_distrib2)
  then show ?thesis by simp
qed

lemma u8_plus_minus: "(d :: u8) + 1 - 1 = d"
  by simp

lemma unat_u8_suc: "unat (d :: u8) < 200 \<Longrightarrow> unat (d + 1) = Suc (unat d)"
  by (subst unat_add_lem[THEN iffD1]) simp_all

lemma read_collection_body:
  assumes r: "reads v be s" and d: "st_dims h s" and full: "full_dims v" and rt: "wkb_rt chk (LwColl ty h gs)"
    and c: "st_check s AND 7 = chk AND 7" and ty: "st_lwtype s = ty"
    and depth: "coll_depth (LwColl ty h gs) + unat (st_depth s) < 200"
    and p: "pos s = enc_int v (of_nat (length gs)) @ concat (map f gs) @ rest"
    and rd: "\<And>g s rest. g \<in> set gs \<Longrightarrow> pos s = f g @ rest \<Longrightarrow> st_check s AND 7 = chk AND 7 \<Longrightarrow>
      coll_depth g + unat (st_depth s) < 200 \<Longrightarrow>
      \<exists>s'. rd s = Inr (wkb_canon ext (st_srid s) g, s') \<and> left_by chk s rest s'"
  shows "\<exists>s'. (if ty = CURVEPOLYTYPE then lwcurvepoly_from_wkb_state be rd s else lwcollection_from_wkb_state be rd s)
     = Inr (LwColl ty (empty_hdr (st_srid s) (hdr_z h) (hdr_m h)) (map (wkb_canon ext (st_srid s)) gs), s') \<and>
    left_by chk s rest s'"
proof -
  let ?s = "s\<lparr>pos := concat (map f gs) @ rest\<rparr>"
  have i: "integer_from_wkb_state be s = Inr (of_nat (length gs), ?s)" by (rule read_int[OF r p])
  have n: "unat (of_nat (length gs) :: u32) = length gs"
    using rt by (simp add: unsigned_of_nat take_bit_nat_eq_self)
  then have n0: "(of_nat (length gs) :: u32) = 0 \<longleftrightarrow> gs = []" by (metis length_0_conv unat_eq_0)
  have sub: "lwcollection_allows_subtype ty (lwgeom_get_type g)" if "g \<in> set gs" for g
    using rt that by (auto simp: list_all_iff)
  let ?k = "Max (set (map coll_depth gs))"
  have k: "coll_depth g \<le> ?k" if "g \<in> set gs" for g using that by simp
  show ?thesis
  proof (cases "ty = CURVEPOLYTYPE")
    case True
    have add: "(case lwcurvepoly_add_ring acc (wkb_canon ext srid g) of
        None \<Rightarrow> Inl (LwError ''Unable to add geometry (%p) to curvepoly (%p)'') | Some gs \<Rightarrow> Inr gs)
      = Inr (acc @ [wkb_canon ext srid g])" if "g \<in> set gs" for acc srid g
      using sub[OF that] True by (auto simp: lwcurvepoly_add_ring_def lwcollection_allows_subtype_def split: if_splits)
    have "(if gs = [] then 0 else ?k) + unat (st_depth ?s) < 200" using depth True by (simp split: if_splits)
    moreover have "coll_depth g \<le> (if gs = [] then 0 else ?k)" if "g \<in> set gs" for g using k[OF that] that by auto
    ultimately obtain s' where "members_from_wkb_state rd (\<lambda>gs g. case lwcurvepoly_add_ring gs g of
        None \<Rightarrow> Inl (LwError ''Unable to add geometry (%p) to curvepoly (%p)'') | Some gs \<Rightarrow> Inr gs)
        (length gs) [] ?s = Inr ([] @ map (wkb_canon ext (st_srid ?s)) gs, s')" "left_by chk ?s rest s'"
      using read_members[where gs = gs and f = f and rd = rd and s = ?s and acc = "[]" and chk = chk and ext = ext
          and rest = rest and k = "if gs = [] then 0 else ?k", OF rd add] c by auto
    then show ?thesis using True i n d
      by (auto simp: lwcurvepoly_from_wkb_state_def Let_def st_dims_def left_by_def)
  next
    case False
    define s2 where "s2 = (if ty = POLYHEDRALSURFACETYPE then ?s\<lparr>st_check := st_check ?s OR LW_PARSER_CHECK_ZCLOSURE\<rparr> else ?s)"
    define s3 where "s3 = s2\<lparr>st_depth := st_depth s2 + 1\<rparr>"
    have col: "lwcollection_construct_empty ty (st_srid s) (has_z s) (has_m s)
        = Inr (LwColl ty (empty_hdr (st_srid s) (hdr_z h) (hdr_m h)) [])"
      using rt d by (simp add: lwcollection_construct_empty_def st_dims_def)
    show ?thesis
    proof (cases "gs = []")
      case True
      then show ?thesis using False i n0 col c ty
        by (auto simp: lwcollection_from_wkb_state_def Let_def left_by_def)
    next
      case ne: False
      have dep: "unat (st_depth s) < 200" "Suc (?k + unat (st_depth s)) < 200"
        using depth False ne by simp_all
      have s2: "pos s2 = concat (map f gs) @ rest" "st_srid s2 = st_srid s" "st_depth s2 = st_depth s"
          "st_check s2 AND 7 = chk AND 7"
        using c by (simp_all add: s2_def depth_or_7)
      have d3: "unat (st_depth s3) = Suc (unat (st_depth s))"
        using unat_u8_suc[OF dep(1)] s2 by (simp add: s3_def)
      then have lim: "\<not> LW_PARSER_MAX_DEPTH \<le> st_depth s3" using dep by (simp add: word_le_nat_alt)
      have add: "lwcollection_add_lwgeom ty acc (wkb_canon ext srid g) = Inr (acc @ [wkb_canon ext srid g])"
        if "g \<in> set gs" for acc srid g
        using sub[OF that] by (simp add: lwcollection_add_lwgeom_def)
      have "?k + unat (st_depth s3) < 200" using d3 dep by simp
      moreover have "st_check s3 AND 7 = chk AND 7" "pos s3 = concat (map f gs) @ rest" "st_srid s3 = st_srid s"
        using s2 by (simp_all add: s3_def)
      ultimately obtain s' where m: "members_from_wkb_state rd (lwcollection_add_lwgeom ty) (length gs) [] s3
          = Inr ([] @ map (wkb_canon ext (st_srid s3)) gs, s')" "left_by chk s3 rest s'"
        using read_members[where gs = gs and f = f and rd = rd and s = s3 and acc = "[]" and chk = chk and ext = ext
            and rest = rest and k = ?k, OF rd add k] by blast
      have l: "left_by chk s rest (s'\<lparr>st_depth := st_depth s' - 1\<rparr>)"
        using m(2) s2 by (simp add: left_by_def s3_def)
      have st: "st_lwtype ?s = st_lwtype s" "st_srid ?s = st_srid s" "has_z ?s = has_z s" "has_m ?s = has_m s"
        by simp_all
      have "lwcollection_from_wkb_state be rd s
          = Inr (LwColl ty (empty_hdr (st_srid s) (hdr_z h) (hdr_m h)) (map (wkb_canon ext (st_srid s)) gs),
              s'\<lparr>st_depth := st_depth s' - 1\<rparr>)"
        unfolding lwcollection_from_wkb_state_def i rbind_simps prod.case Let_def st ty col s2_def[symmetric]
          s3_def[symmetric] if_not_P[OF n0[THEN arg_cong[of _ _ Not], THEN iffD2, OF ne]] if_not_P[OF lim] n m(1)
        by (simp add: s3_def s2)
      then show ?thesis using False l by auto
    qed
  qed
qed

lemma coll_height_le:
  assumes "g \<in> set gs" and "geom_height (LwColl ty h gs) \<le> Suc d"
  shows "geom_height g \<le> d"
proof -
  have "geom_height g \<le> Max (set (map geom_height gs))" using assms(1) by simp
  also have "\<dots> \<le> d" using assms by (auto split: if_splits)
  finally show ?thesis .
qed

lemma vbit_or_no_srid [simp]:
  "vbit (v OR WKB_NO_SRID) WKB_EXTENDED = vbit v WKB_EXTENDED"
  "vbit (v OR WKB_NO_SRID) WKB_NO_NPOINTS = vbit v WKB_NO_NPOINTS"
  "vbit (v OR WKB_NO_SRID) WKB_NDR = vbit v WKB_NDR"
  by (simp_all add: vbit_or)

lemma new_srid_member [simp]: "new_srid (v OR WKB_NO_SRID) srid g = srid"
  by (simp add: new_srid_def lwgeom_wkb_needs_srid_def vbit_or)

lemma after_header_simps:
  "reads v be (after_header be v g body s)" "st_dims (g_hdr g) (after_header be v g body s)"
  "pos (after_header be v g body s) = body" "st_srid (after_header be v g body s) = new_srid v (st_srid s) g"
  "st_depth (after_header be v g body s) = st_depth s" "st_check (after_header be v g body s) = st_check s"
  "st_lwtype (after_header be v g body s) = lwgeom_get_type g"
  by (simp_all add: after_header_def reads_def st_dims_def)

text \<open>The state behind a geometry: \<open>left_by\<close> with the SRID the geometry has set.\<close>

definition read_ok :: "u8 \<Rightarrow> u8 \<Rightarrow> lwgeom \<Rightarrow> wkb_parse_state \<Rightarrow> u8 list \<Rightarrow> (lwgeom \<times> wkb_parse_state) res \<Rightarrow> bool" where
  "read_ok v chk g s rest r \<longleftrightarrow> (\<exists>s'.
     r = Inr (wkb_canon (vbit v WKB_EXTENDED) (new_srid v (st_srid s) g) g, s') \<and>
     left_by chk (s\<lparr>st_srid := new_srid v (st_srid s) g\<rparr>) rest s')"

lemma read_step:
  assumes rt: "wkb_rt chk g" and full: "full_dims v" and p: "pos s = enc_prefix v g @ body"
    and body: "body_from_wkb_state be (lwgeom_from_wkb_state be d) (after_header be v g body s)
      = Inr (wkb_canon (vbit v WKB_EXTENDED) (new_srid v (st_srid s) g) g, s')"
    and l: "left_by chk (after_header be v g body s) rest s'"
  shows "read_ok v chk g s rest (lwgeom_from_wkb_state be (Suc d) s)"
proof -
  obtain t where "wkb_simple_type (lwgeom_get_type g) = Some t" using wkb_rt_type rt by blast
  from read_header[OF this full p] body l show ?thesis
    by (simp add: read_ok_def left_by_def after_header_simps)
qed

lemma read_leaf:
  assumes rt: "wkb_rt chk g" and full: "full_dims v" and c: "st_check s AND 7 = chk AND 7"
    and p: "pos s = wkb_spec g v @ rest" and d: "geom_height g \<le> d" and b: "wkb_spec g v = enc_prefix v g @ body"
    and rd: "\<And>rd s. reads v be s \<Longrightarrow> st_dims (g_hdr g) s \<Longrightarrow> st_check s AND 7 = chk AND 7 \<Longrightarrow>
      pos s = body @ rest \<Longrightarrow> st_lwtype s = lwgeom_get_type g \<Longrightarrow>
      body_from_wkb_state be rd s = Inr (wkb_canon (vbit v WKB_EXTENDED) (st_srid s) g, s\<lparr>pos := rest\<rparr>)"
  shows "read_ok v chk g s rest (lwgeom_from_wkb_state be d s)"
proof -
  obtain d' where d': "d = Suc d'" using d by (cases d) (cases g; simp)+
  let ?s = "after_header be v g (body @ rest) s"
  have "body_from_wkb_state be (lwgeom_from_wkb_state be d') ?s
      = Inr (wkb_canon (vbit v WKB_EXTENDED) (new_srid v (st_srid s) g) g, ?s\<lparr>pos := rest\<rparr>)"
    using rd[of ?s] c by (simp add: after_header_simps)
  moreover have "left_by chk ?s rest (?s\<lparr>pos := rest\<rparr>)" using c by (simp add: left_by_def after_header_simps)
  moreover have "pos s = enc_prefix v g @ body @ rest" using p b by simp
  ultimately show ?thesis unfolding d' by (intro read_step[OF rt full])
qed

lemma spec_point: "wkb_spec (LwPoint h pa) v = enc_prefix v (LwPoint h pa) @
    (if lwline_is_empty pa then concat (replicate (pa_ndims pa) (enc_dbl v dbl_nan)) else enc_pa (v OR WKB_NO_NPOINTS) pa)"
  by (subst wkb_spec.simps) simp

lemma spec_line:
  assumes "pa_rt h pa" and "\<not> vbit v WKB_NO_NPOINTS"
  shows "wkb_spec (LwLine h pa) v = enc_prefix v (LwLine h pa) @ enc_pa v pa"
    and "wkb_spec (LwCircString h pa) v = enc_prefix v (LwCircString h pa) @ enc_pa v pa"
  using enc_pa_empty[OF _ assms] by (subst wkb_spec.simps, simp)+

lemma spec_triangle: "wkb_spec (LwTriangle h pa) v = enc_prefix v (LwTriangle h pa) @
    (if lwline_is_empty pa then enc_int v 0 else enc_int v 1 @ enc_pa v pa)"
  by (subst wkb_spec.simps) simp

lemma spec_poly: "wkb_spec (LwPoly h rings) v = enc_prefix v (LwPoly h rings) @
    (if lwpoly_is_empty rings then enc_int v 0 else enc_int v (of_nat (length rings)) @ concat (map (enc_pa v) rings))"
  by (subst wkb_spec.simps) simp

lemma spec_ellipse: "wkb_spec (LwEllipse h e) v = enc_prefix v (LwEllipse h e) @ enc_pa v (el_points e) @
    concat (map (enc_dbl v) [el_minor e, el_clockwise e, el_rotation e, el_axis e, el_ratio e])"
  by (subst wkb_spec.simps) simp

lemma spec_bezier: "wkb_spec (LwBezier h pa) v = enc_prefix v (LwBezier h pa) @ enc_pa v pa"
  by (subst wkb_spec.simps) simp

text \<open>In ISO form an empty collection loses its members.\<close>

definition kept :: "u8 \<Rightarrow> lwgeom list \<Rightarrow> lwgeom list" where
  "kept v gs = (if list_all lwgeom_is_empty gs \<and> \<not> vbit v WKB_EXTENDED then [] else gs)"

lemma spec_coll: "wkb_spec (LwColl ty h gs) v = enc_prefix v (LwColl ty h gs) @
    enc_int v (of_nat (length (kept v gs))) @ concat (map (\<lambda>g. wkb_spec g (v OR WKB_NO_SRID)) (kept v gs))"
  by (subst wkb_spec.simps) (simp add: kept_def)

lemmas wkb_specs = spec_point spec_line spec_triangle spec_poly spec_ellipse spec_bezier spec_coll

lemma read_coll:
  assumes IH: "\<And>g v s rest d. g \<in> set gs \<Longrightarrow> wkb_rt chk g \<Longrightarrow> full_dims v \<Longrightarrow> \<not> vbit v WKB_NO_NPOINTS \<Longrightarrow>
      pos s = wkb_spec g v @ rest \<Longrightarrow> st_check s AND 7 = chk AND 7 \<Longrightarrow>
      coll_depth g + unat (st_depth s) < 200 \<Longrightarrow> geom_height g \<le> d \<Longrightarrow>
      read_ok v chk g s rest (lwgeom_from_wkb_state be d s)"
    and p: "wkb_rt chk (LwColl ty h gs)" "full_dims v" "\<not> vbit v WKB_NO_NPOINTS"
      "pos s = wkb_spec (LwColl ty h gs) v @ rest" "st_check s AND 7 = chk AND 7"
      "coll_depth (LwColl ty h gs) + unat (st_depth s) < 200" "geom_height (LwColl ty h gs) \<le> d"
  shows "read_ok v chk (LwColl ty h gs) s rest (lwgeom_from_wkb_state be d s)"
proof -
  let ?g = "LwColl ty h gs" and ?gs = "kept v gs"
  let ?f = "\<lambda>g. wkb_spec g (v OR WKB_NO_SRID)"
  let ?body = "enc_int v (of_nat (length ?gs)) @ concat (map ?f ?gs) @ rest"
  let ?s = "after_header be v ?g ?body s"
  obtain d' where d': "d = Suc d'" using p(7) by (cases d) simp_all
  have pos: "pos s = enc_prefix v ?g @ ?body" using p(4) by (simp add: spec_coll)
  have sub: "set ?gs \<subseteq> set gs" by (simp add: kept_def)
  have rt: "wkb_rt chk (LwColl ty h ?gs)" using p(1) by (simp add: kept_def)
  have depth: "coll_depth (LwColl ty h ?gs) + unat (st_depth ?s) < 200"
    using p(6) by (auto simp: kept_def after_header_simps)
  have rd: "\<exists>s'. lwgeom_from_wkb_state be d' t = Inr (wkb_canon (vbit v WKB_EXTENDED) (st_srid t) g, s') \<and> left_by chk t r s'"
    if g: "g \<in> set ?gs" and "pos t = ?f g @ r" "st_check t AND 7 = chk AND 7" "coll_depth g + unat (st_depth t) < 200"
    for g t r
  proof -
    have "wkb_rt chk g" using rt g by (simp add: list_all_iff)
    moreover have "geom_height g \<le> d'" using coll_height_le[of g gs ty h d'] g sub p(7) d' by blast
    ultimately have "read_ok (v OR WKB_NO_SRID) chk g t r (lwgeom_from_wkb_state be d' t)"
      using IH[of g "v OR WKB_NO_SRID" t r d'] g sub p(2,3) that by auto
    then show ?thesis by (simp add: read_ok_def)
  qed
  have reads: "reads v be ?s" and dims: "st_dims h ?s" and chk: "st_check ?s AND 7 = chk AND 7"
      and lw: "st_lwtype ?s = ty" and body: "pos ?s = ?body" and srid: "st_srid ?s = new_srid v (st_srid s) ?g"
    using p(5) after_header_simps(2)[of ?g] by (simp_all add: after_header_simps)
  obtain s' where m: "(if ty = CURVEPOLYTYPE then lwcurvepoly_from_wkb_state be (lwgeom_from_wkb_state be d') ?s
      else lwcollection_from_wkb_state be (lwgeom_from_wkb_state be d') ?s)
      = Inr (LwColl ty (empty_hdr (st_srid ?s) (hdr_z h) (hdr_m h)) (map (wkb_canon (vbit v WKB_EXTENDED) (st_srid ?s)) ?gs), s')"
      and l: "left_by chk ?s rest s'"
    using read_collection_body[OF reads dims p(2) rt chk lw depth body rd] by blast
  have "body_from_wkb_state be (lwgeom_from_wkb_state be d') ?s
      = (if ty = CURVEPOLYTYPE then lwcurvepoly_from_wkb_state be (lwgeom_from_wkb_state be d') ?s
         else lwcollection_from_wkb_state be (lwgeom_from_wkb_state be d') ?s)"
    using p(1) lw by (auto simp: body_from_wkb_state_def lwtype_is_collection_def)
  also have "\<dots> = Inr (wkb_canon (vbit v WKB_EXTENDED) (new_srid v (st_srid s) ?g) ?g, s')"
    unfolding m srid by (simp add: kept_def)
  finally show ?thesis unfolding d' using l by (rule read_step[OF p(1,2) pos])
qed

lemma read_geom:
  assumes "wkb_rt chk g" and "full_dims v" and "\<not> vbit v WKB_NO_NPOINTS" and "pos s = wkb_spec g v @ rest"
    and "st_check s AND 7 = chk AND 7" and "coll_depth g + unat (st_depth s) < 200" and "geom_height g \<le> d"
  shows "read_ok v chk g s rest (lwgeom_from_wkb_state be d s)"
  using assms
proof (induction g arbitrary: v s rest d)
  case (LwPoint h pa)
  note p = LwPoint.prems
  show ?case using p read_point_body[OF _ _ p(1,2)]
    by (intro read_leaf[OF p(1,2,5,4,7) spec_point]) (simp_all add: body_from_wkb_state_def del: wkb_canon.simps)
next
  case (LwLine h pa)
  note p = LwLine.prems
  show ?case using p read_line_body[OF _ _ p(1-3)]
    by (intro read_leaf[OF p(1,2,5,4,7) spec_line(1)]) (simp_all add: body_from_wkb_state_def del: wkb_canon.simps)
next
  case (LwCircString h pa)
  note p = LwCircString.prems
  show ?case using p read_circ_body[OF _ _ p(1-3)]
    by (intro read_leaf[OF p(1,2,5,4,7) spec_line(2)]) (simp_all add: body_from_wkb_state_def del: wkb_canon.simps)
next
  case (LwTriangle h pa)
  note p = LwTriangle.prems
  show ?case using p read_triangle_body[OF _ _ p(1-3)]
    by (intro read_leaf[OF p(1,2,5,4,7) spec_triangle]) (simp_all add: body_from_wkb_state_def del: wkb_canon.simps)
next
  case (LwPoly h rings)
  note p = LwPoly.prems
  show ?case using p read_poly_body[OF _ _ p(1-3)]
    by (intro read_leaf[OF p(1,2,5,4,7) spec_poly]) (simp_all add: body_from_wkb_state_def del: wkb_canon.simps)
next
  case (LwEllipse h e)
  note p = LwEllipse.prems
  show ?case using p read_ellipse_body[OF _ _ p(1-3)]
    by (intro read_leaf[OF p(1,2,5,4,7) spec_ellipse]) (simp_all add: body_from_wkb_state_def del: wkb_canon.simps)
next
  case (LwBezier h pa)
  note p = LwBezier.prems
  show ?case using p read_bezier_body[OF _ _ p(1-3)]
    by (intro read_leaf[OF p(1,2,5,4,7) spec_bezier]) (simp_all add: body_from_wkb_state_def del: wkb_canon.simps)
next
  case (LwColl ty h gs)
  show ?case by (rule read_coll[OF LwColl.IH LwColl.prems])
qed

section \<open>Hexadecimal digits\<close>

lemma hex_digits16:
  "list_all (\<lambda>sc. list_all (\<lambda>n. hex_digit sc (hexchr ! n) = Inr (of_nat n)) [0..<16]) [True, False]"
  by code_simp

lemma hex_digit_hexchr: "n < 16 \<Longrightarrow> hex_digit sc (hexchr ! n) = Inr (of_nat n)"
  using hex_digits16[unfolded all_bool] by (simp add: list_all_iff)

lemma nibbles:
  fixes b :: u8
  shows "unat (drop_bit 4 b) < 16" "unat (b AND 15) < 16"
    "push_bit 4 (drop_bit 4 b AND 15) OR ((b AND 15) AND 15) = b"
proof -
  show "unat (drop_bit 4 b) < 16"
  proof -
    have "unat b < 2 ^ LENGTH(8)" by (rule unsigned_less)
    then have "unat b div 16 < 16" by simp
    then show ?thesis by (simp add: unat_drop_bit_eq drop_bit_eq_div unat_div)
  qed
  have "b AND 15 \<le> 15" by (rule word_and_le1)
  then show "unat (b AND 15) < 16" by (simp add: word_le_nat_alt)
  have m: "(15 :: u8) = mask 4" by (simp add: mask_eq_exp_minus_1)
  show "push_bit 4 (drop_bit 4 b AND 15) OR ((b AND 15) AND 15) = b"
    unfolding m by (rule bit_eqI) (auto simp: bit_simps)
qed

lemma hex_pairs_hexpair: "hex_pairs sc (concat (map hexpair bs)) = Inr bs"
proof (induction bs)
  case (Cons b bs)
  have "\<not> 15 < drop_bit 4 b" "\<not> 15 < b AND 15"
    using nibbles(1,2)[of b] by (simp_all add: word_less_nat_alt)
  then show ?case
    using Cons nibbles[of b] by (simp add: hexpair_def hex_digit_hexchr)
qed simp

lemma bytes_from_hexpairs: "bytes_from_hexbytes sc (concat (map hexpair bs)) = Inr bs"
proof -
  have "length (concat (map hexpair bs)) = 2 * length bs"
    by (rule concat_const_length) (simp add: hexpair_def)
  then show ?thesis by (simp add: bytes_from_hexbytes_def hex_pairs_hexpair)
qed

section \<open>The round trip\<close>

lemma default_order_bits:
  "vbit (wkb_default_order be v) WKB_EXTENDED = vbit v WKB_EXTENDED"
  "vbit (wkb_default_order be v) WKB_ISO = vbit v WKB_ISO"
  "vbit (wkb_default_order be v) WKB_NO_SRID = vbit v WKB_NO_SRID"
  "vbit (wkb_default_order be v) WKB_NO_NPOINTS = vbit v WKB_NO_NPOINTS"
  by (simp_all add: wkb_default_order_def vbit_or) (simp_all add: vbit_def)

lemma parse_spec:
  assumes "wkb_rt chk g" and "full_dims v" and "\<not> vbit v WKB_NO_NPOINTS" and "coll_depth g < 199" and "geom_height g \<le> d"
  shows "lwgeom_from_wkb be d (wkb_spec g v) chk = Inr (Some (wkb_canon (vbit v WKB_EXTENDED) (new_srid v SRID_UNKNOWN g) g))"
proof -
  have "read_ok v chk g (wkb_initial_state (wkb_spec g v) chk) []
      (lwgeom_from_wkb_state be d (wkb_initial_state (wkb_spec g v) chk))"
    using assms by (intro read_geom) (simp_all add: wkb_initial_state_def)
  moreover have "wkb_spec g v \<noteq> []" by (subst wkb_spec.simps) (simp add: enc_prefix_def)
  ultimately show ?thesis by (auto simp: lwgeom_from_wkb_def read_ok_def wkb_initial_state_def)
qed

text \<open>C1: The binary round trip. A geometry written as extended or ISO well-known binary, in either
  byte order, by a machine of byte order \<open>be\<close>, as bytes or as hexadecimal digits, is parsed on any
  machine (byte order \<open>be'\<close>, plain \<open>char\<close> signed or not) as the same geometry in canonical form:
  type, dimensions, ordinates, ring and member structure are those written, the SRID is clamped and
  handed down to the members. The geometry has to satisfy the checks asked for, and its collections
  may nest at most 198 deep.\<close>

theorem wkb_roundtrip:
  assumes rt: "wkb_rt chk g" and dims: "full_dims variant" and np: "\<not> vbit variant WKB_NO_NPOINTS"
    and fits: "2 * lwgeom_to_wkb_size g variant + 1 < 2 ^ 31"
    and nest: "coll_depth g < 199" and stack: "geom_height g \<le> d"
  shows "\<exists>wkb. lwgeom_to_wkb_varlena be g variant = Inr wkb \<and>
    (if vbit variant WKB_HEX then lwgeom_from_hexwkb sc be' d wkb chk else lwgeom_from_wkb be' d wkb chk)
      = Inr (Some (wkb_canon (vbit variant WKB_EXTENDED)
          (if lwgeom_wkb_needs_srid g variant then clamp_srid (g_srid (g_hdr g)) else SRID_UNKNOWN) g))"
proof -
  let ?v = "wkb_default_order be variant"
  have w: "lwgeom_to_wkb_varlena be g variant = Inr (wkb_text ?v (wkb_spec g ?v))"
    using wkb_writer_spec[OF wkb_rt_ok[OF rt] fits] by (simp add: Let_def)
  have "new_srid ?v SRID_UNKNOWN g
      = (if lwgeom_wkb_needs_srid g variant then clamp_srid (g_srid (g_hdr g)) else SRID_UNKNOWN)"
    by (simp add: new_srid_def lwgeom_wkb_needs_srid_def default_order_bits)
  then have p: "lwgeom_from_wkb be' d (wkb_spec g ?v) chk
      = Inr (Some (wkb_canon (vbit variant WKB_EXTENDED)
          (if lwgeom_wkb_needs_srid g variant then clamp_srid (g_srid (g_hdr g)) else SRID_UNKNOWN) g))"
    using parse_spec[OF rt _ _ nest stack, of ?v be'] dims np by (simp add: full_dims_def default_order_bits)
  have "wkb_text ?v (wkb_spec g ?v) = (if vbit variant WKB_HEX then concat (map hexpair (wkb_spec g ?v)) else wkb_spec g ?v)"
    by (simp add: wkb_text_def default_order_hex)
  then show ?thesis
    using w p by (simp add: lwgeom_from_hexwkb_def bytes_from_hexpairs)
qed

lemma wkb_example_rt: "wkb_rt LW_PARSER_CHECK_MINPOINTS wkb_example"
  by (simp add: wkb_example_def lwpoly_construct_empty_def lwtype_is_collection_def lwcollection_allows_subtype_def
    pa_rt_def pa_wf_def FLAGS_NDIMS_bits flags_simps empty_hdr_def)

theorem wkb_roundtrip_witness:
  "\<exists>wkb. lwgeom_to_wkb_varlena False wkb_example (WKB_EXTENDED OR WKB_HEX) = Inr wkb \<and>
     lwgeom_from_hexwkb True True 2 wkb LW_PARSER_CHECK_MINPOINTS = Inr (Some (wkb_canon True 4326 wkb_example))"
proof -
  have s: "2 * lwgeom_to_wkb_size wkb_example (WKB_EXTENDED OR WKB_HEX) + 1 < 2 ^ 31"
    by (simp only: wkb_example_size) simp
  have d: "full_dims (WKB_EXTENDED OR WKB_HEX)" "\<not> vbit (WKB_EXTENDED OR WKB_HEX) WKB_NO_NPOINTS"
      "vbit (WKB_EXTENDED OR WKB_HEX) WKB_HEX" "vbit (WKB_EXTENDED OR WKB_HEX) WKB_EXTENDED"
      "lwgeom_wkb_needs_srid wkb_example (WKB_EXTENDED OR WKB_HEX)"
      "clamp_srid (g_srid (g_hdr wkb_example)) = 4326"
    by (simp_all add: full_dims_def vbit_def lwgeom_wkb_needs_srid_def wkb_example_def lwgeom_has_srid_def
      lwgeom_get_srid_def clamp_srid_def word_sle_eq sint_small)
  have n: "coll_depth wkb_example < 199" "geom_height wkb_example \<le> 2"
    by (simp_all add: wkb_example_def lwpoly_construct_empty_def)
  show ?thesis
    using wkb_roundtrip[OF wkb_example_rt d(1,2) s n, of False True True] d(3-6) by simp
qed

end
