(* ===== verification/WkbSafety.thy ===== *)
theory WkbSafety
  imports WkbRoundtrip
begin

text \<open>
  What the parser does on arbitrary bytes: it always returns, within a call depth bounded by the
  size of the input; what it returns is well formed; it reads past the input only for ellipses.
\<close>

section \<open>Parse steps\<close>

text \<open>
  \<open>parses E Q s m\<close>: a step from \<open>s\<close> with outcome \<open>m\<close> does not end in a fault of \<open>E\<close>, and when it
  succeeds its result satisfies \<open>Q\<close>, no input has been put back and the depth is restored.
\<close>

definition rest_of :: "wkb_parse_state \<Rightarrow> wkb_parse_state \<Rightarrow> bool" where
  "rest_of s t \<longleftrightarrow> (\<exists>k. pos t = drop k (pos s)) \<and> st_depth t = st_depth s"

lemma rest_of_refl [simp]: "rest_of s s"
  by (auto simp: rest_of_def intro!: exI[of _ 0])

lemma rest_of_drop [simp]: "pos t = drop k (pos s) \<Longrightarrow> st_depth t = st_depth s \<Longrightarrow> rest_of s t"
  by (auto simp: rest_of_def)

lemma rest_of_trans: "rest_of s t \<Longrightarrow> rest_of t u \<Longrightarrow> rest_of s u"
  by (auto simp: rest_of_def)

lemma rest_of_length: "rest_of s t \<Longrightarrow> length (pos t) \<le> length (pos s)"
  by (auto simp: rest_of_def)

definition parses :: "fault set \<Rightarrow> ('a \<Rightarrow> bool) \<Rightarrow> wkb_parse_state \<Rightarrow> ('a \<times> wkb_parse_state) res \<Rightarrow> bool" where
  "parses E Q s m \<longleftrightarrow> (case m of
      Inl e \<Rightarrow> e \<notin> E
    | Inr (x, s') \<Rightarrow> Q x \<and> rest_of s s')"

definition quiet :: "fault set \<Rightarrow> bool" where
  "quiet E \<longleftrightarrow> (\<forall>msg. LwError msg \<notin> E)"

lemma parses_error [simp]: "quiet E \<Longrightarrow> parses E Q s (Inl (LwError msg))"
  by (simp add: parses_def quiet_def)

lemma parses_Inr [simp]:
  "parses E Q s (Inr (x, s')) \<longleftrightarrow> Q x \<and> rest_of s s'"
  by (simp add: parses_def)

lemma parses_bind:
  assumes "parses E P s m"
    and "\<And>x t. P x \<Longrightarrow> rest_of s t \<Longrightarrow> parses E Q t (f (x, t))"
  shows "parses E Q s (rbind m f)"
proof (cases m)
  case (Inr r)
  obtain x t where r: "r = (x, t)" by (cases r)
  then show ?thesis
    using assms(1) assms(2)[of x t] Inr
    by (auto simp: parses_def intro: rest_of_trans split: sum.splits)
qed (use assms(1) in \<open>simp add: parses_def\<close>)

lemma parses_mono: "parses E P s m \<Longrightarrow> (\<And>x. P x \<Longrightarrow> Q x) \<Longrightarrow> parses E Q s m"
  by (auto simp: parses_def split: sum.splits)

lemma byte_parses: "quiet E \<Longrightarrow> parses E (\<lambda>_. True) s (byte_from_wkb_state s)"
  by (auto simp: byte_from_wkb_state_def wkb_parse_state_check_def intro: rest_of_drop[where k = 1] simp: drop_Suc)

lemma integer_parses: "quiet E \<Longrightarrow> parses E (\<lambda>_. True) s (integer_from_wkb_state be s)"
  by (auto simp: integer_from_wkb_state_def wkb_parse_state_check_def Let_def)

lemma double_parses: "MemFault \<notin> E \<Longrightarrow> parses E (\<lambda>_. True) s (double_from_wkb_state be s)"
  by (auto simp: double_from_wkb_state_def Let_def parses_def)

text \<open>Behind a size check the doubles are there.\<close>

lemma doubles_parses:
  "8 * n \<le> length (pos s) \<Longrightarrow> parses E (\<lambda>ds. length ds = n) s (doubles_from_wkb_state be n s)"
proof (induction n arbitrary: s)
  case (Suc n)
  let ?d = "take 8 (pos s)" and ?s = "s\<lparr>pos := drop 8 (pos s)\<rparr>"
  have d: "double_from_wkb_state be s = Inr (mem_word be (if swap_bytes s then swap_object ?d else ?d), ?s)"
    using Suc.prems by (simp add: double_from_wkb_state_def Let_def)
  have "parses E (\<lambda>ds. length ds = n) ?s (doubles_from_wkb_state be n ?s)"
    using Suc.prems by (intro Suc.IH) simp
  then show ?case
    by (auto simp: d rbind_def parses_def intro: rest_of_trans[rotated] split: sum.splits)
qed simp

lemma doubles_flags:
  "doubles_from_wkb_state be n s = Inr (ds, t) \<Longrightarrow> has_z t = has_z s \<and> has_m t = has_m s"
  by (induction n arbitrary: s ds)
    (fastforce simp: rbind_eq_Inr_iff double_from_wkb_state_def Let_def split: if_splits)+

section \<open>Point arrays\<close>

lemma st_ndims_le: "st_ndims s \<le> 4"
  by (simp add: st_ndims_def)

lemma points_parses:
  assumes q: "quiet E" and n: "n \<le> 134217727"
  shows "parses E pa_ok s (points_from_wkb_state be n s)"
proof -
  have "unat n \<le> 134217727" using n by (simp add: word_le_nat_alt)
  then have "unat n * st_ndims s * 8 \<le> 134217727 * 4 * 8" using st_ndims_le by (intro mult_le_mono) simp_all
  then have sz: "unat n * st_ndims s * 8 < 2 ^ 32" by simp
  have u8: "unat (n * of_nat (st_ndims s) * 8 :: u32) = unat n * st_ndims s * 8"
    using unat_mult3[OF sz] by simp
  have "unat n * st_ndims s * 1 < 2 ^ 32" using sz by linarith
  from unat_mult3[OF this] have u1: "unat (n * of_nat (st_ndims s) :: u32) = unat n * st_ndims s" by simp
  have nd: "FLAGS_NDIMS (lwflags (has_z s) (has_m s) False) = st_ndims s"
    by (simp add: lwflags_ndims st_ndims_def)
  show ?thesis
  proof (cases "swap_bytes s")
    case True
    have "parses E pa_ok s (rbind (doubles_from_wkb_state be (unat n * st_ndims s) s) (\<lambda>(dlist, t).
             Inr ((ptarray_construct_empty (has_z t) (has_m t) n)\<lparr>npoints := n, serialized_pointlist := dlist\<rparr>, t)))"
      if "unat n * st_ndims s * 8 \<le> length (pos s)"
      using doubles_parses[of "unat n * st_ndims s" s E be] doubles_flags[of be _ s] that sz nd
      by (auto simp: rbind_def parses_def pa_ok_def pa_wf_def ptarray_construct_empty_def split: sum.splits)
    then show ?thesis using True q
      by (auto simp: points_from_wkb_state_def Let_def u8 u1 wkb_parse_state_check_def)
  next
    case False
    then show ?thesis using q sz
      by (auto simp: points_from_wkb_state_def Let_def u8 wkb_parse_state_check_def pa_ok_def pa_wf_def
          ptarray_construct_copy_data_def nd)
  qed
qed

lemma ptarray_parses: "quiet E \<Longrightarrow> parses E pa_ok s (ptarray_from_wkb_state be s)"
  unfolding ptarray_from_wkb_state_def
  by (rule parses_bind[OF integer_parses])
    (auto simp: pa_ok_def pa_wf_def ptarray_construct_empty_def intro!: points_parses)

section \<open>Geometries without members\<close>

text \<open>What the parser guarantees of a geometry read at nesting depth \<open>k\<close>.\<close>

fun members_allowed :: "lwgeom \<Rightarrow> bool" where
  "members_allowed (LwColl ty _ gs) = list_all (\<lambda>g. lwcollection_allows_subtype ty (lwgeom_get_type g) \<and> members_allowed g) gs"
| "members_allowed _ = True"

definition parsed :: "nat \<Rightarrow> lwgeom \<Rightarrow> bool" where
  "parsed k g \<longleftrightarrow> geom_ok g \<and> members_allowed g \<and> coll_depth g + k < 200"

lemma pa_ok_empty [simp]: "pa_ok (ptarray_construct_empty z m n)"
  by (simp add: pa_ok_def pa_wf_def ptarray_construct_empty_def)

lemmas construct_defs = lwpoint_construct_empty_def lwpoint_construct_def lwline_construct_empty_def
    lwline_construct_def lwcircstring_construct_empty_def lwcircstring_construct_def
    lwtriangle_construct_empty_def lwtriangle_construct_def

lemma simple_parses:
  assumes q: "quiet E" and k: "k < 200"
  shows "parses E (parsed k) s (lwpoint_from_wkb_state be s)" "parses E (parsed k) s (lwline_from_wkb_state be s)"
    "parses E (parsed k) s (lwcircstring_from_wkb_state be s)" "parses E (parsed k) s (lwbezier_from_wkb_state be s)"
    "parses E (parsed k) s (lwtriangle_from_wkb_state be s)"
proof -
  show "parses E (parsed k) s (lwpoint_from_wkb_state be s)"
    unfolding lwpoint_from_wkb_state_def
    by (rule parses_bind[OF points_parses]) (use q k in \<open>auto simp: Let_def parsed_def construct_defs\<close>)
  show "parses E (parsed k) s (lwline_from_wkb_state be s)"
    unfolding lwline_from_wkb_state_def
    by (rule parses_bind[OF ptarray_parses]) (use q k in \<open>auto simp: Let_def parsed_def construct_defs\<close>)
  show "parses E (parsed k) s (lwcircstring_from_wkb_state be s)"
    unfolding lwcircstring_from_wkb_state_def
    by (rule parses_bind[OF ptarray_parses]) (use q k in \<open>auto simp: Let_def parsed_def construct_defs\<close>)
  show "parses E (parsed k) s (lwbezier_from_wkb_state be s)"
    unfolding lwbezier_from_wkb_state_def Let_def
    by (rule parses_bind[OF ptarray_parses]) (use q k in \<open>auto simp: parsed_def construct_defs\<close>)
  have t: "parses E (parsed k) t (rbind (ptarray_from_wkb_state be t) (\<lambda>(pa, s).
         if checks s LW_PARSER_CHECK_MINPOINTS \<and> npoints pa < 4
         then Inl (LwError m1)
         else if checks s LW_PARSER_CHECK_ZCLOSURE \<and> ptarray_is_closed_z pa = 0
         then Inl (LwError m2)
         else Inr (lwtriangle_construct (st_srid s) None pa, s)))" for t m1 m2
    by (rule parses_bind[OF ptarray_parses]) (use q k in \<open>auto simp: Let_def parsed_def construct_defs\<close>)
  show "parses E (parsed k) s (lwtriangle_from_wkb_state be s)"
    unfolding lwtriangle_from_wkb_state_def
    by (rule parses_bind[OF integer_parses]) (use q k t in \<open>auto simp: parsed_def construct_defs\<close>)
qed

lemma ellipse_parses:
  assumes q: "quiet E" and k: "k < 200" and E: "MemFault \<notin> E"
  shows "parses E (parsed k) s (lwellipse_from_wkb_state be s)"
  unfolding lwellipse_from_wkb_state_def Let_def
  apply (rule parses_bind[OF ptarray_parses[OF q]], simp only: prod.case)
  apply (rule parses_bind[OF double_parses[OF E]], simp only: prod.case)+
  using k by (simp add: parsed_def)

lemma rings_parses:
  assumes q: "quiet E"
  shows "list_all pa_ok rings \<Longrightarrow> parses E (list_all pa_ok) s (rings_from_wkb_state be n rings s)"
proof (induction n arbitrary: rings s)
  case (Suc n)
  show ?case
    unfolding rings_from_wkb_state.simps
    by (rule parses_bind[OF ptarray_parses[OF q]]) (use Suc q in \<open>auto simp: lwpoly_add_ring_def\<close>)
qed simp

lemma poly_parses:
  assumes q: "quiet E" and k: "k < 200"
  shows "parses E (parsed k) s (lwpoly_from_wkb_state be s)"
proof -
  have "parses E (parsed k) t (rbind (rings_from_wkb_state be n [] t) (\<lambda>(rings, s). Inr (LwPoly h rings, s)))" for t n h
    by (rule parses_bind[OF rings_parses]) (use q k in \<open>auto simp: parsed_def\<close>)
  then show ?thesis
    unfolding lwpoly_from_wkb_state_def
    by (intro parses_bind[OF integer_parses[OF q]]) (simp add: Let_def)
qed

section \<open>Collections\<close>

lemma members_parses:
  assumes q: "quiet E"
    and rd: "\<And>t. rest_of s0 t \<Longrightarrow> parses E P t (rd t)"
    and adde: "\<And>hs g e. add hs g = Inl e \<Longrightarrow> e \<notin> E"
    and add: "\<And>hs g hs'. add hs g = Inr hs' \<Longrightarrow> P g \<Longrightarrow> list_all Q hs \<Longrightarrow> list_all Q hs'"
  shows "list_all Q gs \<Longrightarrow> rest_of s0 s \<Longrightarrow> parses E (list_all Q) s (members_from_wkb_state rd add n gs s)"
proof (induction n arbitrary: gs s)
  case (Suc n)
  show ?case
    unfolding members_from_wkb_state.simps
  proof (rule parses_bind[OF rd[OF Suc.prems(2)]], simp only: prod.case)
    fix g t assume g: "P g" and t: "rest_of s t"
    show "parses E (list_all Q) t (rbind (add gs g) (\<lambda>gs. members_from_wkb_state rd add n gs t))"
    proof (cases "add gs g")
      case (Inl e)
      then show ?thesis using adde by (simp add: parses_def)
    next
      case (Inr gs')
      then have "list_all Q gs'" using add g Suc.prems(1) by blast
      then show ?thesis using Inr Suc.IH[of gs' t] rest_of_trans[OF Suc.prems(2) t] by simp
    qed
  qed
qed simp

lemma coll_depth_less:
  assumes "list_all (\<lambda>g. coll_depth g + k < 200) gs" and "k < 200"
  shows "gs = [] \<or> Max (set (map coll_depth gs)) + k < 200"
proof (cases "gs = []")
  case False
  then have "Max (set (map coll_depth gs)) \<in> set (map coll_depth gs)" by (intro Max_in) simp_all
  then show ?thesis using assms by (auto simp: list_all_iff)
qed simp

lemma parsed_coll:
  assumes ty: "lwtype_is_collection ty" and k: "k < 200"
    and gs: "list_all (\<lambda>g. parsed k' g \<and> lwcollection_allows_subtype ty (lwgeom_get_type g)) gs"
    and k': "k' = (if ty = CURVEPOLYTYPE then k else Suc k)" "gs \<noteq> [] \<longrightarrow> k' < 200"
  shows "parsed k (LwColl ty h gs)"
proof -
  have a: "list_all (\<lambda>g. coll_depth g + k' < 200) gs" "list_all geom_ok gs"
      "list_all (\<lambda>g. lwcollection_allows_subtype ty (lwgeom_get_type g) \<and> members_allowed g) gs"
    using gs by (auto simp: list_all_iff parsed_def)
  have "coll_depth (LwColl ty h gs) + k < 200"
  proof (cases "gs = []")
    case False
    then have "Max (set (map coll_depth gs)) + k' < 200" using coll_depth_less[OF a(1)] k'(2) by blast
    then show ?thesis using k'(1) False by (auto split: if_splits)
  qed (use k in simp)
  then show ?thesis using a ty unfolding parsed_def by simp
qed

lemma curvepoly_add: "lwcurvepoly_add_ring gs g =
    (if lwcollection_allows_subtype CURVEPOLYTYPE (lwgeom_get_type g) then Some (gs @ [g]) else None)"
  by (simp add: lwcurvepoly_add_ring_def lwcollection_allows_subtype_def)

lemma curvepoly_parses:
  assumes q: "quiet E" and k: "unat (st_depth s) < 200"
    and rd: "\<And>t. rest_of s t \<Longrightarrow> parses E (parsed (unat (st_depth t))) t (rd t)"
  shows "parses E (parsed (unat (st_depth s))) s (lwcurvepoly_from_wkb_state be rd s)"
proof -
  let ?k = "unat (st_depth s)"
  let ?Q = "\<lambda>g. parsed ?k g \<and> lwcollection_allows_subtype CURVEPOLYTYPE (lwgeom_get_type g)"
  let ?add = "\<lambda>gs g. case lwcurvepoly_add_ring gs g of
      None \<Rightarrow> Inl (LwError ''Unable to add geometry (%p) to curvepoly (%p)'') | Some gs \<Rightarrow> Inr gs"
  have rd': "parses E (parsed ?k) t (rd t)" if "rest_of s t" for t
    using rd[OF that] that by (simp add: rest_of_def)
  have e: "?add hs g = Inl e \<Longrightarrow> e \<notin> E" for hs g e
    using q by (auto simp: quiet_def split: option.splits)
  have a: "?add hs g = Inr hs' \<Longrightarrow> parsed ?k g \<Longrightarrow> list_all ?Q hs \<Longrightarrow> list_all ?Q hs'" for hs g hs'
    by (auto simp: curvepoly_add split: if_splits)
  have "parses E (parsed ?k) t (rbind (members_from_wkb_state rd ?add n [] t) (\<lambda>(gs, s). Inr (LwColl CURVEPOLYTYPE h gs, s)))"
    if t: "rest_of s t" for t n h
  proof (rule parses_bind[OF members_parses[OF q rd' e a _ t]])
    fix gs u assume "list_all ?Q gs" "rest_of t u"
    then show "parses E (parsed ?k) u (case (gs, u) of (gs, s) \<Rightarrow> Inr (LwColl CURVEPOLYTYPE h gs, s))"
      using k by (simp add: parsed_coll[where k' = ?k] lwtype_is_collection_def)
  qed simp_all
  then show ?thesis
    unfolding lwcurvepoly_from_wkb_state_def Let_def
    by (intro parses_bind[OF integer_parses[OF q]]) simp
qed

lemma members_at_depth:
  assumes "parses E P (s\<lparr>st_depth := k\<rparr>) m" and "st_depth s = k - 1"
    and "\<And>x t. P x \<Longrightarrow> Q (f x)"
  shows "parses E Q s (rbind m (\<lambda>(x, t). Inr (f x, t\<lparr>st_depth := st_depth t - 1\<rparr>)))"
  using assms by (auto simp: parses_def rbind_def rest_of_def split: sum.splits)

lemma collection_parses:
  assumes q: "quiet E" and k: "unat (st_depth s) < 200"
    and rd: "\<And>t. (\<exists>k. pos t = drop k (pos s)) \<Longrightarrow> unat (st_depth t) < 200 \<Longrightarrow>
      parses E (parsed (unat (st_depth t))) t (rd t)"
    and ty: "lwtype_is_collection (st_lwtype s)" "st_lwtype s \<noteq> CURVEPOLYTYPE"
  shows "parses E (parsed (unat (st_depth s))) s (lwcollection_from_wkb_state be rd s)"
proof -
  let ?ty = "st_lwtype s" and ?k = "unat (st_depth s)"
  let ?Q = "\<lambda>g. parsed (Suc ?k) g \<and> lwcollection_allows_subtype ?ty (lwgeom_get_type g)"
  have d: "unat (st_depth s + 1) = Suc ?k" using unat_u8_suc[OF k] .
  have e: "lwcollection_add_lwgeom ?ty hs g = Inl e \<Longrightarrow> e \<notin> E" for hs g e
    using q by (auto simp: lwcollection_add_lwgeom_def quiet_def split: if_splits)
  have a: "lwcollection_add_lwgeom ?ty hs g = Inr hs' \<Longrightarrow> parsed (Suc ?k) g \<Longrightarrow> list_all ?Q hs \<Longrightarrow> list_all ?Q hs'"
    for hs g hs' by (auto simp: lwcollection_add_lwgeom_def split: if_splits)
  have m: "parses E (parsed ?k) t (rbind (members_from_wkb_state rd (lwcollection_add_lwgeom ?ty) n [] (t\<lparr>st_depth := st_depth s + 1\<rparr>))
      (\<lambda>(gs, s). Inr (LwColl ?ty h gs, s\<lparr>st_depth := st_depth s - 1\<rparr>)))"
    if t: "rest_of s t" and lim: "\<not> LW_PARSER_MAX_DEPTH \<le> st_depth s + 1" for t n h
  proof (rule members_at_depth)
    let ?t = "t\<lparr>st_depth := st_depth s + 1\<rparr>"
    have k1: "Suc ?k < 200" using lim d by (simp add: word_le_nat_alt)
    have rd': "parses E (parsed (Suc ?k)) u (rd u)" if "rest_of ?t u" for u
    proof -
      have "\<exists>k. pos u = drop k (pos s)" using that t by (auto simp: rest_of_def)
      moreover have "unat (st_depth u) = Suc ?k" using that d by (simp add: rest_of_def)
      ultimately show ?thesis using rd[of u] k1 by simp
    qed
    show "parses E (list_all ?Q) ?t (members_from_wkb_state rd (lwcollection_add_lwgeom ?ty) n [] ?t)"
      by (rule members_parses[OF q rd' e a _ rest_of_refl]) simp_all
    show "st_depth t = st_depth s + 1 - 1" using t by (simp add: rest_of_def)
    show "parsed ?k (LwColl ?ty h gs)" if "list_all ?Q gs" for gs
      using that k k1 ty by (intro parsed_coll[where k' = "Suc ?k"]) simp_all
  qed
  show ?thesis
  proof (cases "length (pos s) < 4")
    case True
    then show ?thesis using q
      by (simp add: lwcollection_from_wkb_state_def integer_from_wkb_state_def wkb_parse_state_check_def)
  next
    case False
    then obtain n where i: "integer_from_wkb_state be s = Inr (n, s\<lparr>pos := drop 4 (pos s)\<rparr>)"
      by (simp add: integer_from_wkb_state_def wkb_parse_state_check_def Let_def)
    have r: "rest_of s (s\<lparr>pos := drop 4 (pos s), st_check := c\<rparr>)" "rest_of s (s\<lparr>pos := drop 4 (pos s)\<rparr>)" for c
      by (simp_all add: rest_of_drop[where k = 4])
    have lift: "parses E P s m'" if "parses E P t m'" "rest_of s t" for P t m'
      using that by (auto simp: parses_def intro: rest_of_trans split: sum.splits)
    have e: "parsed ?k (LwColl ?ty h [])" for h using ty k by (simp add: parsed_def)
    show ?thesis
      using q ty lift[OF m[OF r(1)] r(1)] lift[OF m[OF r(2)] r(2)] e r
      by (cases "?ty = POLYHEDRALSURFACETYPE")
        (simp_all add: lwcollection_from_wkb_state_def i Let_def lwcollection_construct_empty_def)
  qed
qed

section \<open>The parser\<close>

text \<open>No geometry header of type ellipse starts anywhere in the input.\<close>

definition no_ellipse :: "bool \<Rightarrow> u8 list \<Rightarrow> bool" where
  "no_ellipse be wkb \<longleftrightarrow> (\<forall>k s t. pos s = drop k wkb \<longrightarrow> header_from_wkb_state be s = Inr t \<longrightarrow> st_lwtype t \<noteq> ELLIPSETYPE)"

lemma no_ellipse_drop: "no_ellipse be wkb \<Longrightarrow> no_ellipse be (drop k wkb)"
  by (auto simp: no_ellipse_def)

text \<open>Steps that deliver a state only.\<close>

definition advances :: "fault set \<Rightarrow> wkb_parse_state \<Rightarrow> wkb_parse_state res \<Rightarrow> bool" where
  "advances E s m \<longleftrightarrow> (case m of Inl e \<Rightarrow> e \<notin> E | Inr t \<Rightarrow> rest_of s t)"

lemma advances_simps [simp]:
  "advances E s (Inl e) \<longleftrightarrow> e \<notin> E" "advances E s (Inr t) \<longleftrightarrow> rest_of s t"
  by (simp_all add: advances_def)

lemma advances_parse:
  assumes "parses E P s m" and "\<And>x t. rest_of s t \<Longrightarrow> advances E t (f (x, t))"
  shows "advances E s (rbind m f)"
proof (cases m)
  case (Inr r)
  then show ?thesis using assms(1) assms(2)[of "snd r" "fst r"]
    by (cases r) (auto simp: advances_def parses_def intro: rest_of_trans split: sum.splits)
qed (use assms(1) in \<open>simp add: parses_def\<close>)

lemma advances_bind:
  assumes "advances E s m" and "\<And>t. rest_of s t \<Longrightarrow> advances E t (f t)"
  shows "advances E s (rbind m f)"
proof (cases m)
  case (Inr t)
  then show ?thesis using assms(1) assms(2)[of t]
    by (auto simp: advances_def intro: rest_of_trans split: sum.splits)
qed (use assms(1) in simp)

lemma advances_cong: "pos t = pos s \<Longrightarrow> st_depth t = st_depth s \<Longrightarrow> advances E s m = advances E t m"
  by (simp add: advances_def rest_of_def split: sum.splits)

lemma lwtype_advances: "quiet E \<Longrightarrow> advances E s (lwtype_from_wkb_state s w)"
  by (auto simp: lwtype_from_wkb_state_def Let_def quiet_def rest_of_def split: option.splits intro: exI[of _ 0])

lemma header_parses:
  assumes q: "quiet E"
  shows "case header_from_wkb_state be s of Inl e \<Rightarrow> e \<notin> E
    | Inr t \<Rightarrow> rest_of s t \<and> length (pos t) < length (pos s)"
proof (cases "length (pos s) < 1")
  case True
  then show ?thesis using q
    by (simp add: header_from_wkb_state_def byte_from_wkb_state_def wkb_parse_state_check_def quiet_def)
next
  case False
  let ?u = "s\<lparr>pos := tl (pos s)\<rparr>"
  have b: "byte_from_wkb_state s = Inr (hd (pos s), ?u)"
    using False by (simp add: byte_from_wkb_state_def wkb_parse_state_check_def)
  have tail: "advances E t (if has_srid t then rbind (integer_from_wkb_state be t)
      (\<lambda>(i, s). Inr (s\<lparr>st_srid := clamp_srid i\<rparr>)) else Inr t)" for t
    by (auto intro!: advances_parse[OF integer_parses[OF q]] simp: rest_of_drop[where k = 0])
  have "advances E ?u (rbind (integer_from_wkb_state be t) (\<lambda>(wkb_type, s).
      rbind (lwtype_from_wkb_state s wkb_type) (\<lambda>s. if has_srid s
              then rbind (integer_from_wkb_state be s) (\<lambda>(i, s). Inr (s\<lparr>st_srid := clamp_srid i\<rparr>))
              else Inr s)))" if "pos t = pos ?u" "st_depth t = st_depth ?u" for t
    unfolding advances_cong[OF that]
    by (rule advances_parse[OF integer_parses[OF q]], simp only: prod.case, rule advances_bind[OF lwtype_advances[OF q]], rule tail)
  then have "advances E ?u (header_from_wkb_state be s)"
    using q unfolding header_from_wkb_state_def b rbind_simps prod.case Let_def
    by (auto simp: quiet_def)
  moreover have "rest_of s ?u" and "length (pos ?u) < length (pos s)"
    using False by (auto simp: rest_of_def drop_Suc intro!: exI[of _ 1])
  ultimately show ?thesis
    using rest_of_trans[of s ?u] rest_of_length[of ?u] by (fastforce simp: advances_def split: sum.splits)
qed

lemma body_type: "lwtype_is_collection ty \<longleftrightarrow> ty = CURVEPOLYTYPE \<or> ty \<in> {MULTIPOINTTYPE, MULTILINETYPE, MULTIPOLYGONTYPE, COMPOUNDTYPE,
          MULTICURVETYPE, MULTISURFACETYPE, POLYHEDRALSURFACETYPE, TINTYPE, COLLECTIONTYPE}"
  by (auto simp: lwtype_is_collection_def)

lemma body_parses:
  assumes q: "quiet E" and k: "unat (st_depth s) < 200" and el: "MemFault \<in> E \<longrightarrow> st_lwtype s \<noteq> ELLIPSETYPE"
    and rd: "\<And>t. (\<exists>k. pos t = drop k (pos s)) \<Longrightarrow> unat (st_depth t) < 200 \<Longrightarrow>
      parses E (parsed (unat (st_depth t))) t (rd t)"
  shows "parses E (parsed (unat (st_depth s))) s (body_from_wkb_state be rd s)"
proof -
  have c: "parses E (parsed (unat (st_depth s))) s (lwcurvepoly_from_wkb_state be rd s)"
    by (rule curvepoly_parses[OF q k rd]) (use k in \<open>auto simp: rest_of_def\<close>)
  have l: "parses E (parsed (unat (st_depth s))) s (lwcollection_from_wkb_state be rd s)"
    if "lwtype_is_collection (st_lwtype s)" "st_lwtype s \<noteq> CURVEPOLYTYPE"
    by (rule collection_parses[OF q k rd that])
  show ?thesis
    using el q simple_parses[OF q k] poly_parses[OF q k] c l ellipse_parses[OF q k]
    by (auto simp: body_from_wkb_state_def body_type)
qed

lemma geom_parses:
  assumes q: "quiet E"
  shows "unat (st_depth s) < 200 \<Longrightarrow> (StackOverflow \<in> E \<longrightarrow> length (pos s) < d) \<Longrightarrow>
    (MemFault \<in> E \<longrightarrow> no_ellipse be (pos s)) \<Longrightarrow>
    parses E (parsed (unat (st_depth s))) s (lwgeom_from_wkb_state be d s)"
proof (induction d arbitrary: s)
  case 0
  then show ?case by (simp add: parses_def)
next
  case (Suc d)
  show ?case
  proof (cases "header_from_wkb_state be s")
    case (Inl e)
    then show ?thesis using header_parses[OF q, where be = be and s = s] by (simp add: parses_def)
  next
    case (Inr t)
    have t: "rest_of s t" "length (pos t) < length (pos s)" using header_parses[OF q, where be = be and s = s] Inr by simp_all
    have el: "MemFault \<in> E \<longrightarrow> st_lwtype t \<noteq> ELLIPSETYPE"
      using Suc.prems(3) Inr unfolding no_ellipse_def by (metis drop0)
    have "parses E (parsed (unat (st_depth t))) t (body_from_wkb_state be (lwgeom_from_wkb_state be d) t)"
    proof (rule body_parses[OF q _ el])
      show "unat (st_depth t) < 200" using t Suc.prems(1) by (simp add: rest_of_def)
      fix u :: wkb_parse_state
      assume u: "\<exists>k. pos u = drop k (pos t)" "unat (st_depth u) < 200"
      then have l: "length (pos u) \<le> length (pos t)" by auto
      obtain k where "pos u = drop k (pos s)" using u(1) t(1) by (auto simp: rest_of_def)
      then have "MemFault \<in> E \<longrightarrow> no_ellipse be (pos u)" using Suc.prems(3) no_ellipse_drop by simp
      then show "parses E (parsed (unat (st_depth u))) u (lwgeom_from_wkb_state be d u)"
        using u(2) l t(2) Suc.prems(2) by (intro Suc.IH) auto
    qed
    then show ?thesis using Inr t(1) by (auto simp: parses_def rest_of_def split: sum.splits intro: rest_of_trans)
  qed
qed


text \<open>Any error the parser raises itself is harmless: the fault sets the properties below forbid.\<close>

lemma quiet_faults [simp]: "quiet {StackOverflow}" "quiet {MemFault}" "quiet {}"
  by (simp_all add: quiet_def)

lemma wkb_parses:
  assumes "quiet E" and "StackOverflow \<in> E \<longrightarrow> length wkb < d" and "MemFault \<in> E \<longrightarrow> no_ellipse be wkb"
  shows "case lwgeom_from_wkb be d wkb chk of
      Inl e \<Rightarrow> e \<notin> E
    | Inr r \<Rightarrow> (case r of None \<Rightarrow> wkb = [] | Some g \<Rightarrow> parsed 1 g)"
proof (cases "wkb = []")
  case False
  have "parses E (parsed 1) (wkb_initial_state wkb chk) (lwgeom_from_wkb_state be d (wkb_initial_state wkb chk))"
    using geom_parses[OF assms(1), of "wkb_initial_state wkb chk" d be] assms(2,3)
    by (simp add: wkb_initial_state_def)
  then show ?thesis using False
    by (auto simp: lwgeom_from_wkb_def parses_def rbind_def split: sum.splits)
qed (simp add: lwgeom_from_wkb_def)

text \<open>C4: The parser returns on every input, within a call depth of one more than the number of input
  bytes: each geometry uses up at least its endian byte before its members are read.\<close>

theorem wkb_parser_terminates:
  "lwgeom_from_wkb be (Suc (length wkb)) wkb chk \<noteq> Inl StackOverflow"
  using wkb_parses[of "{StackOverflow}" wkb "Suc (length wkb)" be chk] by (auto split: sum.splits)

text \<open>C3: What the parser returns is well formed, on any bytes and any checks: every point array holds
  the ordinates its count and dimensions announce, every collection has a collection type and only
  members that type allows, and collections are nested less than 199 deep (CURVEPOLYGONs, which
  the depth counter does not count, aside).\<close>

theorem wkb_parser_well_formed:
  assumes "lwgeom_from_wkb be d wkb chk = Inr (Some g)"
  shows "geom_ok g \<and> members_allowed g \<and> coll_depth g < 199"
  using wkb_parses[of "{}" wkb d be chk] assms by (simp add: parsed_def)

definition wkb_bytes :: "u8 list" where
  "wkb_bytes = [1, 7, 0, 0, 0, 1, 0, 0, 0, 1, 2, 0, 0, 0, 0, 0, 0, 0]"

theorem wkb_parser_well_formed_witness:
  "\<exists>g. lwgeom_from_wkb False 2 wkb_bytes 0 = Inr (Some g) \<and> geom_ok g \<and> coll_depth g < 199"
proof -
  have "lwgeom_from_wkb False 2 wkb_bytes 0 = Inr (Some (LwColl COLLECTIONTYPE (empty_hdr 0 False False)
      [lwline_construct_empty 0 False False]))"
    by code_simp
  from this wkb_parser_well_formed[OF this] show ?thesis by blast
qed


text \<open>An ellipse without points whose doubles are missing.\<close>

definition cut_ellipse :: "u8 list" where
  "cut_ellipse = [1, 18, 0, 0, 0, 0, 0, 0, 0]"


section \<open>Nesting that is not counted\<close>

text \<open>A CURVEPOLYGON whose one ring is to follow.\<close>

definition open_curvepoly :: "u8 list" where
  "open_curvepoly = [1, 10, 0, 0, 0, 1, 0, 0, 0]"

lemma open_curvepoly_header:
  assumes "pos s = open_curvepoly @ rest"
  shows "header_from_wkb_state False s = Inr (s\<lparr>pos := [1, 0, 0, 0] @ rest, swap_bytes := False, has_z := False,
    has_m := False, has_srid := False, st_lwtype := CURVEPOLYTYPE\<rparr>)"
proof -
  have w: "mem_word False [10, 0, 0, 0 :: u8] = (10 :: u32)" by code_simp
  show ?thesis using assms
    by (simp add: open_curvepoly_def header_from_wkb_state_def byte_from_wkb_state_def wkb_parse_state_check_def
        integer_from_wkb_state_def Let_def w lwtype_from_wkb_state_def lwtype_of_wkb_def)
qed

lemma open_curvepolys_overflow:
  "pos s = concat (replicate n open_curvepoly) \<Longrightarrow> lwgeom_from_wkb_state False n s = Inl StackOverflow"
proof (induction n arbitrary: s)
  case (Suc n)
  let ?s = "s\<lparr>pos := [1, 0, 0, 0] @ concat (replicate n open_curvepoly), swap_bytes := False, has_z := False,
    has_m := False, has_srid := False, st_lwtype := CURVEPOLYTYPE\<rparr>"
  have w: "mem_word False [1, 0, 0, 0 :: u8] = (1 :: u32)" by code_simp
  have h: "header_from_wkb_state False s = Inr ?s" using Suc.prems by (intro open_curvepoly_header) simp
  have "integer_from_wkb_state False ?s = Inr (1, ?s\<lparr>pos := concat (replicate n open_curvepoly)\<rparr>)"
    by (simp add: integer_from_wkb_state_def wkb_parse_state_check_def w)
  then show ?case
    using h Suc.IH[of "?s\<lparr>pos := concat (replicate n open_curvepoly)\<rparr>"]
    by (simp add: body_from_wkb_state_def lwcurvepoly_from_wkb_state_def)
qed simp

text \<open>C19: Nested CURVEPOLYGONs escape the depth limit: \<open>lwcurvepoly_from_wkb_state\<close> does not count
  them, and the member is parsed before its type is checked. Whatever call depth \<open>n\<close> the stack
  allows, nine bytes per level exhaust it.\<close>

theorem wkb_curvepoly_nesting_unbounded:
  "lwgeom_from_wkb False (Suc n) (concat (replicate (Suc n) open_curvepoly)) chk = Inl StackOverflow"
  using open_curvepolys_overflow[of "wkb_initial_state (concat (replicate (Suc n) open_curvepoly)) chk" "Suc n"]
  by (simp add: lwgeom_from_wkb_def wkb_initial_state_def open_curvepoly_def del: lwgeom_from_wkb_state.simps)

end
