(* ===== verification/Floats.thy ===== *)
theory Floats
  imports Doubles
begin

text \<open>
  Single-precision floats as bit patterns, the conversions between them and doubles, and the two
  functions that round a bound to a float without shrinking it (liblwgeom/lwgeom_api.c). Serialized
  boxes hold floats. Magnitudes are compared as natural numbers, as in theory \<open>Doubles\<close>.
\<close>

section \<open>Conversions\<close>

type_synonym flt = "32 word"

definition flt_mag :: "flt \<Rightarrow> nat" where
  "flt_mag f = unat (f AND 0x7FFFFFFF)"

definition flt_neg :: "flt \<Rightarrow> bool" where
  "flt_neg f = bit f 31"

definition flt_isnan :: "flt \<Rightarrow> bool" where
  "flt_isnan f \<longleftrightarrow> 0x7F800000 < flt_mag f"

definition flt_key :: "flt \<Rightarrow> int" where
  "flt_key f = (if flt_neg f then - int (flt_mag f) else int (flt_mag f))"

definition mk_flt :: "bool \<Rightarrow> nat \<Rightarrow> flt" where
  "mk_flt neg mag = (if neg then 0x80000000 else 0) OR of_nat mag"

definition mk_dbl :: "bool \<Rightarrow> nat \<Rightarrow> dbl" where
  "mk_dbl neg mag = (if neg then 0x8000000000000000 else 0) OR of_nat mag"

text \<open>The position of the highest bit.\<close>

fun top_bit :: "nat \<Rightarrow> nat" where
  "top_bit n = (if n < 2 then 0 else Suc (top_bit (n div 2)))"

declare top_bit.simps [simp del]

text \<open>A float as a double: exact; a NaN keeps its payload and becomes quiet.\<close>

definition widen_mag :: "nat \<Rightarrow> nat" where
  "widen_mag n =
     (if n = 0 then 0
      else if n < 2 ^ 23 then (top_bit n + 873) * 2 ^ 52 + n * 2 ^ (52 - top_bit n)
      else if n < 0x7F800000 then n * 2 ^ 29 + 896 * 2 ^ 52
      else if n = 0x7F800000 then 0x7FF0000000000000
      else 0x7FF8000000000000 + (n - 0x7F800000) mod 2 ^ 22 * 2 ^ 29)"

definition dbl_of_flt :: "flt \<Rightarrow> dbl" where
  "dbl_of_flt f = mk_dbl (flt_neg f) (widen_mag (flt_mag f))"

text \<open>\<open>n / 2 ^ k\<close> to the nearest integer, ties to even.\<close>

definition rne :: "nat \<Rightarrow> nat \<Rightarrow> nat" where
  "rne k n = (let q = n div 2 ^ k; r = n mod 2 ^ k
     in if 2 * r < 2 ^ k then q else if 2 ^ k < 2 * r then q + 1 else if even q then q else q + 1)"

text \<open>
  The significand of a double and the number of its bits that a float does not have; a float below
  \<open>2 ^ -126\<close> has fewer.
\<close>

definition dbl_sig :: "nat \<Rightarrow> nat" where
  "dbl_sig x = (if x < 2 ^ 52 then x else 2 ^ 52 + x mod 2 ^ 52)"

definition narrow_mag :: "nat \<Rightarrow> nat" where
  "narrow_mag x =
     (if 0x7FF0000000000000 < x then 0x7FC00000 + x div 2 ^ 29 mod 2 ^ 22
      else if 897 * 2 ^ 52 \<le> x then min 0x7F800000 (rne 29 (x - 896 * 2 ^ 52))
      else rne (926 - max 1 (x div 2 ^ 52)) (dbl_sig x))"

definition flt_of_dbl :: "dbl \<Rightarrow> flt" where
  "flt_of_dbl d = mk_flt (dbl_neg d) (narrow_mag (dbl_mag d))"

definition flt_isfinite :: "flt \<Rightarrow> bool" where "flt_isfinite f \<longleftrightarrow> flt_mag f < 0x7F800000"
definition flt_eq :: "flt \<Rightarrow> flt \<Rightarrow> bool" where
  "flt_eq a b \<longleftrightarrow> \<not> flt_isnan a \<and> \<not> flt_isnan b \<and> flt_key a = flt_key b"
definition flt_lt :: "flt \<Rightarrow> flt \<Rightarrow> bool" where
  "flt_lt a b \<longleftrightarrow> \<not> flt_isnan a \<and> \<not> flt_isnan b \<and> flt_key a < flt_key b"
definition flt_le :: "flt \<Rightarrow> flt \<Rightarrow> bool" where
  "flt_le a b \<longleftrightarrow> \<not> flt_isnan a \<and> \<not> flt_isnan b \<and> flt_key a \<le> flt_key b"

text \<open>\<open>nextafterf\<close> of the C library.\<close>

definition nextafterf :: "flt \<Rightarrow> flt \<Rightarrow> flt" where
  "nextafterf x y =
     (if flt_isnan x then x else if flt_isnan y then y
      else if flt_key x = flt_key y then y
      else if flt_mag x = 0 then mk_flt (flt_neg y) 1
      else mk_flt (flt_neg x) (if (flt_key x < flt_key y) = flt_neg x then flt_mag x - 1 else flt_mag x + 1))"

definition FLT_MAX :: flt where "FLT_MAX = 0x7F7FFFFF"
definition NEG_FLT_MAX :: flt where "NEG_FLT_MAX = 0xFF7FFFFF"

definition next_float_down :: "dbl \<Rightarrow> flt" where
  "next_float_down d =
     (if dbl_lt (dbl_of_flt FLT_MAX) d then FLT_MAX
      else if dbl_le d (dbl_of_flt NEG_FLT_MAX) then NEG_FLT_MAX
      else
        let result = flt_of_dbl d
        in if dbl_le (dbl_of_flt result) d then result else nextafterf result NEG_FLT_MAX)"

definition next_float_up :: "dbl \<Rightarrow> flt" where
  "next_float_up d =
     (if dbl_le (dbl_of_flt FLT_MAX) d then FLT_MAX
      else if dbl_lt d (dbl_of_flt NEG_FLT_MAX) then NEG_FLT_MAX
      else
        let result = flt_of_dbl d
        in if dbl_le d (dbl_of_flt result) then result else nextafterf result FLT_MAX)"

section \<open>Bit patterns\<close>

lemma mask63: "(0x7FFFFFFFFFFFFFFF :: dbl) = mask 63"
  by (simp add: mask_eq_exp_minus_1)

lemma mask31: "(0x7FFFFFFF :: flt) = mask 31"
  by (simp add: mask_eq_exp_minus_1)

lemma sign63: "(0x8000000000000000 :: dbl) = push_bit 63 1"
  by (simp add: push_bit_eq_mult del: push_bit_of_1)

lemma sign31: "(0x80000000 :: flt) = push_bit 31 1"
  by (simp add: push_bit_eq_mult del: push_bit_of_1)

lemma bit_sign63: "bit (0x8000000000000000 :: dbl) n \<longleftrightarrow> n = 63"
  unfolding sign63 bit_push_bit_iff by auto

lemma bit_sign31: "bit (0x80000000 :: flt) n \<longleftrightarrow> n = 31"
  unfolding sign31 bit_push_bit_iff by auto

lemma not_bit_big:
  fixes n :: nat
  assumes "n < 2 ^ k" and "k \<le> i"
  shows "\<not> bit n i"
proof -
  have "(2 :: nat) ^ k \<le> 2 ^ i" using assms(2) by simp
  then have "n < 2 ^ i" using assms(1) by linarith
  then show ?thesis by (simp add: bit_iff_odd)
qed

lemma dbl_sign_or:
  fixes s :: dbl
  assumes s: "\<And>i. bit s i \<Longrightarrow> i = 63" and m: "mag < 2 ^ 63"
  shows "(s OR of_nat mag) AND mask 63 = of_nat mag" and "bit (s OR of_nat mag) 63 = bit s 63"
proof -
  have b: "bit mag i \<Longrightarrow> i < 63" for i using not_bit_big[OF m, of i] by (meson not_le)
  show "(s OR of_nat mag) AND mask 63 = of_nat mag"
    by (rule bit_word_eqI) (auto simp: bit_simps dest: b s)
  show "bit (s OR of_nat mag) 63 = bit s 63" by (auto simp: bit_simps dest: b)
qed

lemma mk_dbl_parts:
  assumes "mag < 2 ^ 63"
  shows "dbl_mag (mk_dbl neg mag) = mag" and "dbl_neg (mk_dbl neg mag) = neg"
proof -
  let ?s = "if neg then 0x8000000000000000 else 0 :: dbl"
  have s: "bit ?s i \<Longrightarrow> i = 63" and n: "bit ?s 63 = neg" for i
    by (cases neg, simp only: if_True bit_sign63, simp, cases neg, simp only: if_True bit_sign63, simp, simp)
  have e: "(?s OR of_nat mag) AND mask 63 = of_nat mag" by (rule dbl_sign_or(1)[OF s assms])
  have "unat (of_nat mag :: dbl) = mag" using assms by (simp add: unsigned_of_nat take_bit_nat_eq_self)
  then show "dbl_mag (mk_dbl neg mag) = mag" unfolding dbl_mag_def mk_dbl_def mask63 e .
  show "dbl_neg (mk_dbl neg mag) = neg"
    unfolding dbl_neg_def mk_dbl_def by (rule trans[OF dbl_sign_or(2)[OF s assms] n])
qed

lemma flt_sign_or:
  fixes s :: flt
  assumes s: "\<And>i. bit s i \<Longrightarrow> i = 31" and m: "mag < 2 ^ 31"
  shows "(s OR of_nat mag) AND mask 31 = of_nat mag" and "bit (s OR of_nat mag) 31 = bit s 31"
proof -
  have b: "bit mag i \<Longrightarrow> i < 31" for i using not_bit_big[OF m, of i] by (meson not_le)
  show "(s OR of_nat mag) AND mask 31 = of_nat mag"
    by (rule bit_word_eqI) (auto simp: bit_simps dest: b s)
  show "bit (s OR of_nat mag) 31 = bit s 31" by (auto simp: bit_simps dest: b)
qed

lemma mk_flt_parts:
  assumes "mag < 2 ^ 31"
  shows "flt_mag (mk_flt neg mag) = mag" and "flt_neg (mk_flt neg mag) = neg"
proof -
  let ?s = "if neg then 0x80000000 else 0 :: flt"
  have s: "bit ?s i \<Longrightarrow> i = 31" and n: "bit ?s 31 = neg" for i
    by (cases neg, simp only: if_True bit_sign31, simp, cases neg, simp only: if_True bit_sign31, simp, simp)
  have e: "(?s OR of_nat mag) AND mask 31 = of_nat mag" by (rule flt_sign_or(1)[OF s assms])
  have "unat (of_nat mag :: flt) = mag" using assms by (simp add: unsigned_of_nat take_bit_nat_eq_self)
  then show "flt_mag (mk_flt neg mag) = mag" unfolding flt_mag_def mk_flt_def mask31 e .
  show "flt_neg (mk_flt neg mag) = neg"
    unfolding flt_neg_def mk_flt_def by (rule trans[OF flt_sign_or(2)[OF s assms] n])
qed

lemma flt_mag_less: "flt_mag f < 2 ^ 31"
proof -
  have "f AND 0x7FFFFFFF \<le> 0x7FFFFFFF" by (rule word_and_le1)
  then show ?thesis by (simp add: flt_mag_def word_le_nat_alt)
qed

section \<open>Values\<close>

lemma top_bit_bounds: "0 < n \<Longrightarrow> 2 ^ top_bit n \<le> n \<and> n < 2 ^ Suc (top_bit n)"
proof (induction n rule: top_bit.induct)
  case (1 n)
  show ?case
  proof (cases "n < 2")
    case True
    then show ?thesis using "1.prems" by (subst (1 2) top_bit.simps) simp
  next
    case False
    then have ih: "2 ^ top_bit (n div 2) \<le> n div 2" "n div 2 < 2 ^ Suc (top_bit (n div 2))"
      using "1.IH" by simp_all
    have t: "top_bit n = Suc (top_bit (n div 2))" using False by (subst top_bit.simps) simp
    have "n div 2 * 2 \<le> n" "n < n div 2 * 2 + 2" by simp_all
    then show ?thesis unfolding t power_Suc using ih[unfolded power_Suc] by linarith
  qed
qed

text \<open>The value of a double magnitude, in units of \<open>2 ^ -1074\<close>.\<close>

definition dbl_val :: "nat \<Rightarrow> nat" where
  "dbl_val x = dbl_sig x * 2 ^ (x div 2 ^ 52 - 1)"

lemma dbl_val_split:
  "m < 2 ^ 52 \<Longrightarrow> dbl_val (e * 2 ^ 52 + m) = (if e = 0 then m else (2 ^ 52 + m) * 2 ^ (e - 1))"
proof -
  assume m: "m < 2 ^ 52"
  define B :: nat where "B = 2 ^ 52"
  have mB: "m < B" using m unfolding B_def .
  then have d: "(e * B + m) div B = e" "(e * B + m) mod B = m" by simp_all
  have l: "e * B + m < B \<longleftrightarrow> e = 0" using mB by (cases e) simp_all
  show ?thesis
    unfolding dbl_val_def dbl_sig_def B_def[symmetric] d l by simp
qed

lemma dbl_val_Suc: "dbl_val x < dbl_val (Suc x)"
proof -
  define e m where "e = x div 2 ^ 52" and "m = x mod 2 ^ 52"
  have x: "x = e * 2 ^ 52 + m" and m: "m < 2 ^ 52" unfolding e_def m_def by simp_all
  show ?thesis
  proof (cases "Suc m < 2 ^ 52")
    case True
    have "Suc x = e * 2 ^ 52 + Suc m" using x by simp
    then show ?thesis unfolding x using dbl_val_split[OF m, of e] dbl_val_split[OF True, of e]
      by (simp del: power_Suc)
  next
    case False
    then have s: "Suc m = 2 ^ 52" using m by linarith
    then have "Suc x = Suc e * 2 ^ 52 + 0" using x by simp
    moreover have "dbl_val (Suc e * 2 ^ 52 + 0) = 2 ^ 52 * 2 ^ e" using dbl_val_split[of 0 "Suc e"] by simp
    moreover have "dbl_val x < 2 ^ 52 * 2 ^ e"
    proof (cases e)
      case 0
      then show ?thesis using dbl_val_split[OF m, of e] x m by simp
    next
      case (Suc e')
      have "(2 ^ 52 + m) * 2 ^ e' < 2 ^ 53 * 2 ^ e'" using m by simp
      then show ?thesis using dbl_val_split[OF m, of e] x Suc by simp
    qed
    ultimately show ?thesis by simp
  qed
qed

lemma dbl_val_strict: "dbl_val x < dbl_val y \<longleftrightarrow> x < y"
  using strict_mono_less[OF strict_mono_Suc_iff[THEN iffD2]] dbl_val_Suc by blast

lemma dbl_val_mono: "dbl_val x \<le> dbl_val y \<longleftrightarrow> x \<le> y"
  using dbl_val_strict by (meson linorder_not_le)

lemma widen_normal: "2 ^ 23 \<le> n \<Longrightarrow> n < 0x7F800000 \<Longrightarrow> widen_mag n = n * 2 ^ 29 + 896 * 2 ^ 52"
  by (simp add: widen_mag_def)

lemma widen_subnormal:
  assumes "0 < n" and "n < 2 ^ 23"
  shows "\<exists>p \<le> 22. widen_mag n div 2 ^ 52 = p + 874 \<and> dbl_sig (widen_mag n) = n * 2 ^ (52 - p)"
proof -
  define p where "p = top_bit n"
  have p: "2 ^ p \<le> n" "n < 2 ^ Suc p" using top_bit_bounds[OF assms(1)] unfolding p_def by blast+
  have "(2 :: nat) ^ p < 2 ^ 23" using p(1) assms(2) by linarith
  then have p22: "p \<le> 22" using power_less_imp_less_exp[of "2 :: nat" p 23] by simp
  have e: "(2 :: nat) ^ p * 2 ^ (52 - p) = 2 ^ 52" using p22 by (simp flip: power_add)
  obtain r where r: "n = 2 ^ p + r" "r < 2 ^ p" using p le_Suc_ex by fastforce
  define B :: nat where "B = 2 ^ 52"
  define y where "y = r * 2 ^ (52 - p)"
  have lt: "y < B" unfolding y_def B_def e[symmetric] using r(2) by simp
  have n: "n * 2 ^ (52 - p) = B + y" unfolding y_def B_def r(1) add_mult_distrib e ..
  have "widen_mag n = (p + 873) * B + n * 2 ^ (52 - p)" using assms by (simp add: widen_mag_def p_def B_def)
  then have w: "widen_mag n = (p + 874) * B + y" unfolding n by (simp add: algebra_simps)
  have "widen_mag n div B = p + 874" "widen_mag n mod B = y" unfolding w using lt by simp_all
  moreover have "B \<le> (p + 874) * B" by simp
  then have "\<not> widen_mag n < B" unfolding w by linarith
  ultimately have "widen_mag n div B = p + 874 \<and> dbl_sig (widen_mag n) = n * 2 ^ (52 - p)"
    unfolding dbl_sig_def B_def[symmetric] n by simp
  then show ?thesis using p22 unfolding B_def by blast
qed

lemma dbl_val_widen_subnormal:
  assumes "n \<le> 2 ^ 23"
  shows "dbl_val (widen_mag n) = n * 2 ^ 925"
proof -
  consider "n = 0" | "0 < n" "n < 2 ^ 23" | "n = 2 ^ 23" using assms by linarith
  then show ?thesis
  proof cases
    case 1
    then show ?thesis by (simp add: widen_mag_def dbl_val_def dbl_sig_def)
  next
    case 2
    obtain p where p: "p \<le> 22" "widen_mag n div 2 ^ 52 = p + 874" "dbl_sig (widen_mag n) = n * 2 ^ (52 - p)"
      using widen_subnormal[OF 2] by blast
    have "dbl_val (widen_mag n) = n * (2 ^ (52 - p) * 2 ^ (p + 873))"
      unfolding dbl_val_def p(2,3) by (simp only: mult.assoc add_diff_cancel_right') simp
    also have "(2 :: nat) ^ (52 - p) * 2 ^ (p + 873) = 2 ^ 925" using p(1) by (simp flip: power_add)
    finally show ?thesis .
  next
    case 3
    have "widen_mag n = 897 * 2 ^ 52 + 0" using 3 by (simp add: widen_mag_def)
    then have "dbl_val (widen_mag n) = 2 ^ 52 * 2 ^ 896" using dbl_val_split[of 0 897] by simp
    also have "\<dots> = 2 ^ 23 * 2 ^ 925" by (simp flip: power_add)
    finally show ?thesis using 3 by simp
  qed
qed

text \<open>The float below a double.\<close>

definition floor_mag :: "nat \<Rightarrow> nat" where
  "floor_mag x =
     (if 897 * 2 ^ 52 \<le> x then (x - 896 * 2 ^ 52) div 2 ^ 29
      else dbl_sig x div 2 ^ (926 - max 1 (x div 2 ^ 52)))"

lemma rne_cases: "rne k n = n div 2 ^ k \<or> rne k n = Suc (n div 2 ^ k)"
  by (simp add: rne_def Let_def)

lemma rne_exact: "2 ^ k dvd n \<Longrightarrow> rne k n = n div 2 ^ k"
  by (simp add: rne_def Let_def mod_eq_0_iff_dvd[symmetric])

lemma div_bracket: "n div k * k \<le> n \<and> (0 < k \<longrightarrow> n < Suc (n div k) * k)"
  by (metis dividend_less_div_times mult.commute mult_Suc_right add.commute times_div_less_eq_dividend)

lemma dbl_sig_less: "dbl_sig x < 2 ^ 53"
proof -
  have "x mod 2 ^ 52 < 2 ^ 52" by simp
  then show ?thesis by (simp add: dbl_sig_def)
qed

lemma floor_mag_brackets:
  assumes x: "x < 0x47F0000000000000"
  shows "floor_mag x < 0x7F800000" and "widen_mag (floor_mag x) \<le> x"
    and "Suc (floor_mag x) < 0x7F800000 \<Longrightarrow> x < widen_mag (Suc (floor_mag x))"
proof -
  define m where "m = floor_mag x"
  have "m < 0x7F800000 \<and> widen_mag m \<le> x \<and> (Suc m < 0x7F800000 \<longrightarrow> x < widen_mag (Suc m))"
  proof (cases "897 * 2 ^ 52 \<le> x")
    case True
    define y where "y = x - 896 * 2 ^ 52"
    have m: "m = y div 2 ^ 29" using True by (simp add: m_def floor_mag_def y_def)
    have y: "x = y + 896 * 2 ^ 52" "2 ^ 52 \<le> y" "y < 0x7F800000 * 2 ^ 29" using True x unfolding y_def by simp_all
    have b: "m * 2 ^ 29 \<le> y" "y < Suc m * 2 ^ 29" using div_bracket[of y "2 ^ 29"] unfolding m by simp_all
    have l: "2 ^ 23 \<le> m" "m < 0x7F800000" using y(2,3) unfolding m by (simp_all add: less_mult_imp_div_less)
    show ?thesis
    proof (intro conjI impI)
      show "m < 0x7F800000" by (rule l)
      show "widen_mag m \<le> x" using b(1) l y(1) widen_normal by simp
      assume "Suc m < 0x7F800000"
      then have "widen_mag (Suc m) = Suc m * 2 ^ 29 + 896 * 2 ^ 52" using l(1) by (intro widen_normal) simp_all
      then show "x < widen_mag (Suc m)" using b(2) y(1) by linarith
    qed
  next
    case False
    define e where "e = max 1 (x div 2 ^ 52)"
    define k where "k = 926 - e"
    have "x div 2 ^ 52 \<le> 896" using False by (simp add: not_le less_mult_imp_div_less)
    then have e: "1 \<le> e" "e \<le> 896" by (simp_all add: e_def)
    then have k: "30 \<le> k" "k + (e - 1) = 925" by (simp_all add: k_def)
    have m: "m = dbl_sig x div 2 ^ k" using False by (simp add: m_def floor_mag_def k_def e_def)
    have v: "dbl_val x = dbl_sig x * 2 ^ (e - 1)" by (simp add: dbl_val_def e_def max_def)
    have "dbl_sig x < 2 ^ 23 * 2 ^ k"
    proof -
      have "(2 :: nat) ^ 23 * 2 ^ 30 \<le> 2 ^ 23 * 2 ^ k" using k(1) by (intro mult_le_mono power_increasing) simp_all
      then show ?thesis using dbl_sig_less[of x] by simp
    qed
    then have l: "m < 2 ^ 23" unfolding m by (simp add: less_mult_imp_div_less)
    have pk: "(2 :: nat) ^ k * 2 ^ (e - 1) = 2 ^ 925" using k(2) by (simp flip: power_add)
    have b: "m * 2 ^ k \<le> dbl_sig x" "dbl_sig x < Suc m * 2 ^ k" using div_bracket[of "dbl_sig x" "2 ^ k"] unfolding m by simp_all
    have "m * 2 ^ 925 \<le> dbl_val x" unfolding v pk[symmetric] mult.assoc[symmetric] using b(1) by simp
    moreover have "dbl_val (widen_mag m) = m * 2 ^ 925" by (rule dbl_val_widen_subnormal) (use l in simp)
    ultimately have lo: "widen_mag m \<le> x" by (metis dbl_val_mono)
    have "dbl_val x < Suc m * 2 ^ 925" unfolding v pk[symmetric] mult.assoc[symmetric] using b(2) by simp
    moreover have "dbl_val (widen_mag (Suc m)) = Suc m * 2 ^ 925" by (rule dbl_val_widen_subnormal) (use l in simp)
    ultimately have "x < widen_mag (Suc m)" by (metis dbl_val_strict)
    then show ?thesis using lo l by simp
  qed
  then show "floor_mag x < 0x7F800000" "widen_mag (floor_mag x) \<le> x"
      "Suc (floor_mag x) < 0x7F800000 \<Longrightarrow> x < widen_mag (Suc (floor_mag x))"
    unfolding m_def by blast+
qed

section \<open>Rounding outwards\<close>

lemma narrow_cases: "x < 0x47F0000000000000 \<Longrightarrow> narrow_mag x = floor_mag x \<or> narrow_mag x = Suc (floor_mag x)"
  using rne_cases[of 29 "x - 896 * 2 ^ 52"] rne_cases[of "926 - max 1 (x div 2 ^ 52)" "dbl_sig x"]
    floor_mag_brackets(1)[of x]
  by (auto simp: narrow_mag_def floor_mag_def min_def)

lemma widen_mono_Suc: "n < 0x7F7FFFFF \<Longrightarrow> widen_mag n < widen_mag (Suc n)"
proof -
  assume n: "n < 0x7F7FFFFF"
  show ?thesis
  proof (cases "n < 2 ^ 23")
    case True
    have "dbl_val (widen_mag n) = n * 2 ^ 925" "dbl_val (widen_mag (Suc n)) = Suc n * 2 ^ 925"
      by (rule dbl_val_widen_subnormal; use True in simp)+
    moreover have "n * 2 ^ 925 < Suc n * (2 :: nat) ^ 925" by (rule mult_strict_right_mono) simp_all
    ultimately show ?thesis by (metis dbl_val_strict)
  next
    case False
    then show ?thesis using n widen_normal[of n] widen_normal[of "Suc n"] by simp
  qed
qed

lemma widen_less: "m < n \<Longrightarrow> n \<le> 0x7F7FFFFF \<Longrightarrow> widen_mag m < widen_mag n"
proof (induction n)
  case (Suc n)
  then show ?case using widen_mono_Suc[of n] by (cases "m = n") auto
qed simp

lemma widen_less_iff:
  assumes "m \<le> 0x7F7FFFFF" and "n \<le> 0x7F7FFFFF"
  shows "widen_mag m < widen_mag n \<longleftrightarrow> m < n"
  using widen_less[of m n] widen_less[of n m] assms by (metis linorder_neqE_nat order_less_asym)

lemma widen_FLT_MAX: "widen_mag 0x7F7FFFFF = 0x47EFFFFFE0000000"
  by (simp add: widen_mag_def)

lemma flt_consts: "flt_mag FLT_MAX = 0x7F7FFFFF" "\<not> flt_neg FLT_MAX" "flt_mag NEG_FLT_MAX = 0x7F7FFFFF"
  "flt_neg NEG_FLT_MAX" "\<not> flt_isnan FLT_MAX" "\<not> flt_isnan NEG_FLT_MAX"
  by (simp_all add: flt_mag_def flt_neg_def FLT_MAX_def NEG_FLT_MAX_def flt_isnan_def bit_simps)

text \<open>The finite floats as signed magnitudes.\<close>

definition flt_fin :: "flt \<Rightarrow> bool" where
  "flt_fin f \<longleftrightarrow> flt_mag f \<le> 0x7F7FFFFF"

definition widen_key :: "int \<Rightarrow> int" where
  "widen_key k = (if k < 0 then - int (widen_mag (nat (- k))) else int (widen_mag (nat k)))"

lemma dbl_of_flt_parts:
  assumes "flt_fin f"
  shows "dbl_mag (dbl_of_flt f) = widen_mag (flt_mag f)" "dbl_neg (dbl_of_flt f) = flt_neg f"
    "\<not> isnan (dbl_of_flt f)" "dbl_key (dbl_of_flt f) = widen_key (flt_key f)"
proof -
  have "widen_mag (flt_mag f) \<le> widen_mag 0x7F7FFFFF"
    using assms widen_less[of "flt_mag f" "0x7F7FFFFF"] unfolding flt_fin_def by (metis le_neq_implies_less less_imp_le order_refl)
  then have w: "widen_mag (flt_mag f) \<le> 0x47EFFFFFE0000000" by (simp only: widen_FLT_MAX)
  then have b: "widen_mag (flt_mag f) < 2 ^ 63" by simp
  show m: "dbl_mag (dbl_of_flt f) = widen_mag (flt_mag f)" and s: "dbl_neg (dbl_of_flt f) = flt_neg f"
    unfolding dbl_of_flt_def by (rule mk_dbl_parts[OF b])+
  show "\<not> isnan (dbl_of_flt f)" using w by (simp add: isnan_def m)
  have "widen_mag 0 = 0" by (simp add: widen_mag_def)
  then show "dbl_key (dbl_of_flt f) = widen_key (flt_key f)"
    by (simp add: dbl_key_def flt_key_def widen_key_def m s)
qed

lemma widen_key_less_iff:
  assumes "\<bar>a\<bar> \<le> 0x7F7FFFFF" and "\<bar>b\<bar> \<le> 0x7F7FFFFF"
  shows "widen_key a < widen_key b \<longleftrightarrow> a < b"
proof -
  have pos: "0 < widen_mag n" if "0 < n" "n \<le> 0x7F7FFFFF" for n
    using widen_less[OF that] by simp
  consider "a < 0" "b < 0" | "a < 0" "0 \<le> b" | "0 \<le> a" "b < 0" | "0 \<le> a" "0 \<le> b" by linarith
  then show ?thesis
  proof cases
    case 1
    have "widen_mag (nat (- b)) < widen_mag (nat (- a)) \<longleftrightarrow> nat (- b) < nat (- a)"
      using assms 1 by (intro widen_less_iff) simp_all
    then show ?thesis using 1 by (simp add: widen_key_def)
  next
    case 2
    have "0 < widen_mag (nat (- a))" using assms 2 by (intro pos) simp_all
    then show ?thesis using 2 by (simp add: widen_key_def)
  next
    case 3
    then show ?thesis by (simp add: widen_key_def)
  next
    case 4
    have "widen_mag (nat a) < widen_mag (nat b) \<longleftrightarrow> nat a < nat b"
      using assms 4 by (intro widen_less_iff) simp_all
    then show ?thesis using 4 by (auto simp: widen_key_def)
  qed
qed

section \<open>The greatest float below and the least above\<close>

abbreviation (input) MAXM :: nat where "MAXM \<equiv> 0x7F7FFFFF"

lemma narrow_widen:
  assumes n: "n \<le> MAXM"
  shows "narrow_mag (widen_mag n) = n"
proof -
  consider "n = 0" | "0 < n" "n < 2 ^ 23" | "2 ^ 23 \<le> n" by linarith
  then show ?thesis
  proof cases
    case 1
    then show ?thesis by (simp add: widen_mag_def narrow_mag_def dbl_sig_def rne_def)
  next
    case 2
    obtain p where p: "p \<le> 22" "widen_mag n div 2 ^ 52 = p + 874" "dbl_sig (widen_mag n) = n * 2 ^ (52 - p)"
      using widen_subnormal[OF 2] by blast
    have lt: "widen_mag n < 897 * 2 ^ 52"
      using p(1,2) by (simp add: div_less_iff_less_mult[symmetric] less_Suc_eq_le[symmetric] flip: not_less)
    have "rne (926 - max 1 (p + 874)) (n * 2 ^ (52 - p)) = n" using p(1) by (simp add: rne_exact)
    then show ?thesis using lt p unfolding narrow_mag_def by simp
  next
    case 3
    have w: "widen_mag n = n * 2 ^ 29 + 896 * 2 ^ 52" using 3 n by (intro widen_normal) simp_all
    have "rne 29 (n * 2 ^ 29) = n * 2 ^ 29 div 2 ^ 29" by (rule rne_exact) simp
    then have "rne 29 (n * 2 ^ 29) = n" by simp
    then show ?thesis using 3 n unfolding narrow_mag_def w by simp
  qed
qed

lemma narrow_bracket:
  assumes x: "x \<le> widen_mag MAXM"
  shows "narrow_mag x \<le> MAXM" "0 < narrow_mag x \<Longrightarrow> widen_mag (narrow_mag x - 1) < x"
    "narrow_mag x < MAXM \<Longrightarrow> x < widen_mag (Suc (narrow_mag x))"
proof -
  define m where "m = floor_mag x"
  have xl: "x < 0x47F0000000000000" using x unfolding widen_FLT_MAX by simp
  have m: "m \<le> MAXM" "widen_mag m \<le> x" "m < MAXM \<Longrightarrow> x < widen_mag (Suc m)"
    using floor_mag_brackets[OF xl] unfolding m_def by simp_all
  have "narrow_mag x \<le> MAXM \<and> (0 < narrow_mag x \<longrightarrow> widen_mag (narrow_mag x - 1) < x) \<and>
      (narrow_mag x < MAXM \<longrightarrow> x < widen_mag (Suc (narrow_mag x)))"
  proof (cases "x = widen_mag m")
    case True
    have "narrow_mag x = m" unfolding True by (rule narrow_widen[OF m(1)])
    then show ?thesis using m widen_less[of "m - 1" m] True by auto
  next
    case False
    then have lt: "widen_mag m < x" using m(2) by simp
    have mm: "m < MAXM"
    proof (rule ccontr)
      assume "\<not> ?thesis"
      then have "m = MAXM" using m(1) by simp
      then show False using lt x by simp
    qed
    consider "narrow_mag x = m" | "narrow_mag x = Suc m" using narrow_cases[OF xl] unfolding m_def by blast
    then show ?thesis
    proof cases
      case 1
      then show ?thesis using m mm lt widen_less[of "m - 1" m] by fastforce
    next
      case 2
      then show ?thesis using m(3)[OF mm] mm lt widen_less[of "Suc m" "Suc (Suc m)"] by fastforce
    qed
  qed
  then show "narrow_mag x \<le> MAXM" "0 < narrow_mag x \<Longrightarrow> widen_mag (narrow_mag x - 1) < x"
    "narrow_mag x < MAXM \<Longrightarrow> x < widen_mag (Suc (narrow_mag x))" by blast+
qed

lemma widen_key_minus: "widen_key (- k) = - widen_key k"
  by (simp add: widen_key_def widen_mag_def)

lemma widen_key_nat: "widen_key (int n) = int (widen_mag n)"
  by (simp add: widen_key_def)

lemma key_bracket:
  assumes d: "dbl_mag d \<le> widen_mag MAXM"
  shows "flt_fin (flt_of_dbl d)" "\<not> flt_isnan (flt_of_dbl d)"
    "- int MAXM < flt_key (flt_of_dbl d) \<Longrightarrow> widen_key (flt_key (flt_of_dbl d) - 1) < dbl_key d"
    "flt_key (flt_of_dbl d) < int MAXM \<Longrightarrow> dbl_key d < widen_key (flt_key (flt_of_dbl d) + 1)"
proof -
  define n where "n = narrow_mag (dbl_mag d)"
  define x where "x = dbl_mag d"
  note b = narrow_bracket[OF d, folded n_def x_def]
  have n31: "n < 2 ^ 31" using b(1) by simp
  have p: "flt_mag (flt_of_dbl d) = n" "flt_neg (flt_of_dbl d) = dbl_neg d"
    unfolding flt_of_dbl_def n_def[symmetric] using mk_flt_parts[OF n31] by blast+
  show "flt_fin (flt_of_dbl d)" "\<not> flt_isnan (flt_of_dbl d)"
    using b(1) by (simp_all add: flt_fin_def flt_isnan_def p)
  have k: "flt_key (flt_of_dbl d) = (if dbl_neg d then - int n else int n)" "dbl_key d = (if dbl_neg d then - int x else int x)"
    by (simp_all add: flt_key_def dbl_key_def p x_def)
  have lo: "widen_key (int n - 1) < int x" if "n \<le> MAXM"
  proof (cases n)
    case 0
    have "0 < widen_mag 1" using widen_less[of 0 1] by simp
    then show ?thesis using 0 widen_key_minus[of 1] widen_key_nat[of 1] by simp
  next
    case (Suc n')
    then show ?thesis using b(2) widen_key_nat[of n'] by simp
  qed
  have hi: "int x < widen_key (int n + 1)" if "n < MAXM"
    using b(3)[OF that] widen_key_nat[of "Suc n"] by (simp add: add.commute)
  have m: "widen_key (- int n - 1) = - widen_key (int n + 1)" "widen_key (- int n + 1) = - widen_key (int n - 1)"
    by (simp_all flip: widen_key_minus)
  show "- int MAXM < flt_key (flt_of_dbl d) \<Longrightarrow> widen_key (flt_key (flt_of_dbl d) - 1) < dbl_key d"
    using lo[OF b(1)] hi m unfolding k by (cases "dbl_neg d") simp_all
  show "flt_key (flt_of_dbl d) < int MAXM \<Longrightarrow> dbl_key d < widen_key (flt_key (flt_of_dbl d) + 1)"
    using lo[OF b(1)] hi m unfolding k by (cases "dbl_neg d") simp_all
qed

lemma flt_fin_key: "flt_fin f \<longleftrightarrow> \<bar>flt_key f\<bar> \<le> int MAXM"
  by (simp add: flt_fin_def flt_key_def)

lemma flt_fin_not_nan: "flt_fin f \<Longrightarrow> \<not> flt_isnan f"
  by (simp add: flt_fin_def flt_isnan_def)

lemma nextafterf_key:
  assumes f: "flt_fin f"
  shows "- int MAXM < flt_key f \<Longrightarrow> flt_key (nextafterf f NEG_FLT_MAX) = flt_key f - 1"
    and "flt_key f < int MAXM \<Longrightarrow> flt_key (nextafterf f FLT_MAX) = flt_key f + 1"
proof -
  have one: "flt_mag (mk_flt b 1) = 1" "flt_neg (mk_flt b 1) = b" for b using mk_flt_parts[of 1 b] by simp_all
  have up: "flt_mag (mk_flt b (Suc (flt_mag f))) = Suc (flt_mag f)" "flt_neg (mk_flt b (Suc (flt_mag f))) = b"
    and dn: "flt_mag (mk_flt b (flt_mag f - Suc 0)) = flt_mag f - Suc 0" "flt_neg (mk_flt b (flt_mag f - Suc 0)) = b" for b
    using f mk_flt_parts[of "Suc (flt_mag f)" b] mk_flt_parts[of "flt_mag f - Suc 0" b] by (simp_all add: flt_fin_def)
  have c: "flt_key FLT_MAX = int MAXM" "flt_key NEG_FLT_MAX = - int MAXM" by (simp_all add: flt_key_def flt_consts)
  have nn: "\<not> flt_isnan f" by (rule flt_fin_not_nan[OF f])
  show "flt_key (nextafterf f NEG_FLT_MAX) = flt_key f - 1" if "- int MAXM < flt_key f"
  proof (cases "flt_mag f = 0")
    case True
    then show ?thesis using that nn unfolding nextafterf_def c
      by (simp add: flt_consts flt_key_def one[unfolded One_nat_def])
  next
    case False
    then show ?thesis using that nn f unfolding nextafterf_def c
      by (auto simp: flt_consts flt_key_def up dn flt_fin_def)
  qed
  show "flt_key (nextafterf f FLT_MAX) = flt_key f + 1" if "flt_key f < int MAXM"
  proof (cases "flt_mag f = 0")
    case True
    then show ?thesis using that nn unfolding nextafterf_def c
      by (simp add: flt_consts flt_key_def one[unfolded One_nat_def])
  next
    case False
    then show ?thesis using that nn f unfolding nextafterf_def c
      by (auto simp: flt_consts flt_key_def up dn flt_fin_def)
  qed
qed

lemma dbl_of_flt_le: "flt_fin f \<Longrightarrow> \<not> isnan d \<Longrightarrow> dbl_le (dbl_of_flt f) d \<longleftrightarrow> widen_key (flt_key f) \<le> dbl_key d"
  by (simp add: dbl_le_def dbl_of_flt_parts)

lemma dbl_le_of_flt: "flt_fin f \<Longrightarrow> \<not> isnan d \<Longrightarrow> dbl_le d (dbl_of_flt f) \<longleftrightarrow> dbl_key d \<le> widen_key (flt_key f)"
  by (simp add: dbl_le_def dbl_of_flt_parts)

lemma next_float_down_key:
  assumes nan: "\<not> isnan d" and lo: "dbl_le (dbl_of_flt NEG_FLT_MAX) d"
  shows "flt_fin (next_float_down d) \<and> widen_key (flt_key (next_float_down d)) \<le> dbl_key d \<and>
    (flt_key (next_float_down d) < int MAXM \<longrightarrow> dbl_key d < widen_key (flt_key (next_float_down d) + 1))"
proof -
  have fin: "flt_fin FLT_MAX" "flt_fin NEG_FLT_MAX" by (simp_all add: flt_fin_def flt_consts)
  have c: "flt_key FLT_MAX = int MAXM" "flt_key NEG_FLT_MAX = - int MAXM" by (simp_all add: flt_key_def flt_consts)
  have K: "widen_key (- int MAXM) \<le> dbl_key d" using lo dbl_of_flt_le[OF fin(2) nan] c by simp
  consider "dbl_lt (dbl_of_flt FLT_MAX) d" | "\<not> dbl_lt (dbl_of_flt FLT_MAX) d" "dbl_le d (dbl_of_flt NEG_FLT_MAX)"
    | "\<not> dbl_lt (dbl_of_flt FLT_MAX) d" "\<not> dbl_le d (dbl_of_flt NEG_FLT_MAX)" by blast
  then show ?thesis
  proof cases
    case 1
    then show ?thesis using fin c dbl_of_flt_parts[OF fin(1)] by (auto simp: next_float_down_def dbl_lt_def)
  next
    case 2
    then have r: "next_float_down d = NEG_FLT_MAX" by (simp add: next_float_down_def)
    have "dbl_key d = widen_key (- int MAXM)" using K 2(2) dbl_le_of_flt[OF fin(2) nan] c by simp
    then show ?thesis using fin c widen_key_less_iff[of "- int MAXM" "- int MAXM + 1"] unfolding r by simp
  next
    case 3
    let ?r = "flt_of_dbl d"
    have up: "dbl_key d \<le> widen_key (int MAXM)"
      using 3(1) nan dbl_of_flt_parts[OF fin(1)] c by (simp add: dbl_lt_def)
    have dn: "widen_key (- int MAXM) < dbl_key d" using 3(2) dbl_le_of_flt[OF fin(2) nan] c by simp
    have "int (dbl_mag d) \<le> int (widen_mag MAXM)"
      using up dn unfolding widen_key_minus widen_key_nat dbl_key_def by (cases "dbl_neg d") simp_all
    then have mag: "dbl_mag d \<le> widen_mag MAXM" by (simp only: of_nat_le_iff)
    note b = key_bracket[OF mag]
    show ?thesis
    proof (cases "dbl_le (dbl_of_flt ?r) d")
      case True
      then have "next_float_down d = ?r" using 3 by (simp add: next_float_down_def)
      then show ?thesis using b True dbl_of_flt_le[OF b(1) nan] by simp
    next
      case False
      then have r: "next_float_down d = nextafterf ?r NEG_FLT_MAX" using 3 by (simp add: next_float_down_def)
      have gt: "dbl_key d < widen_key (flt_key ?r)" using False dbl_of_flt_le[OF b(1) nan] by simp
      have "flt_key ?r \<noteq> - int MAXM" using gt dn by auto
      then have k: "- int MAXM < flt_key ?r" using b(1) by (simp add: flt_fin_key)
      have n: "flt_key (nextafterf ?r NEG_FLT_MAX) = flt_key ?r - 1" by (rule nextafterf_key(1)[OF b(1) k])
      have "flt_fin (nextafterf ?r NEG_FLT_MAX)" using n k b(1) by (simp add: flt_fin_key)
      then show ?thesis using b(3)[OF k] gt n unfolding r by simp
    qed
  qed
qed

text \<open>Negation exchanges the two functions.\<close>

lemma next_float_up_key:
  assumes nan: "\<not> isnan d" and hi: "dbl_le d (dbl_of_flt FLT_MAX)"
  shows "flt_fin (next_float_up d) \<and> dbl_key d \<le> widen_key (flt_key (next_float_up d)) \<and>
    (- int MAXM < flt_key (next_float_up d) \<longrightarrow> widen_key (flt_key (next_float_up d) - 1) < dbl_key d)"
proof -
  have fin: "flt_fin FLT_MAX" "flt_fin NEG_FLT_MAX" by (simp_all add: flt_fin_def flt_consts)
  have c: "flt_key FLT_MAX = int MAXM" "flt_key NEG_FLT_MAX = - int MAXM" by (simp_all add: flt_key_def flt_consts)
  have K: "dbl_key d \<le> widen_key (int MAXM)" using hi dbl_le_of_flt[OF fin(1) nan] c by simp
  consider "dbl_le (dbl_of_flt FLT_MAX) d" | "\<not> dbl_le (dbl_of_flt FLT_MAX) d" "dbl_lt d (dbl_of_flt NEG_FLT_MAX)"
    | "\<not> dbl_le (dbl_of_flt FLT_MAX) d" "\<not> dbl_lt d (dbl_of_flt NEG_FLT_MAX)" by blast
  then show ?thesis
  proof cases
    case 1
    then have r: "next_float_up d = FLT_MAX" by (simp add: next_float_up_def)
    have "dbl_key d = widen_key (int MAXM)" using K 1 dbl_of_flt_le[OF fin(1) nan] c by simp
    then show ?thesis using fin c widen_key_less_iff[of "int MAXM - 1" "int MAXM"] unfolding r by simp
  next
    case 2
    then show ?thesis using fin c dbl_of_flt_parts[OF fin(2)] by (auto simp: next_float_up_def dbl_lt_def)
  next
    case 3
    let ?r = "flt_of_dbl d"
    have dn: "widen_key (- int MAXM) \<le> dbl_key d"
      using 3(2) nan dbl_of_flt_parts[OF fin(2)] c by (simp add: dbl_lt_def)
    have up: "dbl_key d < widen_key (int MAXM)" using 3(1) dbl_of_flt_le[OF fin(1) nan] c by simp
    have "int (dbl_mag d) \<le> int (widen_mag MAXM)"
      using up dn unfolding widen_key_minus widen_key_nat dbl_key_def by (cases "dbl_neg d") simp_all
    then have mag: "dbl_mag d \<le> widen_mag MAXM" by (simp only: of_nat_le_iff)
    note b = key_bracket[OF mag]
    show ?thesis
    proof (cases "dbl_le d (dbl_of_flt ?r)")
      case True
      then have "next_float_up d = ?r" using 3 by (simp add: next_float_up_def)
      then show ?thesis using b True dbl_le_of_flt[OF b(1) nan] by simp
    next
      case False
      then have r: "next_float_up d = nextafterf ?r FLT_MAX" using 3 by (simp add: next_float_up_def)
      have lt: "widen_key (flt_key ?r) < dbl_key d" using False dbl_le_of_flt[OF b(1) nan] by simp
      have "flt_key ?r \<noteq> int MAXM" using lt up by auto
      then have k: "flt_key ?r < int MAXM" using b(1) by (simp add: flt_fin_key)
      have n: "flt_key (nextafterf ?r FLT_MAX) = flt_key ?r + 1" by (rule nextafterf_key(2)[OF b(1) k])
      have "flt_fin (nextafterf ?r FLT_MAX)" using n k b(1) by (simp add: flt_fin_key)
      then show ?thesis using b(4)[OF k] lt n unfolding r by simp
    qed
  qed
qed

text \<open>C26: The bounds of a box are stored as floats without shrinking it: \<open>next_float_down\<close> gives the
  greatest finite float not above its argument and \<open>next_float_up\<close> the least not below it, for
  every double between \<open>-FLT_MAX\<close> and \<open>FLT_MAX\<close>, whatever way the conversion rounds.\<close>

theorem next_float_rounds_outwards:
  assumes "dbl_le (dbl_of_flt NEG_FLT_MAX) d" and "dbl_le d (dbl_of_flt FLT_MAX)"
  shows "(flt_fin (next_float_down d) \<and> dbl_le (dbl_of_flt (next_float_down d)) d \<and>
      (\<forall>f. flt_fin f \<longrightarrow> dbl_le (dbl_of_flt f) d \<longrightarrow> flt_key f \<le> flt_key (next_float_down d))) \<and>
    (flt_fin (next_float_up d) \<and> dbl_le d (dbl_of_flt (next_float_up d)) \<and>
      (\<forall>f. flt_fin f \<longrightarrow> dbl_le d (dbl_of_flt f) \<longrightarrow> flt_key (next_float_up d) \<le> flt_key f))"
proof -
  have nan: "\<not> isnan d" using assms by (simp add: dbl_le_def)
  let ?dn = "next_float_down d" and ?up = "next_float_up d"
  have dn: "flt_fin ?dn" "widen_key (flt_key ?dn) \<le> dbl_key d"
      "flt_key ?dn < int MAXM \<Longrightarrow> dbl_key d < widen_key (flt_key ?dn + 1)"
    using next_float_down_key[OF nan assms(1)] by blast+
  have up: "flt_fin ?up" "dbl_key d \<le> widen_key (flt_key ?up)"
      "- int MAXM < flt_key ?up \<Longrightarrow> widen_key (flt_key ?up - 1) < dbl_key d"
    using next_float_up_key[OF nan assms(2)] by blast+
  have "flt_key f \<le> flt_key ?dn" if f: "flt_fin f" "dbl_le (dbl_of_flt f) d" for f
  proof (rule ccontr)
    assume "\<not> ?thesis"
    then have lt: "flt_key ?dn < int MAXM" "flt_key ?dn + 1 \<le> flt_key f" using f(1) by (simp_all add: flt_fin_key)
    have "widen_key (flt_key f) < widen_key (flt_key ?dn + 1)"
      using dn(3)[OF lt(1)] f dbl_of_flt_le[OF f(1) nan] by simp
    then have "flt_key f < flt_key ?dn + 1" using f(1) dn(1) lt(1) by (subst (asm) widen_key_less_iff) (simp_all add: flt_fin_key)
    then show False using lt(2) by simp
  qed
  moreover have "flt_key ?up \<le> flt_key f" if f: "flt_fin f" "dbl_le d (dbl_of_flt f)" for f
  proof (rule ccontr)
    assume "\<not> ?thesis"
    then have lt: "- int MAXM < flt_key ?up" "flt_key f \<le> flt_key ?up - 1" using f(1) by (simp_all add: flt_fin_key)
    have "widen_key (flt_key ?up - 1) < widen_key (flt_key f)"
      using up(3)[OF lt(1)] f dbl_le_of_flt[OF f(1) nan] by simp
    then have "flt_key ?up - 1 < flt_key f" using f(1) up(1) lt(1) by (subst (asm) widen_key_less_iff) (simp_all add: flt_fin_key)
    then show False using lt(2) by simp
  qed
  ultimately show ?thesis using dn up dbl_of_flt_le[OF dn(1) nan] dbl_le_of_flt[OF up(1) nan] by simp
qed

text \<open>One tenth, which lies between two floats.\<close>

theorem next_float_rounds_outwards_witness:
  "dbl_le (dbl_of_flt (next_float_down 0x3FB999999999999A)) 0x3FB999999999999A \<and>
   next_float_down 0x3FB999999999999A = 0x3DCCCCCC \<and> next_float_up 0x3FB999999999999A = 0x3DCCCCCD"
proof -
  have m: "dbl_of_flt FLT_MAX = 0x47EFFFFFE0000000" "dbl_of_flt NEG_FLT_MAX = 0xC7EFFFFFE0000000"
    by (simp_all add: dbl_of_flt_def flt_consts widen_FLT_MAX mk_dbl_def)
  have k: "dbl_key 0x47EFFFFFE0000000 = 0x47EFFFFFE0000000" "dbl_key 0xC7EFFFFFE0000000 = - 0x47EFFFFFE0000000"
      "dbl_key 0x3FB999999999999A = 0x3FB999999999999A" "dbl_mag 0x3FB999999999999A = 0x3FB999999999999A"
      "\<not> dbl_neg 0x3FB999999999999A"
    by (simp_all add: dbl_key_def dbl_neg_def dbl_mag_def bit_simps)
  have n: "\<not> isnan 0x47EFFFFFE0000000" "\<not> isnan 0xC7EFFFFFE0000000" "\<not> isnan 0x3FB999999999999A"
    by (simp_all add: isnan_def dbl_mag_def)
  have r: "flt_of_dbl 0x3FB999999999999A = 0x3DCCCCCD" "dbl_of_flt 0x3DCCCCCD = 0x3FB99999A0000000"
    by (simp_all add: flt_of_dbl_def k narrow_mag_def rne_def mk_flt_def dbl_of_flt_def flt_mag_def flt_neg_def
        widen_mag_def mk_dbl_def bit_simps)
  have a: "dbl_le (dbl_of_flt NEG_FLT_MAX) 0x3FB999999999999A" "dbl_le 0x3FB999999999999A (dbl_of_flt FLT_MAX)"
    by (simp_all add: m dbl_le_def k n)
  have "next_float_up 0x3FB999999999999A = 0x3DCCCCCD"
    by (simp add: next_float_up_def m dbl_le_def dbl_lt_def k n r) (simp add: isnan_def dbl_key_def dbl_mag_def dbl_neg_def bit_simps)
  moreover have "next_float_down 0x3FB999999999999A = 0x3DCCCCCC"
    by (simp add: next_float_down_def m dbl_le_def dbl_lt_def k n r)
      (simp add: isnan_def dbl_key_def dbl_mag_def dbl_neg_def bit_simps nextafterf_def flt_isnan_def flt_key_def flt_mag_def flt_neg_def NEG_FLT_MAX_def mk_flt_def)
  ultimately show ?thesis using next_float_rounds_outwards[OF a] by blast
qed

end
