(* ===== verification/Gbox.thy ===== *)
theory Gbox
  imports LwGeom Floats
begin

text \<open>
  Bounding boxes (liblwgeom/gbox.c). The bounds of a box are copied and compared, never computed
  with, as long as no arc is involved; the functions that add to a bound (\<open>gbox_expand\<close>,
  \<open>gbox_expand_xyzm\<close>, \<open>gbox_get_sortable_hash\<close>) are left out, those that print or parse decimal
  numbers too. A function that fills a box takes the box it is given and returns the new one, \<open>None\<close> for
  \<open>LW_FAILURE\<close>, which leaves the box alone. The linearisation of ellipses and Bezier curves
  and the box of one arc are floating-point computations: arguments of the functions that use them.
\<close>

section \<open>Comparing numbers\<close>

text \<open>The macros \<open>FP_MIN\<close> and \<open>FP_MAX\<close>.\<close>

definition FP_MIN :: "dbl \<Rightarrow> dbl \<Rightarrow> dbl" where
  "FP_MIN A B = (if dbl_lt A B then A else B)"

definition FP_MAX :: "dbl \<Rightarrow> dbl \<Rightarrow> dbl" where
  "FP_MAX A B = (if dbl_lt B A then A else B)"

section \<open>Boxes\<close>

record box3d =
  b3_xmin :: dbl
  b3_ymin :: dbl
  b3_zmin :: dbl
  b3_xmax :: dbl
  b3_ymax :: dbl
  b3_zmax :: dbl
  b3_srid :: i32

record point3d =
  p3x :: dbl
  p3y :: dbl
  p3z :: dbl

text \<open>\<open>memset\<close> to zero: all bounds are positive zeros.\<close>

definition gbox_init :: gbox where
  "gbox_init = \<lparr>gb_flags = 0, xmin = 0, xmax = 0, ymin = 0, ymax = 0, zmin = 0, zmax = 0, mmin = 0, mmax = 0\<rparr>"

definition gbox_new :: "u16 \<Rightarrow> gbox" where
  "gbox_new flags = gbox_init\<lparr>gb_flags := flags\<rparr>"

definition box3d_from_gbox :: "gbox \<Rightarrow> box3d" where
  "box3d_from_gbox gbox =
     \<lparr>b3_xmin = xmin gbox, b3_ymin = ymin gbox,
      b3_zmin = (if FLAGS_GET_Z (gb_flags gbox) \<noteq> 0 then zmin gbox else 0),
      b3_xmax = xmax gbox, b3_ymax = ymax gbox,
      b3_zmax = (if FLAGS_GET_Z (gb_flags gbox) \<noteq> 0 then zmax gbox else 0),
      b3_srid = SRID_UNKNOWN\<rparr>"

text \<open>The memory is not cleared: \<open>b\<close> holds what it contained.\<close>

definition box3d_to_gbox :: "gbox \<Rightarrow> box3d \<Rightarrow> gbox" where
  "box3d_to_gbox b b3d =
     b\<lparr>xmin := b3_xmin b3d, xmax := b3_xmax b3d, ymin := b3_ymin b3d, ymax := b3_ymax b3d,
       zmin := b3_zmin b3d, zmax := b3_zmax b3d\<rparr>"

text \<open>A missing box is a null pointer; the result is the value returned and the box \<open>gout\<close> points to.\<close>

definition gbox_union :: "gbox option \<Rightarrow> gbox option \<Rightarrow> gbox \<Rightarrow> bool \<times> gbox" where
  "gbox_union g1 g2 gout =
     (case (g1, g2) of
        (None, None) \<Rightarrow> (False, gout)
      | (None, Some b2) \<Rightarrow> (True, b2)
      | (Some b1, None) \<Rightarrow> (True, b1)
      | (Some b1, Some b2) \<Rightarrow> (True, gout\<lparr>gb_flags := gb_flags b1,
          xmin := FP_MIN (xmin b1) (xmin b2), xmax := FP_MAX (xmax b1) (xmax b2),
          ymin := FP_MIN (ymin b1) (ymin b2), ymax := FP_MAX (ymax b1) (ymax b2),
          zmin := FP_MIN (zmin b1) (zmin b2), zmax := FP_MAX (zmax b1) (zmax b2)\<rparr>))"

definition gbox_same_2d :: "gbox \<Rightarrow> gbox \<Rightarrow> bool" where
  "gbox_same_2d g1 g2 \<longleftrightarrow>
     dbl_eq (xmin g1) (xmin g2) \<and> dbl_eq (ymin g1) (ymin g2) \<and>
     dbl_eq (xmax g1) (xmax g2) \<and> dbl_eq (ymax g1) (ymax g2)"

definition gbox_same :: "gbox \<Rightarrow> gbox \<Rightarrow> bool" where
  "gbox_same g1 g2 \<longleftrightarrow>
     (if FLAGS_GET_ZM (gb_flags g1) \<noteq> FLAGS_GET_ZM (gb_flags g2) then False
      else if \<not> gbox_same_2d g1 g2 then False
      else if FLAGS_GET_Z (gb_flags g1) \<noteq> 0 \<and>
        (\<not> dbl_eq (zmin g1) (zmin g2) \<or> \<not> dbl_eq (zmax g1) (zmax g2)) then False
      else if FLAGS_GET_M (gb_flags g1) \<noteq> 0 \<and>
        (\<not> dbl_eq (mmin g1) (mmin g2) \<or> \<not> dbl_eq (mmax g1) (mmax g2)) then False
      else True)"

text \<open>The minima compare a box with itself, as the code does.\<close>

definition gbox_same_2d_float :: "gbox \<Rightarrow> gbox \<Rightarrow> bool" where
  "gbox_same_2d_float g1 g2 \<longleftrightarrow>
     (dbl_eq (xmax g1) (xmax g2) \<or> flt_eq (next_float_up (xmax g1)) (next_float_up (xmax g2))) \<and>
     (dbl_eq (ymax g1) (ymax g2) \<or> flt_eq (next_float_up (ymax g1)) (next_float_up (ymax g2))) \<and>
     (dbl_eq (xmin g1) (xmin g2) \<or> flt_eq (next_float_down (xmin g1)) (next_float_down (xmin g1))) \<and>
     (dbl_eq (ymin g1) (ymin g2) \<or> flt_eq (next_float_down (ymin g2)) (next_float_down (ymin g2)))"

definition gbox_is_valid :: "gbox \<Rightarrow> bool" where
  "gbox_is_valid gbox \<longleftrightarrow>
     (if \<not> isfinite (xmin gbox) \<or> isnan (xmin gbox) \<or> \<not> isfinite (xmax gbox) \<or> isnan (xmax gbox)
      then False
      else if \<not> isfinite (ymin gbox) \<or> isnan (ymin gbox) \<or> \<not> isfinite (ymax gbox) \<or> isnan (ymax gbox)
      then False
      else if (FLAGS_GET_GEODETIC (gb_flags gbox) \<noteq> 0 \<or> FLAGS_GET_Z (gb_flags gbox) \<noteq> 0) \<and>
        (\<not> isfinite (zmin gbox) \<or> isnan (zmin gbox) \<or> \<not> isfinite (zmax gbox) \<or> isnan (zmax gbox))
      then False
      else if FLAGS_GET_M (gb_flags gbox) \<noteq> 0 \<and>
        (\<not> isfinite (mmin gbox) \<or> isnan (mmin gbox) \<or> \<not> isfinite (mmax gbox) \<or> isnan (mmax gbox))
      then False
      else True)"

text \<open>\<open>if (v < b->field) b->field = v\<close> and \<open>if (b->field < v) b->field = v\<close>.\<close>

definition lower_to :: "('r \<Rightarrow> dbl) \<Rightarrow> ((dbl \<Rightarrow> dbl) \<Rightarrow> 'r \<Rightarrow> 'r) \<Rightarrow> dbl \<Rightarrow> 'r \<Rightarrow> 'r" where
  "lower_to field set_field v b = (if dbl_lt v (field b) then set_field (\<lambda>_. v) b else b)"

definition raise_to :: "('r \<Rightarrow> dbl) \<Rightarrow> ((dbl \<Rightarrow> dbl) \<Rightarrow> 'r \<Rightarrow> 'r) \<Rightarrow> dbl \<Rightarrow> 'r \<Rightarrow> 'r" where
  "raise_to field set_field v b = (if dbl_lt (field b) v then set_field (\<lambda>_. v) b else b)"

definition gbox_merge_point3d :: "point3d \<Rightarrow> gbox \<Rightarrow> gbox" where
  "gbox_merge_point3d p gbox =
     (let gbox = lower_to xmin xmin_update (p3x p) gbox;
          gbox = lower_to ymin ymin_update (p3y p) gbox;
          gbox = lower_to zmin zmin_update (p3z p) gbox;
          gbox = raise_to xmax xmax_update (p3x p) gbox;
          gbox = raise_to ymax ymax_update (p3y p) gbox;
          gbox = raise_to zmax zmax_update (p3z p) gbox
      in gbox)"

definition gbox_init_point3d :: "point3d \<Rightarrow> gbox \<Rightarrow> gbox" where
  "gbox_init_point3d p gbox =
     gbox\<lparr>xmin := p3x p, xmax := p3x p, ymin := p3y p, ymax := p3y p, zmin := p3z p, zmax := p3z p\<rparr>"

definition gbox_contains_point3d :: "gbox \<Rightarrow> point3d \<Rightarrow> bool" where
  "gbox_contains_point3d gbox pt \<longleftrightarrow>
     \<not> (dbl_lt (p3x pt) (xmin gbox) \<or> dbl_lt (p3y pt) (ymin gbox) \<or> dbl_lt (p3z pt) (zmin gbox) \<or>
        dbl_lt (xmax gbox) (p3x pt) \<or> dbl_lt (ymax gbox) (p3y pt) \<or> dbl_lt (zmax gbox) (p3z pt))"

definition gbox_merge :: "gbox \<Rightarrow> gbox \<Rightarrow> gbox option" where
  "gbox_merge new_box merge_box =
     (if FLAGS_GET_ZM (gb_flags merge_box) \<noteq> FLAGS_GET_ZM (gb_flags new_box) then None
      else
        let b = lower_to xmin xmin_update (xmin new_box) merge_box;
            b = lower_to ymin ymin_update (ymin new_box) b;
            b = raise_to xmax xmax_update (xmax new_box) b;
            b = raise_to ymax ymax_update (ymax new_box) b;
            b = (if FLAGS_GET_Z (gb_flags merge_box) \<noteq> 0 \<or> FLAGS_GET_GEODETIC (gb_flags merge_box) \<noteq> 0
                 then raise_to zmax zmax_update (zmax new_box) (lower_to zmin zmin_update (zmin new_box) b)
                 else b);
            b = (if FLAGS_GET_M (gb_flags merge_box) \<noteq> 0
                 then raise_to mmax mmax_update (mmax new_box) (lower_to mmin mmin_update (mmin new_box) b)
                 else b)
        in Some b)"

definition gbox_overlaps :: "gbox \<Rightarrow> gbox \<Rightarrow> bool res" where
  "gbox_overlaps g1 g2 =
     (if FLAGS_GET_GEODETIC (gb_flags g1) \<noteq> FLAGS_GET_GEODETIC (gb_flags g2)
      then Inl (LwError ''gbox_overlaps: cannot compare geodetic and non-geodetic boxes'')
      else if dbl_lt (xmax g1) (xmin g2) \<or> dbl_lt (ymax g1) (ymin g2) \<or>
        dbl_lt (xmax g2) (xmin g1) \<or> dbl_lt (ymax g2) (ymin g1)
      then Inr False
      else if FLAGS_GET_GEODETIC (gb_flags g1) \<noteq> 0 \<and> FLAGS_GET_GEODETIC (gb_flags g2) \<noteq> 0
      then Inr (\<not> (dbl_lt (zmax g1) (zmin g2) \<or> dbl_lt (zmax g2) (zmin g1)))
      else if FLAGS_GET_Z (gb_flags g1) \<noteq> 0 \<and> FLAGS_GET_Z (gb_flags g2) \<noteq> 0 \<and>
        (dbl_lt (zmax g1) (zmin g2) \<or> dbl_lt (zmax g2) (zmin g1))
      then Inr False
      else if FLAGS_GET_M (gb_flags g1) \<noteq> 0 \<and> FLAGS_GET_M (gb_flags g2) \<noteq> 0 \<and>
        (dbl_lt (mmax g1) (mmin g2) \<or> dbl_lt (mmax g2) (mmin g1))
      then Inr False
      else Inr True)"

definition gbox_overlaps_2d :: "gbox \<Rightarrow> gbox \<Rightarrow> bool res" where
  "gbox_overlaps_2d g1 g2 =
     (if FLAGS_GET_GEODETIC (gb_flags g1) \<noteq> FLAGS_GET_GEODETIC (gb_flags g2)
      then Inl (LwError ''gbox_overlaps: cannot compare geodetic and non-geodetic boxes'')
      else if dbl_lt (xmax g1) (xmin g2) \<or> dbl_lt (ymax g1) (ymin g2) \<or>
        dbl_lt (xmax g2) (xmin g1) \<or> dbl_lt (ymax g2) (ymin g1)
      then Inr False
      else Inr True)"

definition gbox_contains_2d :: "gbox \<Rightarrow> gbox \<Rightarrow> bool" where
  "gbox_contains_2d g1 g2 \<longleftrightarrow>
     \<not> (dbl_lt (xmin g2) (xmin g1) \<or> dbl_lt (xmax g1) (xmax g2) \<or>
        dbl_lt (ymin g2) (ymin g1) \<or> dbl_lt (ymax g1) (ymax g2))"

definition gbox_contains_point2d :: "gbox \<Rightarrow> dbl \<times> dbl \<Rightarrow> bool" where
  "gbox_contains_point2d g p \<longleftrightarrow>
     dbl_le (xmin g) (fst p) \<and> dbl_le (fst p) (xmax g) \<and>
     dbl_le (ymin g) (snd p) \<and> dbl_le (snd p) (ymax g)"

definition gbox_serialized_size :: "u16 \<Rightarrow> nat" where
  "gbox_serialized_size flags =
     (if FLAGS_GET_GEODETIC flags \<noteq> 0 then 6 * 4 else 2 * FLAGS_NDIMS flags * 4)"

text \<open>The float result is assigned to a double.\<close>

definition round_down :: "dbl \<Rightarrow> dbl" where "round_down d = dbl_of_flt (next_float_down d)"
definition round_up :: "dbl \<Rightarrow> dbl" where "round_up d = dbl_of_flt (next_float_up d)"

definition gbox_float_round :: "gbox \<Rightarrow> gbox" where
  "gbox_float_round gbox =
     (let gbox = gbox\<lparr>xmin := round_down (xmin gbox), xmax := round_up (xmax gbox),
            ymin := round_down (ymin gbox), ymax := round_up (ymax gbox)\<rparr>;
          gbox = (if FLAGS_GET_M (gb_flags gbox) \<noteq> 0
                  then gbox\<lparr>mmin := round_down (mmin gbox), mmax := round_up (mmax gbox)\<rparr> else gbox)
      in if FLAGS_GET_Z (gb_flags gbox) \<noteq> 0
         then gbox\<lparr>zmin := round_down (zmin gbox), zmax := round_up (zmax gbox)\<rparr> else gbox)"

section \<open>The box of a point array\<close>

definition ptarray_calculate_gbox_cartesian_2d :: "ptarray \<Rightarrow> gbox \<Rightarrow> gbox" where
  "ptarray_calculate_gbox_cartesian_2d pa gbox =
     (let p = getPoint_internal pa 0
      in fold (\<lambda>i gbox. let p = getPoint_internal pa i in
             gbox\<lparr>xmin := FP_MIN (xmin gbox) (p ! 0), xmax := FP_MAX (xmax gbox) (p ! 0),
                  ymin := FP_MIN (ymin gbox) (p ! 1), ymax := FP_MAX (ymax gbox) (p ! 1)\<rparr>)
           [1..<unat (npoints pa)]
           (gbox\<lparr>xmin := p ! 0, xmax := p ! 0, ymin := p ! 1, ymax := p ! 1\<rparr>))"

definition ptarray_calculate_gbox_cartesian_3d :: "ptarray \<Rightarrow> gbox \<Rightarrow> gbox" where
  "ptarray_calculate_gbox_cartesian_3d pa gbox =
     (let p = getPoint_internal pa 0
      in fold (\<lambda>i gbox. let p = getPoint_internal pa i in
             gbox\<lparr>xmin := FP_MIN (xmin gbox) (p ! 0), xmax := FP_MAX (xmax gbox) (p ! 0),
                  ymin := FP_MIN (ymin gbox) (p ! 1), ymax := FP_MAX (ymax gbox) (p ! 1),
                  zmin := FP_MIN (zmin gbox) (p ! 2), zmax := FP_MAX (zmax gbox) (p ! 2)\<rparr>)
           [1..<unat (npoints pa)]
           (gbox\<lparr>xmin := p ! 0, xmax := p ! 0, ymin := p ! 1, ymax := p ! 1, zmin := p ! 2, zmax := p ! 2\<rparr>))"

definition ptarray_calculate_gbox_cartesian_4d :: "ptarray \<Rightarrow> gbox \<Rightarrow> gbox" where
  "ptarray_calculate_gbox_cartesian_4d pa gbox =
     (let p = getPoint_internal pa 0
      in fold (\<lambda>i gbox. let p = getPoint_internal pa i in
             gbox\<lparr>xmin := FP_MIN (xmin gbox) (p ! 0), xmax := FP_MAX (xmax gbox) (p ! 0),
                  ymin := FP_MIN (ymin gbox) (p ! 1), ymax := FP_MAX (ymax gbox) (p ! 1),
                  zmin := FP_MIN (zmin gbox) (p ! 2), zmax := FP_MAX (zmax gbox) (p ! 2),
                  mmin := FP_MIN (mmin gbox) (p ! 3), mmax := FP_MAX (mmax gbox) (p ! 3)\<rparr>)
           [1..<unat (npoints pa)]
           (gbox\<lparr>xmin := p ! 0, xmax := p ! 0, ymin := p ! 1, ymax := p ! 1, zmin := p ! 2, zmax := p ! 2,
                 mmin := p ! 3, mmax := p ! 3\<rparr>))"

definition ptarray_calculate_gbox_cartesian :: "ptarray \<Rightarrow> gbox \<Rightarrow> gbox option" where
  "ptarray_calculate_gbox_cartesian pa gbox =
     (if npoints pa = 0 then None
      else
        let has_z = FLAGS_GET_Z (pa_flags pa); has_m = FLAGS_GET_M (pa_flags pa);
            gbox = gbox\<lparr>gb_flags := lwflags (has_z \<noteq> 0) (has_m \<noteq> 0) False\<rparr>;
            coordinates = 2 + has_z + has_m
        in Some (if coordinates = 2 then ptarray_calculate_gbox_cartesian_2d pa gbox
             else if coordinates = 3 then
               if has_z \<noteq> 0 then ptarray_calculate_gbox_cartesian_3d pa gbox
               else let b = ptarray_calculate_gbox_cartesian_3d pa gbox
                 in b\<lparr>mmin := zmin b, mmax := zmax b, zmin := zmin gbox, zmax := zmax gbox\<rparr>
             else ptarray_calculate_gbox_cartesian_4d pa gbox))"

section \<open>The box of a geometry\<close>

text \<open>
  The parts computed in floating point: \<open>lw_arc_calculate_gbox_cartesian_2d\<close>, which sets
  the X and Y bounds, and the 72-segment lines of \<open>lwellipse_get_spatialdata\<close> and \<open>lwbezier_linearize\<close>.
\<close>

record curve_ops =
  arc_box_2d :: "dbl \<times> dbl \<Rightarrow> dbl \<times> dbl \<Rightarrow> dbl \<times> dbl \<Rightarrow> (dbl \<times> dbl) \<times> (dbl \<times> dbl)"
  ellipse_line :: "ellipse \<Rightarrow> ptarray"
  bezier_line :: "ptarray \<Rightarrow> ptarray"

definition lw_arc_calculate_gbox_cartesian :: "curve_ops \<Rightarrow> point4d \<Rightarrow> point4d \<Rightarrow> point4d \<Rightarrow> gbox \<Rightarrow> gbox" where
  "lw_arc_calculate_gbox_cartesian cv p1 p2 p3 gbox =
     (let ((x0, y0), (x1, y1)) = arc_box_2d cv (px p1, py p1) (px p2, py p2) (px p3, py p3)
      in gbox\<lparr>xmin := x0, ymin := y0, xmax := x1, ymax := y1,
           zmin := FP_MIN (pz p1) (pz p3), mmin := FP_MIN (pm p1) (pm p3),
           zmax := FP_MAX (pz p1) (pz p3), mmax := FP_MAX (pm p1) (pm p3)\<rparr>)"

text \<open>The flags of the box are not set here; the merge fails, and changes nothing, if they differ.\<close>

definition lwcircstring_calculate_gbox_cartesian :: "curve_ops \<Rightarrow> lwhdr \<Rightarrow> ptarray \<Rightarrow> gbox \<Rightarrow> gbox option" where
  "lwcircstring_calculate_gbox_cartesian cv hdr pa gbox =
     (if npoints pa < 3 then None
      else
        let tmp = gbox_init\<lparr>gb_flags := lwflags (FLAGS_GET_Z (g_flags hdr) \<noteq> 0) (FLAGS_GET_M (g_flags hdr) \<noteq> 0) False\<rparr>;
            big = dbl_of_flt FLT_MAX; small = dbl_of_flt NEG_FLT_MAX;
            gbox = gbox\<lparr>xmin := big, ymin := big, zmin := big, mmin := big,
                        xmax := small, ymax := small, zmax := small, mmax := small\<rparr>
        in Some (snd (fold (\<lambda>k (tmp, gbox).
               let i = 2 * k + 2
               in case (getPoint4d_p pa (of_nat (i - 2)), getPoint4d_p pa (of_nat (i - 1)), getPoint4d_p pa (of_nat i)) of
                    (Some p1, Some p2, Some p3) \<Rightarrow>
                      let tmp = lw_arc_calculate_gbox_cartesian cv p1 p2 p3 tmp
                      in (tmp, case gbox_merge tmp gbox of None \<Rightarrow> gbox | Some b \<Rightarrow> b)
                  | _ \<Rightarrow> (tmp, gbox))
             [0..<(unat (npoints pa) - 1) div 2] (tmp, gbox))))"

definition lwpoint_calculate_gbox_cartesian :: "ptarray \<Rightarrow> gbox \<Rightarrow> gbox option" where
  "lwpoint_calculate_gbox_cartesian point gbox = ptarray_calculate_gbox_cartesian point gbox"

definition lwline_calculate_gbox_cartesian :: "ptarray \<Rightarrow> gbox \<Rightarrow> gbox option" where
  "lwline_calculate_gbox_cartesian points gbox = ptarray_calculate_gbox_cartesian points gbox"

definition lwtriangle_calculate_gbox_cartesian :: "ptarray \<Rightarrow> gbox \<Rightarrow> gbox option" where
  "lwtriangle_calculate_gbox_cartesian points gbox = ptarray_calculate_gbox_cartesian points gbox"

definition lwellipse_calculate_gbox_cartesian :: "curve_ops \<Rightarrow> ellipse \<Rightarrow> gbox \<Rightarrow> gbox option" where
  "lwellipse_calculate_gbox_cartesian cv ellipse gbox =
     lwline_calculate_gbox_cartesian (ellipse_line cv ellipse) gbox"

definition lwbezier_calculate_gbox_cartesian :: "curve_ops \<Rightarrow> ptarray \<Rightarrow> gbox \<Rightarrow> gbox option" where
  "lwbezier_calculate_gbox_cartesian cv points gbox =
     lwline_calculate_gbox_cartesian (bezier_line cv points) gbox"

definition lwpoly_calculate_gbox_cartesian :: "ptarray list \<Rightarrow> gbox \<Rightarrow> gbox option" where
  "lwpoly_calculate_gbox_cartesian rings gbox =
     (case rings of [] \<Rightarrow> None | ring # _ \<Rightarrow> ptarray_calculate_gbox_cartesian ring gbox)"

text \<open>
  The loop over the members keeps the box of the last member, from which the next one starts, and the
  box of the collection, \<open>None\<close> as long as no member has one.
\<close>

definition collection_gbox_step :: "gbox \<Rightarrow> gbox option \<Rightarrow> gbox option" where
  "collection_gbox_step subbox acc =
     (case acc of None \<Rightarrow> Some subbox
      | Some gbox \<Rightarrow> Some (case gbox_merge subbox gbox of None \<Rightarrow> gbox | Some b \<Rightarrow> b))"

fun lwgeom_calculate_gbox_cartesian :: "curve_ops \<Rightarrow> lwgeom \<Rightarrow> gbox \<Rightarrow> gbox option"
and lwcollection_gbox_loop :: "curve_ops \<Rightarrow> lwgeom list \<Rightarrow> gbox \<Rightarrow> gbox option \<Rightarrow> gbox option" where
  "lwgeom_calculate_gbox_cartesian cv (LwPoint _ pa) gbox = lwpoint_calculate_gbox_cartesian pa gbox"
| "lwgeom_calculate_gbox_cartesian cv (LwLine _ pa) gbox = lwline_calculate_gbox_cartesian pa gbox"
| "lwgeom_calculate_gbox_cartesian cv (LwCircString h pa) gbox = lwcircstring_calculate_gbox_cartesian cv h pa gbox"
| "lwgeom_calculate_gbox_cartesian cv (LwPoly _ rings) gbox = lwpoly_calculate_gbox_cartesian rings gbox"
| "lwgeom_calculate_gbox_cartesian cv (LwTriangle _ pa) gbox = lwtriangle_calculate_gbox_cartesian pa gbox"
| "lwgeom_calculate_gbox_cartesian cv (LwEllipse _ e) gbox = lwellipse_calculate_gbox_cartesian cv e gbox"
| "lwgeom_calculate_gbox_cartesian cv (LwBezier _ pa) gbox = lwbezier_calculate_gbox_cartesian cv pa gbox"
| "lwgeom_calculate_gbox_cartesian cv (LwColl _ h gs) gbox =
     lwcollection_gbox_loop cv gs (gbox_init\<lparr>gb_flags := g_flags h\<rparr>) None"
| "lwcollection_gbox_loop cv [] subbox acc = acc"
| "lwcollection_gbox_loop cv (g # gs) subbox acc =
     (case lwgeom_calculate_gbox_cartesian cv g subbox of
        None \<Rightarrow> lwcollection_gbox_loop cv gs subbox acc
      | Some subbox \<Rightarrow> lwcollection_gbox_loop cv gs subbox (collection_gbox_step subbox acc))"


section \<open>Ranges\<close>

text \<open>\<open>is_range lo hi ds\<close>: the least and the greatest of the numbers \<open>ds\<close>, both among them.\<close>

definition is_range :: "dbl \<Rightarrow> dbl \<Rightarrow> dbl list \<Rightarrow> bool" where
  "is_range lo hi ds \<longleftrightarrow> lo \<in> set ds \<and> hi \<in> set ds \<and> list_all (\<lambda>d. dbl_le lo d \<and> dbl_le d hi) ds"

named_theorems range_intros \<open>ranges of longer lists\<close>

lemma dbl_lt_iff_not_le: "\<not> isnan a \<Longrightarrow> \<not> isnan b \<Longrightarrow> dbl_lt a b \<longleftrightarrow> \<not> dbl_le b a"
  by (auto simp: dbl_lt_def dbl_le_def)

lemma dbl_le_refl: "dbl_le a a \<longleftrightarrow> \<not> isnan a"
  by (simp add: dbl_le_def)

lemma dbl_le_not_nan: "dbl_le a b \<Longrightarrow> \<not> isnan a \<and> \<not> isnan b"
  by (simp add: dbl_le_def)

lemma dbl_le_lt_trans: "dbl_le a b \<Longrightarrow> dbl_lt b c \<Longrightarrow> dbl_lt a c"
  by (simp add: dbl_le_def dbl_lt_def)

lemma is_range_single [range_intros]: "\<not> isnan d \<Longrightarrow> is_range d d [d]"
  by (simp add: is_range_def dbl_le_refl)

text \<open>The two ways the code merges ranges: with the macros, and by assigning what is smaller.\<close>

lemma is_range_append:
  assumes "is_range lo hi ds" and "is_range lo' hi' ds'"
  shows "is_range (if dbl_lt lo' lo then lo' else lo) (if dbl_lt hi hi' then hi' else hi) (ds @ ds')"
  using assms unfolding is_range_def list_all_iff dbl_lt_def dbl_le_def
  by (auto; force)

lemma is_range_step [range_intros]:
  assumes "is_range lo hi ds" and "\<not> isnan d"
  shows "is_range (FP_MIN lo d) (FP_MAX hi d) (ds @ [d])"
  using assms unfolding is_range_def list_all_iff FP_MIN_def FP_MAX_def dbl_lt_def dbl_le_def
  by (auto; force)

lemma is_range_overlap:
  "is_range lo hi ds \<Longrightarrow> is_range lo' hi' ds' \<Longrightarrow> d \<in> set ds \<Longrightarrow> d' \<in> set ds' \<Longrightarrow> dbl_eq d d' \<Longrightarrow>
   dbl_le lo hi' \<and> dbl_le lo' hi"
  unfolding is_range_def list_all_iff dbl_le_def dbl_eq_def by fastforce

lemma fold_upt_invariant:
  assumes "P 1 s" and "\<And>i s. 1 \<le> i \<Longrightarrow> i < n \<Longrightarrow> P i s \<Longrightarrow> P (Suc i) (f i s)" and "1 \<le> n"
  shows "P n (fold f [1..<n] s)"
proof -
  have "m < n \<Longrightarrow> P (Suc m) (fold f [1..<Suc m] s)" for m
  proof (induction m)
    case 0
    then show ?case using assms(1) by simp
  next
    case (Suc m)
    then show ?case using assms(2)[of "Suc m"] by simp
  qed
  from this[of "n - 1"] show ?thesis using assms(3) by simp
qed

section \<open>The box of the points\<close>

text \<open>
  \<open>is_box zm b ps\<close>: \<open>b\<close> is the least box of the points \<open>ps\<close>, lists of ordinates in the dimensions
  \<open>zm = (z, m)\<close>.
\<close>

definition is_box :: "bool \<times> bool \<Rightarrow> gbox \<Rightarrow> dbl list list \<Rightarrow> bool" where
  "is_box zm b ps \<longleftrightarrow>
     gb_flags b = lwflags (fst zm) (snd zm) False \<and>
     is_range (xmin b) (xmax b) (map (\<lambda>p. p ! 0) ps) \<and>
     is_range (ymin b) (ymax b) (map (\<lambda>p. p ! 1) ps) \<and>
     (fst zm \<longrightarrow> is_range (zmin b) (zmax b) (map (\<lambda>p. p ! 2) ps)) \<and>
     (snd zm \<longrightarrow> is_range (mmin b) (mmax b) (map (\<lambda>p. p ! (if fst zm then 3 else 2)) ps))"

text \<open>Well-formed points of dimensions \<open>zm\<close> with no NaN among their ordinates.\<close>

definition pa_plain :: "bool \<times> bool \<Rightarrow> ptarray \<Rightarrow> bool" where
  "pa_plain zm pa \<longleftrightarrow> pa_wf pa \<and> bit (pa_flags pa) 0 = fst zm \<and> bit (pa_flags pa) 1 = snd zm \<and>
     list_all (\<lambda>d. \<not> isnan d) (serialized_pointlist pa)"

lemma lower_self: "(\<And>f b. g (u f b) = f (g b)) \<Longrightarrow> g (lower_to g u v b) = (if dbl_lt v (g b) then v else g b)"
  by (simp add: lower_to_def)

lemma raise_self: "(\<And>f b. g (u f b) = f (g b)) \<Longrightarrow> g (raise_to g u v b) = (if dbl_lt (g b) v then v else g b)"
  by (simp add: raise_to_def)

lemma move_other:
  "(\<And>f b. g (u f b) = g b) \<Longrightarrow> g (lower_to h u v b) = g b"
  "(\<And>f b. g (u f b) = g b) \<Longrightarrow> g (raise_to h u v b) = g b"
  by (simp_all add: lower_to_def raise_to_def)

lemmas move_simps =
  move_other[where g = gb_flags] move_other[where g = xmin] move_other[where g = xmax]
  move_other[where g = ymin] move_other[where g = ymax] move_other[where g = zmin]
  move_other[where g = zmax] move_other[where g = mmin] move_other[where g = mmax]
  lower_self[where g = xmin] lower_self[where g = xmax] raise_self[where g = xmin] raise_self[where g = xmax]
  lower_self[where g = ymin] lower_self[where g = ymax] raise_self[where g = ymin] raise_self[where g = ymax]
  lower_self[where g = zmin] lower_self[where g = zmax] raise_self[where g = zmin] raise_self[where g = zmax]
  lower_self[where g = mmin] lower_self[where g = mmax] raise_self[where g = mmin] raise_self[where g = mmax]

lemma gbox_merge_bounds:
  assumes "FLAGS_GET_ZM (gb_flags b) = FLAGS_GET_ZM (gb_flags b')"
  obtains b'' where "gbox_merge b' b = Some b''" and "gb_flags b'' = gb_flags b"
    and "xmin b'' = (if dbl_lt (xmin b') (xmin b) then xmin b' else xmin b)"
    and "xmax b'' = (if dbl_lt (xmax b) (xmax b') then xmax b' else xmax b)"
    and "ymin b'' = (if dbl_lt (ymin b') (ymin b) then ymin b' else ymin b)"
    and "ymax b'' = (if dbl_lt (ymax b) (ymax b') then ymax b' else ymax b)"
    and "bit (gb_flags b) 0 \<Longrightarrow> zmin b'' = (if dbl_lt (zmin b') (zmin b) then zmin b' else zmin b)"
    and "bit (gb_flags b) 0 \<Longrightarrow> zmax b'' = (if dbl_lt (zmax b) (zmax b') then zmax b' else zmax b)"
    and "bit (gb_flags b) 1 \<Longrightarrow> mmin b'' = (if dbl_lt (mmin b') (mmin b) then mmin b' else mmin b)"
    and "bit (gb_flags b) 1 \<Longrightarrow> mmax b'' = (if dbl_lt (mmax b) (mmax b') then mmax b' else mmax b)"
proof -
  have "gbox_merge b' b \<noteq> None" using assms by (simp add: gbox_merge_def Let_def)
  then obtain b'' where "gbox_merge b' b = Some b''" by blast
  moreover from this have "b'' = the (gbox_merge b' b)" by simp
  then have
    "gb_flags b'' = gb_flags b \<and>
     xmin b'' = (if dbl_lt (xmin b') (xmin b) then xmin b' else xmin b) \<and>
     xmax b'' = (if dbl_lt (xmax b) (xmax b') then xmax b' else xmax b) \<and>
     ymin b'' = (if dbl_lt (ymin b') (ymin b) then ymin b' else ymin b) \<and>
     ymax b'' = (if dbl_lt (ymax b) (ymax b') then ymax b' else ymax b) \<and>
     (bit (gb_flags b) 0 \<longrightarrow> zmin b'' = (if dbl_lt (zmin b') (zmin b) then zmin b' else zmin b) \<and>
       zmax b'' = (if dbl_lt (zmax b) (zmax b') then zmax b' else zmax b)) \<and>
     (bit (gb_flags b) 1 \<longrightarrow> mmin b'' = (if dbl_lt (mmin b') (mmin b) then mmin b' else mmin b) \<and>
       mmax b'' = (if dbl_lt (mmax b) (mmax b') then mmax b' else mmax b))"
    by (cases "bit (gb_flags b) 0"; cases "bit (gb_flags b) 1"; cases "bit (gb_flags b) 3")
      (simp_all add: gbox_merge_def assms Let_def flags_simps move_simps split del: if_split cong: if_cong)
  ultimately show ?thesis using that by auto
qed

lemma is_box_merge:
  assumes b: "is_box zm b ps" and b': "is_box zm b' ps'"
  shows "\<exists>b''. gbox_merge b' b = Some b'' \<and> is_box zm b'' (ps @ ps')"
proof -
  have f: "gb_flags b = lwflags (fst zm) (snd zm) False" "gb_flags b' = lwflags (fst zm) (snd zm) False"
    using b b' by (simp_all add: is_box_def)
  then have "FLAGS_GET_ZM (gb_flags b) = FLAGS_GET_ZM (gb_flags b')" by simp
  then obtain b'' where m: "gbox_merge b' b = Some b''" "gb_flags b'' = gb_flags b"
    "xmin b'' = (if dbl_lt (xmin b') (xmin b) then xmin b' else xmin b)"
    "xmax b'' = (if dbl_lt (xmax b) (xmax b') then xmax b' else xmax b)"
    "ymin b'' = (if dbl_lt (ymin b') (ymin b) then ymin b' else ymin b)"
    "ymax b'' = (if dbl_lt (ymax b) (ymax b') then ymax b' else ymax b)"
    "fst zm \<Longrightarrow> zmin b'' = (if dbl_lt (zmin b') (zmin b) then zmin b' else zmin b)"
    "fst zm \<Longrightarrow> zmax b'' = (if dbl_lt (zmax b) (zmax b') then zmax b' else zmax b)"
    "snd zm \<Longrightarrow> mmin b'' = (if dbl_lt (mmin b') (mmin b) then mmin b' else mmin b)"
    "snd zm \<Longrightarrow> mmax b'' = (if dbl_lt (mmax b) (mmax b') then mmax b' else mmax b)"
    by (rule gbox_merge_bounds) (simp add: f bit_lwflags)
  have "is_box zm b'' (ps @ ps')"
    unfolding is_box_def map_append m(2-6)
    by (intro conjI impI; (simp only: m f)?; rule is_range_append) (use b b' in \<open>simp_all add: is_box_def\<close>)
  with m(1) show ?thesis by blast
qed

section \<open>The box of a point array covers its points\<close>

lemma fold_keeps: "(\<And>i b. g (f i b) = g b) \<Longrightarrow> g (fold f xs b) = g b"
  by (induction xs arbitrary: b) simp_all

lemma range_of_fold:
  assumes lo: "\<And>i b. lo (f i b) = FP_MIN (lo b) (col i)" and hi: "\<And>i b. hi (f i b) = FP_MAX (hi b) (col i)"
    and init: "lo b = col 0" "hi b = col 0" and n: "1 \<le> n" and nan: "\<And>i. i < n \<Longrightarrow> \<not> isnan (col i)"
  shows "is_range (lo (fold f [1..<n] b)) (hi (fold f [1..<n] b)) (map col [0..<n])"
proof -
  let ?P = "\<lambda>i b. is_range (lo b) (hi b) (map col [0..<i])"
  have "?P 1 b" using init nan[of 0] n by (simp add: is_range_single)
  moreover have "?P (Suc i) (f i b)" if "i < n" "?P i b" for i b
    using is_range_step[OF that(2) nan[OF that(1)]] by (simp add: lo hi)
  ultimately show ?thesis using n by (intro fold_upt_invariant[where P = ?P])
qed

lemma col_of_points:
  assumes "pa_wf pa" and "k < pa_ndims pa"
  shows "map (\<lambda>p. p ! k) (pa_points pa) = map (\<lambda>i. getPoint_internal pa i ! k) [0..<unat (npoints pa)]"
proof (rule nth_equalityI)
  fix i assume "i < length (map (\<lambda>p. p ! k) (pa_points pa))"
  then have "i < unat (npoints pa)" by simp
  moreover from this have "pa_points pa ! i ! k = getPoint_internal pa i ! k"
    using getPoint_internal_nth[OF assms(1), of i, symmetric] assms(2) by simp
  ultimately show "map (\<lambda>p. p ! k) (pa_points pa) ! i = map (\<lambda>i. getPoint_internal pa i ! k) [0..<unat (npoints pa)] ! i"
    by simp
qed simp

lemma col_not_nan:
  assumes "pa_plain zm pa" and "i < unat (npoints pa)" and "k < pa_ndims pa"
  shows "\<not> isnan (getPoint_internal pa i ! k)"
proof -
  have wf: "pa_wf pa" and nn: "\<And>d. d \<in> set (serialized_pointlist pa) \<Longrightarrow> \<not> isnan d"
    using assms by (auto simp: pa_plain_def list_all_iff)
  have "Suc i * pa_ndims pa \<le> unat (npoints pa) * pa_ndims pa"
    using assms(2) by (intro mult_le_mono1) simp
  then have "pa_ndims pa * i + k < length (serialized_pointlist pa)"
    using wf assms(3) by (simp add: pa_wf_def mult.commute)
  then show ?thesis by (simp add: getPoint_internal_def nn)
qed

lemma ptarray_box:
  assumes pa: "pa_plain zm pa" and n: "npoints pa \<noteq> 0"
  shows "\<exists>b. ptarray_calculate_gbox_cartesian pa gbox = Some b \<and> is_box zm b (pa_points pa)"
proof -
  have wf: "pa_wf pa" and f: "bit (pa_flags pa) 0 = fst zm" "bit (pa_flags pa) (Suc 0) = snd zm"
    using pa by (simp_all add: pa_plain_def)
  have n1: "1 \<le> unat (npoints pa)" using n by (simp add: Suc_le_eq unat_gt_0)
  have nd: "pa_ndims pa = 2 + of_bool (fst zm) + of_bool (snd zm)" by (simp add: FLAGS_NDIMS_bits f)
  note nan = col_not_nan[OF pa]
  note col = col_of_points[OF wf]
  let ?c = "\<lambda>k i. getPoint_internal pa i ! k"
  note r0 = range_of_fold[unfolded One_nat_def, where lo = xmin and hi = xmax and col = "?c 0", OF _ _ _ _ n1[unfolded One_nat_def]]
    range_of_fold[unfolded One_nat_def, where lo = ymin and hi = ymax and col = "?c (Suc 0)", OF _ _ _ _ n1[unfolded One_nat_def]]
  note r1 = range_of_fold[unfolded One_nat_def, where lo = zmin and hi = zmax and col = "?c 2", OF _ _ _ _ n1[unfolded One_nat_def]]
  note r2 = range_of_fold[unfolded One_nat_def, where lo = mmin and hi = mmax and col = "?c 3", OF _ _ _ _ n1[unfolded One_nat_def]]
  note keep = fold_keeps[where g = gb_flags]
  have "is_box zm (the (ptarray_calculate_gbox_cartesian pa gbox)) (pa_points pa)"
    using nd by (cases "fst zm"; cases "snd zm")
      (simp_all add: ptarray_calculate_gbox_cartesian_def n flags_simps f is_box_def ptarray_calculate_gbox_cartesian_2d_def
        ptarray_calculate_gbox_cartesian_3d_def ptarray_calculate_gbox_cartesian_4d_def Let_def r0 r1 r2 keep col nan)
  moreover have "ptarray_calculate_gbox_cartesian pa gbox \<noteq> None"
    by (simp add: ptarray_calculate_gbox_cartesian_def n Let_def)
  ultimately show ?thesis by auto
qed

section \<open>The box of a geometry covers its points\<close>

text \<open>The points that the box is made of: of a polygon, those of its first ring.\<close>

fun box_points :: "lwgeom \<Rightarrow> dbl list list" where
  "box_points (LwPoint _ pa) = pa_points pa"
| "box_points (LwLine _ pa) = pa_points pa"
| "box_points (LwTriangle _ pa) = pa_points pa"
| "box_points (LwPoly _ rings) = (case rings of [] \<Rightarrow> [] | ring # _ \<Rightarrow> pa_points ring)"
| "box_points (LwColl _ _ gs) = concat (map box_points gs)"
| "box_points _ = []"

text \<open>Geometries without curves whose arrays are all of dimensions \<open>zm\<close> and hold no NaN.\<close>

fun plain_geom :: "bool \<times> bool \<Rightarrow> lwgeom \<Rightarrow> bool" where
  "plain_geom zm (LwPoint _ pa) = pa_plain zm pa"
| "plain_geom zm (LwLine _ pa) = pa_plain zm pa"
| "plain_geom zm (LwTriangle _ pa) = pa_plain zm pa"
| "plain_geom zm (LwPoly _ rings) = list_all (pa_plain zm) rings"
| "plain_geom zm (LwColl _ _ gs) = list_all (plain_geom zm) gs"
| "plain_geom zm _ = False"

definition boxed :: "bool \<times> bool \<Rightarrow> gbox option \<Rightarrow> dbl list list \<Rightarrow> bool" where
  "boxed zm r ps \<longleftrightarrow> (case r of None \<Rightarrow> ps = [] | Some b \<Rightarrow> is_box zm b ps)"

lemma boxed_simps [simp]: "boxed zm None ps \<longleftrightarrow> ps = []" "boxed zm (Some b) ps \<longleftrightarrow> is_box zm b ps"
  by (simp_all add: boxed_def)

lemma is_box_nonempty: "is_box zm b ps \<Longrightarrow> ps \<noteq> []"
  by (auto simp: is_box_def is_range_def)

lemma ptarray_boxed: "pa_plain zm pa \<Longrightarrow> boxed zm (ptarray_calculate_gbox_cartesian pa gbox) (pa_points pa)"
  using ptarray_box[of zm pa gbox]
  by (cases "npoints pa = 0") (auto simp: ptarray_calculate_gbox_cartesian_def pa_points_def)

lemma collection_gbox_step_boxed:
  "is_box zm b ps' \<Longrightarrow> boxed zm acc ps \<Longrightarrow> boxed zm (collection_gbox_step b acc) (ps @ ps')"
  using is_box_merge[of zm _ ps b ps'] by (cases acc) (fastforce simp: collection_gbox_step_def)+

lemma geom_boxed:
  "plain_geom zm g \<Longrightarrow> boxed zm (lwgeom_calculate_gbox_cartesian cv g gbox) (box_points g)"
  "list_all (plain_geom zm) gs \<Longrightarrow> boxed zm acc ps \<Longrightarrow>
   boxed zm (lwcollection_gbox_loop cv gs subbox acc) (ps @ concat (map box_points gs))"
proof (induction cv g gbox and cv gs subbox acc arbitrary: and ps
    rule: lwgeom_calculate_gbox_cartesian_lwcollection_gbox_loop.induct)
  case (4 cv h rings gbox)
  then show ?case by (cases rings) (simp_all add: lwpoly_calculate_gbox_cartesian_def ptarray_boxed)
next
  case (8 cv ty h gs gbox)
  then show ?case using 8(1)[of "[]"] by simp
next
  case (10 cv g gs subbox acc)
  show ?case
  proof (cases "lwgeom_calculate_gbox_cartesian cv g subbox")
    case None
    then show ?thesis using 10 by simp
  next
    case (Some b)
    then have "is_box zm b (box_points g)" using 10 by simp
    then have "boxed zm (collection_gbox_step b acc) (ps @ box_points g)"
      using 10 by (intro collection_gbox_step_boxed) simp_all
    then show ?thesis using 10 Some by fastforce
  qed
qed (simp_all add: lwpoint_calculate_gbox_cartesian_def lwline_calculate_gbox_cartesian_def
  lwtriangle_calculate_gbox_cartesian_def ptarray_boxed)

section \<open>Boxes rounded to floats\<close>

lemma next_float_fin:
  assumes "\<not> isnan d"
  shows "flt_fin (next_float_down d) \<and> flt_fin (next_float_up d)"
proof -
  have c: "flt_fin FLT_MAX" "flt_fin NEG_FLT_MAX" by (simp_all add: flt_fin_def flt_consts)
  have nn: "\<not> isnan (dbl_of_flt FLT_MAX)" "\<not> isnan (dbl_of_flt NEG_FLT_MAX)"
    using c dbl_of_flt_parts by blast+
  have "flt_fin (next_float_down d)"
    using next_float_down_key[OF assms] c assms nn
    by (cases "dbl_le (dbl_of_flt NEG_FLT_MAX) d") (auto simp: next_float_down_def dbl_le_def dbl_lt_def)
  moreover have "flt_fin (next_float_up d)"
    using next_float_up_key[OF assms] c assms nn
    by (cases "dbl_le d (dbl_of_flt FLT_MAX)") (auto simp: next_float_up_def dbl_le_def dbl_lt_def)
  ultimately show ?thesis by blast
qed

lemma round_le:
  assumes "dbl_le d e"
  shows "dbl_le (round_down d) (round_up e)"
proof -
  have nan: "\<not> isnan d" "\<not> isnan e" and de: "dbl_key d \<le> dbl_key e" using assms by (simp_all add: dbl_le_def)
  have fin: "flt_fin (next_float_down d)" "flt_fin (next_float_up e)" using next_float_fin nan by blast+
  have c: "flt_fin FLT_MAX" "flt_fin NEG_FLT_MAX" by (simp_all add: flt_fin_def flt_consts)
  have ck: "flt_key FLT_MAX = int MAXM" "flt_key NEG_FLT_MAX = - int MAXM" by (simp_all add: flt_key_def flt_consts)
  have mono: "widen_key a \<le> widen_key b" if "a \<le> b" "\<bar>a\<bar> \<le> int MAXM" "\<bar>b\<bar> \<le> int MAXM" for a b
    using widen_key_less_iff[of b a] that by (simp add: not_less[symmetric])
  have "widen_key (flt_key (next_float_down d)) \<le> widen_key (flt_key (next_float_up e))"
  proof (cases "dbl_le (dbl_of_flt NEG_FLT_MAX) d \<and> dbl_le e (dbl_of_flt FLT_MAX)")
    case True
    then show ?thesis using next_float_down_key[OF nan(1)] next_float_up_key[OF nan(2)] de by linarith
  next
    case False
    have "next_float_down d = NEG_FLT_MAX" if "\<not> dbl_le (dbl_of_flt NEG_FLT_MAX) d"
      using that nan dbl_of_flt_parts[OF c(2)] dbl_of_flt_parts[OF c(1)] ck mono[of "- int MAXM" "int MAXM"]
      by (simp add: next_float_down_def dbl_le_def dbl_lt_def)
    moreover have "next_float_up e = FLT_MAX" if "\<not> dbl_le e (dbl_of_flt FLT_MAX)"
      using that nan dbl_of_flt_parts[OF c(1)] by (simp add: next_float_up_def dbl_le_def)
    ultimately show ?thesis using False fin ck
      by (intro mono) (auto simp: flt_fin_key)
  qed
  then show ?thesis using fin by (simp add: round_down_def round_up_def dbl_le_def dbl_of_flt_parts)
qed

lemma dbl_lt_le: "dbl_le a b \<Longrightarrow> \<not> dbl_lt b a"
  by (simp add: dbl_le_def dbl_lt_def)

lemma round_not_lt: "\<not> isnan d \<Longrightarrow> \<not> isnan e \<Longrightarrow> \<not> dbl_lt e d \<Longrightarrow> \<not> dbl_lt (round_up e) (round_down d)"
  using round_le[of d e] by (simp add: dbl_lt_iff_not_le dbl_lt_le)

lemma gbox_float_round_bounds:
  "gb_flags (gbox_float_round b) = gb_flags b"
  "xmin (gbox_float_round b) = round_down (xmin b)" "xmax (gbox_float_round b) = round_up (xmax b)"
  "ymin (gbox_float_round b) = round_down (ymin b)" "ymax (gbox_float_round b) = round_up (ymax b)"
  "zmin (gbox_float_round b) = (if bit (gb_flags b) 0 then round_down (zmin b) else zmin b)"
  "zmax (gbox_float_round b) = (if bit (gb_flags b) 0 then round_up (zmax b) else zmax b)"
  "mmin (gbox_float_round b) = (if bit (gb_flags b) 1 then round_down (mmin b) else mmin b)"
  "mmax (gbox_float_round b) = (if bit (gb_flags b) 1 then round_up (mmax b) else mmax b)"
  by (simp_all add: gbox_float_round_def Let_def flags_simps)

section \<open>Properties\<close>



definition box_line_example :: "dbl list \<Rightarrow> lwgeom" where
  "box_line_example ds = LwLine \<lparr>g_bbox = None, g_srid = 4326, g_flags = 1\<rparr>
     \<lparr>npoints = 2, maxpoints = 2, pa_flags = 1, serialized_pointlist = ds\<rparr>"

definition box_example :: lwgeom where
  "box_example = LwColl COLLECTIONTYPE \<lparr>g_bbox = None, g_srid = 4326, g_flags = 1\<rparr>
     [box_line_example [0x3FF0000000000000, 0x4000000000000000, 0, 0x4008000000000000, 0, 0],
      LwPoint \<lparr>g_bbox = None, g_srid = 4326, g_flags = 1\<rparr>
        \<lparr>npoints = 1, maxpoints = 1, pa_flags = 1, serialized_pointlist = [0, 0x4010000000000000, 0x3FF0000000000000]\<rparr>]"

definition no_curves :: curve_ops where
  "no_curves = \<lparr>arc_box_2d = \<lambda>a b c. (a, c), ellipse_line = el_points, bezier_line = \<lambda>pa. pa\<rparr>"

lemma FLAGS_NDIMS_1: "FLAGS_NDIMS 1 = 3"
  by (simp add: FLAGS_NDIMS_def FLAGS_GET_Z_def FLAGS_GET_M_def)

lemma chunks_2: "chunks n 2 xs = [take n xs, take n (drop n xs)]"
  by (simp add: numeral_2_eq_2)

lemma box_line_plain:
  "plain_geom (True, False) (box_line_example [a, b, c, d, e, f]) \<longleftrightarrow> list_all (\<lambda>d. \<not> isnan d) [a, b, c, d, e, f]"
  by (simp add: box_line_example_def pa_plain_def pa_wf_def FLAGS_NDIMS_1)

lemma example_not_nan:
  "\<not> isnan 0" "\<not> isnan 0x3FF0000000000000" "\<not> isnan 0x4000000000000000" "\<not> isnan 0x4008000000000000" "\<not> isnan 0x4010000000000000"
  by (simp_all add: isnan_def dbl_mag_def)



text \<open>
  The comparison of two boxes as floats ignores their lower bounds: it compares the rounded minimum of
  one box with itself.
\<close>

lemma gbox_same_2d_float_ignores_minima:
  assumes "gbox_is_valid g1" and "gbox_is_valid g2"
  shows "gbox_same_2d_float g1 g2 \<longleftrightarrow>
    (dbl_eq (xmax g1) (xmax g2) \<or> flt_eq (next_float_up (xmax g1)) (next_float_up (xmax g2))) \<and>
    (dbl_eq (ymax g1) (ymax g2) \<or> flt_eq (next_float_up (ymax g1)) (next_float_up (ymax g2)))"
proof -
  have "\<not> isnan (xmin g1)" "\<not> isnan (ymin g2)" using assms by (auto simp: gbox_is_valid_def split: if_splits)
  then have "flt_eq (next_float_down (xmin g1)) (next_float_down (xmin g1))"
    "flt_eq (next_float_down (ymin g2)) (next_float_down (ymin g2))"
    using next_float_fin flt_fin_not_nan by (auto simp: flt_eq_def)
  then show ?thesis by (simp add: gbox_same_2d_float_def)
qed

end
