(* ===== verification/LwGeomOps.thy ===== *)
theory LwGeomOps
  imports Gbox
begin

text \<open>
  The operations on whole geometries of liblwgeom/lwgeom.c and the functions of lwpoint.c, lwline.c,
  lwpoly.c, lwcollection.c, lwcompound.c and lwcurvepoly.c that they dispatch to. An operation that changes
  a geometry in place returns the geometry after the call; a type that its \<open>switch\<close> does not list is an
  error.
\<close>

section \<open>Headers\<close>

fun map_hdr :: "(lwhdr \<Rightarrow> lwhdr) \<Rightarrow> lwgeom \<Rightarrow> lwgeom" where
  "map_hdr f (LwPoint h pa) = LwPoint (f h) pa"
| "map_hdr f (LwLine h pa) = LwLine (f h) pa"
| "map_hdr f (LwCircString h pa) = LwCircString (f h) pa"
| "map_hdr f (LwTriangle h pa) = LwTriangle (f h) pa"
| "map_hdr f (LwPoly h rings) = LwPoly (f h) rings"
| "map_hdr f (LwEllipse h e) = LwEllipse (f h) e"
| "map_hdr f (LwBezier h pa) = LwBezier (f h) pa"
| "map_hdr f (LwColl ty h gs) = LwColl ty (f h) gs"

definition lwgeom_drop_srid :: "lwgeom \<Rightarrow> lwgeom" where
  "lwgeom_drop_srid g = map_hdr (\<lambda>h. h\<lparr>g_srid := SRID_UNKNOWN\<rparr>) g"

fun lwgeom_set_srid :: "i32 \<Rightarrow> lwgeom \<Rightarrow> lwgeom" where
  "lwgeom_set_srid srid (LwColl ty h gs) = LwColl ty (h\<lparr>g_srid := srid\<rparr>) (map (lwgeom_set_srid srid) gs)"
| "lwgeom_set_srid srid g = map_hdr (\<lambda>h. h\<lparr>g_srid := srid\<rparr>) g"

section \<open>Boxes of geometries\<close>

text \<open>\<open>geo\<close> stands for \<open>lwgeom_calculate_gbox_geodetic\<close>, a floating-point computation on the sphere.\<close>

definition lwgeom_calculate_gbox ::
  "curve_ops \<Rightarrow> (lwgeom \<Rightarrow> gbox \<Rightarrow> gbox option) \<Rightarrow> lwgeom \<Rightarrow> gbox \<Rightarrow> gbox option" where
  "lwgeom_calculate_gbox cv geo g gbox =
     (let gbox = gbox\<lparr>gb_flags := g_flags (g_hdr g)\<rparr>
      in if FLAGS_GET_GEODETIC (g_flags (g_hdr g)) \<noteq> 0 then geo g gbox
         else lwgeom_calculate_gbox_cartesian cv g gbox)"

definition lwgeom_drop_bbox :: "lwgeom \<Rightarrow> lwgeom" where
  "lwgeom_drop_bbox g = map_hdr (\<lambda>h. h\<lparr>g_bbox := None, g_flags := FLAGS_SET_BBOX (g_flags h) False\<rparr>) g"

definition lwgeom_add_bbox ::
  "curve_ops \<Rightarrow> (lwgeom \<Rightarrow> gbox \<Rightarrow> gbox option) \<Rightarrow> lwgeom \<Rightarrow> lwgeom" where
  "lwgeom_add_bbox cv geo g =
     (if lwgeom_is_empty g then g
      else if g_bbox (g_hdr g) \<noteq> None then g
      else
        let g = map_hdr (\<lambda>h. h\<lparr>g_flags := FLAGS_SET_BBOX (g_flags h) True\<rparr>) g;
            gbox = gbox_new (g_flags (g_hdr g));
            gbox = (case lwgeom_calculate_gbox cv geo g gbox of None \<Rightarrow> gbox | Some b \<Rightarrow> b)
        in map_hdr (\<lambda>h. h\<lparr>g_bbox := Some gbox\<rparr>) g)"

definition lwgeom_refresh_bbox ::
  "curve_ops \<Rightarrow> (lwgeom \<Rightarrow> gbox \<Rightarrow> gbox option) \<Rightarrow> lwgeom \<Rightarrow> lwgeom" where
  "lwgeom_refresh_bbox cv geo g = lwgeom_add_bbox cv geo (lwgeom_drop_bbox g)"

definition lwgeom_get_bbox ::
  "curve_ops \<Rightarrow> (lwgeom \<Rightarrow> gbox \<Rightarrow> gbox option) \<Rightarrow> lwgeom \<Rightarrow> gbox option" where
  "lwgeom_get_bbox cv geo g = g_bbox (g_hdr (lwgeom_add_bbox cv geo g))"

text \<open>The part of \<open>lwgeom_add_bbox_deep\<close> before the members: a box of its own or a copy of the one given.\<close>

definition add_bbox_top ::
  "curve_ops \<Rightarrow> (lwgeom \<Rightarrow> gbox \<Rightarrow> gbox option) \<Rightarrow> gbox option \<Rightarrow> lwgeom \<Rightarrow> lwhdr" where
  "add_bbox_top cv geo gbox g =
     (let h = (g_hdr g)\<lparr>g_flags := FLAGS_SET_BBOX (g_flags (g_hdr g)) True\<rparr>
      in case (gbox, g_bbox h) of
           (None, None) \<Rightarrow>
             let b = gbox_new (g_flags h)
             in h\<lparr>g_bbox := Some (case lwgeom_calculate_gbox cv geo (map_hdr (\<lambda>_. h\<lparr>g_bbox := Some b\<rparr>) g) b of
                    None \<Rightarrow> b | Some b \<Rightarrow> b)\<rparr>
         | (Some b, None) \<Rightarrow> h\<lparr>g_bbox := Some b\<rparr>
         | _ \<Rightarrow> h)"

fun lwgeom_add_bbox_deep ::
  "curve_ops \<Rightarrow> (lwgeom \<Rightarrow> gbox \<Rightarrow> gbox option) \<Rightarrow> gbox option \<Rightarrow> lwgeom \<Rightarrow> lwgeom" where
  "lwgeom_add_bbox_deep cv geo gbox (LwColl ty h gs) =
     (if lwgeom_is_empty (LwColl ty h gs) then LwColl ty h gs
      else let h = add_bbox_top cv geo gbox (LwColl ty h gs)
        in LwColl ty h (map (lwgeom_add_bbox_deep cv geo (g_bbox h)) gs))"
| "lwgeom_add_bbox_deep cv geo gbox g =
     (if lwgeom_is_empty g then g else map_hdr (\<lambda>_. add_bbox_top cv geo gbox g) g)"

section \<open>Copies\<close>

text \<open>A shallow copy of a point array is read-only; a type of curve that has no copy function is an error.\<close>

fun lwgeom_clone :: "lwgeom \<Rightarrow> lwgeom res" where
  "lwgeom_clone (LwPoint h pa) = Inr (LwPoint h (ptarray_clone pa))"
| "lwgeom_clone (LwLine h pa) = Inr (LwLine h (ptarray_clone pa))"
| "lwgeom_clone (LwCircString h pa) = Inr (LwCircString h (ptarray_clone pa))"
| "lwgeom_clone (LwTriangle h pa) = Inr (LwTriangle h (ptarray_clone pa))"
| "lwgeom_clone (LwPoly h rings) = Inr (LwPoly h (map ptarray_clone rings))"
| "lwgeom_clone (LwEllipse h e) = Inl (LwError ''lwgeom_clone: Unknown geometry type: %s'')"
| "lwgeom_clone (LwBezier h pa) = Inl (LwError ''lwgeom_clone: Unknown geometry type: %s'')"
| "lwgeom_clone (LwColl ty h gs) =
     (if gs = [] then Inr (LwColl ty (h\<lparr>g_bbox := None\<rparr>) [])
      else rbind (map_res lwgeom_clone gs) (\<lambda>gs. Inr (LwColl ty h gs)))"

definition clear_readonly :: "lwhdr \<Rightarrow> lwhdr" where
  "clear_readonly h = h\<lparr>g_flags := FLAGS_SET_READONLY (g_flags h) False\<rparr>"

fun lwgeom_clone_deep :: "lwgeom \<Rightarrow> lwgeom res" where
  "lwgeom_clone_deep (LwPoint h pa) = Inr (LwPoint (clear_readonly h) (ptarray_clone_deep pa))"
| "lwgeom_clone_deep (LwLine h pa) = Inr (LwLine (clear_readonly h) (ptarray_clone_deep pa))"
| "lwgeom_clone_deep (LwCircString h pa) = Inr (LwCircString (clear_readonly h) (ptarray_clone_deep pa))"
| "lwgeom_clone_deep (LwTriangle h pa) = Inr (LwTriangle (clear_readonly h) (ptarray_clone_deep pa))"
| "lwgeom_clone_deep (LwPoly h rings) = Inr (LwPoly (clear_readonly h) (map ptarray_clone_deep rings))"
| "lwgeom_clone_deep (LwEllipse h e) = Inl (LwError ''lwgeom_clone_deep: Unknown geometry type: %s'')"
| "lwgeom_clone_deep (LwBezier h pa) = Inl (LwError ''lwgeom_clone_deep: Unknown geometry type: %s'')"
| "lwgeom_clone_deep (LwColl ty h gs) =
     (if gs = [] then Inr (LwColl ty (h\<lparr>g_bbox := None\<rparr>) [])
      else rbind (map_res lwgeom_clone_deep gs) (\<lambda>gs. Inr (LwColl ty h gs)))"

section \<open>Reversal\<close>

fun lwgeom_reverse_in_place :: "lwgeom \<Rightarrow> lwgeom res" where
  "lwgeom_reverse_in_place (LwPoint h pa) = Inr (LwPoint h pa)"
| "lwgeom_reverse_in_place (LwLine h pa) = Inr (LwLine h (ptarray_reverse_in_place pa))"
| "lwgeom_reverse_in_place (LwCircString h pa) = Inr (LwCircString h (ptarray_reverse_in_place pa))"
| "lwgeom_reverse_in_place (LwTriangle h pa) = Inr (LwTriangle h (ptarray_reverse_in_place pa))"
| "lwgeom_reverse_in_place (LwPoly h rings) = Inr (LwPoly h (map ptarray_reverse_in_place rings))"
| "lwgeom_reverse_in_place (LwEllipse h e) = Inl (LwError ''%s: Unknown geometry type: %s'')"
| "lwgeom_reverse_in_place (LwBezier h pa) = Inl (LwError ''%s: Unknown geometry type: %s'')"
| "lwgeom_reverse_in_place (LwColl ty h gs) =
     (if ty = MULTIPOINTTYPE then Inr (LwColl ty h gs)
      else rbind (map_res lwgeom_reverse_in_place gs) (\<lambda>gs. Inr (LwColl ty h gs)))"

definition lwgeom_reverse :: "lwgeom \<Rightarrow> lwgeom res" where
  "lwgeom_reverse geom = rbind (lwgeom_clone_deep geom) lwgeom_reverse_in_place"

section \<open>Promotion\<close>

text \<open>\<open>lwtype\<close> indexes the table, which has an entry for every type.\<close>

definition lwgeom_as_multi :: "lwgeom \<Rightarrow> lwgeom res" where
  "lwgeom_as_multi g =
     (let mt = MULTITYPE ! unat (lwgeom_get_type g); fl = g_flags (g_hdr g); srid = g_srid (g_hdr g)
      in if mt = 0 then lwgeom_clone g
         else if lwgeom_is_empty g
         then lwcollection_construct_empty mt srid (FLAGS_GET_Z fl \<noteq> 0) (FLAGS_GET_M fl \<noteq> 0)
         else rbind (lwgeom_clone g) (\<lambda>o0.
           let box = g_bbox (g_hdr o0);
               o0 = map_hdr (\<lambda>h. h\<lparr>g_bbox := None, g_srid := SRID_UNKNOWN\<rparr>) o0
           in lwcollection_construct mt srid box [o0]))"

definition lwcompound_construct_from_lwline :: "lwhdr \<Rightarrow> ptarray \<Rightarrow> lwgeom res" where
  "lwcompound_construct_from_lwline h pa =
     rbind (lwcollection_construct_empty COMPOUNDTYPE (g_srid h) (FLAGS_GET_Z (g_flags h) \<noteq> 0) (FLAGS_GET_M (g_flags h) \<noteq> 0)) (\<lambda>ogeom.
     rbind (lwgeom_clone (LwLine h pa)) (\<lambda>line.
     rbind (lwcollection_add_lwgeom COMPOUNDTYPE [] line) (\<lambda>gs. Inr (LwColl COMPOUNDTYPE (g_hdr ogeom) gs))))"

definition lwcurvepoly_construct_from_lwpoly :: "lwhdr \<Rightarrow> ptarray list \<Rightarrow> lwgeom" where
  "lwcurvepoly_construct_from_lwpoly h rings =
     LwColl CURVEPOLYTYPE h (map (\<lambda>pa. lwline_construct (g_srid h) None (ptarray_clone_deep pa)) rings)"

text \<open>The clone of a collection that gets another type code.\<close>

definition lwgeom_as_curve :: "lwgeom \<Rightarrow> lwgeom res" where
  "lwgeom_as_curve g =
     (case g of
        LwLine h pa \<Rightarrow> lwcompound_construct_from_lwline h pa
      | LwPoly h rings \<Rightarrow> Inr (lwcurvepoly_construct_from_lwpoly h rings)
      | _ \<Rightarrow> rbind (lwgeom_clone g) (\<lambda>ogeom.
          Inr (case ogeom of
                 LwColl ty h gs \<Rightarrow>
                   LwColl (if ty = MULTILINETYPE then MULTICURVETYPE
                           else if ty = MULTIPOLYGONTYPE then MULTISURFACETYPE else ty) h gs
               | _ \<Rightarrow> ogeom)))"

definition lwgeom_construct_empty :: "u8 \<Rightarrow> i32 \<Rightarrow> bool \<Rightarrow> bool \<Rightarrow> lwgeom res" where
  "lwgeom_construct_empty type srid hasz hasm =
     (if type = POINTTYPE then Inr (lwpoint_construct_empty srid hasz hasm)
      else if type = LINETYPE then Inr (lwline_construct_empty srid hasz hasm)
      else if type = POLYGONTYPE then Inr (lwpoly_construct_empty srid hasz hasm)
      else if type = CURVEPOLYTYPE then Inr (lwcurvepoly_construct_empty srid hasz hasm)
      else if type = CIRCSTRINGTYPE then Inr (lwcircstring_construct_empty srid hasz hasm)
      else if type = TRIANGLETYPE then Inr (lwtriangle_construct_empty srid hasz hasm)
      else if type \<in> {COMPOUNDTYPE, MULTIPOINTTYPE, MULTILINETYPE, MULTIPOLYGONTYPE, COLLECTIONTYPE}
      then lwcollection_construct_empty type srid hasz hasm
      else Inl (LwError ''lwgeom_construct_empty: unsupported geometry type: %s''))"

section \<open>Comparison\<close>

text \<open>The test of type-independent parts; \<open>True\<close> when the geometries may still be the same.\<close>

definition same_header :: "lwgeom \<Rightarrow> lwgeom \<Rightarrow> bool" where
  "same_header g1 g2 \<longleftrightarrow>
     lwgeom_get_type g1 = lwgeom_get_type g2 \<and>
     FLAGS_GET_ZM (g_flags (g_hdr g1)) = FLAGS_GET_ZM (g_flags (g_hdr g2)) \<and>
     (case (g_bbox (g_hdr g1), g_bbox (g_hdr g2)) of (Some b1, Some b2) \<Rightarrow> gbox_same b1 b2 | _ \<Rightarrow> True)"

text \<open>All comparisons until the first that fails.\<close>

primrec all_res :: "('a \<Rightarrow> bool res) \<Rightarrow> 'a list \<Rightarrow> bool res" where
  "all_res f [] = Inr True"
| "all_res f (x # xs) = rbind (f x) (\<lambda>b. if b then all_res f xs else Inr False)"

lemma all_res_cong [fundef_cong]:
  "xs = ys \<Longrightarrow> (\<And>x. x \<in> set ys \<Longrightarrow> f x = g x) \<Longrightarrow> all_res f xs = all_res g ys"
  by (induction ys arbitrary: xs) (auto intro!: rbind_cong)

function lwgeom_same :: "lwgeom \<Rightarrow> lwgeom \<Rightarrow> bool res" where
  "lwgeom_same g1 g2 =
     (if \<not> same_header g1 g2 then Inr False
      else case (g1, g2) of
          (LwPoint _ pa1, LwPoint _ pa2) \<Rightarrow> Inr (ptarray_same pa1 pa2)
        | (LwLine _ pa1, LwLine _ pa2) \<Rightarrow> Inr (ptarray_same pa1 pa2)
        | (LwPoly _ rs1, LwPoly _ rs2) \<Rightarrow>
            Inr (length rs1 = length rs2 \<and> list_all (\<lambda>(r1, r2). ptarray_same r1 r2) (zip rs1 rs2))
        | (LwTriangle _ pa1, LwTriangle _ pa2) \<Rightarrow> Inr (ptarray_same pa1 pa2)
        | (LwCircString _ pa1, LwCircString _ pa2) \<Rightarrow> Inr (ptarray_same pa1 pa2)
        | (LwColl ty1 _ gs1, LwColl ty2 _ gs2) \<Rightarrow>
            if ty1 \<noteq> ty2 then Inr False
            else if length gs1 \<noteq> length gs2 then Inr False
            else all_res (\<lambda>p. lwgeom_same (fst p) (snd p)) (zip gs1 gs2)
        | _ \<Rightarrow> Inl (LwError ''lwgeom_same: unsupported geometry type: %s''))"
  by pat_completeness auto

lemma size_in_zip: "(a, b) \<in> set (zip gs hs) \<Longrightarrow> size a < Suc (size_list size gs)"
  by (induction gs arbitrary: hs) (auto simp: zip_Cons1 split: list.splits, fastforce)

termination lwgeom_same
  by (relation "measure (\<lambda>(g1, g2). size g1)") (auto dest: size_in_zip)

section \<open>Dimensions\<close>

fun lwgeom_force_dims :: "bool \<Rightarrow> bool \<Rightarrow> dbl \<Rightarrow> dbl \<Rightarrow> lwgeom \<Rightarrow> lwgeom res" where
  "lwgeom_force_dims hasz hasm zval mval (LwPoint h pa) =
     (if lwline_is_empty pa then Inr (lwpoint_construct_empty (g_srid h) hasz hasm)
      else rbind (ptarray_force_dims pa hasz hasm zval mval) (\<lambda>pdims. Inr (lwpoint_construct (g_srid h) None pdims)))"
| "lwgeom_force_dims hasz hasm zval mval (LwLine h pa) =
     (if lwline_is_empty pa then Inr (lwline_construct_empty (g_srid h) hasz hasm)
      else rbind (ptarray_force_dims pa hasz hasm zval mval) (\<lambda>pdims. Inr (lwline_construct (g_srid h) None pdims)))"
| "lwgeom_force_dims hasz hasm zval mval (LwCircString h pa) =
     (if lwline_is_empty pa then Inr (lwcircstring_construct_empty (g_srid h) hasz hasm)
      else rbind (ptarray_force_dims pa hasz hasm zval mval) (\<lambda>pdims. Inr (lwcircstring_construct (g_srid h) None pdims)))"
| "lwgeom_force_dims hasz hasm zval mval (LwTriangle h pa) =
     (if lwline_is_empty pa then Inr (lwtriangle_construct_empty (g_srid h) hasz hasm)
      else rbind (ptarray_force_dims pa hasz hasm zval mval) (\<lambda>pdims. Inr (lwtriangle_construct (g_srid h) None pdims)))"
| "lwgeom_force_dims hasz hasm zval mval (LwPoly h rings) =
     (if lwpoly_is_empty rings then Inr (lwpoly_construct_empty (g_srid h) hasz hasm)
      else rbind (map_res (\<lambda>pa. ptarray_force_dims pa hasz hasm zval mval) rings) (\<lambda>rings.
        lwpoly_construct (g_srid h) None rings))"
| "lwgeom_force_dims hasz hasm zval mval (LwColl ty h gs) =
     (if list_all lwgeom_is_empty gs then lwcollection_construct_empty ty (g_srid h) hasz hasm
      else rbind (map_res (lwgeom_force_dims hasz hasm zval mval) gs) (\<lambda>gs.
        lwcollection_construct ty (g_srid h) None gs))"
| "lwgeom_force_dims hasz hasm zval mval _ = Inl (LwError ''lwgeom_force_2d: unsupported geom type: %s'')"

definition lwgeom_force_2d :: "lwgeom \<Rightarrow> lwgeom res" where
  "lwgeom_force_2d geom = lwgeom_force_dims False False 0 0 geom"

definition lwgeom_force_3dz :: "lwgeom \<Rightarrow> dbl \<Rightarrow> lwgeom res" where
  "lwgeom_force_3dz geom zval = lwgeom_force_dims True False zval 0 geom"

definition lwgeom_force_3dm :: "lwgeom \<Rightarrow> dbl \<Rightarrow> lwgeom res" where
  "lwgeom_force_3dm geom mval = lwgeom_force_dims False True 0 mval geom"

definition lwgeom_force_4d :: "lwgeom \<Rightarrow> dbl \<Rightarrow> dbl \<Rightarrow> lwgeom res" where
  "lwgeom_force_4d geom zval mval = lwgeom_force_dims True True zval mval geom"

definition set_geodetic_hdr :: "bool \<Rightarrow> lwhdr \<Rightarrow> lwhdr" where
  "set_geodetic_hdr v h =
     h\<lparr>g_flags := FLAGS_SET_GEODETIC (g_flags h) v,
       g_bbox := map_option (\<lambda>b. b\<lparr>gb_flags := FLAGS_SET_GEODETIC (gb_flags b) v\<rparr>) (g_bbox h)\<rparr>"

definition set_geodetic_pa :: "bool \<Rightarrow> ptarray \<Rightarrow> ptarray" where
  "set_geodetic_pa v pa = pa\<lparr>pa_flags := FLAGS_SET_GEODETIC (pa_flags pa) v\<rparr>"

fun lwgeom_set_geodetic :: "bool \<Rightarrow> lwgeom \<Rightarrow> lwgeom res" where
  "lwgeom_set_geodetic v (LwPoint h pa) = Inr (LwPoint (set_geodetic_hdr v h) (set_geodetic_pa v pa))"
| "lwgeom_set_geodetic v (LwLine h pa) = Inr (LwLine (set_geodetic_hdr v h) (set_geodetic_pa v pa))"
| "lwgeom_set_geodetic v (LwPoly h rings) = Inr (LwPoly (set_geodetic_hdr v h) (map (set_geodetic_pa v) rings))"
| "lwgeom_set_geodetic v (LwColl ty h gs) =
     (if ty \<in> {MULTIPOINTTYPE, MULTILINETYPE, MULTIPOLYGONTYPE, COLLECTIONTYPE}
      then rbind (map_res (lwgeom_set_geodetic v) gs) (\<lambda>gs. Inr (LwColl ty (set_geodetic_hdr v h) gs))
      else Inl (LwError ''lwgeom_set_geodetic: unsupported geom type: %s''))"
| "lwgeom_set_geodetic v _ = Inl (LwError ''lwgeom_set_geodetic: unsupported geom type: %s'')"

section \<open>Counting\<close>

definition lwline_count_vertices :: "ptarray \<Rightarrow> u32" where
  "lwline_count_vertices pa = npoints pa"

definition lwpoly_count_vertices :: "ptarray list \<Rightarrow> u32" where
  "lwpoly_count_vertices rings = fold (\<lambda>pa v. v + npoints pa) rings 0"

text \<open>Sums wrap at 32 bits; the \<open>int\<close> in between does not change the bits.\<close>

fun lwgeom_count_vertices :: "lwgeom \<Rightarrow> u32" where
  "lwgeom_count_vertices (LwPoint h pa) = (if lwgeom_is_empty (LwPoint h pa) then 0 else 1)"
| "lwgeom_count_vertices (LwLine h pa) = (if lwgeom_is_empty (LwLine h pa) then 0 else lwline_count_vertices pa)"
| "lwgeom_count_vertices (LwCircString h pa) = (if lwgeom_is_empty (LwCircString h pa) then 0 else lwline_count_vertices pa)"
| "lwgeom_count_vertices (LwTriangle h pa) = (if lwgeom_is_empty (LwTriangle h pa) then 0 else lwline_count_vertices pa)"
| "lwgeom_count_vertices (LwPoly h rings) = (if lwgeom_is_empty (LwPoly h rings) then 0 else lwpoly_count_vertices rings)"
| "lwgeom_count_vertices (LwEllipse h e) = npoints (el_points e)"
| "lwgeom_count_vertices (LwBezier h pa) = npoints pa"
| "lwgeom_count_vertices (LwColl ty h gs) =
     (if lwgeom_is_empty (LwColl ty h gs) then 0 else fold (\<lambda>g v. v + lwgeom_count_vertices g) gs 0)"

fun lwgeom_count_rings :: "lwgeom \<Rightarrow> u32 res" where
  "lwgeom_count_rings (LwTriangle h pa) = Inr (if lwgeom_is_empty (LwTriangle h pa) then 0 else 1)"
| "lwgeom_count_rings (LwPoly h rings) = Inr (if lwgeom_is_empty (LwPoly h rings) then 0 else of_nat (length rings))"
| "lwgeom_count_rings (LwColl ty h gs) =
     (if lwgeom_is_empty (LwColl ty h gs) then Inr 0
      else if ty \<in> {COMPOUNDTYPE, MULTICURVETYPE, MULTIPOINTTYPE, MULTILINETYPE} then Inr 0
      else if ty = CURVEPOLYTYPE then Inr (of_nat (length gs))
      else rbind (map_res lwgeom_count_rings gs) (\<lambda>ns. Inr (sum_list ns)))"
| "lwgeom_count_rings (LwEllipse h e) = Inl (LwError ''lwgeom_count_rings: unsupported input geometry type: %s'')"
| "lwgeom_count_rings (LwBezier h pa) = Inl (LwError ''lwgeom_count_rings: unsupported input geometry type: %s'')"
| "lwgeom_count_rings _ = Inr 0"

definition lwgeom_needs_bbox :: "lwgeom \<Rightarrow> bool" where
  "lwgeom_needs_bbox g \<longleftrightarrow>
     (case g of
        LwPoint _ _ \<Rightarrow> False
      | LwLine _ _ \<Rightarrow> \<not> lwgeom_count_vertices g \<le> 2
      | LwColl ty _ gs \<Rightarrow>
          if ty = MULTIPOINTTYPE then length gs \<noteq> 1
          else if ty = MULTILINETYPE then \<not> (length gs = 1 \<and> lwgeom_count_vertices g \<le> 2)
          else True
      | _ \<Rightarrow> True)"

definition lwpoly_startpoint :: "ptarray list \<Rightarrow> point4d option" where
  "lwpoly_startpoint rings = (case rings of [] \<Rightarrow> None | pa # _ \<Rightarrow> ptarray_startpoint pa)"

text \<open>\<open>Inr None\<close>: \<open>LW_FAILURE\<close>, the point is left alone.\<close>

fun lwgeom_startpoint :: "lwgeom \<Rightarrow> point4d option res" where
  "lwgeom_startpoint (LwPoint h pa) = Inr (if lwgeom_is_empty (LwPoint h pa) then None else ptarray_startpoint pa)"
| "lwgeom_startpoint (LwLine h pa) = Inr (if lwgeom_is_empty (LwLine h pa) then None else ptarray_startpoint pa)"
| "lwgeom_startpoint (LwCircString h pa) = Inr (if lwgeom_is_empty (LwCircString h pa) then None else ptarray_startpoint pa)"
| "lwgeom_startpoint (LwTriangle h pa) = Inr (if lwgeom_is_empty (LwTriangle h pa) then None else ptarray_startpoint pa)"
| "lwgeom_startpoint (LwPoly h rings) = Inr (if lwgeom_is_empty (LwPoly h rings) then None else lwpoly_startpoint rings)"
| "lwgeom_startpoint (LwColl ty h gs) =
     (if lwgeom_is_empty (LwColl ty h gs) then Inr None
      else if ty \<in> {TINTYPE, CURVEPOLYTYPE, COMPOUNDTYPE, MULTIPOINTTYPE, MULTILINETYPE, MULTIPOLYGONTYPE,
          COLLECTIONTYPE, POLYHEDRALSURFACETYPE}
      then (case gs of [] \<Rightarrow> Inr None | g # _ \<Rightarrow> lwgeom_startpoint g)
      else Inl (LwError ''lwgeom_startpoint: unsupported geometry type: %s''))"
| "lwgeom_startpoint _ = Inl (LwError ''lwgeom_startpoint: unsupported geometry type: %s'')"

section \<open>Swapping ordinates\<close>

definition ord_no :: "LWORD \<Rightarrow> nat" where
  "ord_no o1 = (case o1 of LWORD_X \<Rightarrow> 0 | LWORD_Y \<Rightarrow> 1 | LWORD_Z \<Rightarrow> 2 | LWORD_M \<Rightarrow> 3)"

definition swap_refresh ::
  "curve_ops \<Rightarrow> (lwgeom \<Rightarrow> gbox \<Rightarrow> gbox option) \<Rightarrow> LWORD \<Rightarrow> LWORD \<Rightarrow> lwgeom \<Rightarrow> lwgeom" where
  "swap_refresh cv geo o1 o2 g =
     (if g_bbox (g_hdr g) \<noteq> None \<and> (ord_no o1 < 2 \<or> ord_no o2 < 2) then lwgeom_refresh_bbox cv geo g else g)"

fun lwgeom_swap_ordinates ::
  "curve_ops \<Rightarrow> (lwgeom \<Rightarrow> gbox \<Rightarrow> gbox option) \<Rightarrow> LWORD \<Rightarrow> LWORD \<Rightarrow> lwgeom \<Rightarrow> lwgeom res" where
  "lwgeom_swap_ordinates cv geo o1 o2 g =
     (if lwgeom_is_empty g then Inr g
      else rbind (case g of
          LwPoint h pa \<Rightarrow> rbind (ptarray_swap_ordinates o1 o2 pa) (\<lambda>pa. Inr (LwPoint h pa))
        | LwLine h pa \<Rightarrow> rbind (ptarray_swap_ordinates o1 o2 pa) (\<lambda>pa. Inr (LwLine h pa))
        | LwCircString h pa \<Rightarrow> rbind (ptarray_swap_ordinates o1 o2 pa) (\<lambda>pa. Inr (LwCircString h pa))
        | LwTriangle h pa \<Rightarrow> rbind (ptarray_swap_ordinates o1 o2 pa) (\<lambda>pa. Inr (LwTriangle h pa))
        | LwPoly h rings \<Rightarrow> rbind (map_res (ptarray_swap_ordinates o1 o2) rings) (\<lambda>rings. Inr (LwPoly h rings))
        | LwColl ty h gs \<Rightarrow> rbind (map_res (lwgeom_swap_ordinates cv geo o1 o2) gs) (\<lambda>gs. Inr (LwColl ty h gs))
        | _ \<Rightarrow> Inl (LwError ''lwgeom_swap_ordinates: unsupported geometry type: %s''))
        (\<lambda>g. Inr (swap_refresh cv geo o1 o2 g)))"

section \<open>Comparison by the points\<close>

text \<open>The content of a geometry: type, dimensions and points, without SRID, boxes and storage.\<close>

datatype shape =
    ShapePoints u8 nat "nat \<times> dbl list list"
  | ShapeRings nat "(nat \<times> dbl list list) list"
  | ShapeColl u8 nat "shape list"

definition pa_shape :: "ptarray \<Rightarrow> nat \<times> dbl list list" where
  "pa_shape pa = (FLAGS_GET_ZM (pa_flags pa), pa_points pa)"

fun shape_of :: "lwgeom \<Rightarrow> shape" where
  "shape_of (LwPoly h rings) = ShapeRings (FLAGS_GET_ZM (g_flags h)) (map pa_shape rings)"
| "shape_of (LwColl ty h gs) = ShapeColl ty (FLAGS_GET_ZM (g_flags h)) (map shape_of gs)"
| "shape_of (LwPoint h pa) = ShapePoints POINTTYPE (FLAGS_GET_ZM (g_flags h)) (pa_shape pa)"
| "shape_of (LwLine h pa) = ShapePoints LINETYPE (FLAGS_GET_ZM (g_flags h)) (pa_shape pa)"
| "shape_of (LwCircString h pa) = ShapePoints CIRCSTRINGTYPE (FLAGS_GET_ZM (g_flags h)) (pa_shape pa)"
| "shape_of (LwTriangle h pa) = ShapePoints TRIANGLETYPE (FLAGS_GET_ZM (g_flags h)) (pa_shape pa)"
| "shape_of (LwEllipse h e) = ShapePoints ELLIPSETYPE (FLAGS_GET_ZM (g_flags h)) (pa_shape (el_points e))"
| "shape_of (LwBezier h pa) = ShapePoints BEZIERTYPE (FLAGS_GET_ZM (g_flags h)) (pa_shape pa)"

text \<open>
  \<open>sound_geom P g\<close>: point arrays that satisfy \<open>P\<close>, collections with a collection type, and no
  ellipses or Bezier curves, which most operations reject.
\<close>

fun sound_geom :: "(ptarray \<Rightarrow> bool) \<Rightarrow> lwgeom \<Rightarrow> bool" where
  "sound_geom P (LwPoint h pa) = P pa"
| "sound_geom P (LwLine h pa) = P pa"
| "sound_geom P (LwCircString h pa) = P pa"
| "sound_geom P (LwTriangle h pa) = P pa"
| "sound_geom P (LwPoly h rings) = list_all P rings"
| "sound_geom P (LwColl ty h gs) = (lwtype_is_collection ty \<and> list_all (sound_geom P) gs)"
| "sound_geom P _ = False"

fun boxless :: "lwgeom \<Rightarrow> bool" where
  "boxless (LwColl ty h gs) = (g_bbox h = None \<and> list_all boxless gs)"
| "boxless g = (g_bbox (g_hdr g) = None)"

lemma ZM_eq_iff: "FLAGS_GET_ZM f = FLAGS_GET_ZM f' \<longleftrightarrow> (bit f 0 \<longleftrightarrow> bit f' 0) \<and> (bit f 1 \<longleftrightarrow> bit f' 1)"
  by (cases "bit f 0"; cases "bit f 1"; cases "bit f' 0"; cases "bit f' 1") (simp_all add: FLAGS_GET_ZM_def flags_simps)

lemma ptarray_same_shape:
  assumes "pa_wf pa1" and "pa_wf pa2"
  shows "ptarray_same pa1 pa2 \<longleftrightarrow> pa_shape pa1 = pa_shape pa2"
proof (cases "FLAGS_GET_ZM (pa_flags pa1) = FLAGS_GET_ZM (pa_flags pa2) \<and> npoints pa1 = npoints pa2")
  case False
  then have "FLAGS_GET_ZM (pa_flags pa1) \<noteq> FLAGS_GET_ZM (pa_flags pa2) \<or> length (pa_points pa1) \<noteq> length (pa_points pa2)"
    by (simp add: word_unat_eq_iff)
  then have "pa_shape pa1 \<noteq> pa_shape pa2" by (auto simp only: pa_shape_def prod.inject)
  with False show ?thesis by (auto simp: ptarray_same_def)
next
  case True
  then have nd: "pa_ndims pa1 = pa_ndims pa2"
    by (simp add: ZM_eq_iff FLAGS_NDIMS_bits)
  have "take (pa_ndims pa1) (getPoint_internal pa1 i) = pa_points pa1 ! i"
    "take (pa_ndims pa1) (getPoint_internal pa2 i) = pa_points pa2 ! i" if "i < unat (npoints pa1)" for i
    using that True getPoint_internal_nth[OF assms(1), of i] getPoint_internal_nth[OF assms(2), of i] nd by simp_all
  then have "list_all (\<lambda>i. take (pa_ndims pa1) (getPoint_internal pa1 i) = take (pa_ndims pa1) (getPoint_internal pa2 i))
      [0..<unat (npoints pa1)] \<longleftrightarrow> (\<forall>i < unat (npoints pa1). pa_points pa1 ! i = pa_points pa2 ! i)"
    by (auto simp: list_all_iff)
  also have "\<dots> \<longleftrightarrow> pa_points pa1 = pa_points pa2"
    using True pa_points_length[of pa1] pa_points_length[of pa2] by (metis nth_equalityI)
  finally show ?thesis using True by (auto simp: ptarray_same_def pa_shape_def)
qed

lemma all_res_zip:
  "length xs = length ys \<Longrightarrow> (\<And>x y. (x, y) \<in> set (zip xs ys) \<Longrightarrow> f (x, y) = Inr (g x = g y)) \<Longrightarrow>
   all_res f (zip xs ys) = Inr (map g xs = map g ys)"
  by (induction xs ys rule: list_induct2) auto

lemma list_all_zip_map:
  "length xs = length ys \<Longrightarrow> (\<And>x y. (x, y) \<in> set (zip xs ys) \<Longrightarrow> f (x, y) = (g x = g y)) \<Longrightarrow>
   list_all f (zip xs ys) \<longleftrightarrow> map g xs = map g ys"
  by (induction xs ys rule: list_induct2) auto

lemma rings_same_shape:
  assumes "list_all pa_wf rs1" and "list_all pa_wf rs2"
  shows "length rs1 = length rs2 \<and> list_all (\<lambda>(r1, r2). ptarray_same r1 r2) (zip rs1 rs2) \<longleftrightarrow>
    map pa_shape rs1 = map pa_shape rs2"
proof (cases "length rs1 = length rs2")
  case True
  have "ptarray_same x y = (pa_shape x = pa_shape y)" if "(x, y) \<in> set (zip rs1 rs2)" for x y
    using set_zip_leftD[OF that] set_zip_rightD[OF that] assms by (simp add: list_all_iff ptarray_same_shape)
  then have "list_all (\<lambda>(r1, r2). ptarray_same r1 r2) (zip rs1 rs2) \<longleftrightarrow> map pa_shape rs1 = map pa_shape rs2"
    by (intro list_all_zip_map[OF True]) simp
  with True show ?thesis by simp
next
  case False
  then show ?thesis using map_eq_imp_length_eq[of pa_shape rs1 pa_shape rs2] by auto
qed

lemma collection_types:
  "lwtype_is_collection ty \<Longrightarrow> ty \<noteq> POINTTYPE \<and> ty \<noteq> LINETYPE \<and> ty \<noteq> POLYGONTYPE \<and> ty \<noteq> CIRCSTRINGTYPE \<and>
     ty \<noteq> TRIANGLETYPE \<and> ty \<noteq> ELLIPSETYPE \<and> ty \<noteq> BEZIERTYPE"
  by (auto simp: lwtype_is_collection_def)

lemma boxless_hdr: "boxless g \<Longrightarrow> g_bbox (g_hdr g) = None"
  by (cases g) simp_all

lemma same_header_boxless:
  "boxless g1 \<Longrightarrow> same_header g1 g2 \<longleftrightarrow> lwgeom_get_type g1 = lwgeom_get_type g2 \<and>
     FLAGS_GET_ZM (g_flags (g_hdr g1)) = FLAGS_GET_ZM (g_flags (g_hdr g2))"
  using boxless_hdr[of g1] by (simp add: same_header_def)

lemma shape_header:
  "shape_of g1 = shape_of g2 \<Longrightarrow> sound_geom P g1 \<Longrightarrow> sound_geom P g2 \<Longrightarrow>
   lwgeom_get_type g1 = lwgeom_get_type g2 \<and> FLAGS_GET_ZM (g_flags (g_hdr g1)) = FLAGS_GET_ZM (g_flags (g_hdr g2))"
  by (cases g1; cases g2) auto

declare lwgeom_same.simps [simp del]

lemma same_shape:
  "sound_geom pa_wf g1 \<Longrightarrow> sound_geom pa_wf g2 \<Longrightarrow> boxless g1 \<Longrightarrow> boxless g2 \<Longrightarrow>
   lwgeom_same g1 g2 = Inr (shape_of g1 = shape_of g2)"
proof (induction g1 g2 rule: lwgeom_same.induct)
  case (1 g1 g2)
  show ?case
  proof (cases "same_header g1 g2")
    case False
    then show ?thesis
      using shape_header[of g1 g2 pa_wf] "1.prems" by (subst lwgeom_same.simps) (auto simp: same_header_boxless)
  next
    case True
    show ?thesis
    proof (cases g1)
      case (LwColl ty1 h1 gs1)
      with True "1.prems" obtain h2 gs2 where g2: "g2 = LwColl ty1 h2 gs2"
        using collection_types[of ty1] by (cases g2) (auto simp: same_header_boxless)
      have "lwgeom_same a b = Inr (shape_of a = shape_of b)"
        if "length gs1 = length gs2" "(a, b) \<in> set (zip gs1 gs2)" for a b
      proof -
        have in_args: "a \<in> set gs1" "b \<in> set gs2" using that(2) by (auto dest: set_zip_leftD set_zip_rightD)
        have "sound_geom pa_wf a" "sound_geom pa_wf b" "boxless a" "boxless b"
          using in_args "1.prems" by (simp_all add: LwColl g2 list_all_iff)
        then show ?thesis
          using "1.IH"[OF _ refl LwColl g2 _ _ that(2)] True that(1) by simp
      qed
      moreover have "FLAGS_GET_ZM (g_flags h1) = FLAGS_GET_ZM (g_flags h2)"
        using True "1.prems" by (simp add: LwColl g2 same_header_def)
      ultimately show ?thesis using True LwColl g2 all_res_zip[of gs1 gs2 _ shape_of]
        by (subst lwgeom_same.simps) (auto simp: same_header_boxless dest: map_eq_imp_length_eq)
    next
      case (LwPoly h1 rs1)
      then show ?thesis using True "1.prems" rings_same_shape collection_types
        by (cases g2; subst lwgeom_same.simps) (auto simp: same_header_boxless)
    qed (use True "1.prems" collection_types in \<open>(cases g2; subst lwgeom_same.simps;
       auto simp: same_header_boxless ptarray_same_shape)\<close>)+
  qed
qed


section \<open>Reversal\<close>

fun rev_shape :: "shape \<Rightarrow> shape" where
  "rev_shape (ShapePoints ty zm (z, ps)) = ShapePoints ty zm (z, if ty = POINTTYPE then ps else rev ps)"
| "rev_shape (ShapeRings zm rs) = ShapeRings zm (map (\<lambda>(z, ps). (z, rev ps)) rs)"
| "rev_shape (ShapeColl ty zm ss) = ShapeColl ty zm (if ty = MULTIPOINTTYPE then ss else map rev_shape ss)"

lemma rev_shape_rev_shape [simp]: "rev_shape (rev_shape s) = s"
  by (induction s rule: rev_shape.induct) (auto intro!: map_idI)

text \<open>Arrays that can be reversed: their ordinates are indexed by 32 bits.\<close>

definition pa_indexable :: "ptarray \<Rightarrow> bool" where
  "pa_indexable pa \<longleftrightarrow> pa_wf pa \<and> pa_ndims pa * unat (npoints pa) < 2 ^ 32"

lemma readonly_flags [simp]:
  "FLAGS_NDIMS (FLAGS_SET_READONLY f v) = FLAGS_NDIMS f"
  "FLAGS_GET_ZM (FLAGS_SET_READONLY f v) = FLAGS_GET_ZM f"
  by (simp_all add: FLAGS_NDIMS_bits FLAGS_GET_ZM_def flags_simps)

lemma clone_deep_array:
  assumes "pa_indexable pa"
  shows "pa_indexable (ptarray_clone_deep pa) \<and> pa_shape (ptarray_clone_deep pa) = pa_shape pa"
proof -
  have wf: "length (serialized_pointlist pa) = pa_ndims pa * unat (npoints pa)"
    using assms by (simp add: pa_indexable_def pa_wf_def)
  then have "serialized_pointlist (ptarray_clone_deep pa) = serialized_pointlist pa"
    by (auto simp: ptarray_clone_deep_def mult.commute)
  then show ?thesis using assms wf
    by (simp add: pa_indexable_def pa_shape_def pa_points_def pa_wf_def) (simp add: ptarray_clone_deep_def)
qed

lemma reverse_array:
  assumes "pa_indexable pa"
  shows "pa_indexable (ptarray_reverse_in_place pa) \<and>
    pa_shape (ptarray_reverse_in_place pa) = (fst (pa_shape pa), rev (snd (pa_shape pa)))"
  using reverse_in_place_points[of pa] assms by (simp add: pa_indexable_def pa_shape_def Let_def)

lemma clone_deep_shape:
  "sound_geom pa_indexable g \<Longrightarrow> \<exists>g'. lwgeom_clone_deep g = Inr g' \<and> sound_geom pa_indexable g' \<and> shape_of g' = shape_of g"
proof (induction g)
  case (LwPoly h rings)
  then show ?case using clone_deep_array
    by (auto simp: list_all_iff clear_readonly_def)
next
  case (LwColl ty h gs)
  show ?case
  proof (cases "gs = []")
    case False
    have "\<forall>g \<in> set gs. \<exists>g'. lwgeom_clone_deep g = Inr g' \<and> sound_geom pa_indexable g' \<and> shape_of g' = shape_of g"
      using LwColl by (simp add: list_all_iff)
    then obtain f where f: "\<And>g. g \<in> set gs \<Longrightarrow> lwgeom_clone_deep g = Inr (f g) \<and> sound_geom pa_indexable (f g) \<and> shape_of (f g) = shape_of g"
      by metis
    then have "map_res lwgeom_clone_deep gs = Inr (map f gs)" by (intro map_res_Inr) simp
    then show ?thesis using False f LwColl.prems by (auto simp: list_all_iff)
  qed (use LwColl in simp)
qed (use clone_deep_array in \<open>auto simp: clear_readonly_def\<close>)

lemma reverse_in_place_shape:
  "sound_geom pa_indexable g \<Longrightarrow>
   \<exists>g'. lwgeom_reverse_in_place g = Inr g' \<and> sound_geom pa_indexable g' \<and> shape_of g' = rev_shape (shape_of g)"
proof (induction g)
  case (LwPoly h rings)
  then show ?case using reverse_array
    by (auto simp: list_all_iff pa_shape_def)
next
  case (LwColl ty h gs)
  show ?case
  proof (cases "ty = MULTIPOINTTYPE")
    case False
    have "\<forall>g \<in> set gs. \<exists>g'. lwgeom_reverse_in_place g = Inr g' \<and> sound_geom pa_indexable g' \<and> shape_of g' = rev_shape (shape_of g)"
      using LwColl by (simp add: list_all_iff)
    then obtain f where f: "\<And>g. g \<in> set gs \<Longrightarrow> lwgeom_reverse_in_place g = Inr (f g) \<and> sound_geom pa_indexable (f g) \<and> shape_of (f g) = rev_shape (shape_of g)"
      by metis
    then have "map_res lwgeom_reverse_in_place gs = Inr (map f gs)" by (intro map_res_Inr) simp
    then show ?thesis using False f LwColl.prems by (auto simp: list_all_iff)
  qed (use LwColl in simp)
qed (use reverse_array in \<open>auto simp: pa_shape_def\<close>)

section \<open>Forced dimensions\<close>

definition force_point :: "ptarray \<Rightarrow> bool \<Rightarrow> bool \<Rightarrow> dbl \<Rightarrow> dbl \<Rightarrow> dbl list \<Rightarrow> dbl list" where
  "force_point pa hasz hasm zval mval p =
     (let z = bit (pa_flags pa) 0; m = bit (pa_flags pa) 1
      in [p ! 0, p ! 1] @ (if hasz then [if z then p ! 2 else zval] else []) @
         (if hasm then [if m then p ! (if z then 3 else 2) else mval] else []))"

definition force_points :: "bool \<Rightarrow> bool \<Rightarrow> dbl \<Rightarrow> dbl \<Rightarrow> ptarray \<Rightarrow> nat \<times> dbl list list" where
  "force_points hasz hasm zval mval pa =
     (FLAGS_GET_ZM (lwflags hasz hasm False), map (force_point pa hasz hasm zval mval) (pa_points pa))"

lemma append_point_points:
  assumes "pa_wf pa" and "\<not> bit (pa_flags pa) 4" and "unat (npoints pa) < 2 ^ 31"
  shows "\<exists>pa'. ptarray_append_point pa p True = Inr pa' \<and> pa_wf pa' \<and> pa_flags pa' = pa_flags pa \<and>
    unat (npoints pa') = Suc (unat (npoints pa)) \<and>
    pa_points pa' = pa_points pa @ [point_ordinates (FLAGS_GET_ZM (pa_flags pa)) p]"
  using insert_point_points[OF assms(1,2) order_refl assms(3), of p] by (simp add: ptarray_append_point_def)

lemma getPoint4d_ordinates:
  assumes wf: "pa_wf pa" and i: "i < unat (npoints pa)"
  shows "\<exists>pt. getPoint4d_p pa (of_nat i) = Some pt \<and> px pt = pa_points pa ! i ! 0 \<and> py pt = pa_points pa ! i ! 1 \<and>
    pz pt = (if bit (pa_flags pa) 0 then pa_points pa ! i ! 2 else 0) \<and>
    pm pt = (if bit (pa_flags pa) 1 then pa_points pa ! i ! (if bit (pa_flags pa) 0 then 3 else 2) else 0)"
proof -
  have u: "unat (of_nat i :: u32) = i" using i unat_less_2p[of "npoints pa"] by (simp add: unat_of_nat)
  have "getPoint_internal pa i ! k = pa_points pa ! i ! k" if "k < pa_ndims pa" for k
    using getPoint_internal_nth[OF wf i, symmetric] that by simp
  then show ?thesis using i
    by (simp add: getPoint4d_p_def u word_le_nat_alt Let_def FLAGS_GET_ZM_def flags_simps FLAGS_NDIMS_bits)
qed

lemma force_dims_points:
  assumes wf: "pa_wf pa" and n: "unat (npoints pa) < 2 ^ 31"
  shows "\<exists>pa'. ptarray_force_dims pa hasz hasm zval mval = Inr pa' \<and> pa_wf pa' \<and>
    pa_flags pa' = lwflags hasz hasm False \<and> pa_shape pa' = force_points hasz hasm zval mval pa"
proof -
  let ?f = "force_point pa hasz hasm zval mval"
  let ?step = "\<lambda>i r. rbind r (\<lambda>pa_out.
         case getPoint4d_p pa (of_nat i) of
           None \<Rightarrow> Inl MemFault
         | Some pt \<Rightarrow>
             let pt = (if hasz \<and> FLAGS_GET_Z (pa_flags pa) = 0 then pt\<lparr>pz := zval\<rparr> else pt);
                 pt = (if hasm \<and> FLAGS_GET_M (pa_flags pa) = 0 then pt\<lparr>pm := mval\<rparr> else pt)
             in ptarray_append_point pa_out pt True)"
  have "\<exists>pa'. fold ?step [0..<k] (Inr (ptarray_construct_empty hasz hasm (npoints pa))) = Inr pa' \<and> pa_wf pa' \<and>
      pa_flags pa' = lwflags hasz hasm False \<and> unat (npoints pa') = k \<and> pa_points pa' = map ?f (take k (pa_points pa))"
    if "k \<le> unat (npoints pa)" for k
    using that
  proof (induction k)
    case 0
    then show ?case by (simp add: ptarray_construct_empty_def pa_wf_def pa_points_def)
  next
    case (Suc k)
    then obtain pa1 where pa1: "fold ?step [0..<k] (Inr (ptarray_construct_empty hasz hasm (npoints pa))) = Inr pa1"
      "pa_wf pa1" "pa_flags pa1 = lwflags hasz hasm False" "unat (npoints pa1) = k" "pa_points pa1 = map ?f (take k (pa_points pa))"
      by auto
    obtain pt where pt: "getPoint4d_p pa (of_nat k) = Some pt" "px pt = pa_points pa ! k ! 0" "py pt = pa_points pa ! k ! 1"
      "pz pt = (if bit (pa_flags pa) 0 then pa_points pa ! k ! 2 else 0)"
      "pm pt = (if bit (pa_flags pa) 1 then pa_points pa ! k ! (if bit (pa_flags pa) 0 then 3 else 2) else 0)"
      using getPoint4d_ordinates[OF wf, of k] Suc.prems by auto
    define pt' where "pt' = (let pt = (if hasz \<and> FLAGS_GET_Z (pa_flags pa) = 0 then pt\<lparr>pz := zval\<rparr> else pt)
      in if hasm \<and> FLAGS_GET_M (pa_flags pa) = 0 then pt\<lparr>pm := mval\<rparr> else pt)"
    have o: "point_ordinates (FLAGS_GET_ZM (lwflags hasz hasm False)) pt' = ?f (pa_points pa ! k)"
      by (simp add: pt'_def Let_def point_ordinates_def FLAGS_GET_ZM_def flags_simps force_point_def pt)
    obtain pa2 where "ptarray_append_point pa1 pt' True = Inr pa2" "pa_wf pa2" "pa_flags pa2 = pa_flags pa1"
      "unat (npoints pa2) = Suc k" "pa_points pa2 = pa_points pa1 @ [?f (pa_points pa ! k)]"
      using append_point_points[OF pa1(2), of pt'] pa1 Suc.prems n by (auto simp: flags_simps o)
    then show ?case using pa1 Suc.prems
      by (simp add: pt(1) take_Suc_conv_app_nth pt'_def Let_def)
  qed
  from this[of "unat (npoints pa)"] show ?thesis
    by (auto simp: ptarray_force_dims_def pa_shape_def force_points_def)
qed

text \<open>The content that forcing dimensions gives: empty polygons and collections lose their parts.\<close>

fun forced :: "bool \<Rightarrow> bool \<Rightarrow> dbl \<Rightarrow> dbl \<Rightarrow> lwgeom \<Rightarrow> shape" where
  "forced hasz hasm zval mval (LwPoly h rings) = ShapeRings (FLAGS_GET_ZM (lwflags hasz hasm False))
     (if lwpoly_is_empty rings then [] else map (force_points hasz hasm zval mval) rings)"
| "forced hasz hasm zval mval (LwColl ty h gs) = ShapeColl ty (FLAGS_GET_ZM (lwflags hasz hasm False))
     (if list_all lwgeom_is_empty gs then [] else map (forced hasz hasm zval mval) gs)"
| "forced hasz hasm zval mval (LwPoint h pa) =
     ShapePoints POINTTYPE (FLAGS_GET_ZM (lwflags hasz hasm False)) (force_points hasz hasm zval mval pa)"
| "forced hasz hasm zval mval (LwLine h pa) =
     ShapePoints LINETYPE (FLAGS_GET_ZM (lwflags hasz hasm False)) (force_points hasz hasm zval mval pa)"
| "forced hasz hasm zval mval (LwCircString h pa) =
     ShapePoints CIRCSTRINGTYPE (FLAGS_GET_ZM (lwflags hasz hasm False)) (force_points hasz hasm zval mval pa)"
| "forced hasz hasm zval mval (LwTriangle h pa) =
     ShapePoints TRIANGLETYPE (FLAGS_GET_ZM (lwflags hasz hasm False)) (force_points hasz hasm zval mval pa)"
| "forced hasz hasm zval mval g = shape_of g"

definition pa_forceable :: "ptarray \<Rightarrow> bool" where
  "pa_forceable pa \<longleftrightarrow> pa_wf pa \<and> unat (npoints pa) < 2 ^ 31"

fun shape_zm :: "shape \<Rightarrow> nat" where
  "shape_zm (ShapePoints ty zm ps) = zm"
| "shape_zm (ShapeRings zm rs) = zm"
| "shape_zm (ShapeColl ty zm ss) = zm"

lemma shape_zm_shape_of [simp]: "shape_zm (shape_of g) = FLAGS_GET_ZM (g_flags (g_hdr g))"
  by (cases g) simp_all

lemma ZM_lwflags: "FLAGS_GET_ZM (lwflags (FLAGS_GET_Z f \<noteq> 0) (FLAGS_GET_M f \<noteq> 0) False) = FLAGS_GET_ZM f"
  by (simp add: ZM_eq_iff flags_simps)

lemma ZM_set_bbox [simp]: "FLAGS_GET_ZM (FLAGS_SET_BBOX f v) = FLAGS_GET_ZM f"
  by (simp add: ZM_eq_iff flags_simps)

lemma ZM_lwpoint: "FLAGS_GET_ZM (g_flags (g_hdr (lwpoint_construct srid b pa))) = FLAGS_GET_ZM (pa_flags pa)"
  by (simp add: lwpoint_construct_def Let_def ZM_eq_iff flags_simps)

lemma empty_no_points: "lwline_is_empty pa \<Longrightarrow> pa_points pa = []"
  by (simp add: lwline_is_empty_def pa_points_def word_less_nat_alt)

lemma force_array:
  "pa_forceable pa \<Longrightarrow> \<exists>pa'. ptarray_force_dims pa hasz hasm zval mval = Inr pa' \<and>
     pa_flags pa' = lwflags hasz hasm False \<and> pa_shape pa' = force_points hasz hasm zval mval pa"
  using force_dims_points[of pa] unfolding pa_forceable_def by blast

lemma empty_array_shape:
  "pa_shape (ptarray_construct_empty hasz hasm n) = (FLAGS_GET_ZM (lwflags hasz hasm False), [])"
  by (simp add: pa_shape_def) (simp add: ptarray_construct_empty_def)

lemma empty_force: "lwline_is_empty pa \<Longrightarrow> force_points hasz hasm zval mval pa = (FLAGS_GET_ZM (lwflags hasz hasm False), [])"
  by (simp add: force_points_def empty_no_points)

lemma lwpoly_construct_shape:
  assumes "rings \<noteq> []" and "\<And>pa. pa \<in> set rings \<Longrightarrow> FLAGS_GET_ZM (pa_flags pa) = zm"
  shows "\<exists>g. lwpoly_construct srid None rings = Inr g \<and> shape_of g = ShapeRings zm (map pa_shape rings)"
  using assms ZM_lwflags[of "pa_flags (hd rings)"]
  by (cases rings) (auto simp: lwpoly_construct_def Let_def list_ex_iff)

lemma lwcollection_construct_shape:
  assumes "lwtype_is_collection ty" and "gs \<noteq> []" and "\<And>g. g \<in> set gs \<Longrightarrow> FLAGS_GET_ZM (g_flags (g_hdr g)) = zm"
  shows "\<exists>g. lwcollection_construct ty srid None gs = Inr g \<and> shape_of g = ShapeColl ty zm (map shape_of gs)"
  using assms ZM_lwflags[of "g_flags (g_hdr (hd gs))"]
  by (cases gs) (auto simp: lwcollection_construct_def Let_def list_ex_iff)

lemma force_dims_shape:
  "sound_geom pa_forceable g \<Longrightarrow>
   \<exists>g'. lwgeom_force_dims hasz hasm zval mval g = Inr g' \<and> shape_of g' = forced hasz hasm zval mval g"
proof (induction g)
  case (LwPoly h rings)
  show ?case
  proof (cases "lwpoly_is_empty rings")
    case True
    then show ?thesis by (simp add: lwpoly_construct_empty_def empty_hdr_def)
  next
    case False
    have "\<forall>pa \<in> set rings. \<exists>pa'. ptarray_force_dims pa hasz hasm zval mval = Inr pa' \<and>
        pa_flags pa' = lwflags hasz hasm False \<and> pa_shape pa' = force_points hasz hasm zval mval pa"
      using LwPoly by (simp add: list_all_iff force_array)
    then obtain f where f: "\<And>pa. pa \<in> set rings \<Longrightarrow> ptarray_force_dims pa hasz hasm zval mval = Inr (f pa) \<and>
        pa_flags (f pa) = lwflags hasz hasm False \<and> pa_shape (f pa) = force_points hasz hasm zval mval pa"
      by metis
    then have m: "map_res (\<lambda>pa. ptarray_force_dims pa hasz hasm zval mval) rings = Inr (map f rings)"
      by (intro map_res_Inr) simp
    have z: "FLAGS_GET_ZM (pa_flags pa) = FLAGS_GET_ZM (lwflags hasz hasm False)" if "pa \<in> set (map f rings)" for pa
      using that f by auto
    have "rings \<noteq> []" using False by (simp add: lwpoly_is_empty_def)
    then obtain g where "lwpoly_construct (g_srid h) None (map f rings) = Inr g"
      "shape_of g = ShapeRings (FLAGS_GET_ZM (lwflags hasz hasm False)) (map pa_shape (map f rings))"
      using lwpoly_construct_shape[of "map f rings" _ "g_srid h", OF _ z] by auto
    then show ?thesis using m False f by (simp add: comp_def)
  qed
next
  case (LwColl ty h gs)
  show ?case
  proof (cases "list_all lwgeom_is_empty gs")
    case True
    then show ?thesis using LwColl.prems by (simp add: lwcollection_construct_empty_def empty_hdr_def)
  next
    case False
    have "\<forall>g \<in> set gs. \<exists>g'. lwgeom_force_dims hasz hasm zval mval g = Inr g' \<and> shape_of g' = forced hasz hasm zval mval g"
      using LwColl by (simp add: list_all_iff)
    then obtain f where f: "\<And>g. g \<in> set gs \<Longrightarrow> lwgeom_force_dims hasz hasm zval mval g = Inr (f g) \<and>
        shape_of (f g) = forced hasz hasm zval mval g"
      by metis
    then have m: "map_res (lwgeom_force_dims hasz hasm zval mval) gs = Inr (map f gs)" by (intro map_res_Inr) simp
    have "shape_zm (forced hasz hasm zval mval g) = FLAGS_GET_ZM (lwflags hasz hasm False)" if "g \<in> set gs" for g
      using LwColl.prems that by (cases g) (auto simp: list_all_iff)
    then have zm: "FLAGS_GET_ZM (g_flags (g_hdr g)) = FLAGS_GET_ZM (lwflags hasz hasm False)" if "g \<in> set (map f gs)" for g
      using that f by (auto simp flip: shape_zm_shape_of)
    have "gs \<noteq> []" using False by auto
    then obtain g where "lwcollection_construct ty (g_srid h) None (map f gs) = Inr g"
      "shape_of g = ShapeColl ty (FLAGS_GET_ZM (lwflags hasz hasm False)) (map shape_of (map f gs))"
      using lwcollection_construct_shape[of ty "map f gs" _ "g_srid h", OF _ _ zm] LwColl.prems by auto
    then show ?thesis using m False f by (simp add: comp_def)
  qed
next
  case (LwPoint h pa)
  then obtain pa' where pa': "ptarray_force_dims pa hasz hasm zval mval = Inr pa'"
    "pa_flags pa' = lwflags hasz hasm False" "pa_shape pa' = force_points hasz hasm zval mval pa"
    using force_array[of pa hasz hasm zval mval] by auto
  have "shape_of (lwpoint_construct (g_srid h) None pa') = ShapePoints POINTTYPE (FLAGS_GET_ZM (lwflags hasz hasm False)) (pa_shape pa')"
    using ZM_lwpoint[of "g_srid h" None pa'] pa'(2) by (simp add: lwpoint_construct_def Let_def)
  moreover have "shape_of (lwpoint_construct_empty (g_srid h) hasz hasm) =
      ShapePoints POINTTYPE (FLAGS_GET_ZM (lwflags hasz hasm False)) (FLAGS_GET_ZM (lwflags hasz hasm False), [])"
    by (simp add: lwpoint_construct_empty_def empty_hdr_def pa_shape_def ptarray_construct_empty_def pa_points_def)
  ultimately show ?case using pa' empty_no_points[of pa] by (auto simp: force_points_def)
qed (auto dest!: force_array[of _ hasz hasm zval mval] simp: lwline_construct_empty_def
  lwcircstring_construct_empty_def lwtriangle_construct_empty_def empty_hdr_def empty_array_shape empty_force
  lwline_construct_def lwcircstring_construct_def lwtriangle_construct_def points_hdr_def)

section \<open>Properties\<close>


text \<open>C28: Reversing a geometry reverses the points of every line, ring and curve, leaves points alone,
  keeps types, dimensions and structure, and is undone by reversing again.\<close>

theorem lwgeom_reverse_correct:
  assumes "sound_geom pa_indexable g"
  shows "\<exists>g' g''. lwgeom_reverse g = Inr g' \<and> shape_of g' = rev_shape (shape_of g) \<and>
    lwgeom_reverse g' = Inr g'' \<and> shape_of g'' = shape_of g"
proof -
  have rev: "\<exists>g'. lwgeom_reverse g = Inr g' \<and> sound_geom pa_indexable g' \<and> shape_of g' = rev_shape (shape_of g)"
    if "sound_geom pa_indexable g" for g
    using clone_deep_shape[OF that] reverse_in_place_shape by (fastforce simp: lwgeom_reverse_def)
  from rev[OF assms] obtain g' where "lwgeom_reverse g = Inr g'" "sound_geom pa_indexable g'"
    "shape_of g' = rev_shape (shape_of g)" by blast
  with rev[of g'] show ?thesis by auto
qed

text \<open>C29: Forcing dimensions succeeds on every sound geometry, whatever dimensions its parts have: every part of
  the result has exactly the dimensions asked for, X and Y are kept, an ordinate is kept if it was there
  and takes the default if not; empty polygons lose their rings and empty collections their members.\<close>

theorem lwgeom_force_dims_correct:
  assumes "sound_geom pa_forceable g"
  shows "\<exists>g'. lwgeom_force_dims hasz hasm zval mval g = Inr g' \<and> shape_of g' = forced hasz hasm zval mval g"
  by (rule force_dims_shape[OF assms])

section \<open>Witnesses\<close>

definition ops_line :: "dbl list \<Rightarrow> ptarray" where
  "ops_line ds = \<lparr>npoints = 2, maxpoints = 2, pa_flags = 1, serialized_pointlist = ds\<rparr>"

definition ops_example :: "i32 \<Rightarrow> lwgeom" where
  "ops_example srid = LwColl COLLECTIONTYPE \<lparr>g_bbox = None, g_srid = srid, g_flags = 1\<rparr>
     [LwLine \<lparr>g_bbox = None, g_srid = srid, g_flags = 1\<rparr> (ops_line [1, 2, 3, 4, 5, 6]),
      LwPoly \<lparr>g_bbox = None, g_srid = srid, g_flags = 1\<rparr> [ops_line [7, 8, 9, 7, 8, 9]],
      LwPoint \<lparr>g_bbox = None, g_srid = srid, g_flags = 1\<rparr>
        \<lparr>npoints = 0, maxpoints = 0, pa_flags = 1, serialized_pointlist = []\<rparr>]"

lemma ops_example_sound:
  "boxless (ops_example srid)" "sound_geom pa_wf (ops_example srid)" "sound_geom pa_indexable (ops_example srid)"
  "sound_geom pa_forceable (ops_example srid)"
  by (simp_all add: ops_example_def ops_line_def pa_wf_def pa_indexable_def pa_forceable_def FLAGS_NDIMS_1
    lwtype_is_collection_def)

lemma ZM_1: "FLAGS_GET_ZM 1 = 2"
  by (simp add: FLAGS_GET_ZM_def FLAGS_GET_Z_def FLAGS_GET_M_def)

lemma ops_example_shape:
  "shape_of (ops_example srid) = ShapeColl COLLECTIONTYPE 2
     [ShapePoints LINETYPE 2 (2, [[1, 2, 3], [4, 5, 6]]), ShapeRings 2 [(2, [[7, 8, 9], [7, 8, 9]])],
      ShapePoints POINTTYPE 2 (2, [])]"
  by (simp add: ops_example_def ops_line_def pa_shape_def pa_points_def FLAGS_NDIMS_1 ZM_1 chunks_2)


theorem lwgeom_reverse_correct_witness:
  "\<exists>g'. lwgeom_reverse (ops_example 0) = Inr g' \<and> shape_of g' = ShapeColl COLLECTIONTYPE 2
     [ShapePoints LINETYPE 2 (2, [[4, 5, 6], [1, 2, 3]]), ShapeRings 2 [(2, [[7, 8, 9], [7, 8, 9]])],
      ShapePoints POINTTYPE 2 (2, [])]"
  using lwgeom_reverse_correct[OF ops_example_sound(3), of 0] by (auto simp: ops_example_shape)

theorem lwgeom_force_dims_correct_witness:
  "\<exists>g'. lwgeom_force_dims False True 0 100 (ops_example 0) = Inr g' \<and> shape_of g' = ShapeColl COLLECTIONTYPE 1
     [ShapePoints LINETYPE 1 (1, [[1, 2, 100], [4, 5, 100]]), ShapeRings 1 [(1, [[7, 8, 100], [7, 8, 100]])],
      ShapePoints POINTTYPE 1 (1, [])]"
proof -
  have f: "FLAGS_GET_ZM (lwflags False True False) = 1" by (simp add: FLAGS_GET_ZM_def flags_simps)
  show ?thesis using lwgeom_force_dims_correct[OF ops_example_sound(4), of False True 0 100 0]
    by (simp add: ops_example_def ops_line_def force_points_def f pa_points_def FLAGS_NDIMS_1 chunks_2 force_point_def
      lwpoly_is_empty_def lwline_is_empty_def)
qed

end
