(* ===== verification/Gser2.thy ===== *)
theory Gser2
  imports LwGeomOps
begin

text \<open>
  Serialized geometries, version 2 (liblwgeom/gserialized2.c): the form in which the server stores
  geometries. The header fields are a record, the data area behind them a list of bytes; integers and
  floating-point numbers are in the byte order of the machine, \<open>be\<close>. An offset counts from the start of
  the data area, 8 bytes behind that of the \<open>GSERIALIZED\<close>. Reading or writing outside the area is
  \<open>MemFault\<close>; an array that would reach beyond it counts as a fault where it is made, not where it is
  used.
\<close>

section \<open>Reading memory\<close>

definition rd_u32 :: "bool \<Rightarrow> u8 list \<Rightarrow> nat \<Rightarrow> u32 res" where
  "rd_u32 be bs off = (if length bs < off + 4 then Inl MemFault else Inr (mem_word be (take 4 (drop off bs))))"

definition rd_u64 :: "bool \<Rightarrow> u8 list \<Rightarrow> nat \<Rightarrow> u64 res" where
  "rd_u64 be bs off = (if length bs < off + 8 then Inl MemFault else Inr (mem_word be (take 8 (drop off bs))))"

text \<open>A number of doubles, or of floats, from an offset on.\<close>

definition rd_dbls :: "bool \<Rightarrow> u8 list \<Rightarrow> nat \<Rightarrow> nat \<Rightarrow> dbl list res" where
  "rd_dbls be bs off n =
     (if length bs < off + 8 * n then Inl MemFault else Inr (map (mem_word be) (chunks 8 n (drop off bs))))"

definition rd_flts :: "bool \<Rightarrow> u8 list \<Rightarrow> nat \<Rightarrow> nat \<Rightarrow> flt list res" where
  "rd_flts be bs off n =
     (if length bs < off + 4 * n then Inl MemFault else Inr (map (mem_word be) (chunks 4 n (drop off bs))))"

definition dbl_bytes :: "bool \<Rightarrow> dbl list \<Rightarrow> u8 list" where
  "dbl_bytes be ds = concat (map (mem_bytes be 8) ds)"

definition flt_bytes :: "bool \<Rightarrow> flt list \<Rightarrow> u8 list" where
  "flt_bytes be fs = concat (map (mem_bytes be 4) fs)"

section \<open>The header\<close>

record gserialized =
  gs_size :: u32
  gs_srid :: "u8 \<times> u8 \<times> u8"
  gs_gflags :: u8
  gs_data :: "u8 list"

definition LWSIZE_GET :: "bool \<Rightarrow> u32 \<Rightarrow> u32" where
  "LWSIZE_GET be varsize = (if be then varsize AND 0x3FFFFFFF else drop_bit 2 varsize AND 0x3FFFFFFF)"

definition LWSIZE_SET :: "bool \<Rightarrow> nat \<Rightarrow> u32" where
  "LWSIZE_SET be len = (if be then of_nat len AND 0x3FFFFFFF else push_bit 2 (of_nat len))"

abbreviation G2FLAG_Z :: u8 where "G2FLAG_Z \<equiv> 0x01"
abbreviation G2FLAG_M :: u8 where "G2FLAG_M \<equiv> 0x02"
abbreviation G2FLAG_BBOX :: u8 where "G2FLAG_BBOX \<equiv> 0x04"
abbreviation G2FLAG_GEODETIC :: u8 where "G2FLAG_GEODETIC \<equiv> 0x08"
abbreviation G2FLAG_EXTENDED :: u8 where "G2FLAG_EXTENDED \<equiv> 0x10"
abbreviation G2FLAG_VER_0 :: u8 where "G2FLAG_VER_0 \<equiv> 0x40"
abbreviation G2FLAG_X_SOLID :: u64 where "G2FLAG_X_SOLID \<equiv> 0x00000001"

definition G2FLAGS_GET_Z :: "u8 \<Rightarrow> nat" where "G2FLAGS_GET_Z f = unat (f AND G2FLAG_Z)"
definition G2FLAGS_GET_M :: "u8 \<Rightarrow> nat" where "G2FLAGS_GET_M f = unat (drop_bit 1 (f AND G2FLAG_M))"
definition G2FLAGS_GET_BBOX :: "u8 \<Rightarrow> nat" where "G2FLAGS_GET_BBOX f = unat (drop_bit 2 (f AND G2FLAG_BBOX))"
definition G2FLAGS_GET_GEODETIC :: "u8 \<Rightarrow> nat" where
  "G2FLAGS_GET_GEODETIC f = unat (drop_bit 3 (f AND G2FLAG_GEODETIC))"
definition G2FLAGS_GET_EXTENDED :: "u8 \<Rightarrow> nat" where
  "G2FLAGS_GET_EXTENDED f = unat (drop_bit 4 (f AND G2FLAG_EXTENDED))"
definition G2FLAGS_GET_VERSION :: "u8 \<Rightarrow> nat" where
  "G2FLAGS_GET_VERSION f = unat (drop_bit 6 (f AND G2FLAG_VER_0))"

definition G2FLAGS_SET_Z :: "u8 \<Rightarrow> bool \<Rightarrow> u8" where
  "G2FLAGS_SET_Z f v = (if v then f OR G2FLAG_Z else f AND NOT G2FLAG_Z)"
definition G2FLAGS_SET_M :: "u8 \<Rightarrow> bool \<Rightarrow> u8" where
  "G2FLAGS_SET_M f v = (if v then f OR G2FLAG_M else f AND NOT G2FLAG_M)"
definition G2FLAGS_SET_BBOX :: "u8 \<Rightarrow> bool \<Rightarrow> u8" where
  "G2FLAGS_SET_BBOX f v = (if v then f OR G2FLAG_BBOX else f AND NOT G2FLAG_BBOX)"
definition G2FLAGS_SET_GEODETIC :: "u8 \<Rightarrow> bool \<Rightarrow> u8" where
  "G2FLAGS_SET_GEODETIC f v = (if v then f OR G2FLAG_GEODETIC else f AND NOT G2FLAG_GEODETIC)"
definition G2FLAGS_SET_EXTENDED :: "u8 \<Rightarrow> bool \<Rightarrow> u8" where
  "G2FLAGS_SET_EXTENDED f v = (if v then f OR G2FLAG_EXTENDED else f AND NOT G2FLAG_EXTENDED)"
definition G2FLAGS_SET_VERSION :: "u8 \<Rightarrow> bool \<Rightarrow> u8" where
  "G2FLAGS_SET_VERSION f v = (if v then f OR G2FLAG_VER_0 else f AND NOT G2FLAG_VER_0)"

definition G2FLAGS_NDIMS :: "u8 \<Rightarrow> nat" where "G2FLAGS_NDIMS f = 2 + G2FLAGS_GET_Z f + G2FLAGS_GET_M f"
definition G2FLAGS_NDIMS_BOX :: "u8 \<Rightarrow> nat" where
  "G2FLAGS_NDIMS_BOX f = (if G2FLAGS_GET_GEODETIC f \<noteq> 0 then 3 else G2FLAGS_NDIMS f)"

definition gserialized2_has_bbox :: "gserialized \<Rightarrow> bool" where
  "gserialized2_has_bbox g \<longleftrightarrow> G2FLAGS_GET_BBOX (gs_gflags g) \<noteq> 0"
definition gserialized2_has_extended :: "gserialized \<Rightarrow> bool" where
  "gserialized2_has_extended g \<longleftrightarrow> G2FLAGS_GET_EXTENDED (gs_gflags g) \<noteq> 0"
definition gserialized2_has_z :: "gserialized \<Rightarrow> bool" where
  "gserialized2_has_z g \<longleftrightarrow> G2FLAGS_GET_Z (gs_gflags g) \<noteq> 0"
definition gserialized2_has_m :: "gserialized \<Rightarrow> bool" where
  "gserialized2_has_m g \<longleftrightarrow> G2FLAGS_GET_M (gs_gflags g) \<noteq> 0"
definition gserialized2_is_geodetic :: "gserialized \<Rightarrow> bool" where
  "gserialized2_is_geodetic g \<longleftrightarrow> G2FLAGS_GET_GEODETIC (gs_gflags g) \<noteq> 0"
definition gserialized2_ndims :: "gserialized \<Rightarrow> nat" where
  "gserialized2_ndims g = G2FLAGS_NDIMS (gs_gflags g)"

definition gserialized2_get_lwflags :: "bool \<Rightarrow> gserialized \<Rightarrow> u16 res" where
  "gserialized2_get_lwflags be g =
     (let gflags = gs_gflags g;
          lwfl = FLAGS_SET_Z 0 (G2FLAGS_GET_Z gflags \<noteq> 0);
          lwfl = FLAGS_SET_M lwfl (G2FLAGS_GET_M gflags \<noteq> 0);
          lwfl = FLAGS_SET_BBOX lwfl (G2FLAGS_GET_BBOX gflags \<noteq> 0);
          lwfl = FLAGS_SET_GEODETIC lwfl (G2FLAGS_GET_GEODETIC gflags \<noteq> 0)
      in if G2FLAGS_GET_EXTENDED gflags \<noteq> 0
         then rbind (rd_u64 be (gs_data g) 0) (\<lambda>xflags. Inr (FLAGS_SET_SOLID lwfl (xflags AND G2FLAG_X_SOLID \<noteq> 0)))
         else Inr lwfl)"

definition lwflags_uses_extended_flags :: "u16 \<Rightarrow> bool" where
  "lwflags_uses_extended_flags lwfl \<longleftrightarrow>
     lwfl AND NOT (LWFLAG_Z OR LWFLAG_M OR LWFLAG_BBOX OR LWFLAG_GEODETIC) \<noteq> 0"

definition gserialized2_box_size :: "gserialized \<Rightarrow> nat" where
  "gserialized2_box_size g =
     (if G2FLAGS_GET_GEODETIC (gs_gflags g) \<noteq> 0 then 6 * 4 else 2 * G2FLAGS_NDIMS (gs_gflags g) * 4)"

definition gserialized2_header_size :: "gserialized \<Rightarrow> nat" where
  "gserialized2_header_size g =
     8 + (if gserialized2_has_extended g then 8 else 0) +
     (if gserialized2_has_bbox g then gserialized2_box_size g else 0)"

definition gserialized2_get_geometry_p :: "gserialized \<Rightarrow> nat" where
  "gserialized2_get_geometry_p g =
     (if gserialized2_has_extended g then 8 else 0) +
     (if gserialized2_has_bbox g then gserialized2_box_size g else 0)"

definition gserialized2_max_header_size :: nat where
  "gserialized2_max_header_size = 8 + 8 * 4 + 8 + 4"

definition lwflags_get_g2flags :: "u16 \<Rightarrow> u8" where
  "lwflags_get_g2flags lwfl =
     (let gflags = G2FLAGS_SET_Z 0 (FLAGS_GET_Z lwfl \<noteq> 0);
          gflags = G2FLAGS_SET_M gflags (FLAGS_GET_M lwfl \<noteq> 0);
          gflags = G2FLAGS_SET_BBOX gflags (FLAGS_GET_BBOX lwfl \<noteq> 0);
          gflags = G2FLAGS_SET_GEODETIC gflags (FLAGS_GET_GEODETIC lwfl \<noteq> 0);
          gflags = G2FLAGS_SET_EXTENDED gflags (lwflags_uses_extended_flags lwfl)
      in G2FLAGS_SET_VERSION gflags True)"

definition g2flags :: "bool \<Rightarrow> bool \<Rightarrow> bool \<Rightarrow> u8" where
  "g2flags has_z has_m is_geodetic =
     (let gflags = 0;
          gflags = (if has_z then G2FLAGS_SET_Z gflags True else gflags);
          gflags = (if has_m then G2FLAGS_SET_M gflags True else gflags)
      in if is_geodetic then G2FLAGS_SET_GEODETIC gflags True else gflags)"

definition gserialized2_get_type :: "bool \<Rightarrow> gserialized \<Rightarrow> u32 res" where
  "gserialized2_get_type be g = rd_u32 be (gs_data g) (gserialized2_get_geometry_p g)"

text \<open>Three bytes, 21 bits of them with a sign.\<close>

definition gserialized2_get_srid :: "gserialized \<Rightarrow> i32" where
  "gserialized2_get_srid g =
     (let (b0, b1, b2) = gs_srid g;
          srid = push_bit 16 (ucast b0) OR push_bit 8 (ucast b1) OR ucast b2;
          srid = signed_drop_bit 11 (push_bit 11 srid)
      in if srid = 0 then SRID_UNKNOWN else srid)"

definition gserialized2_set_srid :: "i32 \<Rightarrow> gserialized \<Rightarrow> gserialized" where
  "gserialized2_set_srid srid g =
     (let srid = clamp_srid srid;
          srid = (if srid = SRID_UNKNOWN then 0 else srid)
      in g\<lparr>gs_srid := (ucast (drop_bit 16 (srid AND 0x001F0000)), ucast (drop_bit 8 (srid AND 0x0000FF00)),
                     ucast (srid AND 0x000000FF))\<rparr>)"

section \<open>Emptiness without deserializing\<close>

text \<open>
  The type is cut to 8 bits by the call of \<open>lwtype_is_collection\<close>; a negative count is no member.
  \<open>fuel\<close> is the call depth available. The result is the size read and the flag.
\<close>

primrec gserialized2_is_empty_recurse :: "nat \<Rightarrow> bool \<Rightarrow> u8 list \<Rightarrow> (nat \<times> bool) res" where
  "gserialized2_is_empty_recurse 0 be p = Inl StackOverflow"
| "gserialized2_is_empty_recurse (Suc fuel) be p =
     rbind (rd_u32 be p 0) (\<lambda>type.
     rbind (rd_u32 be p 4) (\<lambda>num.
       if lwtype_is_collection (ucast type)
       then rbind (fold (\<lambda>i r. rbind r (\<lambda>(lz, stop).
               if stop then Inr (lz, stop)
               else rbind (gserialized2_is_empty_recurse fuel be (drop lz p)) (\<lambda>(k, isempty).
                 Inr (lz + k, \<not> isempty))))
             [0..<if num <s 0 then 0 else unat num] (Inr (8, False)))
           (\<lambda>(lz, stop). Inr (lz, \<not> stop))
       else Inr (8, num = 0)))"

definition gserialized2_is_empty :: "nat \<Rightarrow> bool \<Rightarrow> gserialized \<Rightarrow> bool res" where
  "gserialized2_is_empty fuel be g =
     rbind (gserialized2_is_empty_recurse fuel be (drop (gserialized2_get_geometry_p g) (gs_data g)))
       (\<lambda>(lz, isempty). Inr isempty)"

section \<open>Boxes\<close>

definition gserialized2_get_float_box_p :: "gserialized \<Rightarrow> nat option" where
  "gserialized2_get_float_box_p g =
     (if \<not> gserialized2_has_bbox g then None else Some (if gserialized2_has_extended g then 8 else 0))"

text \<open>The first component is false for \<open>LW_FAILURE\<close>; the flags of the box are set in any case.\<close>

definition gserialized2_read_gbox_p :: "bool \<Rightarrow> gserialized \<Rightarrow> gbox \<Rightarrow> (bool \<times> gbox) res" where
  "gserialized2_read_gbox_p be g gbox =
     rbind (gserialized2_get_lwflags be g) (\<lambda>lwfl.
       let gbox = gbox\<lparr>gb_flags := lwfl\<rparr>; gflags = gs_gflags g
       in case gserialized2_get_float_box_p g of
            None \<Rightarrow> Inr (False, gbox)
          | Some off \<Rightarrow>
              rbind (rd_flts be (gs_data g) off (2 * G2FLAGS_NDIMS_BOX gflags)) (\<lambda>fbox.
                let d = (\<lambda>i. dbl_of_flt (fbox ! i));
                    gbox = gbox\<lparr>xmin := d 0, xmax := d 1, ymin := d 2, ymax := d 3\<rparr>
                in Inr (True,
                  if G2FLAGS_GET_GEODETIC gflags \<noteq> 0 then gbox\<lparr>zmin := d 4, zmax := d 5\<rparr>
                  else
                    let gbox = (if G2FLAGS_GET_Z gflags \<noteq> 0 then gbox\<lparr>zmin := d 4, zmax := d 5\<rparr> else gbox);
                        i = (if G2FLAGS_GET_Z gflags \<noteq> 0 then 6 else 4)
                    in if G2FLAGS_GET_M gflags \<noteq> 0 then gbox\<lparr>mmin := d i, mmax := d (i + 1)\<rparr> else gbox)))"

text \<open>The boxes of one point and of a segment, whose ordinates are \<open>p\<close>, or \<open>p\<close> and \<open>q\<close>.\<close>

definition peek_bounds :: "u16 \<Rightarrow> dbl list \<Rightarrow> dbl list \<Rightarrow> gbox \<Rightarrow> gbox" where
  "peek_bounds lwfl p q gbox =
     (let lo = (\<lambda>i. FP_MIN (p ! i) (q ! i)); hi = (\<lambda>i. FP_MAX (p ! i) (q ! i));
          gbox = gbox\<lparr>xmin := lo 0, xmax := hi 0, ymin := lo 1, ymax := hi 1, gb_flags := lwfl\<rparr>;
          gbox = (if FLAGS_GET_Z lwfl \<noteq> 0 then gbox\<lparr>zmin := lo 2, zmax := hi 2\<rparr> else gbox);
          i = (if FLAGS_GET_Z lwfl \<noteq> 0 then 3 else 2)
      in gbox_float_round (if FLAGS_GET_M lwfl \<noteq> 0 then gbox\<lparr>mmin := lo i, mmax := hi i\<rparr> else gbox))"

definition gserialized2_peek_gbox_p :: "bool \<Rightarrow> gserialized \<Rightarrow> gbox \<Rightarrow> gbox option res" where
  "gserialized2_peek_gbox_p be g gbox =
     (let start = gserialized2_get_geometry_p g; bs = gs_data g; nd = G2FLAGS_NDIMS (gs_gflags g);
          point = (\<lambda>off. rbind (gserialized2_get_lwflags be g) (\<lambda>lwfl.
             rbind (rd_dbls be bs off nd) (\<lambda>p. Inr (Some (peek_bounds lwfl p p gbox)))));
          segment = (\<lambda>off. rbind (gserialized2_get_lwflags be g) (\<lambda>lwfl.
             rbind (rd_dbls be bs off (2 * nd)) (\<lambda>pq. Inr (Some (peek_bounds lwfl (take nd pq) (drop nd pq) gbox)))))
      in rbind (gserialized2_get_type be g) (\<lambda>type.
         if G2FLAGS_GET_GEODETIC (gs_gflags g) \<noteq> 0 \<or> G2FLAGS_GET_BBOX (gs_gflags g) \<noteq> 0 then Inr None
         else if type = 1 then
           rbind (rd_u32 be bs (start + 4)) (\<lambda>n. if n = 0 then Inr None else point (start + 8))
         else if type = 2 then
           rbind (rd_u32 be bs (start + 4)) (\<lambda>n. if n \<noteq> 2 then Inr None else segment (start + 8))
         else if type = 4 then
           rbind (rd_u32 be bs (start + 4)) (\<lambda>ngeoms. if ngeoms \<noteq> 1 then Inr None
             else rbind (rd_u32 be bs (start + 12)) (\<lambda>n. if n \<noteq> 1 then Inr None else point (start + 16)))
         else if type = 5 then
           rbind (rd_u32 be bs (start + 4)) (\<lambda>ngeoms. if ngeoms \<noteq> 1 then Inr None
             else rbind (rd_u32 be bs (start + 12)) (\<lambda>n. if n \<noteq> 2 then Inr None else segment (start + 16)))
         else Inr None))"

definition gserialized2_copy_point :: "dbl list \<Rightarrow> u8 \<Rightarrow> point4d \<Rightarrow> point4d" where
  "gserialized2_copy_point dptr flags out_point =
     (let p = out_point\<lparr>px := dptr ! 0, py := dptr ! 1\<rparr>;
          p = (if G2FLAGS_GET_Z flags \<noteq> 0 then p\<lparr>pz := dptr ! 2\<rparr> else p)
      in if G2FLAGS_GET_M flags \<noteq> 0 then p\<lparr>pm := dptr ! (if G2FLAGS_GET_Z flags \<noteq> 0 then 3 else 2)\<rparr> else p)"

definition gserialized2_peek_first_point :: "bool \<Rightarrow> gserialized \<Rightarrow> point4d \<Rightarrow> point4d option res" where
  "gserialized2_peek_first_point be g out_point =
     (let start = gserialized2_get_geometry_p g
      in rbind (rd_u32 be (gs_data g) (start + 4)) (\<lambda>n.
         if n = 0 then Inr None
         else rbind (rd_u32 be (gs_data g) start) (\<lambda>type.
           if type \<noteq> 1 then Inl (LwError ''%s is currently not implemented for type %d'')
           else rbind (rd_dbls be (gs_data g) (start + 8) (G2FLAGS_NDIMS (gs_gflags g))) (\<lambda>d.
             Inr (Some (gserialized2_copy_point d (gs_gflags g) out_point))))))"

definition gserialized2_fast_gbox_p :: "bool \<Rightarrow> gserialized \<Rightarrow> gbox \<Rightarrow> (bool \<times> gbox) res" where
  "gserialized2_fast_gbox_p be g box =
     rbind (gserialized2_read_gbox_p be g box) (\<lambda>(ok, box).
       if ok then Inr (True, box)
       else rbind (gserialized2_peek_gbox_p be g box) (\<lambda>r.
         case r of Some box \<Rightarrow> Inr (True, box) | None \<Rightarrow> Inr (False, box)))"

section \<open>Sizes\<close>

text \<open>
  \<open>npoints * FLAGS_NDIMS(flags) * sizeof(double)\<close>: the first product is on \<open>uint32_t\<close>, the second on
  \<open>size_t\<close>.
\<close>

definition points_size :: "u32 \<Rightarrow> u16 \<Rightarrow> nat" where
  "points_size n flags = 8 * unat (n * of_nat (FLAGS_NDIMS flags))"

fun gserialized2_from_any_size :: "lwgeom \<Rightarrow> nat" where
  "gserialized2_from_any_size (LwPoint h pa) = 8 + points_size (npoints pa) (g_flags h)"
| "gserialized2_from_any_size (LwLine h pa) = 8 + points_size (npoints pa) (g_flags h)"
| "gserialized2_from_any_size (LwTriangle h pa) = 8 + points_size (npoints pa) (g_flags h)"
| "gserialized2_from_any_size (LwCircString h pa) = 8 + points_size (npoints pa) (g_flags h)"
| "gserialized2_from_any_size (LwPoly h rings) =
     8 + (if odd (length rings) then 4 else 0) +
     sum_list (map (\<lambda>pa. 4 + unat (npoints pa) * (FLAGS_NDIMS (g_flags h) * 8)) rings)"
| "gserialized2_from_any_size (LwEllipse h e) =
     8 + points_size (npoints (el_points e)) (pa_flags (el_points e)) + 40"
| "gserialized2_from_any_size (LwBezier h pa) = 8 + points_size (npoints pa) (pa_flags pa)"
| "gserialized2_from_any_size (LwColl ty h gs) = 8 + sum_list (map gserialized2_from_any_size gs)"

definition gserialized2_from_lwgeom_size :: "lwgeom \<Rightarrow> nat" where
  "gserialized2_from_lwgeom_size geom =
     8 + (if lwflags_uses_extended_flags (g_flags (g_hdr geom)) then 8 else 0) +
     (if g_bbox (g_hdr geom) \<noteq> None then gbox_serialized_size (g_flags (g_hdr geom)) else 0) +
     gserialized2_from_any_size geom"

section \<open>Writing\<close>

text \<open>A writer returns the bytes it puts at \<open>buf\<close>.\<close>

definition put_u32 :: "bool \<Rightarrow> u32 \<Rightarrow> u8 list" where
  "put_u32 be w = mem_bytes be 4 w"

definition copy_points :: "bool \<Rightarrow> ptarray \<Rightarrow> nat \<Rightarrow> u8 list res" where
  "copy_points be pa sz =
     (let d = dbl_bytes be (serialized_pointlist pa)
      in if length d < sz then Inl MemFault else Inr (take sz d))"

text \<open>\<open>npoints * ptsize\<close> is a product on \<open>uint32_t\<close>.\<close>

definition all_points :: "bool \<Rightarrow> ptarray \<Rightarrow> nat \<Rightarrow> u8 list res" where
  "all_points be pa ptsize =
     (if npoints pa = 0 then Inr [] else copy_points be pa (unat (npoints pa * of_nat ptsize)))"

definition gserialized2_from_lwpoint :: "bool \<Rightarrow> lwhdr \<Rightarrow> ptarray \<Rightarrow> u8 list res" where
  "gserialized2_from_lwpoint be h pa =
     (if FLAGS_GET_ZM (g_flags h) \<noteq> FLAGS_GET_ZM (pa_flags pa) then Inl (LwError ''Dimensions mismatch in lwpoint'')
      else rbind (if npoints pa = 0 then Inr [] else copy_points be pa (8 * pa_ndims pa)) (\<lambda>bs.
        Inr (put_u32 be 1 @ put_u32 be (npoints pa) @ bs)))"

definition gserialized2_from_lwline :: "bool \<Rightarrow> lwhdr \<Rightarrow> ptarray \<Rightarrow> u8 list res" where
  "gserialized2_from_lwline be h pa =
     (if FLAGS_GET_Z (g_flags h) \<noteq> FLAGS_GET_Z (pa_flags pa) then Inl (LwError ''Dimensions mismatch in lwline'')
      else rbind (all_points be pa (8 * pa_ndims pa)) (\<lambda>bs.
        Inr (put_u32 be 2 @ put_u32 be (npoints pa) @ bs)))"

definition gserialized2_from_lwpoly :: "bool \<Rightarrow> lwhdr \<Rightarrow> ptarray list \<Rightarrow> u8 list res" where
  "gserialized2_from_lwpoly be h rings =
     rbind (map_res (\<lambda>pa.
         if FLAGS_GET_ZM (g_flags h) \<noteq> FLAGS_GET_ZM (pa_flags pa) then Inl (LwError ''Dimensions mismatch in lwpoly'')
         else all_points be pa (8 * FLAGS_NDIMS (g_flags h))) rings) (\<lambda>bss.
       Inr (put_u32 be 3 @ put_u32 be (of_nat (length rings)) @
         concat (map (\<lambda>pa. put_u32 be (npoints pa)) rings) @
         (if odd (length rings) then replicate 4 0 else []) @ concat bss))"

definition gserialized2_from_lwtriangle :: "bool \<Rightarrow> lwhdr \<Rightarrow> ptarray \<Rightarrow> u8 list res" where
  "gserialized2_from_lwtriangle be h pa =
     (if FLAGS_GET_ZM (g_flags h) \<noteq> FLAGS_GET_ZM (pa_flags pa) then Inl (LwError ''Dimensions mismatch in lwtriangle'')
      else rbind (all_points be pa (8 * pa_ndims pa)) (\<lambda>bs.
        Inr (put_u32 be 14 @ put_u32 be (npoints pa) @ bs)))"

definition gserialized2_from_lwcircstring :: "bool \<Rightarrow> lwhdr \<Rightarrow> ptarray \<Rightarrow> u8 list res" where
  "gserialized2_from_lwcircstring be h pa =
     (if FLAGS_GET_ZM (g_flags h) \<noteq> FLAGS_GET_ZM (pa_flags pa) then Inl (LwError ''Dimensions mismatch in lwcircstring'')
      else rbind (all_points be pa (8 * pa_ndims pa)) (\<lambda>bs.
        Inr (put_u32 be 8 @ put_u32 be (npoints pa) @ bs)))"

definition gserialized2_from_lwellipse :: "bool \<Rightarrow> ellipse \<Rightarrow> u8 list res" where
  "gserialized2_from_lwellipse be e =
     (let pa = el_points e
      in rbind (all_points be pa (8 * pa_ndims pa)) (\<lambda>bs.
        Inr (put_u32 be 16 @ put_u32 be (npoints pa) @ bs @
          dbl_bytes be [el_minor e, el_clockwise e, el_rotation e, el_axis e, el_ratio e])))"

definition gserialized2_from_lwbezier :: "bool \<Rightarrow> ptarray \<Rightarrow> u8 list res" where
  "gserialized2_from_lwbezier be pa =
     rbind (all_points be pa (8 * pa_ndims pa)) (\<lambda>bs.
       Inr (put_u32 be 17 @ put_u32 be (npoints pa) @ bs))"

fun gserialized2_from_lwgeom_any :: "bool \<Rightarrow> lwgeom \<Rightarrow> u8 list res" where
  "gserialized2_from_lwgeom_any be (LwPoint h pa) = gserialized2_from_lwpoint be h pa"
| "gserialized2_from_lwgeom_any be (LwLine h pa) = gserialized2_from_lwline be h pa"
| "gserialized2_from_lwgeom_any be (LwPoly h rings) = gserialized2_from_lwpoly be h rings"
| "gserialized2_from_lwgeom_any be (LwTriangle h pa) = gserialized2_from_lwtriangle be h pa"
| "gserialized2_from_lwgeom_any be (LwCircString h pa) = gserialized2_from_lwcircstring be h pa"
| "gserialized2_from_lwgeom_any be (LwEllipse h e) = gserialized2_from_lwellipse be e"
| "gserialized2_from_lwgeom_any be (LwBezier h pa) = gserialized2_from_lwbezier be pa"
| "gserialized2_from_lwgeom_any be (LwColl ty h gs) =
     rbind (map_res (\<lambda>g.
         if FLAGS_GET_ZM (g_flags h) \<noteq> FLAGS_GET_ZM (g_flags (g_hdr g))
         then Inl (LwError ''Dimensions mismatch in lwcollection'')
         else gserialized2_from_lwgeom_any be g) gs) (\<lambda>bss.
       Inr (put_u32 be (ucast ty) @ put_u32 be (of_nat (length gs)) @ concat bss))"

definition gserialized2_from_extended_flags :: "bool \<Rightarrow> u16 \<Rightarrow> u8 list" where
  "gserialized2_from_extended_flags be fl =
     (if lwflags_uses_extended_flags fl
      then mem_bytes be 8 (if FLAGS_GET_SOLID fl \<noteq> 0 then 0 OR G2FLAG_X_SOLID else 0 :: u64)
      else [])"

definition gserialized2_from_gbox :: "bool \<Rightarrow> gbox \<Rightarrow> u8 list" where
  "gserialized2_from_gbox be gbox =
     flt_bytes be
       ([next_float_down (xmin gbox), next_float_up (xmax gbox), next_float_down (ymin gbox), next_float_up (ymax gbox)] @
        (if FLAGS_GET_GEODETIC (gb_flags gbox) \<noteq> 0 then [next_float_down (zmin gbox), next_float_up (zmax gbox)]
         else
           (if FLAGS_GET_Z (gb_flags gbox) \<noteq> 0 then [next_float_down (zmin gbox), next_float_up (zmax gbox)] else []) @
           (if FLAGS_GET_M (gb_flags gbox) \<noteq> 0 then [next_float_down (mmin gbox), next_float_up (mmax gbox)] else [])))"

text \<open>
  What the functions below take from elsewhere: the byte order of the machine, the floating-point
  computations of boxes, and what an uninitialised \<open>GBOX\<close> on the stack contains.
\<close>

record gs_env =
  big_endian :: bool
  curves :: curve_ops
  geodetic_gbox :: "lwgeom \<Rightarrow> gbox \<Rightarrow> gbox option"
  stack_gbox :: gbox

text \<open>The geometry is given a box if it needs one, and its flags say whether it has one.\<close>

definition gserialized2_prepare :: "gs_env \<Rightarrow> lwgeom \<Rightarrow> lwgeom" where
  "gserialized2_prepare env geom =
     (let geom = (if g_bbox (g_hdr geom) = None \<and> lwgeom_needs_bbox geom \<and> \<not> lwgeom_is_empty geom
                  then lwgeom_add_bbox (curves env) (geodetic_gbox env) geom else geom)
      in map_hdr (\<lambda>h. h\<lparr>g_flags := FLAGS_SET_BBOX (g_flags h) (g_bbox h \<noteq> None)\<rparr>) geom)"

text \<open>The bytes behind the header go to a block of \<open>expected_size\<close> bytes; \<open>gs_srid\<close> and \<open>gs_gflags\<close> are set in full.\<close>

definition gserialized2_from_lwgeom :: "gs_env \<Rightarrow> lwgeom \<Rightarrow> gserialized res" where
  "gserialized2_from_lwgeom env geom =
     (let be = big_endian env; geom = gserialized2_prepare env geom; h = g_hdr geom;
          expected_size = gserialized2_from_lwgeom_size geom;
          g = gserialized2_set_srid (g_srid h) \<lparr>gs_size = 0, gs_srid = (0, 0, 0), gs_gflags = 0, gs_data = []\<rparr>;
          g = g\<lparr>gs_size := LWSIZE_SET be expected_size, gs_gflags := lwflags_get_g2flags (g_flags h)\<rparr>
      in rbind (gserialized2_from_lwgeom_any be geom) (\<lambda>body.
           let bs = gserialized2_from_extended_flags be (g_flags h) @
                 (case g_bbox h of None \<Rightarrow> [] | Some b \<Rightarrow> gserialized2_from_gbox be b) @ body
           in if expected_size < 8 + length bs then Inl MemFault
              else if expected_size \<noteq> 8 + length bs then Inl (LwError ''assert(expected_size == return_size)'')
              else Inr (g\<lparr>gs_data := bs\<rparr>)))"

section \<open>Reading\<close>

definition gser_hdr :: "u16 \<Rightarrow> i32 \<Rightarrow> lwhdr" where
  "gser_hdr fl srid = \<lparr>g_bbox = None, g_srid = srid, g_flags = fl\<rparr>"

text \<open>\<open>ptarray_construct_reference_data\<close> on the memory at an offset.\<close>

definition points_at :: "bool \<Rightarrow> u16 \<Rightarrow> u32 \<Rightarrow> u8 list \<Rightarrow> nat \<Rightarrow> ptarray res" where
  "points_at be fl n bs off =
     rbind (rd_dbls be bs off (unat n * FLAGS_NDIMS fl)) (\<lambda>ds.
       Inr (ptarray_construct_reference_data (FLAGS_GET_Z fl \<noteq> 0) (FLAGS_GET_M fl \<noteq> 0) n ds))"

definition no_points :: "u16 \<Rightarrow> ptarray" where
  "no_points fl = ptarray_construct_empty (FLAGS_GET_Z fl \<noteq> 0) (FLAGS_GET_M fl \<noteq> 0) 0"

definition lwpoint_from_gserialized2_buffer :: "bool \<Rightarrow> u16 \<Rightarrow> i32 \<Rightarrow> u8 list \<Rightarrow> (lwgeom \<times> nat) res" where
  "lwpoint_from_gserialized2_buffer be fl srid bs =
     rbind (rd_u32 be bs 4) (\<lambda>n.
     rbind (if 0 < n then points_at be fl 1 bs 8 else Inr (no_points fl)) (\<lambda>pa.
       Inr (LwPoint (gser_hdr fl srid) pa, 8 + points_size n fl)))"

text \<open>Lines, triangles and circular strings are read in the same way.\<close>

definition lwline_from_gserialized2_buffer :: "bool \<Rightarrow> u16 \<Rightarrow> i32 \<Rightarrow> u8 list \<Rightarrow> (lwgeom \<times> nat) res" where
  "lwline_from_gserialized2_buffer be fl srid bs =
     rbind (rd_u32 be bs 4) (\<lambda>n.
     rbind (if 0 < n then points_at be fl n bs 8 else Inr (no_points fl)) (\<lambda>pa.
       Inr (LwLine (gser_hdr fl srid) pa, 8 + points_size n fl)))"

definition lwtriangle_from_gserialized2_buffer :: "bool \<Rightarrow> u16 \<Rightarrow> i32 \<Rightarrow> u8 list \<Rightarrow> (lwgeom \<times> nat) res" where
  "lwtriangle_from_gserialized2_buffer be fl srid bs =
     rbind (rd_u32 be bs 4) (\<lambda>n.
     rbind (if 0 < n then points_at be fl n bs 8 else Inr (no_points fl)) (\<lambda>pa.
       Inr (LwTriangle (gser_hdr fl srid) pa, 8 + points_size n fl)))"

definition lwcircstring_from_gserialized2_buffer :: "bool \<Rightarrow> u16 \<Rightarrow> i32 \<Rightarrow> u8 list \<Rightarrow> (lwgeom \<times> nat) res" where
  "lwcircstring_from_gserialized2_buffer be fl srid bs =
     rbind (rd_u32 be bs 4) (\<lambda>n.
     rbind (if 0 < n then points_at be fl n bs 8 else Inr (no_points fl)) (\<lambda>pa.
       Inr (LwCircString (gser_hdr fl srid) pa, 8 + points_size n fl)))"

text \<open>
  The rings: \<open>k\<close> more of them, with the counts from \<open>cnt\<close> on and the ordinates from \<open>off\<close> on.
\<close>

primrec gser_rings :: "bool \<Rightarrow> u16 \<Rightarrow> u8 list \<Rightarrow> nat \<Rightarrow> nat \<Rightarrow> nat \<Rightarrow> (ptarray list \<times> nat) res" where
  "gser_rings be fl bs 0 cnt off = Inr ([], off)"
| "gser_rings be fl bs (Suc k) cnt off =
     rbind (rd_u32 be bs cnt) (\<lambda>n.
     rbind (points_at be fl n bs off) (\<lambda>pa.
     rbind (gser_rings be fl bs k (cnt + 4) (off + 8 * FLAGS_NDIMS fl * unat n)) (\<lambda>r.
       Inr (pa # fst r, snd r))))"

definition lwpoly_from_gserialized2_buffer :: "bool \<Rightarrow> u16 \<Rightarrow> i32 \<Rightarrow> u8 list \<Rightarrow> (lwgeom \<times> nat) res" where
  "lwpoly_from_gserialized2_buffer be fl srid bs =
     rbind (rd_u32 be bs 4) (\<lambda>nrings.
       let ordinate_ptr = (if 0 < nrings then 8 + unat (nrings * 4) + (if odd (unat nrings) then 4 else 0) else 8)
       in rbind (gser_rings be fl bs (unat nrings) 8 ordinate_ptr) (\<lambda>r.
            Inr (LwPoly (gser_hdr fl srid) (fst r), snd r)))"

text \<open>
  The count is an \<open>int\<close> here. Without points the pointer to the array is left uninitialised: a fault.
\<close>

definition lwellipse_from_gserialized2_buffer :: "bool \<Rightarrow> u16 \<Rightarrow> i32 \<Rightarrow> u8 list \<Rightarrow> (lwgeom \<times> nat) res" where
  "lwellipse_from_gserialized2_buffer be fl srid bs =
     rbind (rd_u32 be bs 4) (\<lambda>n.
       if n \<le>s 0 then Inl MemFault
       else rbind (points_at be fl n bs 8) (\<lambda>pa.
         let off = 8 + 8 * (FLAGS_NDIMS fl * unat n)
         in rbind (rd_dbls be bs off 5) (\<lambda>d.
           Inr (LwEllipse (gser_hdr fl srid)
                 \<lparr>el_points = pa, el_minor = d ! 0, el_clockwise = d ! 1, el_rotation = d ! 2, el_axis = d ! 3,
                  el_ratio = d ! 4\<rparr>, off + 40))))"

definition lwbezier_from_gserialized2_buffer :: "bool \<Rightarrow> u16 \<Rightarrow> i32 \<Rightarrow> u8 list \<Rightarrow> (lwgeom \<times> nat) res" where
  "lwbezier_from_gserialized2_buffer be fl srid bs =
     rbind (rd_u32 be bs 4) (\<lambda>n.
       if n \<le>s 0 then Inl MemFault
       else rbind (points_at be fl n bs 8) (\<lambda>pa.
         Inr (LwBezier (gser_hdr fl srid) pa, 8 + 8 * (FLAGS_NDIMS fl * unat n))))"

text \<open>
  Members are read with the flag of the box cleared, each after a check of its type; \<open>read_member\<close> reads
  one from the front of the memory.
\<close>

definition lwcollection_from_gserialized2_buffer ::
  "(u16 \<Rightarrow> u8 list \<Rightarrow> (lwgeom \<times> nat) res) \<Rightarrow> bool \<Rightarrow> u16 \<Rightarrow> i32 \<Rightarrow> u8 list \<Rightarrow> (lwgeom \<times> nat) res" where
  "lwcollection_from_gserialized2_buffer read_member be fl srid bs =
     rbind (rd_u32 be bs 0) (\<lambda>type.
     rbind (rd_u32 be bs 4) (\<lambda>ngeoms.
       let fl' = FLAGS_SET_BBOX fl False
       in rbind (decode_items (\<lambda>bs.
            rbind (rd_u32 be bs 0) (\<lambda>subtype.
              if subtype \<noteq> ucast (ucast subtype :: u8) \<or>
                 \<not> lwcollection_allows_subtype (ucast type) (ucast subtype)
              then if type = 7 \<and> subtype \<noteq> ucast (ucast subtype :: u8)
                then Inl (LwError ''Unknown geometry type: %d - %s'')
                else Inl (LwError ''Invalid subtype (%s) for collection type (%s)'')
              else read_member fl' bs)) (unat ngeoms) (drop 8 bs)) (\<lambda>r.
            Inr (LwColl (ucast type) (gser_hdr fl srid) (fst r), 8 + snd r))))"

text \<open>\<open>fuel\<close> is the call depth available.\<close>

primrec lwgeom_from_gserialized2_buffer ::
  "nat \<Rightarrow> bool \<Rightarrow> i32 \<Rightarrow> u16 \<Rightarrow> u8 list \<Rightarrow> (lwgeom \<times> nat) res" where
  "lwgeom_from_gserialized2_buffer 0 be srid fl bs = Inl StackOverflow"
| "lwgeom_from_gserialized2_buffer (Suc fuel) be srid fl bs =
     rbind (rd_u32 be bs 0) (\<lambda>type.
       if type = 1 then lwpoint_from_gserialized2_buffer be fl srid bs
       else if type = 2 then lwline_from_gserialized2_buffer be fl srid bs
       else if type = 8 then lwcircstring_from_gserialized2_buffer be fl srid bs
       else if type = 3 then lwpoly_from_gserialized2_buffer be fl srid bs
       else if type = 14 then lwtriangle_from_gserialized2_buffer be fl srid bs
       else if type = 16 then lwellipse_from_gserialized2_buffer be fl srid bs
       else if type = 17 then lwbezier_from_gserialized2_buffer be fl srid bs
       else if type \<in> {4, 5, 6, 9, 10, 11, 12, 13, 15, 7}
       then lwcollection_from_gserialized2_buffer (lwgeom_from_gserialized2_buffer fuel be srid) be fl srid bs
       else Inl (LwError ''Unknown geometry type: %d - %s''))"

definition lwgeom_from_gserialized2 :: "nat \<Rightarrow> gs_env \<Rightarrow> gserialized \<Rightarrow> lwgeom res" where
  "lwgeom_from_gserialized2 fuel env g =
     (let be = big_endian env; srid = gserialized2_get_srid g
      in rbind (gserialized2_get_type be g) (\<lambda>_.
         rbind (gserialized2_get_lwflags be g) (\<lambda>fl.
           let off = (if gserialized2_has_extended g then 8 else 0) +
                 (if FLAGS_GET_BBOX fl \<noteq> 0 then gbox_serialized_size fl else 0)
           in rbind (lwgeom_from_gserialized2_buffer fuel be srid fl (drop off (gs_data g))) (\<lambda>gk.
              let geom = map_hdr (\<lambda>h. h\<lparr>g_flags := fl\<rparr>) (fst gk)
              in rbind (gserialized2_read_gbox_p be g (stack_gbox env)) (\<lambda>r.
                 Inr (map_hdr (\<lambda>h. h\<lparr>g_bbox :=
                     (if fst r then Some (snd r)
                      else if lwgeom_needs_bbox geom
                      then lwgeom_calculate_gbox (curves env) (geodetic_gbox env) geom (snd r)
                      else None)\<rparr>) geom))))))"

section \<open>Setting and dropping the box\<close>

text \<open>
  The gap made for the box is not initialised; zeros stand for its contents. The box is written at the start of
  the data area, also when that holds the extended flags. \<open>None\<close>: the null pointer.
\<close>

definition gserialized2_set_gbox :: "bool \<Rightarrow> gserialized \<Rightarrow> gbox \<Rightarrow> gserialized option res" where
  "gserialized2_set_gbox be g gbox =
     (let g_ndims = G2FLAGS_NDIMS_BOX (gs_gflags g); box_ndims = FLAGS_NDIMS_BOX (gb_flags gbox);
          box_size = 2 * g_ndims * 4; ext = (if gserialized2_has_extended g then 8 else 0)
      in if g_ndims \<noteq> box_ndims then Inr None
         else rbind
           (if gserialized2_has_bbox g then Inr g
            else
              let varsize_in = unat (LWSIZE_GET be (gs_size g)); body = varsize_in - 8 - ext
              in if varsize_in < 8 + ext \<or> length (gs_data g) < ext + body then Inl MemFault
                 else Inr (g\<lparr>gs_data := take ext (gs_data g) @ replicate box_size 0 @ take body (drop ext (gs_data g)),
                        gs_gflags := G2FLAGS_SET_BBOX (gs_gflags g) True,
                        gs_size := LWSIZE_SET be (varsize_in + box_size)\<rparr>)) (\<lambda>g_out.
           let gbox = gbox_float_round gbox;
               fbox = flt_bytes be (map flt_of_dbl
                 ([xmin gbox, xmax gbox, ymin gbox, ymax gbox] @
                  (if gserialized2_has_z g \<or> gserialized2_is_geodetic g then [zmin gbox, zmax gbox] else []) @
                  (if gserialized2_has_m g \<and> \<not> gserialized2_is_geodetic g then [mmin gbox, mmax gbox] else [])))
           in if length (gs_data g_out) < length fbox then Inl MemFault
              else Inr (Some (g_out\<lparr>gs_data := fbox @ drop (length fbox) (gs_data g_out)\<rparr>))))"

definition gserialized2_drop_gbox :: "bool \<Rightarrow> gserialized \<Rightarrow> gserialized res" where
  "gserialized2_drop_gbox be g =
     (let box_size = 2 * G2FLAGS_NDIMS_BOX (gs_gflags g) * 4;
          g_size = unat (LWSIZE_GET be (gs_size g)); g_out_size = g_size - box_size
      in if g_size < box_size + 8 then Inl MemFault
         else if gserialized2_has_bbox g
         then if gserialized2_has_extended g then Inl MemFault
           else if length (gs_data g) < box_size + (g_out_size - 8) then Inl MemFault
           else Inr (g\<lparr>gs_data := take (g_out_size - 8) (drop box_size (gs_data g)),
                  gs_gflags := G2FLAGS_SET_BBOX (gs_gflags g) False, gs_size := LWSIZE_SET be g_out_size\<rparr>)
         else if length (gs_data g) < g_out_size - 8 then Inl MemFault
         else Inr (g\<lparr>gs_data := take (g_out_size - 8) (gs_data g)\<rparr>))"

text \<open>\<open>hashlittle2\<close> is the hash function of lookup3.c on a block of memory and two initial values.\<close>

definition gserialized2_hash :: "(u8 list \<Rightarrow> u32 \<Rightarrow> u32 \<Rightarrow> u32 \<times> u32) \<Rightarrow> bool \<Rightarrow> gserialized \<Rightarrow> i32 res" where
  "gserialized2_hash hashlittle2 be g1 =
     (let hsz1 = gserialized2_header_size g1; sz1 = unat (LWSIZE_GET be (gs_size g1)); bsz1 = sz1 - hsz1;
          srid = gserialized2_get_srid g1
      in if sz1 < hsz1 \<or> length (gs_data g1) < sz1 - 8 then Inl MemFault
         else let (pb, pc) = hashlittle2 (mem_bytes be 4 srid @ take bsz1 (drop (hsz1 - 8) (gs_data g1))) 0 0
           in Inr (pb XOR pc))"

section \<open>The format\<close>

text \<open>The bytes of the format behind the header, extended flags and box.\<close>

fun gs_body :: "bool \<Rightarrow> lwgeom \<Rightarrow> u8 list" where
  "gs_body be (LwPoint h pa) = put_u32 be 1 @ put_u32 be (npoints pa) @ dbl_bytes be (serialized_pointlist pa)"
| "gs_body be (LwLine h pa) = put_u32 be 2 @ put_u32 be (npoints pa) @ dbl_bytes be (serialized_pointlist pa)"
| "gs_body be (LwPoly h rings) =
     put_u32 be 3 @ put_u32 be (of_nat (length rings)) @ concat (map (\<lambda>pa. put_u32 be (npoints pa)) rings) @
     (if odd (length rings) then replicate 4 0 else []) @
     concat (map (\<lambda>pa. dbl_bytes be (serialized_pointlist pa)) rings)"
| "gs_body be (LwTriangle h pa) = put_u32 be 14 @ put_u32 be (npoints pa) @ dbl_bytes be (serialized_pointlist pa)"
| "gs_body be (LwCircString h pa) = put_u32 be 8 @ put_u32 be (npoints pa) @ dbl_bytes be (serialized_pointlist pa)"
| "gs_body be (LwEllipse h e) =
     put_u32 be 16 @ put_u32 be (npoints (el_points e)) @ dbl_bytes be (serialized_pointlist (el_points e)) @
     dbl_bytes be [el_minor e, el_clockwise e, el_rotation e, el_axis e, el_ratio e]"
| "gs_body be (LwBezier h pa) = put_u32 be 17 @ put_u32 be (npoints pa) @ dbl_bytes be (serialized_pointlist pa)"
| "gs_body be (LwColl ty h gs) =
     put_u32 be (ucast ty) @ put_u32 be (of_nat (length gs)) @ concat (map (gs_body be) gs)"

text \<open>What the format can hold: one pair of dimensions \<open>zm\<close> throughout, sizes below 4 GB, members that their
  collection allows, points of at most one point.\<close>

definition gs_array :: "bool \<times> bool \<Rightarrow> ptarray \<Rightarrow> bool" where
  "gs_array zm pa \<longleftrightarrow> pa_wf pa \<and> bit (pa_flags pa) 0 = fst zm \<and> bit (pa_flags pa) 1 = snd zm \<and>
     8 * (pa_ndims pa * unat (npoints pa)) < 2 ^ 32"

definition gs_flags :: "bool \<times> bool \<Rightarrow> lwhdr \<Rightarrow> bool" where
  "gs_flags zm h \<longleftrightarrow> bit (g_flags h) 0 = fst zm \<and> bit (g_flags h) 1 = snd zm"

fun gs_ok :: "bool \<times> bool \<Rightarrow> lwgeom \<Rightarrow> bool" where
  "gs_ok zm (LwPoint h pa) = (gs_flags zm h \<and> gs_array zm pa \<and> npoints pa \<le> 1)"
| "gs_ok zm (LwLine h pa) = (gs_flags zm h \<and> gs_array zm pa)"
| "gs_ok zm (LwTriangle h pa) = (gs_flags zm h \<and> gs_array zm pa)"
| "gs_ok zm (LwCircString h pa) = (gs_flags zm h \<and> gs_array zm pa)"
| "gs_ok zm (LwPoly h rings) = (gs_flags zm h \<and> list_all (gs_array zm) rings \<and> length rings < 2 ^ 30)"
| "gs_ok zm (LwEllipse h e) = (gs_flags zm h \<and> gs_array zm (el_points e) \<and> npoints (el_points e) \<noteq> 0)"
| "gs_ok zm (LwBezier h pa) = (gs_flags zm h \<and> gs_array zm pa \<and> npoints pa \<noteq> 0)"
| "gs_ok zm (LwColl ty h gs) =
     (gs_flags zm h \<and> lwtype_is_collection ty \<and> length gs < 2 ^ 32 \<and>
      list_all (\<lambda>g. lwcollection_allows_subtype ty (lwgeom_get_type g) \<and> gs_ok zm g) gs)"

text \<open>The form in which a geometry is read back: flags and SRID of the datum everywhere, read-only arrays.\<close>

definition gs_canon_array :: "u16 \<Rightarrow> ptarray \<Rightarrow> ptarray" where
  "gs_canon_array fl pa =
     ptarray_construct_reference_data (FLAGS_GET_Z fl \<noteq> 0) (FLAGS_GET_M fl \<noteq> 0) (npoints pa) (serialized_pointlist pa)"

definition gs_canon_points :: "u16 \<Rightarrow> ptarray \<Rightarrow> ptarray" where
  "gs_canon_points fl pa = (if npoints pa = 0 then no_points fl else gs_canon_array fl pa)"

fun gs_canon :: "u16 \<Rightarrow> i32 \<Rightarrow> lwgeom \<Rightarrow> lwgeom" where
  "gs_canon fl srid (LwPoint h pa) = LwPoint (gser_hdr fl srid) (gs_canon_points fl pa)"
| "gs_canon fl srid (LwLine h pa) = LwLine (gser_hdr fl srid) (gs_canon_points fl pa)"
| "gs_canon fl srid (LwTriangle h pa) = LwTriangle (gser_hdr fl srid) (gs_canon_points fl pa)"
| "gs_canon fl srid (LwCircString h pa) = LwCircString (gser_hdr fl srid) (gs_canon_points fl pa)"
| "gs_canon fl srid (LwPoly h rings) = LwPoly (gser_hdr fl srid) (map (gs_canon_array fl) rings)"
| "gs_canon fl srid (LwEllipse h e) = LwEllipse (gser_hdr fl srid) (e\<lparr>el_points := gs_canon_array fl (el_points e)\<rparr>)"
| "gs_canon fl srid (LwBezier h pa) = LwBezier (gser_hdr fl srid) (gs_canon_array fl pa)"
| "gs_canon fl srid (LwColl ty h gs) =
     LwColl ty (gser_hdr fl srid) (map (gs_canon (FLAGS_SET_BBOX fl False) srid) gs)"

text \<open>The nesting of a geometry.\<close>

fun gs_depth :: "lwgeom \<Rightarrow> nat" where
  "gs_depth (LwColl ty h gs) = Suc (foldr max (map gs_depth gs) 0)"
| "gs_depth g = 1"

section \<open>Lengths\<close>

lemma length_put_u32 [simp]: "length (put_u32 be w) = 4"
  by (simp add: put_u32_def)

lemma length_dbl_bytes [simp]: "length (dbl_bytes be ds) = 8 * length ds"
  by (simp add: dbl_bytes_def concat_const_length)

lemma length_flt_bytes [simp]: "length (flt_bytes be fs) = 4 * length fs"
  by (simp add: flt_bytes_def concat_const_length)

lemma gs_array_length: "gs_array zm pa \<Longrightarrow> length (serialized_pointlist pa) = pa_ndims pa * unat (npoints pa)"
  by (simp add: gs_array_def pa_wf_def)

lemma gs_dims:
  "gs_flags zm h \<Longrightarrow> gs_array zm pa \<Longrightarrow> FLAGS_NDIMS (g_flags h) = pa_ndims pa"
  "gs_flags zm h \<Longrightarrow> gs_array zm pa \<Longrightarrow> FLAGS_GET_ZM (g_flags h) = FLAGS_GET_ZM (pa_flags pa)"
  "gs_flags zm h \<Longrightarrow> gs_array zm pa \<Longrightarrow> FLAGS_GET_Z (g_flags h) = FLAGS_GET_Z (pa_flags pa)"
  by (simp_all add: gs_array_def gs_flags_def FLAGS_NDIMS_bits ZM_eq_iff flags_simps)

lemma gs_product:
  assumes "8 * (FLAGS_NDIMS f * unat n) < 2 ^ 32"
  shows "points_size n f = 8 * (FLAGS_NDIMS f * unat n)"
    and "unat (n * of_nat (8 * FLAGS_NDIMS f) :: u32) = 8 * (FLAGS_NDIMS f * unat n)"
proof -
  have nd: "unat (of_nat (8 * FLAGS_NDIMS f) :: u32) = 8 * FLAGS_NDIMS f" "unat (of_nat (FLAGS_NDIMS f) :: u32) = FLAGS_NDIMS f"
    using FLAGS_NDIMS_cases[of f] by auto
  have "unat n * unat (of_nat (8 * FLAGS_NDIMS f) :: u32) < 2 ^ LENGTH(32)"
    "unat n * unat (of_nat (FLAGS_NDIMS f) :: u32) < 2 ^ LENGTH(32)"
    using assms unfolding nd by (simp_all add: mult.commute mult.left_commute)
  note this[THEN unat_mult_lem[THEN iffD1]]
  then show "points_size n f = 8 * (FLAGS_NDIMS f * unat n)"
    and "unat (n * of_nat (8 * FLAGS_NDIMS f) :: u32) = 8 * (FLAGS_NDIMS f * unat n)"
    unfolding nd points_size_def by (simp_all only: mult.commute mult.left_commute)
qed

lemma dbl_bytes_Nil [simp]: "dbl_bytes be [] = []"
  by (simp add: dbl_bytes_def)

lemma all_points_ok:
  assumes "gs_array zm pa"
  shows "all_points be pa (8 * pa_ndims pa) = Inr (dbl_bytes be (serialized_pointlist pa))"
    and "points_size (npoints pa) (pa_flags pa) = length (dbl_bytes be (serialized_pointlist pa))"
proof -
  note p = gs_product[of "pa_flags pa" "npoints pa"]
  have b: "8 * (pa_ndims pa * unat (npoints pa)) < 2 ^ 32" using assms by (simp add: gs_array_def)
  show "points_size (npoints pa) (pa_flags pa) = length (dbl_bytes be (serialized_pointlist pa))"
    using p(1)[OF b] gs_array_length[OF assms] by simp
  show "all_points be pa (8 * pa_ndims pa) = Inr (dbl_bytes be (serialized_pointlist pa))"
    using p(2)[OF b] gs_array_length[OF assms]
    by (auto simp: all_points_def copy_points_def Let_def)
qed

section \<open>The writer writes the format\<close>

lemma sum_list_const_len: "sum_list (map (\<lambda>x. 4 + f x) xs) = 4 * length xs + sum_list (map f xs)" for f :: "'a \<Rightarrow> nat"
  by (induction xs) simp_all

lemma gs_ok_flags: "gs_ok zm g \<Longrightarrow> gs_flags zm (g_hdr g)"
  by (cases g) simp_all

lemma gs_flags_ZM: "gs_flags zm h \<Longrightarrow> gs_flags zm h' \<Longrightarrow> FLAGS_GET_ZM (g_flags h) = FLAGS_GET_ZM (g_flags h')"
  by (simp add: gs_flags_def ZM_eq_iff)

lemma ring_sizes:
  "list_all (gs_array zm) rings \<Longrightarrow> gs_flags zm h \<Longrightarrow>
   sum_list (map (\<lambda>pa. unat (npoints pa) * (FLAGS_NDIMS (g_flags h) * 8)) rings)
     = length (concat (map (\<lambda>pa. dbl_bytes be (serialized_pointlist pa)) rings))"
  by (induction rings) (simp_all add: gs_array_length[of zm] gs_dims(1)[of zm h] mult.commute mult.left_commute)

lemma concat_const4: "length (concat (map (\<lambda>pa. put_u32 be (f pa)) xs)) = 4 * length xs"
  by (simp add: concat_const_length)

lemma gs_any_size: "gs_ok zm g \<Longrightarrow> gserialized2_from_any_size g = length (gs_body be g)"
proof (induction g)
  case (LwPoly h rings)
  then show ?case using ring_sizes[of zm rings h be]
    by (simp add: sum_list_const_len concat_const4)
next
  case (LwColl ty h gs)
  then have "\<forall>g \<in> set gs. gserialized2_from_any_size g = length (gs_body be g)"
    by (auto simp: list_all_iff)
  then show ?case by (simp add: length_concat comp_def cong: map_cong)
next
  case (LwPoint h pa)
  then show ?case using all_points_ok(2)[of zm pa be] by (auto simp: points_size_def dest: gs_dims(1))
next
  case (LwLine h pa)
  then show ?case using all_points_ok(2)[of zm pa be] by (auto simp: points_size_def dest: gs_dims(1))
next
  case (LwCircString h pa)
  then show ?case using all_points_ok(2)[of zm pa be] by (auto simp: points_size_def dest: gs_dims(1))
next
  case (LwTriangle h pa)
  then show ?case using all_points_ok(2)[of zm pa be] by (auto simp: points_size_def dest: gs_dims(1))
qed (use all_points_ok(2)[of zm] in auto)

lemma point_copy:
  assumes "gs_array zm pa" and "npoints pa \<le> 1" and "npoints pa \<noteq> 0"
  shows "copy_points be pa (8 * pa_ndims pa) = Inr (dbl_bytes be (serialized_pointlist pa))"
proof -
  have "unat (npoints pa) \<le> 1" "0 < unat (npoints pa)"
    using assms(2,3) by (simp_all add: word_le_nat_alt unat_gt_0)
  then have "unat (npoints pa) = 1" by linarith
  then show ?thesis using gs_array_length[OF assms(1)] by (simp add: copy_points_def)
qed

lemma no_ordinates: "gs_array zm pa \<Longrightarrow> npoints pa = 0 \<Longrightarrow> serialized_pointlist pa = []"
  using gs_array_length[of zm pa] by simp

lemma gs_writer: "gs_ok zm g \<Longrightarrow> gserialized2_from_lwgeom_any be g = Inr (gs_body be g)"
proof (induction g)
  case (LwPoint h pa)
  then show ?case using gs_dims(2)[of zm h pa] point_copy[of zm pa be] no_ordinates[of zm pa]
    by (simp add: gserialized2_from_lwpoint_def)
next
  case (LwPoly h rings)
  have "map_res (\<lambda>pa. if FLAGS_GET_ZM (g_flags h) \<noteq> FLAGS_GET_ZM (pa_flags pa)
        then Inl (LwError ''Dimensions mismatch in lwpoly'') else all_points be pa (8 * FLAGS_NDIMS (g_flags h))) rings
      = Inr (map (\<lambda>pa. dbl_bytes be (serialized_pointlist pa)) rings)"
    using LwPoly gs_dims[of zm h] all_points_ok(1)[of zm] by (intro map_res_Inr) (auto simp: list_all_iff)
  then show ?case by (simp add: gserialized2_from_lwpoly_def)
next
  case (LwColl ty h gs)
  have "map_res (\<lambda>g. if FLAGS_GET_ZM (g_flags h) \<noteq> FLAGS_GET_ZM (g_flags (g_hdr g))
        then Inl (LwError ''Dimensions mismatch in lwcollection'') else gserialized2_from_lwgeom_any be g) gs
      = Inr (map (gs_body be) gs)"
    using LwColl gs_flags_ZM[of zm h] gs_ok_flags[of zm] by (intro map_res_Inr) (auto simp: list_all_iff)
  then show ?case by simp
qed (auto simp: gserialized2_from_lwline_def gserialized2_from_lwtriangle_def gserialized2_from_lwcircstring_def
  gserialized2_from_lwellipse_def gserialized2_from_lwbezier_def Let_def gs_dims all_points_ok(1))

section \<open>The reader reads it back\<close>

lemma rd_u32_at [simp]:
  "rd_u32 be (put_u32 be w @ r) 0 = Inr w"
  "rd_u32 be (put_u32 be v @ put_u32 be w @ r) 4 = Inr w"
  by (simp_all add: rd_u32_def put_u32_def)

lemma rd_u32_behind: "rd_u32 be (xs @ put_u32 be w @ r) (length xs) = Inr w"
  by (simp add: rd_u32_def put_u32_def)

lemma map_chunks_dbl: "map (mem_word be) (chunks 8 (length ds) (dbl_bytes be ds @ r)) = ds"
proof -
  have "chunks 8 (length ds) (dbl_bytes be ds @ r) = map (mem_bytes be 8) ds"
    unfolding dbl_bytes_def by (rule chunks_concat) simp_all
  then show ?thesis by (simp add: comp_def)
qed

lemma rd_dbls_behind:
  "off = length xs \<Longrightarrow> n = length ds \<Longrightarrow> rd_dbls be (xs @ dbl_bytes be ds @ r) off n = Inr ds"
  by (simp add: rd_dbls_def map_chunks_dbl)

text \<open>Flags of dimensions \<open>zm\<close>.\<close>

definition fl_dims :: "bool \<times> bool \<Rightarrow> u16 \<Rightarrow> bool" where
  "fl_dims zm fl \<longleftrightarrow> bit fl 0 = fst zm \<and> bit fl 1 = snd zm"

lemma fl_dims_ndims: "fl_dims zm fl \<Longrightarrow> gs_array zm pa \<Longrightarrow> FLAGS_NDIMS fl = pa_ndims pa"
  by (simp add: fl_dims_def gs_array_def FLAGS_NDIMS_bits)

lemma fl_dims_bbox [simp]: "fl_dims zm (FLAGS_SET_BBOX fl v) \<longleftrightarrow> fl_dims zm fl"
  by (simp add: fl_dims_def flags_simps)

lemma points_at_behind:
  assumes "gs_array zm pa" and "fl_dims zm fl" and "off = length xs"
  shows "points_at be fl (npoints pa) (xs @ dbl_bytes be (serialized_pointlist pa) @ r) off = Inr (gs_canon_array fl pa)"
  using rd_dbls_behind[OF assms(3), of "unat (npoints pa) * FLAGS_NDIMS fl" "serialized_pointlist pa" be r]
    fl_dims_ndims[OF assms(2,1)] gs_array_length[OF assms(1)]
  by (simp add: points_at_def gs_canon_array_def mult.commute)

lemma points_at_head:
  assumes "gs_array zm pa" and "fl_dims zm fl"
  shows "points_at be fl (npoints pa) (put_u32 be a @ put_u32 be b @ dbl_bytes be (serialized_pointlist pa) @ r) 8
    = Inr (gs_canon_array fl pa)"
  using points_at_behind[OF assms, of 8 "put_u32 be a @ put_u32 be b"] by simp

lemma points_size_fl:
  assumes "gs_array zm pa" and "fl_dims zm fl"
  shows "points_size (npoints pa) fl = length (dbl_bytes be (serialized_pointlist pa))"
  using all_points_ok(2)[OF assms(1), of be] fl_dims_ndims[OF assms(2,1)] by (simp add: points_size_def)

lemma gser_rings_behind:
  "list_all (gs_array zm) rings \<Longrightarrow> fl_dims zm fl \<Longrightarrow> cnt = length xs \<Longrightarrow>
   off = length xs + 4 * length rings + length ys \<Longrightarrow>
   gser_rings be fl
     (xs @ concat (map (\<lambda>pa. put_u32 be (npoints pa)) rings) @ ys @
      concat (map (\<lambda>pa. dbl_bytes be (serialized_pointlist pa)) rings) @ r) (length rings) cnt off
   = Inr (map (gs_canon_array fl) rings,
       off + length (concat (map (\<lambda>pa. dbl_bytes be (serialized_pointlist pa)) rings)))"
proof (induction rings arbitrary: xs ys cnt off)
  case Nil
  then show ?case by simp
next
  case (Cons pa rings)
  let ?cnt = "concat (map (\<lambda>pa. put_u32 be (npoints pa)) rings)" and ?d = "dbl_bytes be (serialized_pointlist pa)"
  let ?ord = "concat (map (\<lambda>pa. dbl_bytes be (serialized_pointlist pa)) rings)"
  have pa: "gs_array zm pa" and rest: "list_all (gs_array zm) rings" using Cons.prems by simp_all
  let ?bs = "xs @ put_u32 be (npoints pa) @ ?cnt @ ys @ ?d @ ?ord @ r"
  have "rd_u32 be ?bs cnt = Inr (npoints pa)" using rd_u32_behind[of be xs] Cons.prems by simp
  moreover have "points_at be fl (npoints pa) ?bs off = Inr (gs_canon_array fl pa)"
    using points_at_behind[OF pa Cons.prems(2), of off "xs @ put_u32 be (npoints pa) @ ?cnt @ ys" be "?ord @ r"] Cons.prems
    by (simp add: concat_const4)
  moreover have "gser_rings be fl ?bs (length rings) (cnt + 4) (off + 8 * FLAGS_NDIMS fl * unat (npoints pa))
      = Inr (map (gs_canon_array fl) rings, off + 8 * FLAGS_NDIMS fl * unat (npoints pa) + length ?ord)"
    using Cons.IH[OF rest Cons.prems(2), of "cnt + 4" "xs @ put_u32 be (npoints pa)"
        "off + 8 * FLAGS_NDIMS fl * unat (npoints pa)" "ys @ ?d"] Cons.prems
      gs_array_length[OF pa] fl_dims_ndims[OF Cons.prems(2) pa] by simp
  ultimately show ?case
    using gs_array_length[OF pa] fl_dims_ndims[OF Cons.prems(2) pa] by simp
qed

lemma foldr_max: "x \<in> set xs \<Longrightarrow> x \<le> foldr max xs (0 :: nat)"
  by (induction xs) auto

lemma gs_body_type: "\<exists>r. gs_body be g = put_u32 be (ucast (lwgeom_get_type g)) @ r"
  by (cases g) auto

lemma collection_code:
  "lwtype_is_collection ty \<Longrightarrow> (ucast ty :: u32) \<in> {4, 5, 6, 9, 10, 11, 12, 13, 15, 7} \<and> (ucast ty :: u32) \<notin> {1, 2, 3, 8, 14, 16, 17}"
  by (auto simp: lwtype_is_collection_def)

lemma ucast_up_down: "ucast (ucast (b :: u8) :: u32) = b"
  by (intro bit_word_eqI) (simp add: bit_simps)

lemma gs_reader_members:
  assumes member: "\<And>g rest. g \<in> set gs \<Longrightarrow> read (gs_body be g @ rest) = Inr (canon g, length (gs_body be g))"
    and allowed: "\<And>g. g \<in> set gs \<Longrightarrow> lwcollection_allows_subtype ty (lwgeom_get_type g)"
  shows "decode_items (\<lambda>bs.
      rbind (rd_u32 be bs 0) (\<lambda>subtype.
        if subtype \<noteq> ucast (ucast subtype :: u8) \<or> \<not> lwcollection_allows_subtype ty (ucast subtype)
        then e subtype else read bs)) (length gs) (concat (map (gs_body be) gs) @ rest)
    = Inr (map canon gs, length (concat (map (gs_body be) gs)))"
proof (rule prefix_code.decode_items_encode)
  show "prefix_code (gs_body be) (\<lambda>bs.
      rbind (rd_u32 be bs 0) (\<lambda>subtype.
        if subtype \<noteq> ucast (ucast subtype :: u8) \<or> \<not> lwcollection_allows_subtype ty (ucast subtype)
        then e subtype else read bs)) canon (\<lambda>g. g \<in> set gs)"
  proof
    fix g rest assume g: "g \<in> set gs"
    obtain r where r: "gs_body be g = put_u32 be (ucast (lwgeom_get_type g)) @ r" using gs_body_type by blast
    have "rd_u32 be (gs_body be g @ rest) 0 = Inr (ucast (lwgeom_get_type g))" by (simp add: r)
    then show "rbind (rd_u32 be (gs_body be g @ rest) 0) (\<lambda>subtype.
        if subtype \<noteq> ucast (ucast subtype :: u8) \<or> \<not> lwcollection_allows_subtype ty (ucast subtype)
        then e subtype else read (gs_body be g @ rest)) = Inr (canon g, length (gs_body be g))"
      using member[OF g] allowed[OF g] by (simp add: ucast_up_down)
  qed
qed (simp add: list_all_iff)

lemma points_or_empty:
  assumes "gs_array zm pa" and "fl_dims zm fl"
  shows "(if 0 < npoints pa then points_at be fl (npoints pa) (put_u32 be a @ put_u32 be b @ dbl_bytes be (serialized_pointlist pa) @ r) 8
      else Inr (no_points fl)) = Inr (gs_canon_points fl pa)"
  using points_at_head[OF assms, of be a b r] by (simp add: gs_canon_points_def word_neq_0_conv)

lemma positive_count:
  assumes "gs_array zm pa" and "npoints pa \<noteq> 0"
  shows "\<not> npoints pa \<le>s 0"
proof -
  have "2 * unat (npoints pa) \<le> pa_ndims pa * unat (npoints pa)"
    using FLAGS_NDIMS_cases[of "pa_flags pa"] by (intro mult_le_mono1) auto
  moreover have "pa_ndims pa * unat (npoints pa) < 536870912" using assms(1) by (simp add: gs_array_def)
  ultimately have "unat (npoints pa) < 2147483648" by linarith
  then have "int (unat (npoints pa)) < 2147483648" by linarith
  then have "uint (npoints pa) < 2147483648" by simp
  moreover have "- 2147483648 \<le> uint (npoints pa)" using uint_ge_0[of "npoints pa"] by linarith
  ultimately have "sint (npoints pa) = uint (npoints pa)"
    by (simp add: sint_uint signed_take_bit_int_eq_self_iff)
  moreover have "uint (npoints pa) \<noteq> 0" using assms(2) by (simp add: unsigned_eq_0_iff)
  then have "0 < uint (npoints pa)" using uint_ge_0[of "npoints pa"] by linarith
  ultimately show ?thesis by (simp add: word_sle_eq)
qed

lemma gs_reader:
  "gs_ok zm g \<Longrightarrow> fl_dims zm fl \<Longrightarrow> gs_depth g \<le> fuel \<Longrightarrow>
   lwgeom_from_gserialized2_buffer fuel be srid fl (gs_body be g @ rest) = Inr (gs_canon fl srid g, length (gs_body be g))"
proof (induction g arbitrary: fl fuel rest)
  case (LwColl ty h gs)
  from LwColl.prems obtain f where fuel: "fuel = Suc f" by (cases fuel) auto
  let ?fl = "FLAGS_SET_BBOX fl False"
  have len: "unat (of_nat (length gs) :: u32) = length gs" using LwColl.prems(1) by (simp add: unat_of_nat)
  have dep: "gs_depth g \<le> f" if "g \<in> set gs" for g
    using foldr_max[of "gs_depth g" "map gs_depth gs"] that LwColl.prems(3) by (simp add: fuel)
  have m: "lwgeom_from_gserialized2_buffer f be srid ?fl (gs_body be g @ r) = Inr (gs_canon ?fl srid g, length (gs_body be g))"
    "lwcollection_allows_subtype ty (lwgeom_get_type g)" if "g \<in> set gs" for g r
    using LwColl.IH[OF that, of ?fl f r] dep[OF that] LwColl.prems that by (simp_all add: list_all_iff)
  note items = gs_reader_members[of gs "lwgeom_from_gserialized2_buffer f be srid ?fl" be "gs_canon ?fl srid" ty, OF m]
  have "lwcollection_from_gserialized2_buffer (lwgeom_from_gserialized2_buffer f be srid) be fl srid
      (gs_body be (LwColl ty h gs) @ rest) = Inr (gs_canon fl srid (LwColl ty h gs), length (gs_body be (LwColl ty h gs)))"
    by (simp add: lwcollection_from_gserialized2_buffer_def len items[simplified] ucast_up_down Let_def)
  moreover have "rd_u32 be (gs_body be (LwColl ty h gs) @ rest) 0 = Inr (ucast ty)" by simp
  ultimately show ?case
    using collection_code[of ty] LwColl.prems(1) by (auto simp add: fuel simp del: gs_body.simps gs_canon.simps)
next
  case (LwPoly h rings)
  then obtain f where fuel: "fuel = Suc f" by (cases fuel) auto
  have len: "unat (of_nat (length rings) :: u32) = length rings" using LwPoly.prems(1) by (simp add: unat_of_nat)
  have len4: "unat (of_nat (length rings) * 4 :: u32) = 4 * length rings"
    using LwPoly.prems(1) by (subst unat_mult_lem[THEN iffD1]) (simp_all add: len)
  have pos: "0 < (of_nat (length rings) :: u32) \<longleftrightarrow> rings \<noteq> []"
    by (simp add: word_less_nat_alt len)
  let ?pad = "if odd (length rings) then replicate 4 0 else []"
  let ?off = "8 + 4 * length rings + length (?pad :: u8 list)"
  have "gser_rings be fl (gs_body be (LwPoly h rings) @ rest) (length rings) 8 ?off
      = Inr (map (gs_canon_array fl) rings, ?off + length (concat (map (\<lambda>pa. dbl_bytes be (serialized_pointlist pa)) rings)))"
    using gser_rings_behind[of zm rings fl 8 "put_u32 be 3 @ put_u32 be (of_nat (length rings))" ?off ?pad be rest] LwPoly.prems
    by simp
  then show ?case
    by (cases "odd (length rings)"; cases "rings = []")
      (simp_all add: fuel lwpoly_from_gserialized2_buffer_def len len4 pos Let_def concat_const4)
next
  case (LwPoint h pa)
  then obtain f where fuel: "fuel = Suc f" by (cases fuel) auto
  have "npoints pa = 1" if "npoints pa \<noteq> 0"
  proof -
    have "unat (npoints pa) \<le> 1" "0 < unat (npoints pa)" using that LwPoint.prems by (simp_all add: word_le_nat_alt unat_gt_0)
    then have "unat (npoints pa) = 1" by linarith
    then show ?thesis by (metis unat_1 word_unat_eq_iff)
  qed
  then show ?case
    using points_at_head[of zm pa fl be 1 1 rest] points_size_fl[of zm pa fl be] no_ordinates[of zm pa] LwPoint.prems
    by (cases "npoints pa = 0")
      (auto simp: fuel lwpoint_from_gserialized2_buffer_def gs_canon_points_def points_size_def word_neq_0_conv)
next
  case (LwEllipse h e)
  then obtain f where fuel: "fuel = Suc f" by (cases fuel) auto
  let ?pa = "el_points e" and ?p = "[el_minor e, el_clockwise e, el_rotation e, el_axis e, el_ratio e]"
  have pa: "gs_array zm ?pa" "npoints ?pa \<noteq> 0" using LwEllipse.prems by simp_all
  have off: "8 + 8 * (FLAGS_NDIMS fl * unat (npoints ?pa)) =
      length (put_u32 be 16 @ put_u32 be (npoints ?pa) @ dbl_bytes be (serialized_pointlist ?pa))"
    using gs_array_length[OF pa(1)] fl_dims_ndims[OF LwEllipse.prems(2) pa(1)] by simp
  have "rd_dbls be (gs_body be (LwEllipse h e) @ rest) (8 + 8 * (FLAGS_NDIMS fl * unat (npoints ?pa))) 5 = Inr ?p"
    using rd_dbls_behind[OF off, of 5 ?p be rest] by simp
  then show ?case
    using points_at_head[OF pa(1) LwEllipse.prems(2), of be 16 "npoints ?pa" "dbl_bytes be ?p @ rest"] positive_count[OF pa] off
    by (simp add: fuel lwellipse_from_gserialized2_buffer_def Let_def)
next
  case (LwBezier h pa)
  then obtain f where fuel: "fuel = Suc f" by (cases fuel) auto
  have pa: "gs_array zm pa" "npoints pa \<noteq> 0" using LwBezier.prems by simp_all
  show ?case
    using points_at_head[OF pa(1) LwBezier.prems(2), of be 17 "npoints pa" rest] positive_count[OF pa]
      gs_array_length[OF pa(1)] fl_dims_ndims[OF LwBezier.prems(2) pa(1)]
    by (simp add: fuel lwbezier_from_gserialized2_buffer_def)
next
  case (LwLine h pa)
  then obtain f where fuel: "fuel = Suc f" by (cases fuel) auto
  show ?case using points_or_empty[of zm pa fl be 2 "npoints pa" rest] points_size_fl[of zm pa fl be] LwLine.prems
    by (simp add: fuel lwline_from_gserialized2_buffer_def)
next
  case (LwTriangle h pa)
  then obtain f where fuel: "fuel = Suc f" by (cases fuel) auto
  show ?case using points_or_empty[of zm pa fl be 14 "npoints pa" rest] points_size_fl[of zm pa fl be] LwTriangle.prems
    by (simp add: fuel lwtriangle_from_gserialized2_buffer_def)
next
  case (LwCircString h pa)
  then obtain f where fuel: "fuel = Suc f" by (cases fuel) auto
  show ?case using points_or_empty[of zm pa fl be 8 "npoints pa" rest] points_size_fl[of zm pa fl be] LwCircString.prems
    by (simp add: fuel lwcircstring_from_gserialized2_buffer_def)
qed

end
