(* ===== verification/Gser2Roundtrip.thy ===== *)
theory Gser2Roundtrip
  imports Gser2
begin

text \<open>
  The correctness of the serialized format, version 2 (gserialized2.c): the header and the box are read back, the
  writer followed by the reader gives the geometry, emptiness is decided from the bytes, the reader ends on any
  memory, and a box that is set and dropped again leaves the datum as it was. The interpretation of
  \<open>prefix_code\<close> says that the format needs no separators: what follows a stored geometry does not matter.
\<close>

section \<open>The header is read back\<close>

lemma G2FLAGS_GET_simps [flags_simps]:
  "G2FLAGS_GET_Z f = of_bool (bit f 0)" "G2FLAGS_GET_M f = of_bool (bit f 1)"
  "G2FLAGS_GET_BBOX f = of_bool (bit f 2)" "G2FLAGS_GET_GEODETIC f = of_bool (bit f 3)"
  "G2FLAGS_GET_EXTENDED f = of_bool (bit f 4)" "G2FLAGS_GET_VERSION f = of_bool (bit f 6)"
  using unat_drop_and[of 1 f] unat_drop_and[of 2 f] unat_drop_and[of 3 f] unat_drop_and[of 4 f] unat_drop_and[of 6 f]
  by (simp_all add: G2FLAGS_GET_Z_def G2FLAGS_GET_M_def G2FLAGS_GET_BBOX_def G2FLAGS_GET_GEODETIC_def
    G2FLAGS_GET_EXTENDED_def G2FLAGS_GET_VERSION_def unat_and_1 push_bit_of_1)

lemma bit_G2FLAGS_SET [flags_simps]:
  "bit (G2FLAGS_SET_Z f v) n \<longleftrightarrow> (if n = 0 then v else bit f n)"
  "bit (G2FLAGS_SET_M f v) n \<longleftrightarrow> (if n = 1 then v else bit f n)"
  "bit (G2FLAGS_SET_BBOX f v) n \<longleftrightarrow> (if n = 2 then v else bit f n)"
  "bit (G2FLAGS_SET_GEODETIC f v) n \<longleftrightarrow> (if n = 3 then v else bit f n)"
  "bit (G2FLAGS_SET_EXTENDED f v) n \<longleftrightarrow> (if n = 4 then v else bit f n)"
  "bit (G2FLAGS_SET_VERSION f v) n \<longleftrightarrow> (if n = 6 then v else bit f n)"
  unfolding G2FLAGS_SET_Z_def G2FLAGS_SET_M_def G2FLAGS_SET_BBOX_def G2FLAGS_SET_GEODETIC_def
    G2FLAGS_SET_EXTENDED_def G2FLAGS_SET_VERSION_def
  by (rule bit_set_flag; simp add: push_bit_of_1)+

lemma core_flags_bit: "bit (NOT (LWFLAG_Z OR LWFLAG_M OR LWFLAG_BBOX OR LWFLAG_GEODETIC) :: u16) n \<longleftrightarrow> 4 \<le> n \<and> n < 16"
proof -
  have e: "LWFLAG_Z OR LWFLAG_M OR LWFLAG_BBOX OR LWFLAG_GEODETIC = (mask 4 :: u16)" by (simp add: mask_eq_exp_minus_1)
  show ?thesis unfolding e by (auto simp: bit_not_iff bit_mask_iff)
qed

lemma uses_extended_bits: "lwflags_uses_extended_flags f \<longleftrightarrow> (\<exists>n. 4 \<le> n \<and> bit f n)"
proof -
  have "lwflags_uses_extended_flags f \<longleftrightarrow> (\<exists>n. bit (f AND NOT (LWFLAG_Z OR LWFLAG_M OR LWFLAG_BBOX OR LWFLAG_GEODETIC)) n)"
    unfolding lwflags_uses_extended_flags_def by (metis bit_0_eq bot_apply bot_bool_def bit_eqI)
  then show ?thesis unfolding bit_and_iff core_flags_bit using bit_imp_le_length[of f] by auto
qed

text \<open>The flags that the format keeps: dimensions, box, geodetic, solid.\<close>

definition stored_flags :: "u16 \<Rightarrow> u16" where
  "stored_flags f = f AND 0x2F"

lemma bit_stored_flags [flags_simps]: "bit (stored_flags f) n \<longleftrightarrow> (n < 4 \<or> n = 5) \<and> bit f n"
proof -
  have e: "(0x2F :: u16) = mask 4 OR push_bit 5 1" by (simp add: mask_eq_exp_minus_1 push_bit_of_1)
  show ?thesis unfolding stored_flags_def e using bit_imp_le_length[of f n]
    by (auto simp: bit_and_iff bit_or_iff bit_mask_iff bit_push_bit_iff bit_1_iff simp del: push_bit_of_1)
qed

lemma bit_g2flags [flags_simps]:
  "bit (lwflags_get_g2flags f) n \<longleftrightarrow> n < 4 \<and> bit f n \<or> n = 4 \<and> lwflags_uses_extended_flags f \<or> n = 6"
  by (auto simp: lwflags_get_g2flags_def Let_def flags_simps less_Suc_eq numeral_eq_Suc)

lemma rd_u64_head: "rd_u64 be (mem_bytes be 8 w @ r) 0 = Inr w"
  by (simp add: rd_u64_def)

lemma get_lwflags:
  assumes "gs_gflags d = lwflags_get_g2flags f" and "gs_data d = gserialized2_from_extended_flags be f @ r"
  shows "gserialized2_get_lwflags be d = Inr (stored_flags f)"
proof (cases "lwflags_uses_extended_flags f")
  case True
  have x: "(if FLAGS_GET_SOLID f \<noteq> 0 then 0 OR G2FLAG_X_SOLID else 0) AND G2FLAG_X_SOLID \<noteq> 0 \<longleftrightarrow> bit f 5"
    by (simp add: flags_simps)
  show ?thesis using True assms rd_u64_head[of be "if FLAGS_GET_SOLID f \<noteq> 0 then 0 OR G2FLAG_X_SOLID else 0" r]
    by (cases "bit f 5"; simp add: gserialized2_get_lwflags_def Let_def flags_simps gserialized2_from_extended_flags_def)
      (intro bit_word_eqI; auto simp: flags_simps less_Suc_eq numeral_eq_Suc)+
next
  case False
  then have "\<not> bit f 5" by (auto simp: uses_extended_bits)
  then show ?thesis using False assms
    by (simp add: gserialized2_get_lwflags_def Let_def flags_simps)
      (intro bit_word_eqI; auto simp: flags_simps less_Suc_eq numeral_eq_Suc)
qed

lemma srid_bytes:
  assumes "unat s < 2 ^ 20"
  shows "push_bit 16 (ucast (ucast (drop_bit 16 (s AND 0x001F0000)) :: u8)) OR
    push_bit 8 (ucast (ucast (drop_bit 8 (s AND 0x0000FF00)) :: u8)) OR ucast (ucast (s AND 0x000000FF) :: u8) = (s :: i32)" (is "?l = s")
proof (rule bit_word_eqI)
  fix n assume n: "n < LENGTH(32)"
  have m: "(0x001F0000 :: i32) = push_bit 16 (mask 5)" "(0x0000FF00 :: i32) = push_bit 8 (mask 8)" "(0x000000FF :: i32) = mask 8"
    by (simp_all add: mask_eq_exp_minus_1)
  have "take_bit 20 s = s"
    using assms by (simp add: word_unat_eq_iff unsigned_take_bit_eq take_bit_nat_eq_self)
  then have b: "bit s n \<Longrightarrow> n < 20" by (metis bit_take_bit_iff)
  show "bit ?l n = bit s n"
    unfolding m using n b
    by (cases "n < 8"; cases "n < 16")
      (auto simp: bit_simps bit_or_iff bit_and_iff bit_push_bit_iff bit_drop_bit_eq bit_ucast_iff bit_mask_iff)
qed

lemma get_set_srid: "gserialized2_get_srid (gserialized2_set_srid srid g) = clamp_srid srid"
proof -
  let ?s = "clamp_srid srid"
  have s: "unat ?s < 2 ^ 20" using clamp_srid_range[of srid] by simp
  have "signed_drop_bit 11 (push_bit 11 ?s) = signed_take_bit 20 ?s"
  proof (rule bit_word_eqI)
    fix n assume n: "n < LENGTH(32)"
    consider "n < 20" | "n = 20" | "20 < n" by linarith
    then show "bit (signed_drop_bit 11 (push_bit 11 ?s)) n \<longleftrightarrow> bit (signed_take_bit 20 ?s) n"
      using n by cases (auto simp: bit_signed_drop_bit_iff bit_signed_take_bit_iff bit_push_bit_iff min_def)
  qed
  then have e: "signed_drop_bit 11 (push_bit 11 ?s) = ?s" using signed_take_bit_small[OF s] by simp
  have z: "(if ?s = 0 then 0 else ?s) = ?s" by simp
  show ?thesis unfolding gserialized2_get_srid_def gserialized2_set_srid_def Let_def
    by (cases g) (simp only: gserialized.simps prod.case z srid_bytes[OF s] e)
qed

lemma LWSIZE_GET_SET:
  assumes "n < 2 ^ 30"
  shows "unat (LWSIZE_GET be (LWSIZE_SET be n)) = n"
proof -
  have m: "(0x3FFFFFFF :: u32) = mask 30" by (simp add: mask_eq_exp_minus_1)
  have n: "unat (of_nat n :: u32) = n" using assms by (simp add: unat_of_nat)
  then have t: "take_bit 30 (of_nat n :: u32) = of_nat n"
    using assms by (simp add: word_unat_eq_iff unsigned_take_bit_eq take_bit_nat_eq_self)
  then have b: "k < 30" if "bit (of_nat n :: u32) k" for k using that by (metis bit_take_bit_iff)
  have "LWSIZE_GET be (LWSIZE_SET be n) = of_nat n"
  proof (cases be)
    case True
    then show ?thesis using t by (simp add: LWSIZE_GET_def LWSIZE_SET_def m and.assoc flip: take_bit_eq_mask)
  next
    case False
    have "drop_bit 2 (push_bit 2 (of_nat n :: u32)) AND mask 30 = of_nat n"
      by (rule bit_word_eqI) (use b in \<open>auto simp: bit_and_iff bit_drop_bit_eq bit_push_bit_iff bit_mask_iff\<close>)
    then show ?thesis using False by (simp add: LWSIZE_GET_def LWSIZE_SET_def m)
  qed
  then show ?thesis using n by simp
qed

section \<open>The box is read back\<close>

lemma rd_flts_behind: "off = length xs \<Longrightarrow> n = length fs \<Longrightarrow> rd_flts be (xs @ flt_bytes be fs @ r) off n = Inr fs"
proof -
  assume off: "off = length xs" and n: "n = length fs"
  have "chunks 4 (length fs) (flt_bytes be fs @ r) = map (mem_bytes be 4) fs"
    unfolding flt_bytes_def by (rule chunks_concat) simp_all
  then show ?thesis by (simp add: rd_flts_def off n comp_def)
qed

text \<open>A box that fits the header: same geodetic flag, and the same dimensions if they are stored.\<close>

definition box_fits :: "u16 \<Rightarrow> gbox \<Rightarrow> bool" where
  "box_fits fl b \<longleftrightarrow> bit (gb_flags b) 3 = bit fl 3 \<and>
     (\<not> bit fl 3 \<longrightarrow> bit (gb_flags b) 0 = bit fl 0 \<and> bit (gb_flags b) 1 = bit fl 1)"

text \<open>The box read back: bounds rounded outwards; bounds that are not stored stay as they were.\<close>

definition stored_box :: "u16 \<Rightarrow> gbox \<Rightarrow> gbox \<Rightarrow> gbox" where
  "stored_box fl b old =
     (let r = old\<lparr>gb_flags := fl, xmin := round_down (xmin b), xmax := round_up (xmax b),
                  ymin := round_down (ymin b), ymax := round_up (ymax b)\<rparr>;
          r = (if bit fl 3 \<or> bit fl 0 then r\<lparr>zmin := round_down (zmin b), zmax := round_up (zmax b)\<rparr> else r)
      in if \<not> bit fl 3 \<and> bit fl 1 then r\<lparr>mmin := round_down (mmin b), mmax := round_up (mmax b)\<rparr> else r)"

lemma box_bytes_length:
  "box_fits f b \<Longrightarrow> length (gserialized2_from_gbox be b) = gbox_serialized_size f"
  by (auto simp: gserialized2_from_gbox_def gbox_serialized_size_def box_fits_def flags_simps FLAGS_NDIMS_bits)

lemma extended_length:
  "length (gserialized2_from_extended_flags be f) = (if lwflags_uses_extended_flags f then 8 else 0)"
  by (simp add: gserialized2_from_extended_flags_def)

lemma ndims_box_bits:
  "G2FLAGS_NDIMS_BOX f = (if bit f 3 then 3 else 2 + of_bool (bit f 0) + of_bool (bit f 1))"
  by (simp add: G2FLAGS_NDIMS_BOX_def G2FLAGS_NDIMS_def flags_simps)

lemma read_gbox_absent:
  assumes "gs_gflags d = lwflags_get_g2flags f" and "gs_data d = gserialized2_from_extended_flags be f @ r"
    and "\<not> bit f 2"
  shows "gserialized2_read_gbox_p be d old = Inr (False, old\<lparr>gb_flags := stored_flags f\<rparr>)"
  using get_lwflags[OF assms(1,2)] assms
  by (simp add: gserialized2_read_gbox_p_def gserialized2_get_float_box_p_def gserialized2_has_bbox_def flags_simps)

lemma read_gbox_present:
  assumes g: "gs_gflags d = lwflags_get_g2flags f" and d: "gs_data d = gserialized2_from_extended_flags be f @ gserialized2_from_gbox be b @ r"
    and bbox: "bit f 2" and fits: "box_fits f b"
  shows "gserialized2_read_gbox_p be d old = Inr (True, stored_box (stored_flags f) b old)"
proof -
  let ?fs = "[next_float_down (xmin b), next_float_up (xmax b), next_float_down (ymin b), next_float_up (ymax b)] @
     (if bit f 3 \<or> bit f 0 then [next_float_down (zmin b), next_float_up (zmax b)] else []) @
     (if \<not> bit f 3 \<and> bit f 1 then [next_float_down (mmin b), next_float_up (mmax b)] else [])"
  have fb: "gserialized2_from_gbox be b = flt_bytes be ?fs"
    using fits by (auto simp: gserialized2_from_gbox_def box_fits_def flags_simps)
  have "rd_flts be (gs_data d) (if gserialized2_has_extended d then 8 else 0) (2 * G2FLAGS_NDIMS_BOX (gs_gflags d)) = Inr ?fs"
    unfolding d fb by (rule rd_flts_behind)
      (auto simp: g gserialized2_has_extended_def extended_length flags_simps ndims_box_bits)
  then show ?thesis
    using get_lwflags[OF g d] bbox g
    by (cases "bit f 3"; cases "bit f 0"; cases "bit f 1")
      (simp_all add: gserialized2_read_gbox_p_def gserialized2_get_float_box_p_def gserialized2_has_bbox_def Let_def
        flags_simps stored_box_def round_down_def round_up_def)
qed

section \<open>Geometries without points have no box\<close>

lemma canon_points_empty [simp]: "npoints (gs_canon_points fl pa) = npoints pa" "npoints (gs_canon_array fl pa) = npoints pa"
  by (simp_all add: gs_canon_points_def gs_canon_array_def no_points_def ptarray_construct_empty_def
    ptarray_construct_reference_data_def)

lemma canon_empty [simp]: "lwgeom_is_empty (gs_canon fl srid g) = lwgeom_is_empty g"
proof (induction g arbitrary: fl)
  case (LwPoly h rings)
  then show ?case by (cases rings) (simp_all add: lwpoly_is_empty_def)
qed (simp_all add: lwline_is_empty_def list_all_iff)

lemma canon_count [simp]: "lwgeom_count_vertices (gs_canon fl srid g) = lwgeom_count_vertices g"
proof (induction g arbitrary: fl)
  case (LwPoly h rings)
  have e: "lwgeom_is_empty (LwPoly (gser_hdr fl srid) (map (gs_canon_array fl) rings)) = lwgeom_is_empty (LwPoly h rings)"
    by (cases rings) (simp_all add: lwpoly_is_empty_def)
  show ?case using e by (simp add: lwpoly_count_vertices_def fold_map comp_def)
next
  case (LwColl ty h gs)
  have e: "lwgeom_is_empty (gs_canon fl srid (LwColl ty h gs)) = lwgeom_is_empty (LwColl ty h gs)" by (rule canon_empty)
  show ?case using e LwColl.IH
    by (simp add: fold_map comp_def list_all_iff) (intro impI fold_cong_set; simp)
qed (simp_all add: lwline_count_vertices_def lwline_is_empty_def)

lemma needs_bbox_canon [simp]: "lwgeom_needs_bbox (gs_canon fl srid g) = lwgeom_needs_bbox g"
  using canon_count[of fl srid g] by (cases g) (simp_all add: lwgeom_needs_bbox_def)

lemma less_one_word: "n < 1 \<longleftrightarrow> n = (0 :: u32)"
  by (auto simp: word_less_nat_alt unsigned_eq_0_iff)

lemma empty_no_box:
  "lwgeom_is_empty g \<Longrightarrow> lwgeom_calculate_gbox_cartesian cv g gbox = None"
  "list_all lwgeom_is_empty gs \<Longrightarrow> lwcollection_gbox_loop cv gs subbox None = None"
proof (induction cv g gbox and cv gs subbox acc\<equiv>"None :: gbox option"
    rule: lwgeom_calculate_gbox_cartesian_lwcollection_gbox_loop.induct)
  case (4 cv h rings gbox)
  then show ?case
    by (cases rings) (auto simp: lwpoly_is_empty_def lwpoly_calculate_gbox_cartesian_def ptarray_calculate_gbox_cartesian_def less_one_word)
qed (auto simp: lwpoint_calculate_gbox_cartesian_def lwline_calculate_gbox_cartesian_def lwtriangle_calculate_gbox_cartesian_def
  lwcircstring_calculate_gbox_cartesian_def ptarray_calculate_gbox_cartesian_def lwline_is_empty_def less_one_word split: option.splits)

section \<open>The datum as a whole\<close>

lemma map_hdr_simps [simp]:
  "g_hdr (map_hdr f g) = f (g_hdr g)"
  "lwgeom_is_empty (map_hdr f g) = lwgeom_is_empty g"
  "map_hdr f (map_hdr f' g) = map_hdr (\<lambda>h. f (f' h)) g"
  by (cases g; simp)+

lemma count_map_hdr [simp]: "lwgeom_count_vertices (map_hdr f g) = lwgeom_count_vertices g"
  by (cases g) simp_all

lemma needs_map_hdr [simp]: "lwgeom_needs_bbox (map_hdr f g) = lwgeom_needs_bbox g"
  using count_map_hdr[of f g] by (cases g) (simp_all add: lwgeom_needs_bbox_def del: count_map_hdr)

lemma prepare_flag: "bit (g_flags (g_hdr (gserialized2_prepare env g))) 2 \<longleftrightarrow> g_bbox (g_hdr (gserialized2_prepare env g)) \<noteq> None"
  by (simp add: gserialized2_prepare_def Let_def flags_simps)

lemma add_bbox_some:
  "\<not> lwgeom_is_empty g \<Longrightarrow> g_bbox (g_hdr (lwgeom_add_bbox cv geo g)) \<noteq> None"
  by (simp add: lwgeom_add_bbox_def Let_def)

lemma prepare_no_box:
  assumes "g_bbox (g_hdr (gserialized2_prepare env g)) = None" and "lwgeom_needs_bbox (gserialized2_prepare env g)"
  shows "lwgeom_is_empty (gserialized2_prepare env g)"
  using assms add_bbox_some[of g "curves env" "geodetic_gbox env"]
  by (auto simp: gserialized2_prepare_def Let_def split: if_splits)

lemma canon_hdr [simp]: "g_hdr (gs_canon fl srid g) = gser_hdr fl srid"
  by (cases g) simp_all

lemma canon_set_flags [simp]: "map_hdr (\<lambda>h. h\<lparr>g_flags := fl\<rparr>) (gs_canon fl srid g) = gs_canon fl srid g"
  by (cases g) (simp_all add: gser_hdr_def)

lemma canon_set_bbox_none: "map_hdr (\<lambda>h. h\<lparr>g_bbox := None\<rparr>) (gs_canon fl srid g) = gs_canon fl srid g"
  by (cases g) (simp_all add: gser_hdr_def)

text \<open>What can be stored: the contents fit the format, the size fits the 30 bits of the size field, the box has
  the dimensions of the header.\<close>

definition gs_storable :: "bool \<times> bool \<Rightarrow> lwgeom \<Rightarrow> bool" where
  "gs_storable zm g \<longleftrightarrow> gs_ok zm g \<and> gserialized2_from_lwgeom_size g < 2 ^ 30 \<and>
     (case g_bbox (g_hdr g) of None \<Rightarrow> True | Some b \<Rightarrow> box_fits (g_flags (g_hdr g)) b)"

definition gs_read_back :: "gs_env \<Rightarrow> lwgeom \<Rightarrow> lwgeom" where
  "gs_read_back env g =
     (let h = g_hdr g; fl = stored_flags (g_flags h)
      in map_hdr (\<lambda>h'. h'\<lparr>g_bbox := map_option (\<lambda>b. stored_box fl b (stack_gbox env)) (g_bbox h)\<rparr>)
           (gs_canon fl (clamp_srid (g_srid h)) g))"

definition box_bytes :: "bool \<Rightarrow> gbox option \<Rightarrow> u8 list" where
  "box_bytes be bbox = (case bbox of None \<Rightarrow> [] | Some b \<Rightarrow> gserialized2_from_gbox be b)"

lemma write_datum:
  assumes "G = gserialized2_prepare env g" and ok: "gs_storable zm G"
  shows "\<exists>d. gserialized2_from_lwgeom env g = Inr d \<and>
    unat (LWSIZE_GET (big_endian env) (gs_size d)) = 8 + length (gs_data d) \<and>
    gs_gflags d = lwflags_get_g2flags (g_flags (g_hdr G)) \<and>
    gserialized2_get_srid d = clamp_srid (g_srid (g_hdr G)) \<and>
    gs_data d = gserialized2_from_extended_flags (big_endian env) (g_flags (g_hdr G)) @
      box_bytes (big_endian env) (g_bbox (g_hdr G)) @ gs_body (big_endian env) G"
proof -
  let ?be = "big_endian env" and ?h = "g_hdr G"
  have ok': "gs_ok zm G" and sz: "gserialized2_from_lwgeom_size G < 2 ^ 30" using ok by (simp_all add: gs_storable_def)
  let ?bs = "gserialized2_from_extended_flags ?be (g_flags ?h) @ box_bytes ?be (g_bbox ?h) @ gs_body ?be G"
  have len: "gserialized2_from_lwgeom_size G = 8 + length ?bs"
    using ok box_bytes_length[of "g_flags ?h" _ ?be] gs_any_size[OF ok', of ?be]
    by (auto simp: gserialized2_from_lwgeom_size_def extended_length gs_storable_def box_bytes_def split: option.splits)
  define d where "d = (gserialized2_set_srid (g_srid ?h) \<lparr>gs_size = 0, gs_srid = (0, 0, 0), gs_gflags = 0, gs_data = []\<rparr>)
      \<lparr>gs_size := LWSIZE_SET ?be (8 + length ?bs), gs_gflags := lwflags_get_g2flags (g_flags ?h), gs_data := ?bs\<rparr>"
  have "gserialized2_from_lwgeom env g = Inr d"
    by (simp add: gserialized2_from_lwgeom_def Let_def gs_writer[OF ok'] len assms(1)[symmetric] d_def flip: box_bytes_def)
  moreover have "gserialized2_get_srid d = clamp_srid (g_srid ?h)"
    using get_set_srid[of "g_srid ?h" "\<lparr>gs_size = 0, gs_srid = (0, 0, 0), gs_gflags = 0, gs_data = []\<rparr>"]
    by (simp add: d_def gserialized2_get_srid_def)
  moreover have "unat (LWSIZE_GET ?be (gs_size d)) = 8 + length ?bs"
    using LWSIZE_GET_SET[of "8 + length ?bs" ?be] sz len by (simp add: d_def)
  moreover have "gs_data d = ?bs" "gs_gflags d = lwflags_get_g2flags (g_flags ?h)" by (simp_all add: d_def)
  ultimately show ?thesis by auto
qed

lemma read_datum:
  assumes G: "G = gserialized2_prepare env g" and ok: "gs_storable zm G"
    and geo: "\<And>g b. lwgeom_is_empty g \<Longrightarrow> geodetic_gbox env g b = None" and fuel: "gs_depth G \<le> fuel"
    and gf: "gs_gflags d = lwflags_get_g2flags (g_flags (g_hdr G))"
    and srid: "gserialized2_get_srid d = clamp_srid (g_srid (g_hdr G))"
    and data: "gs_data d = gserialized2_from_extended_flags (big_endian env) (g_flags (g_hdr G)) @
      box_bytes (big_endian env) (g_bbox (g_hdr G)) @ gs_body (big_endian env) G"
  shows "lwgeom_from_gserialized2 fuel env d = Inr (gs_read_back env G)"
proof -
  let ?be = "big_endian env" and ?f = "g_flags (g_hdr G)" and ?b = "g_bbox (g_hdr G)"
  let ?fl = "stored_flags ?f" and ?s = "clamp_srid (g_srid (g_hdr G))"
  have ok': "gs_ok zm G" and fit: "\<And>b. ?b = Some b \<Longrightarrow> box_fits ?f b" using ok by (auto simp: gs_storable_def)
  have bbox: "bit ?f 2 \<longleftrightarrow> ?b \<noteq> None" using prepare_flag[of env g] G by simp
  have lwfl: "gserialized2_get_lwflags ?be d = Inr ?fl" using get_lwflags[OF gf data] .
  have off: "(if gserialized2_has_extended d then 8 else 0) + (if FLAGS_GET_BBOX ?fl \<noteq> 0 then gbox_serialized_size ?fl else 0)
      = length (gserialized2_from_extended_flags ?be ?f @ box_bytes ?be ?b)"
    using box_bytes_length[OF fit, of _ ?be] bbox
    by (auto simp: gserialized2_has_extended_def gf flags_simps extended_length box_bytes_def gbox_serialized_size_def
      FLAGS_NDIMS_bits split: option.splits)
  have geom_p: "gserialized2_get_geometry_p d = length (gserialized2_from_extended_flags ?be ?f @ box_bytes ?be ?b)"
    using box_bytes_length[OF fit, of _ ?be] bbox
    by (auto simp: gserialized2_get_geometry_p_def gserialized2_has_extended_def gserialized2_has_bbox_def gserialized2_box_size_def
      gf flags_simps extended_length box_bytes_def gbox_serialized_size_def FLAGS_NDIMS_bits G2FLAGS_NDIMS_def split: option.splits)
  have type: "gserialized2_get_type ?be d = Inr (ucast (lwgeom_get_type G))"
  proof -
    obtain r where "gs_body ?be G = put_u32 ?be (ucast (lwgeom_get_type G)) @ r" using gs_body_type by blast
    then show ?thesis
      using rd_u32_behind[of ?be "gserialized2_from_extended_flags ?be ?f @ box_bytes ?be ?b"]
      by (simp add: gserialized2_get_type_def geom_p data)
  qed
  have dims: "fl_dims zm ?fl" using gs_ok_flags[OF ok'] by (simp add: fl_dims_def gs_flags_def flags_simps)
  have body: "lwgeom_from_gserialized2_buffer fuel ?be ?s ?fl (gs_body ?be G) = Inr (gs_canon ?fl ?s G, length (gs_body ?be G))"
    using gs_reader[OF ok' dims fuel, of ?be ?s "[]"] by simp
  have drop: "drop (length (gserialized2_from_extended_flags ?be ?f @ box_bytes ?be ?b)) (gs_data d) = gs_body ?be G"
    by (simp add: data)
  have read: "lwgeom_from_gserialized2 fuel env d =
      rbind (gserialized2_read_gbox_p ?be d (stack_gbox env)) (\<lambda>r.
        Inr (map_hdr (\<lambda>h. h\<lparr>g_bbox := (if fst r then Some (snd r)
          else if lwgeom_needs_bbox G
          then lwgeom_calculate_gbox (curves env) (geodetic_gbox env) (gs_canon ?fl ?s G) (snd r) else None)\<rparr>)
          (gs_canon ?fl ?s G)))"
    unfolding lwgeom_from_gserialized2_def Let_def type lwfl off srid rbind_simps drop body
    by (simp add: needs_bbox_canon cong: if_cong)
  show ?thesis
  proof (cases ?b)
    case (Some b)
    then have "gserialized2_read_gbox_p ?be d (stack_gbox env) = Inr (True, stored_box ?fl b (stack_gbox env))"
      using read_gbox_present[OF gf _ _ fit, of ?be b] data bbox by (simp add: box_bytes_def)
    then show ?thesis using Some by (simp add: read gs_read_back_def Let_def)
  next
    case None
    then have r: "gserialized2_read_gbox_p ?be d (stack_gbox env) = Inr (False, (stack_gbox env)\<lparr>gb_flags := ?fl\<rparr>)"
      using read_gbox_absent[OF gf data] bbox by simp
    have "lwgeom_calculate_gbox (curves env) (geodetic_gbox env) (gs_canon ?fl ?s G) b = None" if "lwgeom_needs_bbox G" for b
      using prepare_no_box[of env g] None that G geo[of "gs_canon ?fl ?s G"] empty_no_box(1)[of "gs_canon ?fl ?s G"]
      by (simp add: lwgeom_calculate_gbox_def Let_def)
    then show ?thesis using None by (simp add: read r gs_read_back_def Let_def)
  qed
qed

text \<open>Type, dimensions and points are those of the geometry that was stored.\<close>

lemma ZM_bits: "FLAGS_GET_ZM f = of_bool (bit f 1) + of_bool (bit f 0) * 2"
  by (simp add: FLAGS_GET_ZM_def flags_simps)

lemma pa_shape_canon:
  assumes "fl_dims zm fl" and "gs_array zm pa"
  shows "pa_shape (gs_canon_array fl pa) = pa_shape pa" "pa_shape (gs_canon_points fl pa) = pa_shape pa"
  using assms fl_dims_ndims[OF assms]
  by (simp_all add: pa_shape_def pa_points_def gs_canon_points_def gs_canon_array_def no_points_def fl_dims_def gs_array_def
    ptarray_construct_reference_data_def ptarray_construct_empty_def ZM_bits flags_simps FLAGS_NDIMS_bits)

lemma shape_canon: "gs_ok zm g \<Longrightarrow> fl_dims zm fl \<Longrightarrow> shape_of (gs_canon fl srid g) = shape_of g"
proof (induction g arbitrary: fl)
  case (LwColl ty h gs)
  have "fl_dims zm (FLAGS_SET_BBOX fl False)" using LwColl.prems(2) by (simp add: fl_dims_def flags_simps)
  then show ?case using LwColl
    by (simp add: gser_hdr_def ZM_bits fl_dims_def gs_flags_def list_all_iff)
qed (simp_all add: pa_shape_canon gser_hdr_def ZM_bits fl_dims_def[of _ fl] gs_flags_def list_all_iff fl_dims_def)

lemma shape_map_hdr: "(\<And>h. FLAGS_GET_ZM (g_flags (f h)) = FLAGS_GET_ZM (g_flags h)) \<Longrightarrow> shape_of (map_hdr f g) = shape_of g"
  by (cases g) simp_all

lemma shape_read_back:
  assumes "gs_storable zm (gserialized2_prepare env g)"
  shows "shape_of (gs_read_back env (gserialized2_prepare env g)) = shape_of (gserialized2_prepare env g)"
proof -
  let ?G = "gserialized2_prepare env g"
  have ok: "gs_ok zm ?G" using assms by (simp add: gs_storable_def)
  have "fl_dims zm (stored_flags (g_flags (g_hdr ?G)))" using gs_ok_flags[OF ok] by (simp add: fl_dims_def gs_flags_def flags_simps)
  from shape_canon[OF ok this] show ?thesis by (simp add: gs_read_back_def Let_def shape_map_hdr)
qed

text \<open>C20: A geometry is stored and read back: if its contents fit the format (one pair of dimensions throughout,
  below 1 GB, members their collections allow), the writer succeeds on the block it has allocated, the size field
  holds the size of the block, and the reader, on the same machine, with any call depth from the nesting of the
  geometry on, returns the geometry with the SRID clamped, the stored flags everywhere and its box
  rounded outwards to floats: a geometry of the same type, dimensions and points. The geodetic box of an empty geometry is taken to be a failure.\<close>

theorem gserialized2_roundtrip:
  assumes "gs_storable zm (gserialized2_prepare env g)"
    and "\<And>g b. lwgeom_is_empty g \<Longrightarrow> geodetic_gbox env g b = None"
    and "gs_depth (gserialized2_prepare env g) \<le> fuel"
  shows "\<exists>d. gserialized2_from_lwgeom env g = Inr d \<and>
    unat (LWSIZE_GET (big_endian env) (gs_size d)) = 8 + length (gs_data d) \<and>
    lwgeom_from_gserialized2 fuel env d = Inr (gs_read_back env (gserialized2_prepare env g)) \<and>
    shape_of (gs_read_back env (gserialized2_prepare env g)) = shape_of (gserialized2_prepare env g)"
  using write_datum[OF refl assms(1)] read_datum[OF refl assms] shape_read_back[OF assms(1)] by blast

section \<open>Emptiness\<close>

text \<open>Polygons whose first ring is empty are empty for \<open>lwgeom_is_empty\<close> but not here; more than \<open>2 ^ 31 - 1\<close> members are none.\<close>

fun gs_plain :: "lwgeom \<Rightarrow> bool" where
  "gs_plain (LwPoly h rings) \<longleftrightarrow> rings = [] \<or> npoints (hd rings) \<noteq> 0"
| "gs_plain (LwColl ty h gs) \<longleftrightarrow> length gs < 2 ^ 31 \<and> list_all gs_plain gs"
| "gs_plain g \<longleftrightarrow> True"

lemma fold_const: "fold (\<lambda>_. f) xs = f ^^ length xs"
  by (induction xs) (simp_all add: funpow_swap1 comp_def fun_eq_iff)

lemma funpow_fix: "f x = x \<Longrightarrow> (f ^^ n) x = x"
  by (induction n) simp_all

definition empty_step :: "(u8 list \<Rightarrow> (nat \<times> bool) res) \<Rightarrow> u8 list \<Rightarrow> (nat \<times> bool) res \<Rightarrow> (nat \<times> bool) res" where
  "empty_step read p r = rbind r (\<lambda>(lz, stop).
     if stop then Inr (lz, stop) else rbind (read (drop lz p)) (\<lambda>(k, isempty). Inr (lz + k, \<not> isempty)))"

lemma empty_steps:
  assumes "\<And>g r. g \<in> set gs \<Longrightarrow> \<exists>k. read (gs_body be g @ r) = Inr (k, lwgeom_is_empty g) \<and>
      (lwgeom_is_empty g \<longrightarrow> k = length (gs_body be g))"
    and "drop lz p = concat (map (gs_body be) gs) @ rest"
  shows "\<exists>k. (empty_step read p ^^ length gs) (Inr (lz, False)) = Inr (k, \<not> list_all lwgeom_is_empty gs) \<and>
    (list_all lwgeom_is_empty gs \<longrightarrow> k = lz + length (concat (map (gs_body be) gs)))"
  using assms
proof (induction gs arbitrary: lz)
  case (Cons g gs)
  obtain k where k: "read (gs_body be g @ concat (map (gs_body be) gs) @ rest) = Inr (k, lwgeom_is_empty g)"
    "lwgeom_is_empty g \<Longrightarrow> k = length (gs_body be g)" using Cons.prems(1)[of g] by auto
  have first: "empty_step read p (Inr (lz, False)) = Inr (lz + k, \<not> lwgeom_is_empty g)"
    using k(1) Cons.prems(2) by (simp add: empty_step_def)
  show ?case
  proof (cases "lwgeom_is_empty g")
    case True
    have "drop (lz + k) p = concat (map (gs_body be) gs) @ rest"
    proof -
      have "drop (lz + k) p = drop k (drop lz p)" by (simp add: add.commute)
      then show ?thesis by (simp only: Cons.prems(2) k(2)[OF True]) simp
    qed
    from Cons.IH[OF _ this] Cons.prems(1) obtain k' where
      "(empty_step read p ^^ length gs) (Inr (lz + k, False)) = Inr (k', \<not> list_all lwgeom_is_empty gs)"
      "list_all lwgeom_is_empty gs \<longrightarrow> k' = lz + k + length (concat (map (gs_body be) gs))" by auto
    then show ?thesis using first True k(2)[OF True] by (simp add: funpow_swap1)
  next
    case False
    have "empty_step read p (Inr (lz + k, True)) = Inr (lz + k, True)" by (simp add: empty_step_def)
    from funpow_fix[where f = "empty_step read p", OF this, of "length gs"] show ?thesis using first False by (simp add: funpow_swap1)
  qed
qed simp

lemma count_not_negative: "n < 2 ^ 31 \<Longrightarrow> \<not> (of_nat n :: u32) <s 0"
  by (simp add: word_sless_alt sint_small unat_of_nat)

lemma no_rings: "n < 1073741824 \<Longrightarrow> (of_nat n :: u32) = 0 \<Longrightarrow> n = 0"
proof -
  assume n: "n < 1073741824" and z: "(of_nat n :: u32) = 0"
  have "unat (of_nat n :: u32) = n" using n by (simp add: unat_of_nat)
  then show "n = 0" by (simp add: z)
qed

lemma is_empty_recurse_correct:
  "gs_ok zm g \<Longrightarrow> gs_plain g \<Longrightarrow> gs_depth g \<le> fuel \<Longrightarrow>
   \<exists>k. gserialized2_is_empty_recurse fuel be (gs_body be g @ rest) = Inr (k, lwgeom_is_empty g) \<and>
     (lwgeom_is_empty g \<longrightarrow> k = length (gs_body be g))"
proof (induction g arbitrary: fuel rest)
  case (LwColl ty h gs)
  from LwColl.prems obtain f where fuel: "fuel = Suc f" by (cases fuel) auto
  have dep: "gs_depth g \<le> f" if "g \<in> set gs" for g
    using foldr_max[of "gs_depth g" "map gs_depth gs"] that LwColl.prems(3) by (simp add: fuel)
  have len: "unat (of_nat (length gs) :: u32) = length gs" "\<not> (of_nat (length gs) :: u32) <s 0"
    using LwColl.prems(1,2) count_not_negative[of "length gs"] by (simp_all add: unat_of_nat)
  let ?p = "gs_body be (LwColl ty h gs) @ rest"
  have "\<exists>k. gserialized2_is_empty_recurse f be (gs_body be g @ r) = Inr (k, lwgeom_is_empty g) \<and>
      (lwgeom_is_empty g \<longrightarrow> k = length (gs_body be g))" if "g \<in> set gs" for g r
    using LwColl.IH[OF that, of f r] dep[OF that] LwColl.prems that by (simp add: list_all_iff)
  from empty_steps[OF this, of gs 8 ?p rest] obtain k where
    "(empty_step (gserialized2_is_empty_recurse f be) ?p ^^ length gs) (Inr (8, False)) = Inr (k, \<not> list_all lwgeom_is_empty gs)"
    "list_all lwgeom_is_empty gs \<longrightarrow> k = 8 + length (concat (map (gs_body be) gs))" by auto
  then show ?case using LwColl.prems(1) len
    by (simp add: fuel ucast_up_down fold_const empty_step_def[abs_def])
qed (auto simp: lwtype_is_collection_def lwline_is_empty_def lwpoly_is_empty_def hd_conv_nth gr0_conv_Suc
  dest!: Suc_le_D dest: no_ordinates no_rings)


section \<open>Unique decoding\<close>

interpretation gser2: prefix_code "gs_body be" "lwgeom_from_gserialized2_buffer fuel be srid fl" "gs_canon fl srid"
    "\<lambda>g. gs_ok zm g \<and> fl_dims zm fl \<and> gs_depth g \<le> fuel"
  for be fuel srid fl zm
  by unfold_locales (blast intro: gs_reader)

section \<open>Termination on any memory\<close>

lemma rbind_total:
  assumes "m \<noteq> Inl e" and "\<And>x. m = Inr x \<Longrightarrow> f x \<noteq> Inl e"
  shows "rbind m f \<noteq> Inl e"
  using assms by (cases m) simp_all

lemma rd_total [simp]:
  "rd_u32 be bs off \<noteq> Inl StackOverflow" "rd_dbls be bs off n \<noteq> Inl StackOverflow"
  "points_at be fl m bs off \<noteq> Inl StackOverflow"
  by (simp_all add: rd_u32_def rd_dbls_def points_at_def)

lemma gser_rings_total [simp]: "gser_rings be fl bs k cnt off \<noteq> Inl StackOverflow"
  by (induction k arbitrary: cnt off) (auto simp: rbind_eq_Inl_iff)

lemma leaf_total:
  "lwpoint_from_gserialized2_buffer be fl srid bs \<noteq> Inl StackOverflow"
  "lwline_from_gserialized2_buffer be fl srid bs \<noteq> Inl StackOverflow"
  "lwtriangle_from_gserialized2_buffer be fl srid bs \<noteq> Inl StackOverflow"
  "lwcircstring_from_gserialized2_buffer be fl srid bs \<noteq> Inl StackOverflow"
  "lwpoly_from_gserialized2_buffer be fl srid bs \<noteq> Inl StackOverflow"
  "lwellipse_from_gserialized2_buffer be fl srid bs \<noteq> Inl StackOverflow"
  "lwbezier_from_gserialized2_buffer be fl srid bs \<noteq> Inl StackOverflow"
  unfolding lwpoint_from_gserialized2_buffer_def lwline_from_gserialized2_buffer_def lwtriangle_from_gserialized2_buffer_def
    lwcircstring_from_gserialized2_buffer_def lwpoly_from_gserialized2_buffer_def lwellipse_from_gserialized2_buffer_def
    lwbezier_from_gserialized2_buffer_def Let_def
  by (auto simp: rbind_eq_Inl_iff split: if_splits)

lemma decode_items_total:
  assumes "\<And>k. d (drop k bs) \<noteq> Inl e"
  shows "decode_items d n bs \<noteq> Inl e"
  using assms
proof (induction n arbitrary: bs)
  case (Suc n)
  have "d bs \<noteq> Inl e" using Suc.prems[of 0] by simp
  moreover have "decode_items d n (drop k bs) \<noteq> Inl e" for k
    using Suc.prems by (intro Suc.IH) simp
  ultimately show ?case by (auto simp: rbind_eq_Inl_iff)
qed simp

lemma rd_u32_room: "rd_u32 be bs off = Inr x \<Longrightarrow> off + 4 \<le> length bs"
  by (simp add: rd_u32_def split: if_splits)

lemma collection_total:
  assumes "\<And>fl bs'. length bs' + 8 \<le> length bs \<Longrightarrow> read fl bs' \<noteq> Inl StackOverflow"
  shows "lwcollection_from_gserialized2_buffer read be fl srid bs \<noteq> Inl StackOverflow"
  unfolding lwcollection_from_gserialized2_buffer_def Let_def
proof (intro rbind_total rd_total decode_items_total)
  fix type ngeoms k subtype
  assume "rd_u32 be bs 4 = Inr ngeoms"
  then have "length (drop k (drop 8 bs)) + 8 \<le> length bs" using rd_u32_room[of be bs 4] by simp
  from assms[OF this] show "(if subtype \<noteq> ucast (ucast subtype :: u8) \<or> \<not> lwcollection_allows_subtype (ucast type) (ucast subtype)
      then if type = 7 \<and> subtype \<noteq> ucast (ucast subtype :: u8)
        then Inl (LwError ''Unknown geometry type: %d - %s'')
        else Inl (LwError ''Invalid subtype (%s) for collection type (%s)'')
      else read (FLAGS_SET_BBOX fl False) (drop k (drop 8 bs))) \<noteq> Inl StackOverflow" by simp
qed simp

text \<open>C22: The reader ends on any memory: a collection has read eight bytes before it calls itself, so a
  call depth of one more than an eighth of the size of the memory is never exhausted, whatever the bytes are.\<close>

theorem gserialized2_reader_terminates:
  assumes "length bs < 8 * fuel"
  shows "lwgeom_from_gserialized2_buffer fuel be srid fl bs \<noteq> Inl StackOverflow"
  using assms
proof (induction fuel arbitrary: fl bs)
  case (Suc fuel)
  have "lwcollection_from_gserialized2_buffer (lwgeom_from_gserialized2_buffer fuel be srid) be fl srid bs \<noteq> Inl StackOverflow"
    using Suc by (intro collection_total) simp
  then show ?case by (simp add: rbind_eq_Inl_iff leaf_total)
qed simp

section \<open>Setting and dropping the box\<close>

lemma LWSIZE_SET_GET_SET: "n < 2 ^ 30 \<Longrightarrow> LWSIZE_SET be (unat (LWSIZE_GET be (LWSIZE_SET be n))) = LWSIZE_SET be n"
  by (simp add: LWSIZE_GET_SET)

lemma set_bbox_flags:
  "\<not> bit f 2 \<Longrightarrow> G2FLAGS_SET_BBOX (G2FLAGS_SET_BBOX f True) False = f"
  by (rule bit_eqI) (auto simp: flags_simps)

text \<open>The bounds \<open>set_gbox\<close> writes, in the order of the format.\<close>

definition set_bounds :: "gserialized \<Rightarrow> gbox \<Rightarrow> flt list" where
  "set_bounds g gbox =
     (let gbox = gbox_float_round gbox in map flt_of_dbl
        ([xmin gbox, xmax gbox, ymin gbox, ymax gbox] @
         (if gserialized2_has_z g \<or> gserialized2_is_geodetic g then [zmin gbox, zmax gbox] else []) @
         (if gserialized2_has_m g \<and> \<not> gserialized2_is_geodetic g then [mmin gbox, mmax gbox] else [])))"

lemma length_set_bounds: "length (set_bounds g b) = 2 * G2FLAGS_NDIMS_BOX (gs_gflags g)"
  by (simp add: set_bounds_def gserialized2_has_z_def gserialized2_has_m_def gserialized2_is_geodetic_def
    ndims_box_bits flags_simps Let_def)


section \<open>Concrete data\<close>

definition gs_env_example :: gs_env where
  "gs_env_example = \<lparr>big_endian = False, curves = no_curves, geodetic_gbox = \<lambda>_ _. None, stack_gbox = gbox_init\<rparr>"

definition gs_box_example :: gbox where
  "gs_box_example = gbox_init\<lparr>gb_flags := 1, xmin := 1, xmax := 7, ymin := 2, ymax := 8, zmin := 3, zmax := 9\<rparr>"

definition gs_example :: lwgeom where
  "gs_example = map_hdr (\<lambda>h. h\<lparr>g_bbox := Some gs_box_example\<rparr>) (ops_example 4326)"

lemma flag_1_bits: "bit (1 :: u16) n \<longleftrightarrow> n = 0"
  by (simp add: bit_1_iff)

lemma bbox_flag_bits: "bit (FLAGS_SET_BBOX 1 v) n \<longleftrightarrow> n = 0 \<or> n = 2 \<and> v"
  by (auto simp: flags_simps flag_1_bits)

lemma gs_example_prepared:
  "gserialized2_prepare gs_env_example gs_example = map_hdr (\<lambda>h. h\<lparr>g_flags := FLAGS_SET_BBOX 1 True\<rparr>) gs_example"
  by (simp add: gserialized2_prepare_def Let_def gs_example_def ops_example_def)

lemma gs_example_storable:
  "gs_storable (True, False) (gserialized2_prepare gs_env_example gs_example)"
  "gs_depth (gserialized2_prepare gs_env_example gs_example) = 2"
  "gs_ok (True, False) gs_example" "gs_plain gs_example" "gs_depth gs_example = 2"
proof -
  have nd: "FLAGS_NDIMS (FLAGS_SET_BBOX 1 True) = 3" "\<not> lwflags_uses_extended_flags (FLAGS_SET_BBOX 1 True)"
    by (auto simp: FLAGS_NDIMS_bits bbox_flag_bits uses_extended_bits)
  have box: "box_fits (FLAGS_SET_BBOX 1 True) gs_box_example"
    by (simp add: box_fits_def gs_box_example_def bbox_flag_bits flag_1_bits)
  note simps = gs_example_def ops_example_def ops_line_def gs_flags_def gs_array_def pa_wf_def
    bbox_flag_bits flag_1_bits FLAGS_NDIMS_1 lwtype_is_collection_def
  show "gs_ok (True, False) gs_example" "gs_depth gs_example = 2" "gs_plain gs_example"
    "gs_depth (gserialized2_prepare gs_env_example gs_example) = 2" unfolding gs_example_prepared by (simp_all add: simps lwcollection_allows_subtype_def)
  show "gs_storable (True, False) (gserialized2_prepare gs_env_example gs_example)"
    unfolding gs_example_prepared using box nd by (simp add: simps gs_storable_def gserialized2_from_lwgeom_size_def points_size_def gbox_serialized_size_def
      lwcollection_allows_subtype_def)
qed

theorem gserialized2_roundtrip_witness:
  "\<exists>d. gserialized2_from_lwgeom gs_env_example gs_example = Inr d \<and>
    unat (LWSIZE_GET False (gs_size d)) = 8 + length (gs_data d) \<and>
    (\<exists>g. lwgeom_from_gserialized2 2 gs_env_example d = Inr g \<and> g_srid (g_hdr g) = 4326 \<and>
      shape_of g = shape_of (ops_example 4326))"
proof -
  have g: "geodetic_gbox gs_env_example g b = None" for g b by (simp add: gs_env_example_def)
  note gserialized2_roundtrip[OF gs_example_storable(1) g, of 2]
  moreover have "shape_of (gserialized2_prepare gs_env_example gs_example) = shape_of (ops_example 4326)"
    unfolding gs_example_prepared by (simp add: gs_example_def shape_map_hdr flags_simps ZM_bits flag_1_bits ops_example_def)
  moreover have "g_srid (g_hdr (gs_read_back gs_env_example (gserialized2_prepare gs_env_example gs_example))) = 4326"
    unfolding gs_example_prepared
    by (simp add: gs_read_back_def gs_example_def ops_example_def Let_def gser_hdr_def clamp_srid_def word_sle_eq word_sless_alt)
  ultimately show ?thesis using gs_example_storable(2) by (auto simp: gs_env_example_def)
qed


theorem gserialized2_reader_terminates_witness:
  "lwgeom_from_gserialized2_buffer 3 False 0 0 (replicate 20 7) \<noteq> Inl StackOverflow"
  using gserialized2_reader_terminates[of "replicate 20 7" 3] by simp

definition gs_point_datum :: gserialized where
  "gs_point_datum = \<lparr>gs_size = LWSIZE_SET True 32, gs_srid = (0, 16, 230), gs_gflags = 0x41,
     gs_data = gs_body True (LwPoint (gser_hdr 0 4326) \<lparr>npoints = 1, maxpoints = 1, pa_flags = 0, serialized_pointlist = [1, 2]\<rparr>)\<rparr>"


end
