(* ===== verification/Gser1.thy ===== *)
theory Gser1
  imports Gser2Roundtrip
begin

text \<open>
  Version 1 of the serialized format (gserialized1.c), which is still read and, for some callers, written. It has the same
  layout as version 2 without the extended flags; the flag of a solid is in the header. Ellipses and Bezier curves
  are unknown to it. The functions that write the parts are shown equal to those of version 2, whose theory then
  gives the round trip.
\<close>

section \<open>The header\<close>

abbreviation G1FLAG_Z :: u8 where "G1FLAG_Z \<equiv> 0x01"
abbreviation G1FLAG_M :: u8 where "G1FLAG_M \<equiv> 0x02"
abbreviation G1FLAG_BBOX :: u8 where "G1FLAG_BBOX \<equiv> 0x04"
abbreviation G1FLAG_GEODETIC :: u8 where "G1FLAG_GEODETIC \<equiv> 0x08"
abbreviation G1FLAG_SOLID :: u8 where "G1FLAG_SOLID \<equiv> 0x20"

definition G1FLAGS_GET_Z :: "u8 \<Rightarrow> nat" where "G1FLAGS_GET_Z f = unat (f AND G1FLAG_Z)"

definition G1FLAGS_GET_M :: "u8 \<Rightarrow> nat" where "G1FLAGS_GET_M f = unat (drop_bit 1 (f AND G1FLAG_M))"

definition G1FLAGS_GET_BBOX :: "u8 \<Rightarrow> nat" where "G1FLAGS_GET_BBOX f = unat (drop_bit 2 (f AND G1FLAG_BBOX))"

definition G1FLAGS_GET_GEODETIC :: "u8 \<Rightarrow> nat" where "G1FLAGS_GET_GEODETIC f = unat (drop_bit 3 (f AND G1FLAG_GEODETIC))"

definition G1FLAGS_GET_SOLID :: "u8 \<Rightarrow> nat" where "G1FLAGS_GET_SOLID f = unat (drop_bit 5 (f AND G1FLAG_SOLID))"

definition G1FLAGS_SET_Z :: "u8 \<Rightarrow> bool \<Rightarrow> u8" where
  "G1FLAGS_SET_Z f v = (if v then f OR G1FLAG_Z else f AND NOT G1FLAG_Z)"

definition G1FLAGS_SET_M :: "u8 \<Rightarrow> bool \<Rightarrow> u8" where
  "G1FLAGS_SET_M f v = (if v then f OR G1FLAG_M else f AND NOT G1FLAG_M)"

definition G1FLAGS_SET_BBOX :: "u8 \<Rightarrow> bool \<Rightarrow> u8" where
  "G1FLAGS_SET_BBOX f v = (if v then f OR G1FLAG_BBOX else f AND NOT G1FLAG_BBOX)"

definition G1FLAGS_SET_GEODETIC :: "u8 \<Rightarrow> bool \<Rightarrow> u8" where
  "G1FLAGS_SET_GEODETIC f v = (if v then f OR G1FLAG_GEODETIC else f AND NOT G1FLAG_GEODETIC)"

definition G1FLAGS_SET_SOLID :: "u8 \<Rightarrow> bool \<Rightarrow> u8" where
  "G1FLAGS_SET_SOLID f v = (if v then f OR G1FLAG_SOLID else f AND NOT G1FLAG_SOLID)"

definition G1FLAGS_NDIMS :: "u8 \<Rightarrow> nat" where "G1FLAGS_NDIMS f = 2 + G1FLAGS_GET_Z f + G1FLAGS_GET_M f"

definition G1FLAGS_NDIMS_BOX :: "u8 \<Rightarrow> nat" where
  "G1FLAGS_NDIMS_BOX f = (if G1FLAGS_GET_GEODETIC f \<noteq> 0 then 3 else G1FLAGS_NDIMS f)"

definition gserialized1_get_lwflags :: "gserialized \<Rightarrow> u16" where
  "gserialized1_get_lwflags g =
     (let gflags = gs_gflags g;
          lwfl = FLAGS_SET_Z 0 (G1FLAGS_GET_Z gflags \<noteq> 0);
          lwfl = FLAGS_SET_M lwfl (G1FLAGS_GET_M gflags \<noteq> 0);
          lwfl = FLAGS_SET_BBOX lwfl (G1FLAGS_GET_BBOX gflags \<noteq> 0);
          lwfl = FLAGS_SET_GEODETIC lwfl (G1FLAGS_GET_GEODETIC gflags \<noteq> 0)
      in FLAGS_SET_SOLID lwfl (G1FLAGS_GET_SOLID gflags \<noteq> 0))"

definition lwflags_get_g1flags :: "u16 \<Rightarrow> u8" where
  "lwflags_get_g1flags lwfl =
     (let gflags = G1FLAGS_SET_Z 0 (FLAGS_GET_Z lwfl \<noteq> 0);
          gflags = G1FLAGS_SET_M gflags (FLAGS_GET_M lwfl \<noteq> 0);
          gflags = G1FLAGS_SET_BBOX gflags (FLAGS_GET_BBOX lwfl \<noteq> 0);
          gflags = G1FLAGS_SET_GEODETIC gflags (FLAGS_GET_GEODETIC lwfl \<noteq> 0)
      in G1FLAGS_SET_SOLID gflags (FLAGS_GET_SOLID lwfl \<noteq> 0))"

definition gserialized1_box_size :: "gserialized \<Rightarrow> nat" where
  "gserialized1_box_size g =
     (if G1FLAGS_GET_GEODETIC (gs_gflags g) \<noteq> 0 then 6 * 4 else 2 * G1FLAGS_NDIMS (gs_gflags g) * 4)"

definition g1flags :: "bool \<Rightarrow> bool \<Rightarrow> bool \<Rightarrow> u8" where
  "g1flags has_z has_m is_geodetic =
     (let gflags = 0;
          gflags = (if has_z then G1FLAGS_SET_Z gflags True else gflags);
          gflags = (if has_m then G1FLAGS_SET_M gflags True else gflags)
      in if is_geodetic then G1FLAGS_SET_GEODETIC gflags True else gflags)"

definition gserialized1_has_bbox :: "gserialized \<Rightarrow> bool" where
  "gserialized1_has_bbox g \<longleftrightarrow> G1FLAGS_GET_BBOX (gs_gflags g) \<noteq> 0"

definition gserialized1_has_z :: "gserialized \<Rightarrow> bool" where
  "gserialized1_has_z g \<longleftrightarrow> G1FLAGS_GET_Z (gs_gflags g) \<noteq> 0"

definition gserialized1_has_m :: "gserialized \<Rightarrow> bool" where
  "gserialized1_has_m g \<longleftrightarrow> G1FLAGS_GET_M (gs_gflags g) \<noteq> 0"

definition gserialized1_is_geodetic :: "gserialized \<Rightarrow> bool" where
  "gserialized1_is_geodetic g \<longleftrightarrow> G1FLAGS_GET_GEODETIC (gs_gflags g) \<noteq> 0"

definition gserialized1_ndims :: "gserialized \<Rightarrow> nat" where
  "gserialized1_ndims g = G1FLAGS_NDIMS (gs_gflags g)"

definition gserialized1_max_header_size :: nat where
  "gserialized1_max_header_size = 8 + 8 * 4 + 4"

definition gserialized1_header_size :: "gserialized \<Rightarrow> nat" where
  "gserialized1_header_size g = 8 + (if gserialized1_has_bbox g then gserialized1_box_size g else 0)"

text \<open>The offset of the geometry in the data area.\<close>

definition gserialized1_start :: "gserialized \<Rightarrow> nat" where
  "gserialized1_start g = (if gserialized1_has_bbox g then gserialized1_box_size g else 0)"

definition gserialized1_get_type :: "bool \<Rightarrow> gserialized \<Rightarrow> u32 res" where
  "gserialized1_get_type be g =
     rd_u32 be (gs_data g) (if G1FLAGS_GET_BBOX (gs_gflags g) \<noteq> 0 then gserialized1_box_size g div 4 * 4 else 0)"

definition gserialized1_get_srid :: "gserialized \<Rightarrow> i32" where
  "gserialized1_get_srid g =
     (let (b0, b1, b2) = gs_srid g;
          srid = push_bit 16 (ucast b0) OR push_bit 8 (ucast b1) OR ucast b2;
          srid = signed_drop_bit 11 (push_bit 11 srid)
      in if srid = 0 then SRID_UNKNOWN else srid)"

definition gserialized1_set_srid :: "i32 \<Rightarrow> gserialized \<Rightarrow> gserialized" where
  "gserialized1_set_srid srid g =
     (let srid = clamp_srid srid;
          srid = (if srid = SRID_UNKNOWN then 0 else srid)
      in g\<lparr>gs_srid := (ucast (drop_bit 16 (srid AND 0x001F0000)), ucast (drop_bit 8 (srid AND 0x0000FF00)),
                     ucast (srid AND 0x000000FF))\<rparr>)"

section \<open>Emptiness without deserializing\<close>

primrec gserialized1_is_empty_recurse :: "nat \<Rightarrow> bool \<Rightarrow> u8 list \<Rightarrow> (nat \<times> bool) res" where
  "gserialized1_is_empty_recurse 0 be p = Inl StackOverflow"
| "gserialized1_is_empty_recurse (Suc fuel) be p =
     rbind (rd_u32 be p 0) (\<lambda>type.
     rbind (rd_u32 be p 4) (\<lambda>num.
       if lwtype_is_collection (ucast type)
       then rbind (fold (\<lambda>i r. rbind r (\<lambda>(lz, stop).
               if stop then Inr (lz, stop)
               else rbind (gserialized1_is_empty_recurse fuel be (drop lz p)) (\<lambda>(k, isempty).
                 Inr (lz + k, \<not> isempty))))
             [0..<if num <s 0 then 0 else unat num] (Inr (8, False)))
           (\<lambda>(lz, stop). Inr (lz, \<not> stop))
       else Inr (8, num = 0)))"

definition gserialized1_is_empty :: "nat \<Rightarrow> bool \<Rightarrow> gserialized \<Rightarrow> bool res" where
  "gserialized1_is_empty fuel be g =
     rbind (gserialized1_is_empty_recurse fuel be (drop (gserialized1_start g) (gs_data g)))
       (\<lambda>(lz, isempty). Inr isempty)"

section \<open>Boxes\<close>

definition gserialized1_get_float_box_p :: "gserialized \<Rightarrow> nat option" where
  "gserialized1_get_float_box_p g = (if G1FLAGS_GET_BBOX (gs_gflags g) = 0 then None else Some 0)"

text \<open>The first component is false for \<open>LW_FAILURE\<close>; the flags of the box are set in any case.\<close>

definition gserialized1_read_gbox_p :: "bool \<Rightarrow> gserialized \<Rightarrow> gbox \<Rightarrow> (bool \<times> gbox) res" where
  "gserialized1_read_gbox_p be g gbox =
     (let gbox = gbox\<lparr>gb_flags := gserialized1_get_lwflags g\<rparr>; gflags = gs_gflags g
      in if G1FLAGS_GET_BBOX gflags = 0 then Inr (False, gbox)
         else rbind (rd_flts be (gs_data g) 0 (2 * G1FLAGS_NDIMS_BOX gflags)) (\<lambda>fbox.
           let d = (\<lambda>i. dbl_of_flt (fbox ! i));
               gbox = gbox\<lparr>xmin := d 0, xmax := d 1, ymin := d 2, ymax := d 3\<rparr>
           in Inr (True,
             if G1FLAGS_GET_GEODETIC gflags \<noteq> 0 then gbox\<lparr>zmin := d 4, zmax := d 5\<rparr>
             else
               let gbox = (if G1FLAGS_GET_Z gflags \<noteq> 0 then gbox\<lparr>zmin := d 4, zmax := d 5\<rparr> else gbox);
                   i = (if G1FLAGS_GET_Z gflags \<noteq> 0 then 6 else 4)
               in if G1FLAGS_GET_M gflags \<noteq> 0 then gbox\<lparr>mmin := d i, mmax := d (i + 1)\<rparr> else gbox)))"

text \<open>Only a datum without a box is looked into, so its geometry starts with the data area.\<close>

definition gserialized1_peek_gbox_p :: "bool \<Rightarrow> gserialized \<Rightarrow> gbox \<Rightarrow> gbox option res" where
  "gserialized1_peek_gbox_p be g gbox =
     (let start = 0; bs = gs_data g; nd = G1FLAGS_NDIMS (gs_gflags g);
          point = (\<lambda>off. (let lwfl = gserialized1_get_lwflags g
             in rbind (rd_dbls be bs off nd) (\<lambda>p. Inr (Some (peek_bounds lwfl p p gbox)))));
          segment = (\<lambda>off. (let lwfl = gserialized1_get_lwflags g
             in rbind (rd_dbls be bs off (2 * nd)) (\<lambda>pq. Inr (Some (peek_bounds lwfl (take nd pq) (drop nd pq) gbox)))))
      in rbind (gserialized1_get_type be g) (\<lambda>type.
         if G1FLAGS_GET_GEODETIC (gs_gflags g) \<noteq> 0 \<or> G1FLAGS_GET_BBOX (gs_gflags g) \<noteq> 0 then Inr None
         else if type = 1 then
           rbind (rd_u32 be bs (start + 4)) (\<lambda>n. if n = 0 then Inr None else point (start + 8))
         else if type = 2 then
           rbind (rd_u32 be bs (start + 4)) (\<lambda>n. if n \<noteq> 2 then Inr None else segment (start + 8))
         else if type = 4 then
           rbind (rd_u32 be bs (start + 4)) (\<lambda>ngeoms. if ngeoms \<noteq> 1 then Inr None
             else rbind (rd_u32 be bs (start + 12)) (\<lambda>n. if n \<noteq> 1 then Inr None else point (start + 16)))
         else if type = 5 then
           rbind (rd_u32 be bs (start + 4)) (\<lambda>ngeoms. if ngeoms \<noteq> 1 then Inr None
             else rbind (rd_u32 be bs (start + 12)) (\<lambda>n. if n \<noteq> 2 then Inr None else segment (start + 16)))
         else Inr None))"

definition gserialized1_copy_point :: "dbl list \<Rightarrow> u8 \<Rightarrow> point4d \<Rightarrow> point4d" where
  "gserialized1_copy_point dptr flags out_point =
     (let p = out_point\<lparr>px := dptr ! 0, py := dptr ! 1\<rparr>;
          p = (if G1FLAGS_GET_Z flags \<noteq> 0 then p\<lparr>pz := dptr ! 2\<rparr> else p)
      in if G1FLAGS_GET_M flags \<noteq> 0 then p\<lparr>pm := dptr ! (if G1FLAGS_GET_Z flags \<noteq> 0 then 3 else 2)\<rparr> else p)"

definition gserialized1_peek_first_point :: "bool \<Rightarrow> gserialized \<Rightarrow> point4d \<Rightarrow> point4d option res" where
  "gserialized1_peek_first_point be g out_point =
     (let start = gserialized1_start g
      in rbind (rd_u32 be (gs_data g) (start + 4)) (\<lambda>n.
         if n = 0 then Inr None
         else rbind (rd_u32 be (gs_data g) start) (\<lambda>type.
           if type \<noteq> 1 then Inl (LwError ''%s is currently not implemented for type %d'')
           else rbind (rd_dbls be (gs_data g) (start + 8) (G1FLAGS_NDIMS (gs_gflags g))) (\<lambda>d.
             Inr (Some (gserialized1_copy_point d (gs_gflags g) out_point))))))"

definition gserialized1_fast_gbox_p :: "bool \<Rightarrow> gserialized \<Rightarrow> gbox \<Rightarrow> (bool \<times> gbox) res" where
  "gserialized1_fast_gbox_p be g box =
     rbind (gserialized1_read_gbox_p be g box) (\<lambda>(ok, box).
       if ok then Inr (True, box)
       else rbind (gserialized1_peek_gbox_p be g box) (\<lambda>r.
         case r of Some box \<Rightarrow> Inr (True, box) | None \<Rightarrow> Inr (False, box)))"

section \<open>Sizes\<close>

text \<open>The types that came later, ellipses and Bezier curves, are not known here.\<close>

fun gserialized1_from_any_size :: "lwgeom \<Rightarrow> nat res" where
  "gserialized1_from_any_size (LwPoint h pa) = Inr (8 + points_size (npoints pa) (g_flags h))"
| "gserialized1_from_any_size (LwLine h pa) = Inr (8 + points_size (npoints pa) (g_flags h))"
| "gserialized1_from_any_size (LwTriangle h pa) = Inr (8 + points_size (npoints pa) (g_flags h))"
| "gserialized1_from_any_size (LwCircString h pa) = Inr (8 + points_size (npoints pa) (g_flags h))"
| "gserialized1_from_any_size (LwPoly h rings) =
     Inr (8 + (if odd (length rings) then 4 else 0) +
       sum_list (map (\<lambda>pa. 4 + points_size (npoints pa) (g_flags h)) rings))"
| "gserialized1_from_any_size (LwEllipse h e) = Inl (LwError ''Unknown geometry type: %d - %s'')"
| "gserialized1_from_any_size (LwBezier h pa) = Inl (LwError ''Unknown geometry type: %d - %s'')"
| "gserialized1_from_any_size (LwColl ty h gs) =
     rbind (map_res gserialized1_from_any_size gs) (\<lambda>ns. Inr (8 + sum_list ns))"

definition gserialized1_from_lwgeom_size :: "lwgeom \<Rightarrow> nat res" where
  "gserialized1_from_lwgeom_size geom =
     rbind (gserialized1_from_any_size geom) (\<lambda>n.
       Inr (8 + (if g_bbox (g_hdr geom) \<noteq> None then gbox_serialized_size (g_flags (g_hdr geom)) else 0) + n))"

section \<open>Writing\<close>

definition gserialized1_from_lwpoint :: "bool \<Rightarrow> lwhdr \<Rightarrow> ptarray \<Rightarrow> u8 list res" where
  "gserialized1_from_lwpoint be h pa =
     (if FLAGS_GET_ZM (g_flags h) \<noteq> FLAGS_GET_ZM (pa_flags pa) then Inl (LwError ''Dimensions mismatch in lwpoint'')
      else rbind (if npoints pa = 0 then Inr [] else copy_points be pa (8 * pa_ndims pa)) (\<lambda>bs.
        Inr (put_u32 be 1 @ put_u32 be (npoints pa) @ bs)))"

definition gserialized1_from_lwline :: "bool \<Rightarrow> lwhdr \<Rightarrow> ptarray \<Rightarrow> u8 list res" where
  "gserialized1_from_lwline be h pa =
     (if FLAGS_GET_Z (g_flags h) \<noteq> FLAGS_GET_Z (pa_flags pa) then Inl (LwError ''Dimensions mismatch in lwline'')
      else rbind (all_points be pa (8 * pa_ndims pa)) (\<lambda>bs.
        Inr (put_u32 be 2 @ put_u32 be (npoints pa) @ bs)))"

definition gserialized1_from_lwpoly :: "bool \<Rightarrow> lwhdr \<Rightarrow> ptarray list \<Rightarrow> u8 list res" where
  "gserialized1_from_lwpoly be h rings =
     rbind (map_res (\<lambda>pa.
         if FLAGS_GET_ZM (g_flags h) \<noteq> FLAGS_GET_ZM (pa_flags pa) then Inl (LwError ''Dimensions mismatch in lwpoly'')
         else all_points be pa (8 * FLAGS_NDIMS (g_flags h))) rings) (\<lambda>bss.
       Inr (put_u32 be 3 @ put_u32 be (of_nat (length rings)) @
         concat (map (\<lambda>pa. put_u32 be (npoints pa)) rings) @
         (if odd (length rings) then replicate 4 0 else []) @ concat bss))"

definition gserialized1_from_lwtriangle :: "bool \<Rightarrow> lwhdr \<Rightarrow> ptarray \<Rightarrow> u8 list res" where
  "gserialized1_from_lwtriangle be h pa =
     (if FLAGS_GET_ZM (g_flags h) \<noteq> FLAGS_GET_ZM (pa_flags pa) then Inl (LwError ''Dimensions mismatch in lwtriangle'')
      else rbind (all_points be pa (8 * pa_ndims pa)) (\<lambda>bs.
        Inr (put_u32 be 14 @ put_u32 be (npoints pa) @ bs)))"

definition gserialized1_from_lwcircstring :: "bool \<Rightarrow> lwhdr \<Rightarrow> ptarray \<Rightarrow> u8 list res" where
  "gserialized1_from_lwcircstring be h pa =
     (if FLAGS_GET_ZM (g_flags h) \<noteq> FLAGS_GET_ZM (pa_flags pa) then Inl (LwError ''Dimensions mismatch in lwcircstring'')
      else rbind (all_points be pa (8 * pa_ndims pa)) (\<lambda>bs.
        Inr (put_u32 be 8 @ put_u32 be (npoints pa) @ bs)))"

fun gserialized1_from_lwgeom_any :: "bool \<Rightarrow> lwgeom \<Rightarrow> u8 list res" where
  "gserialized1_from_lwgeom_any be (LwPoint h pa) = gserialized1_from_lwpoint be h pa"
| "gserialized1_from_lwgeom_any be (LwLine h pa) = gserialized1_from_lwline be h pa"
| "gserialized1_from_lwgeom_any be (LwPoly h rings) = gserialized1_from_lwpoly be h rings"
| "gserialized1_from_lwgeom_any be (LwTriangle h pa) = gserialized1_from_lwtriangle be h pa"
| "gserialized1_from_lwgeom_any be (LwCircString h pa) = gserialized1_from_lwcircstring be h pa"
| "gserialized1_from_lwgeom_any be (LwEllipse h e) = Inl (LwError ''Unknown geometry type: %d - %s'')"
| "gserialized1_from_lwgeom_any be (LwBezier h pa) = Inl (LwError ''Unknown geometry type: %d - %s'')"
| "gserialized1_from_lwgeom_any be (LwColl ty h gs) =
     rbind (map_res (\<lambda>g.
         if FLAGS_GET_ZM (g_flags h) \<noteq> FLAGS_GET_ZM (g_flags (g_hdr g))
         then Inl (LwError ''Dimensions mismatch in lwcollection'')
         else gserialized1_from_lwgeom_any be g) gs) (\<lambda>bss.
       Inr (put_u32 be (ucast ty) @ put_u32 be (of_nat (length gs)) @ concat bss))"

definition gserialized1_from_gbox :: "bool \<Rightarrow> gbox \<Rightarrow> u8 list" where
  "gserialized1_from_gbox be gbox =
     flt_bytes be
       ([next_float_down (xmin gbox), next_float_up (xmax gbox), next_float_down (ymin gbox), next_float_up (ymax gbox)] @
        (if FLAGS_GET_GEODETIC (gb_flags gbox) \<noteq> 0 then [next_float_down (zmin gbox), next_float_up (zmax gbox)]
         else
           (if FLAGS_GET_Z (gb_flags gbox) \<noteq> 0 then [next_float_down (zmin gbox), next_float_up (zmax gbox)] else []) @
           (if FLAGS_GET_M (gb_flags gbox) \<noteq> 0 then [next_float_down (mmin gbox), next_float_up (mmax gbox)] else [])))"

definition gserialized1_prepare :: "gs_env \<Rightarrow> lwgeom \<Rightarrow> lwgeom" where
  "gserialized1_prepare env geom =
     (let geom = (if g_bbox (g_hdr geom) = None \<and> lwgeom_needs_bbox geom \<and> \<not> lwgeom_is_empty geom
                  then lwgeom_add_bbox (curves env) (geodetic_gbox env) geom else geom)
      in map_hdr (\<lambda>h. h\<lparr>g_flags := FLAGS_SET_BBOX (g_flags h) (g_bbox h \<noteq> None)\<rparr>) geom)"

definition gserialized1_from_lwgeom :: "gs_env \<Rightarrow> lwgeom \<Rightarrow> gserialized res" where
  "gserialized1_from_lwgeom env geom =
     (let be = big_endian env; geom = gserialized1_prepare env geom; h = g_hdr geom
      in rbind (gserialized1_from_lwgeom_size geom) (\<lambda>expected_size.
         rbind (gserialized1_from_lwgeom_any be geom) (\<lambda>body.
           let bs = (case g_bbox h of None \<Rightarrow> [] | Some b \<Rightarrow> gserialized1_from_gbox be b) @ body;
               return_size = 8 + length bs
           in if expected_size < return_size then Inl MemFault
              else if expected_size \<noteq> return_size
              then Inl (LwError ''Return size (%d) not equal to expected size (%d)!'')
              else Inr (gserialized1_set_srid (g_srid h)
                \<lparr>gs_size = push_bit 2 (of_nat return_size), gs_srid = (0, 0, 0), gs_gflags = lwflags_get_g1flags (g_flags h),
                 gs_data = bs\<rparr>))))"

section \<open>Reading\<close>

definition lwpoint_from_gserialized1_buffer :: "bool \<Rightarrow> u16 \<Rightarrow> u8 list \<Rightarrow> (lwgeom \<times> nat) res" where
  "lwpoint_from_gserialized1_buffer be fl bs =
     rbind (rd_u32 be bs 4) (\<lambda>n.
     rbind (if 0 < n then points_at be fl 1 bs 8 else Inr (no_points fl)) (\<lambda>pa.
       Inr (LwPoint (gser_hdr fl SRID_UNKNOWN) pa, 8 + points_size n fl)))"

definition lwline_from_gserialized1_buffer :: "bool \<Rightarrow> u16 \<Rightarrow> u8 list \<Rightarrow> (lwgeom \<times> nat) res" where
  "lwline_from_gserialized1_buffer be fl bs =
     rbind (rd_u32 be bs 4) (\<lambda>n.
     rbind (if 0 < n then points_at be fl n bs 8 else Inr (no_points fl)) (\<lambda>pa.
       Inr (LwLine (gser_hdr fl SRID_UNKNOWN) pa, 8 + points_size n fl)))"

definition lwtriangle_from_gserialized1_buffer :: "bool \<Rightarrow> u16 \<Rightarrow> u8 list \<Rightarrow> (lwgeom \<times> nat) res" where
  "lwtriangle_from_gserialized1_buffer be fl bs =
     rbind (rd_u32 be bs 4) (\<lambda>n.
     rbind (if 0 < n then points_at be fl n bs 8 else Inr (no_points fl)) (\<lambda>pa.
       Inr (LwTriangle (gser_hdr fl SRID_UNKNOWN) pa, 8 + points_size n fl)))"

definition lwcircstring_from_gserialized1_buffer :: "bool \<Rightarrow> u16 \<Rightarrow> u8 list \<Rightarrow> (lwgeom \<times> nat) res" where
  "lwcircstring_from_gserialized1_buffer be fl bs =
     rbind (rd_u32 be bs 4) (\<lambda>n.
     rbind (if 0 < n then points_at be fl n bs 8 else Inr (no_points fl)) (\<lambda>pa.
       Inr (LwCircString (gser_hdr fl SRID_UNKNOWN) pa, 8 + points_size n fl)))"

definition lwpoly_from_gserialized1_buffer :: "bool \<Rightarrow> u16 \<Rightarrow> u8 list \<Rightarrow> (lwgeom \<times> nat) res" where
  "lwpoly_from_gserialized1_buffer be fl bs =
     rbind (rd_u32 be bs 4) (\<lambda>nrings.
       let ordinate_ptr = (if 0 < nrings then 8 + unat (nrings * 4) + (if odd (unat nrings) then 4 else 0) else 8)
       in rbind (gser_rings be fl bs (unat nrings) 8 ordinate_ptr) (\<lambda>r.
            Inr (LwPoly (gser_hdr fl SRID_UNKNOWN) (fst r), snd r)))"

definition lwcollection_from_gserialized1_buffer ::
  "(u16 \<Rightarrow> u8 list \<Rightarrow> (lwgeom \<times> nat) res) \<Rightarrow> bool \<Rightarrow> u16 \<Rightarrow> u8 list \<Rightarrow> (lwgeom \<times> nat) res" where
  "lwcollection_from_gserialized1_buffer read_member be fl bs =
     rbind (rd_u32 be bs 0) (\<lambda>type.
     rbind (rd_u32 be bs 4) (\<lambda>ngeoms.
       let fl' = FLAGS_SET_BBOX fl False
       in rbind (decode_items (\<lambda>bs.
            rbind (rd_u32 be bs 0) (\<lambda>subtype.
              if subtype \<noteq> ucast (ucast subtype :: u8) \<or>
                 \<not> lwcollection_allows_subtype (ucast type) (ucast subtype)
              then if type = 7 \<and> subtype \<noteq> ucast (ucast subtype :: u8)
                then Inl (LwError ''Unknown geometry type: %d - %s'')
                else Inl (LwError ''Invalid subtype (%s) for collection type (%s)'')
              else read_member fl' bs)) (unat ngeoms) (drop 8 bs)) (\<lambda>r.
            Inr (LwColl (ucast type) (gser_hdr fl SRID_UNKNOWN) (fst r), 8 + snd r))))"

primrec lwgeom_from_gserialized1_buffer ::
  "nat \<Rightarrow> bool \<Rightarrow> u16 \<Rightarrow> u8 list \<Rightarrow> (lwgeom \<times> nat) res" where
  "lwgeom_from_gserialized1_buffer 0 be fl bs = Inl StackOverflow"
| "lwgeom_from_gserialized1_buffer (Suc fuel) be fl bs =
     rbind (rd_u32 be bs 0) (\<lambda>type.
       if type = 1 then lwpoint_from_gserialized1_buffer be fl bs
       else if type = 2 then lwline_from_gserialized1_buffer be fl bs
       else if type = 8 then lwcircstring_from_gserialized1_buffer be fl bs
       else if type = 3 then lwpoly_from_gserialized1_buffer be fl bs
       else if type = 14 then lwtriangle_from_gserialized1_buffer be fl bs
       else if type \<in> {4, 5, 6, 9, 10, 11, 12, 13, 15, 7}
       then lwcollection_from_gserialized1_buffer (lwgeom_from_gserialized1_buffer fuel be) be fl bs
       else Inl (LwError ''Unknown geometry type: %d - %s''))"

definition lwgeom_from_gserialized1 :: "nat \<Rightarrow> gs_env \<Rightarrow> gserialized \<Rightarrow> lwgeom res" where
  "lwgeom_from_gserialized1 fuel env g =
     (let be = big_endian env; srid = gserialized1_get_srid g; fl = gserialized1_get_lwflags g
      in rbind (gserialized1_get_type be g) (\<lambda>_.
           let off = (if FLAGS_GET_BBOX fl \<noteq> 0 then gbox_serialized_size fl else 0)
           in rbind (lwgeom_from_gserialized1_buffer fuel be fl (drop off (gs_data g))) (\<lambda>gk.
              let geom = map_hdr (\<lambda>h. h\<lparr>g_flags := fl\<rparr>) (fst gk)
              in rbind (gserialized1_read_gbox_p be g (stack_gbox env)) (\<lambda>r.
                 Inr (lwgeom_set_srid srid (map_hdr (\<lambda>h. h\<lparr>g_bbox :=
                     (if fst r then Some (snd r)
                      else if lwgeom_needs_bbox geom
                      then lwgeom_calculate_gbox (curves env) (geodetic_gbox env) geom (snd r)
                      else None)\<rparr>) geom))))))"

section \<open>Setting and dropping the box\<close>

definition gserialized1_set_gbox :: "bool \<Rightarrow> gserialized \<Rightarrow> gbox \<Rightarrow> gserialized option res" where
  "gserialized1_set_gbox be g gbox =
     (let g_ndims = G1FLAGS_NDIMS_BOX (gs_gflags g); box_ndims = FLAGS_NDIMS_BOX (gb_flags gbox);
          box_size = 2 * g_ndims * 4
      in if g_ndims \<noteq> box_ndims then Inr None
         else rbind
           (if gserialized1_has_bbox g then Inr g
            else
              let varsize_in = unat (LWSIZE_GET be (gs_size g)); body = varsize_in - 8
              in if varsize_in < 8 \<or> length (gs_data g) < body then Inl MemFault
                 else Inr (g\<lparr>gs_data := replicate box_size 0 @ take body (gs_data g),
                        gs_gflags := G1FLAGS_SET_BBOX (gs_gflags g) True,
                        gs_size := LWSIZE_SET be (varsize_in + box_size)\<rparr>)) (\<lambda>g_out.
           let gbox = gbox_float_round gbox;
               fbox = flt_bytes be (map flt_of_dbl
                 ([xmin gbox, xmax gbox, ymin gbox, ymax gbox] @
                  (if gserialized1_has_z g \<or> gserialized1_is_geodetic g then [zmin gbox, zmax gbox] else []) @
                  (if gserialized1_has_m g \<and> \<not> gserialized1_is_geodetic g then [mmin gbox, mmax gbox] else [])))
           in if length (gs_data g_out) < length fbox then Inl MemFault
              else Inr (Some (g_out\<lparr>gs_data := fbox @ drop (length fbox) (gs_data g_out)\<rparr>))))"

definition gserialized1_drop_gbox :: "bool \<Rightarrow> gserialized \<Rightarrow> gserialized res" where
  "gserialized1_drop_gbox be g =
     (let box_size = 2 * G1FLAGS_NDIMS_BOX (gs_gflags g) * 4;
          g_size = unat (LWSIZE_GET be (gs_size g)); g_out_size = g_size - box_size
      in if g_size < box_size + 8 then Inl MemFault
         else if gserialized1_has_bbox g
         then if length (gs_data g) < box_size + (g_out_size - 8) then Inl MemFault
           else Inr (g\<lparr>gs_data := take (g_out_size - 8) (drop box_size (gs_data g)),
                  gs_gflags := G1FLAGS_SET_BBOX (gs_gflags g) False, gs_size := LWSIZE_SET be g_out_size\<rparr>)
         else if length (gs_data g) < g_out_size - 8 then Inl MemFault
         else Inr (g\<lparr>gs_data := take (g_out_size - 8) (gs_data g)\<rparr>))"

definition gserialized1_hash :: "(u8 list \<Rightarrow> u32 \<Rightarrow> u32 \<Rightarrow> u32 \<times> u32) \<Rightarrow> bool \<Rightarrow> gserialized \<Rightarrow> i32 res" where
  "gserialized1_hash hashlittle2 be g1 =
     (let hsz1 = gserialized1_header_size g1; sz1 = unat (LWSIZE_GET be (gs_size g1)); bsz1 = sz1 - hsz1;
          srid = gserialized1_get_srid g1
      in if sz1 < hsz1 \<or> length (gs_data g1) < sz1 - 8 then Inl MemFault
         else let (pb, pc) = hashlittle2 (mem_bytes be 4 srid @ take bsz1 (drop (hsz1 - 8) (gs_data g1))) 0 0
           in Inr (pb XOR pc))"

section \<open>The parts are those of version 2\<close>

fun curve_free :: "lwgeom \<Rightarrow> bool" where
  "curve_free (LwEllipse h e) = False"
| "curve_free (LwBezier h pa) = False"
| "curve_free (LwColl ty h gs) = list_all curve_free gs"
| "curve_free g = True"

lemma prepare1: "gserialized1_prepare = gserialized2_prepare"
  by (simp add: fun_eq_iff gserialized1_prepare_def gserialized2_prepare_def)

lemma box1: "gserialized1_from_gbox = gserialized2_from_gbox"
  by (simp add: fun_eq_iff gserialized1_from_gbox_def gserialized2_from_gbox_def)

lemma srid1: "gserialized1_get_srid = gserialized2_get_srid" "gserialized1_set_srid = gserialized2_set_srid"
  by (simp_all add: fun_eq_iff gserialized1_get_srid_def gserialized2_get_srid_def gserialized1_set_srid_def gserialized2_set_srid_def)

lemma writer1: "curve_free g \<Longrightarrow> gserialized1_from_lwgeom_any be g = gserialized2_from_lwgeom_any be g"
proof (induction g)
  case (LwColl ty h gs)
  then show ?case by (auto simp: list_all_iff intro!: arg_cong2[of _ _ _ _ rbind] map_res_cong)
qed (simp_all add: gserialized1_from_lwpoint_def gserialized2_from_lwpoint_def gserialized1_from_lwline_def
  gserialized2_from_lwline_def gserialized1_from_lwpoly_def gserialized2_from_lwpoly_def gserialized1_from_lwtriangle_def
  gserialized2_from_lwtriangle_def gserialized1_from_lwcircstring_def gserialized2_from_lwcircstring_def)

lemma size1: "gs_ok zm g \<Longrightarrow> curve_free g \<Longrightarrow> gserialized1_from_any_size g = Inr (gserialized2_from_any_size g)"
proof (induction g)
  case (LwPoly h rings)
  have "points_size (npoints pa) (g_flags h) = unat (npoints pa) * (FLAGS_NDIMS (g_flags h) * 8)"
    if "pa \<in> set rings" for pa
  proof -
    have "gs_array zm pa" "gs_flags zm h" using LwPoly.prems(1) that by (simp_all add: list_all_iff)
    then show ?thesis using gs_product(1)[of "g_flags h" "npoints pa"] gs_dims(1)[of zm h pa] by (simp add: gs_array_def)
  qed
  then show ?case by (simp cong: map_cong)
next
  case (LwColl ty h gs)
  then have "map_res gserialized1_from_any_size gs = Inr (map gserialized2_from_any_size gs)"
    by (intro map_res_Inr) (simp add: list_all_iff)
  then show ?case by simp
qed simp_all

lemma decode_items_agree:
  assumes "\<And>bs x k. d bs = Inr (x, k) \<Longrightarrow> P x \<Longrightarrow> d' bs = Inr (x, k)"
  shows "decode_items d n bs = Inr (xs, k) \<Longrightarrow> list_all P xs \<Longrightarrow> decode_items d' n bs = Inr (xs, k)"
proof (induction n arbitrary: bs xs k)
  case (Suc n)
  then obtain x j ys m where "d bs = Inr (x, j)" "decode_items d n (drop j bs) = Inr (ys, m)" "xs = x # ys" "k = j + m"
    by (fastforce simp: rbind_eq_Inr_iff)
  then show ?case using Suc.prems(2) assms[of bs x j] Suc.IH[of "drop j bs" ys m] by simp
qed simp

lemma collection_reader1:
  assumes "\<And>fl bs g k. read2 fl bs = Inr (g, k) \<Longrightarrow> curve_free g \<Longrightarrow> read1 fl bs = Inr (g, k)"
    and r: "lwcollection_from_gserialized2_buffer read2 be fl SRID_UNKNOWN bs = Inr (g, k)" and "curve_free g"
  shows "lwcollection_from_gserialized1_buffer read1 be fl bs = Inr (g, k)"
proof -
  let ?d = "\<lambda>read type bs. rbind (rd_u32 be bs 0) (\<lambda>subtype.
      if subtype \<noteq> ucast (ucast subtype :: u8) \<or> \<not> lwcollection_allows_subtype (ucast (type :: u32)) (ucast subtype)
      then if type = 7 \<and> subtype \<noteq> ucast (ucast subtype :: u8)
        then Inl (LwError ''Unknown geometry type: %d - %s'')
        else Inl (LwError ''Invalid subtype (%s) for collection type (%s)'')
      else read (FLAGS_SET_BBOX fl False) bs)"
  obtain type ngeoms gs m where h: "rd_u32 be bs 0 = Inr type" "rd_u32 be bs 4 = Inr ngeoms"
    "decode_items (?d read2 type) (unat ngeoms) (drop 8 bs) = Inr (gs, m)"
    "g = LwColl (ucast type) (gser_hdr fl SRID_UNKNOWN) gs" "k = 8 + m"
    using r unfolding lwcollection_from_gserialized2_buffer_def Let_def by (auto simp: rbind_eq_Inr_iff)
  have "decode_items (?d read1 type) (unat ngeoms) (drop 8 bs) = Inr (gs, m)"
  proof (rule decode_items_agree[OF _ h(3)])
    show "list_all curve_free gs" using assms(3) h(4) by simp
    show "?d read1 type bs = Inr (x, k)" if "?d read2 type bs = Inr (x, k)" "curve_free x" for bs x k
      using that assms(1) by (auto simp: rbind_eq_Inr_iff split: if_splits)
  qed
  then show ?thesis using h unfolding lwcollection_from_gserialized1_buffer_def Let_def by simp
qed

lemma leaf_readers1:
  "lwpoint_from_gserialized1_buffer be fl bs = lwpoint_from_gserialized2_buffer be fl SRID_UNKNOWN bs"
  "lwline_from_gserialized1_buffer be fl bs = lwline_from_gserialized2_buffer be fl SRID_UNKNOWN bs"
  "lwpoly_from_gserialized1_buffer be fl bs = lwpoly_from_gserialized2_buffer be fl SRID_UNKNOWN bs"
  "lwtriangle_from_gserialized1_buffer be fl bs = lwtriangle_from_gserialized2_buffer be fl SRID_UNKNOWN bs"
  "lwcircstring_from_gserialized1_buffer be fl bs = lwcircstring_from_gserialized2_buffer be fl SRID_UNKNOWN bs"
  by (simp_all add: lwpoint_from_gserialized1_buffer_def lwpoint_from_gserialized2_buffer_def lwline_from_gserialized1_buffer_def
    lwline_from_gserialized2_buffer_def lwpoly_from_gserialized1_buffer_def lwpoly_from_gserialized2_buffer_def
    lwtriangle_from_gserialized1_buffer_def lwtriangle_from_gserialized2_buffer_def
    lwcircstring_from_gserialized1_buffer_def lwcircstring_from_gserialized2_buffer_def)

lemma curves_not_free:
  "lwellipse_from_gserialized2_buffer be fl srid bs = Inr (g, k) \<Longrightarrow> \<not> curve_free g"
  "lwbezier_from_gserialized2_buffer be fl srid bs = Inr (g, k) \<Longrightarrow> \<not> curve_free g"
  by (auto simp: lwellipse_from_gserialized2_buffer_def lwbezier_from_gserialized2_buffer_def Let_def rbind_eq_Inr_iff split: if_splits)

lemma reader1:
  "lwgeom_from_gserialized2_buffer fuel be SRID_UNKNOWN fl bs = Inr (g, k) \<Longrightarrow> curve_free g \<Longrightarrow>
   lwgeom_from_gserialized1_buffer fuel be fl bs = Inr (g, k)"
proof (induction fuel arbitrary: fl bs g k)
  case (Suc fuel)
  have "lwcollection_from_gserialized2_buffer (lwgeom_from_gserialized2_buffer fuel be SRID_UNKNOWN) be fl SRID_UNKNOWN bs = Inr (g, k) \<Longrightarrow>
    lwcollection_from_gserialized1_buffer (lwgeom_from_gserialized1_buffer fuel be) be fl bs = Inr (g, k)"
    using collection_reader1[of "lwgeom_from_gserialized2_buffer fuel be SRID_UNKNOWN" "lwgeom_from_gserialized1_buffer fuel be"] Suc by blast
  then show ?case using Suc.prems curves_not_free[of be fl SRID_UNKNOWN bs g k]
    by (cases "rd_u32 be bs 0") (simp_all add: leaf_readers1 split: if_splits)
qed simp

section \<open>The header is read back\<close>

lemma G1FLAGS_GET_simps [flags_simps]:
  "G1FLAGS_GET_Z f = of_bool (bit f 0)" "G1FLAGS_GET_M f = of_bool (bit f 1)"
  "G1FLAGS_GET_BBOX f = of_bool (bit f 2)" "G1FLAGS_GET_GEODETIC f = of_bool (bit f 3)"
  "G1FLAGS_GET_SOLID f = of_bool (bit f 5)"
  using unat_drop_and[of 1 f] unat_drop_and[of 2 f] unat_drop_and[of 3 f] unat_drop_and[of 5 f]
  by (simp_all add: G1FLAGS_GET_Z_def G1FLAGS_GET_M_def G1FLAGS_GET_BBOX_def G1FLAGS_GET_GEODETIC_def
    G1FLAGS_GET_SOLID_def unat_and_1 push_bit_of_1)

lemma bit_G1FLAGS_SET [flags_simps]:
  "bit (G1FLAGS_SET_Z f v) n \<longleftrightarrow> (if n = 0 then v else bit f n)"
  "bit (G1FLAGS_SET_M f v) n \<longleftrightarrow> (if n = 1 then v else bit f n)"
  "bit (G1FLAGS_SET_BBOX f v) n \<longleftrightarrow> (if n = 2 then v else bit f n)"
  "bit (G1FLAGS_SET_GEODETIC f v) n \<longleftrightarrow> (if n = 3 then v else bit f n)"
  "bit (G1FLAGS_SET_SOLID f v) n \<longleftrightarrow> (if n = 5 then v else bit f n)"
  unfolding G1FLAGS_SET_Z_def G1FLAGS_SET_M_def G1FLAGS_SET_BBOX_def G1FLAGS_SET_GEODETIC_def G1FLAGS_SET_SOLID_def
  by (rule bit_set_flag; simp add: push_bit_of_1)+

lemma bit_g1flags [flags_simps]: "bit (lwflags_get_g1flags f) n \<longleftrightarrow> (n < 4 \<or> n = 5) \<and> bit f n"
  by (auto simp: lwflags_get_g1flags_def Let_def flags_simps less_Suc_eq numeral_eq_Suc)

lemma get_lwflags1: "gs_gflags d = lwflags_get_g1flags f \<Longrightarrow> gserialized1_get_lwflags d = stored_flags f"
  by (intro bit_word_eqI) (auto simp: gserialized1_get_lwflags_def Let_def flags_simps less_Suc_eq numeral_eq_Suc)

lemma ndims1_box_bits: "G1FLAGS_NDIMS_BOX f = (if bit f 3 then 3 else 2 + of_bool (bit f 0) + of_bool (bit f 1))"
  by (simp add: G1FLAGS_NDIMS_BOX_def G1FLAGS_NDIMS_def flags_simps)

lemma read_gbox1_present:
  assumes g: "gs_gflags d = lwflags_get_g1flags f" and d: "gs_data d = gserialized2_from_gbox be b @ r"
    and bbox: "bit f 2" and fits: "box_fits f b"
  shows "gserialized1_read_gbox_p be d old = Inr (True, stored_box (stored_flags f) b old)"
proof -
  let ?fs = "[next_float_down (xmin b), next_float_up (xmax b), next_float_down (ymin b), next_float_up (ymax b)] @
     (if bit f 3 \<or> bit f 0 then [next_float_down (zmin b), next_float_up (zmax b)] else []) @
     (if \<not> bit f 3 \<and> bit f 1 then [next_float_down (mmin b), next_float_up (mmax b)] else [])"
  have fb: "gserialized2_from_gbox be b = flt_bytes be ?fs"
    using fits by (auto simp: gserialized2_from_gbox_def box_fits_def flags_simps)
  have "rd_flts be ([] @ flt_bytes be ?fs @ r) 0 (2 * G1FLAGS_NDIMS_BOX (gs_gflags d)) = Inr ?fs"
    by (rule rd_flts_behind) (auto simp: g flags_simps ndims1_box_bits)
  then have "rd_flts be (gs_data d) 0 (2 * G1FLAGS_NDIMS_BOX (gs_gflags d)) = Inr ?fs"
    unfolding d fb by simp
  then show ?thesis
    using get_lwflags1[OF g] bbox g
    by (cases "bit f 3"; cases "bit f 0"; cases "bit f 1")
      (simp_all add: gserialized1_read_gbox_p_def Let_def flags_simps stored_box_def round_down_def round_up_def)
qed

section \<open>Round trip\<close>

lemma set_srid_canon: "lwgeom_set_srid srid (gs_canon fl SRID_UNKNOWN g) = gs_canon fl srid g"
  by (induction g arbitrary: fl) (auto simp: gser_hdr_def)

lemma set_srid_bbox:
  "lwgeom_set_srid srid (map_hdr (\<lambda>h. h\<lparr>g_bbox := b\<rparr>) g) = map_hdr (\<lambda>h. h\<lparr>g_bbox := b\<rparr>) (lwgeom_set_srid srid g)"
  by (cases g) simp_all

lemma box_bytes1: "(case bbox of None \<Rightarrow> [] | Some b \<Rightarrow> gserialized1_from_gbox be b) = box_bytes be bbox"
  unfolding box_bytes_def box1 ..

lemma LWSIZE_SET_little: "LWSIZE_SET False n = push_bit 2 (of_nat n)"
  by (simp add: LWSIZE_SET_def)

lemma curve_free_prepare: "curve_free (gserialized2_prepare env g) = curve_free g"
proof -
  have "curve_free (map_hdr f g) = curve_free g" for f g by (cases g) simp_all
  then show ?thesis by (simp add: gserialized2_prepare_def lwgeom_add_bbox_def Let_def)
qed

lemma write_datum1:
  assumes "G = gserialized2_prepare env g" and ok: "gs_storable zm G" and free: "curve_free G"
  shows "\<exists>d. gserialized1_from_lwgeom env g = Inr d \<and>
    (\<not> big_endian env \<longrightarrow> unat (LWSIZE_GET False (gs_size d)) = 8 + length (gs_data d)) \<and>
    gs_gflags d = lwflags_get_g1flags (g_flags (g_hdr G)) \<and>
    gserialized1_get_srid d = clamp_srid (g_srid (g_hdr G)) \<and>
    gs_data d = box_bytes (big_endian env) (g_bbox (g_hdr G)) @ gs_body (big_endian env) G"
proof -
  let ?be = "big_endian env" and ?h = "g_hdr G"
  have ok': "gs_ok zm G" and sz: "gserialized2_from_lwgeom_size G < 2 ^ 30" using ok by (simp_all add: gs_storable_def)
  let ?bs = "box_bytes ?be (g_bbox ?h) @ gs_body ?be G"
  have len: "gserialized1_from_lwgeom_size G = Inr (8 + length ?bs)"
    using ok box_bytes_length[of "g_flags ?h" _ ?be] gs_any_size[OF ok', of ?be] size1[OF ok' free]
    by (auto simp: gserialized1_from_lwgeom_size_def gs_storable_def box_bytes_def split: option.splits)
  have small: "8 + length ?bs < 2 ^ 30"
    using sz box_bytes_length[of "g_flags ?h" _ ?be] gs_any_size[OF ok', of ?be] ok
    by (auto simp: gserialized2_from_lwgeom_size_def gs_storable_def box_bytes_def split: option.splits if_splits)
  define d where "d = gserialized2_set_srid (g_srid ?h) \<lparr>gs_size = push_bit 2 (of_nat (8 + length ?bs)), gs_srid = (0, 0, 0),
      gs_gflags = lwflags_get_g1flags (g_flags ?h), gs_data = ?bs\<rparr>"
  have fields: "gs_size d = LWSIZE_SET False (8 + length ?bs)" "gs_data d = ?bs" "gs_gflags d = lwflags_get_g1flags (g_flags ?h)"
    by (simp_all add: d_def gserialized2_set_srid_def Let_def LWSIZE_SET_little)
  have "gserialized1_from_lwgeom env g = Inr d"
    by (simp add: gserialized1_from_lwgeom_def Let_def prepare1 len writer1[OF free] gs_writer[OF ok'] box_bytes1 srid1 d_def
      assms(1)[symmetric])
  moreover have "gserialized1_get_srid d = clamp_srid (g_srid ?h)"
    unfolding d_def srid1 by (rule get_set_srid)
  ultimately show ?thesis using fields LWSIZE_GET_SET[OF small, of False] by auto
qed

lemma read_datum1:
  assumes G: "G = gserialized2_prepare env g" and ok: "gs_storable zm G" and free: "curve_free G"
    and geo: "\<And>g b. lwgeom_is_empty g \<Longrightarrow> geodetic_gbox env g b = None" and fuel: "gs_depth G \<le> fuel"
    and gf: "gs_gflags d = lwflags_get_g1flags (g_flags (g_hdr G))"
    and srid: "gserialized1_get_srid d = clamp_srid (g_srid (g_hdr G))"
    and data: "gs_data d = box_bytes (big_endian env) (g_bbox (g_hdr G)) @ gs_body (big_endian env) G"
  shows "lwgeom_from_gserialized1 fuel env d = Inr (gs_read_back env G)"
proof -
  let ?be = "big_endian env" and ?f = "g_flags (g_hdr G)" and ?b = "g_bbox (g_hdr G)"
  let ?fl = "stored_flags ?f" and ?s = "clamp_srid (g_srid (g_hdr G))"
  have ok': "gs_ok zm G" and fit: "\<And>b. ?b = Some b \<Longrightarrow> box_fits ?f b" using ok by (auto simp: gs_storable_def)
  have bbox: "bit ?f 2 \<longleftrightarrow> ?b \<noteq> None" using prepare_flag[of env g] G by simp
  have lwfl: "gserialized1_get_lwflags d = ?fl" using get_lwflags1[OF gf] .
  have off: "(if FLAGS_GET_BBOX ?fl \<noteq> 0 then gbox_serialized_size ?fl else 0) = length (box_bytes ?be ?b)"
    "(if G1FLAGS_GET_BBOX (gs_gflags d) \<noteq> 0 then gserialized1_box_size d div 4 * 4 else 0) = length (box_bytes ?be ?b)"
    using box_bytes_length[OF fit, of _ ?be] bbox
    by (auto simp: gf flags_simps box_bytes_def gbox_serialized_size_def gserialized1_box_size_def G1FLAGS_NDIMS_def
      FLAGS_NDIMS_bits split: option.splits)
  have type: "gserialized1_get_type ?be d = Inr (ucast (lwgeom_get_type G))"
  proof -
    obtain r where "gs_body ?be G = put_u32 ?be (ucast (lwgeom_get_type G)) @ r" using gs_body_type by blast
    then show ?thesis using rd_u32_behind[of ?be "box_bytes ?be ?b"]
      unfolding gserialized1_get_type_def off data by simp
  qed
  have dims: "fl_dims zm ?fl" using gs_ok_flags[OF ok'] by (simp add: fl_dims_def gs_flags_def flags_simps)
  have cf: "curve_free (gs_canon fl srid g) = curve_free g" for fl srid g
    by (induction g arbitrary: fl) (auto simp: list_all_iff)
  have body: "lwgeom_from_gserialized1_buffer fuel ?be ?fl (gs_body ?be G) = Inr (gs_canon ?fl SRID_UNKNOWN G, length (gs_body ?be G))"
    using gs_reader[OF ok' dims fuel, of ?be SRID_UNKNOWN "[]"] free by (intro reader1) (simp_all add: cf)
  have drop: "drop (length (box_bytes ?be ?b)) (gs_data d) = gs_body ?be G" by (simp add: data)
  have read: "lwgeom_from_gserialized1 fuel env d =
      rbind (gserialized1_read_gbox_p ?be d (stack_gbox env)) (\<lambda>r.
        Inr (map_hdr (\<lambda>h. h\<lparr>g_bbox := (if fst r then Some (snd r)
          else if lwgeom_needs_bbox G
          then lwgeom_calculate_gbox (curves env) (geodetic_gbox env) (gs_canon ?fl SRID_UNKNOWN G) (snd r) else None)\<rparr>)
          (gs_canon ?fl ?s G)))"
    unfolding lwgeom_from_gserialized1_def Let_def type lwfl off(1) srid rbind_simps drop body
    by (simp add: needs_bbox_canon set_srid_bbox set_srid_canon cong: if_cong)
  show ?thesis
  proof (cases ?b)
    case (Some b)
    then have "gserialized1_read_gbox_p ?be d (stack_gbox env) = Inr (True, stored_box ?fl b (stack_gbox env))"
      using read_gbox1_present[OF gf _ _ fit, of ?be b] data bbox by (simp add: box_bytes_def)
    then show ?thesis using Some by (simp add: read gs_read_back_def Let_def)
  next
    case None
    then have r: "gserialized1_read_gbox_p ?be d (stack_gbox env) = Inr (False, (stack_gbox env)\<lparr>gb_flags := ?fl\<rparr>)"
      using bbox by (simp add: gserialized1_read_gbox_p_def lwfl gf flags_simps)
    have "lwgeom_calculate_gbox (curves env) (geodetic_gbox env) (gs_canon ?fl SRID_UNKNOWN G) b = None" if "lwgeom_needs_bbox G" for b
      using prepare_no_box[of env g] None that G geo[of "gs_canon ?fl SRID_UNKNOWN G"] empty_no_box(1)[of "gs_canon ?fl SRID_UNKNOWN G"]
      by (simp add: lwgeom_calculate_gbox_def Let_def)
    then show ?thesis using None by (simp add: read r gs_read_back_def Let_def)
  qed
qed

text \<open>C30: Version 1 of the format stores the same: a geometry without ellipses and Bezier curves that fits the format is
  written, and read back as exactly the geometry that version 2 gives back; the size field is right on little endian
  machines.\<close>

theorem gserialized1_roundtrip:
  assumes "gs_storable zm (gserialized2_prepare env g)" and "curve_free g"
    and "\<And>g b. lwgeom_is_empty g \<Longrightarrow> geodetic_gbox env g b = None"
    and "gs_depth (gserialized2_prepare env g) \<le> fuel"
  shows "\<exists>d1 d2. gserialized1_from_lwgeom env g = Inr d1 \<and> gserialized2_from_lwgeom env g = Inr d2 \<and>
    lwgeom_from_gserialized1 fuel env d1 = lwgeom_from_gserialized2 fuel env d2 \<and>
    lwgeom_from_gserialized1 fuel env d1 = Inr (gs_read_back env (gserialized2_prepare env g)) \<and>
    (big_endian env \<or> unat (LWSIZE_GET False (gs_size d1)) = 8 + length (gs_data d1))"
  using write_datum1[OF refl assms(1)] read_datum1[OF refl assms(1) _ assms(3,4)] assms(2)
    write_datum[OF refl assms(1)] read_datum[OF refl assms(1,3,4)]
  by (fastforce simp: curve_free_prepare)

theorem gserialized1_roundtrip_witness:
  "\<exists>d1 d2. gserialized1_from_lwgeom gs_env_example gs_example = Inr d1 \<and>
    gserialized2_from_lwgeom gs_env_example gs_example = Inr d2 \<and>
    lwgeom_from_gserialized1 2 gs_env_example d1 = lwgeom_from_gserialized2 2 gs_env_example d2"
proof -
  have g: "geodetic_gbox gs_env_example g b = None" for g b by (simp add: gs_env_example_def)
  have "curve_free gs_example" by (simp add: gs_example_def ops_example_def)
  then show ?thesis
    using gserialized1_roundtrip[OF gs_example_storable(1) _ g, of 2] gs_example_storable(2) by auto
qed

end
