(* ===== verification/Ieee.thy ===== *)
theory Ieee
  imports Floats
begin

text \<open>
  The arithmetic of C on \<open>double\<close> and \<open>float\<close>, as IEEE 754 defines it for binary64 and binary32 with rounding to
  nearest, ties to even (each operation on its own type, \<open>FLT_EVAL_METHOD\<close> 0). The exact result is an integer multiple of a power
  of two; it is rounded once. A result that is not a number is the quiet NaN of the macro \<open>NAN\<close>.
\<close>

section \<open>Rounding\<close>

text \<open>
  A number is a sign and a magnitude, its bit pattern without the sign. \<open>p\<close> is the number of significant
  bits. \<open>fp_val p m\<close> is the value of a finite magnitude in units of the least positive number;
  \<open>fp_rnd p n s\<close> is the magnitude nearest to \<open>n / 2 ^ s\<close> of these units.
\<close>

definition fp_val :: "nat \<Rightarrow> nat \<Rightarrow> nat" where
  "fp_val p m =
     (if m < 2 ^ (p - 1) then m else (2 ^ (p - 1) + m mod 2 ^ (p - 1)) * 2 ^ (m div 2 ^ (p - 1) - 1))"

definition fp_rnd :: "nat \<Rightarrow> nat \<Rightarrow> nat \<Rightarrow> nat" where
  "fp_rnd p n s = (let k = max s (top_bit n - (p - 1)) in rne k n + (k - s) * 2 ^ (p - 1))"

text \<open>A format: the significant bits, the magnitude of infinity and the negative exponent of the unit.\<close>

record fp_format =
  sig_bits :: nat
  inf_mag :: nat
  unit_exp :: nat

definition binary64 :: fp_format where
  "binary64 = \<lparr>sig_bits = 53, inf_mag = 0x7FF0000000000000, unit_exp = 1074\<rparr>"

definition binary32 :: fp_format where
  "binary32 = \<lparr>sig_bits = 24, inf_mag = 0x7F800000, unit_exp = 149\<rparr>"

type_synonym fp = "bool \<times> nat"

definition fp_nan :: "fp_format \<Rightarrow> fp" where
  "fp_nan F = (False, inf_mag F + 2 ^ (sig_bits F - 2))"

definition fp_round :: "fp_format \<Rightarrow> bool \<Rightarrow> nat \<Rightarrow> nat \<Rightarrow> fp" where
  "fp_round F neg n s = (neg, min (inf_mag F) (fp_rnd (sig_bits F) n s))"

section \<open>Operations\<close>

definition fp_ival :: "fp_format \<Rightarrow> fp \<Rightarrow> int" where
  "fp_ival F x = (if fst x then - int (fp_val (sig_bits F) (snd x)) else int (fp_val (sig_bits F) (snd x)))"

definition fp_add :: "fp_format \<Rightarrow> fp \<Rightarrow> fp \<Rightarrow> fp" where
  "fp_add F a b =
     (let inf = inf_mag F; n = fp_ival F a + fp_ival F b
      in if inf < snd a \<or> inf < snd b then fp_nan F
         else if snd a = inf then if snd b = inf \<and> fst a \<noteq> fst b then fp_nan F else a
         else if snd b = inf then b
         else if n = 0 then (fst a \<and> fst b, 0)
         else fp_round F (n < 0) (nat \<bar>n\<bar>) 0)"

definition fp_neg :: "fp \<Rightarrow> fp" where
  "fp_neg a = (\<not> fst a, snd a)"

definition fp_sub :: "fp_format \<Rightarrow> fp \<Rightarrow> fp \<Rightarrow> fp" where
  "fp_sub F a b = fp_add F a (fp_neg b)"

definition fp_mul :: "fp_format \<Rightarrow> fp \<Rightarrow> fp \<Rightarrow> fp" where
  "fp_mul F a b =
     (let inf = inf_mag F; neg = (fst a \<noteq> fst b)
      in if inf < snd a \<or> inf < snd b then fp_nan F
         else if snd a = inf \<or> snd b = inf then if snd a = 0 \<or> snd b = 0 then fp_nan F else (neg, inf)
         else fp_round F neg (fp_val (sig_bits F) (snd a) * fp_val (sig_bits F) (snd b)) (unit_exp F))"

text \<open>Division and square root keep two more bits and one that says whether anything was cut off.\<close>

definition fp_div :: "fp_format \<Rightarrow> fp \<Rightarrow> fp \<Rightarrow> fp" where
  "fp_div F a b =
     (let inf = inf_mag F; neg = (fst a \<noteq> fst b);
          n = fp_val (sig_bits F) (snd a) * 2 ^ (unit_exp F + 1); d = fp_val (sig_bits F) (snd b)
      in if inf < snd a \<or> inf < snd b then fp_nan F
         else if snd a = inf then if snd b = inf then fp_nan F else (neg, inf)
         else if snd b = inf then (neg, 0)
         else if snd b = 0 then if snd a = 0 then fp_nan F else (neg, inf)
         else fp_round F neg (2 * (n div d) + of_bool (n mod d \<noteq> 0)) 2)"

fun isqrt :: "nat \<Rightarrow> nat" where
  "isqrt n = (if n = 0 then 0 else let r = 2 * isqrt (n div 4) in if (r + 1) * (r + 1) \<le> n then r + 1 else r)"

declare isqrt.simps [simp del]

definition fp_sqrt :: "fp_format \<Rightarrow> fp \<Rightarrow> fp" where
  "fp_sqrt F a =
     (let n = fp_val (sig_bits F) (snd a) * 2 ^ (unit_exp F + 2); r = isqrt n
      in if inf_mag F < snd a then fp_nan F
         else if snd a = 0 then a
         else if fst a then fp_nan F
         else if snd a = inf_mag F then a
         else fp_round F False (2 * r + of_bool (r * r \<noteq> n)) 2)"

section \<open>The C types\<close>

definition fp_of_dbl :: "dbl \<Rightarrow> fp" where "fp_of_dbl d = (dbl_neg d, dbl_mag d)"
definition dbl_of_fp :: "fp \<Rightarrow> dbl" where "dbl_of_fp x = mk_dbl (fst x) (snd x)"
definition fp_of_flt :: "flt \<Rightarrow> fp" where "fp_of_flt f = (flt_neg f, flt_mag f)"
definition flt_of_fp :: "fp \<Rightarrow> flt" where "flt_of_fp x = mk_flt (fst x) (snd x)"

definition dbl_add :: "dbl \<Rightarrow> dbl \<Rightarrow> dbl" where "dbl_add a b = dbl_of_fp (fp_add binary64 (fp_of_dbl a) (fp_of_dbl b))"
definition dbl_sub :: "dbl \<Rightarrow> dbl \<Rightarrow> dbl" where "dbl_sub a b = dbl_of_fp (fp_sub binary64 (fp_of_dbl a) (fp_of_dbl b))"
definition dbl_mul :: "dbl \<Rightarrow> dbl \<Rightarrow> dbl" where "dbl_mul a b = dbl_of_fp (fp_mul binary64 (fp_of_dbl a) (fp_of_dbl b))"
definition dbl_div :: "dbl \<Rightarrow> dbl \<Rightarrow> dbl" where "dbl_div a b = dbl_of_fp (fp_div binary64 (fp_of_dbl a) (fp_of_dbl b))"
definition dbl_sqrt :: "dbl \<Rightarrow> dbl" where "dbl_sqrt a = dbl_of_fp (fp_sqrt binary64 (fp_of_dbl a))"
definition dbl_minus :: "dbl \<Rightarrow> dbl" where "dbl_minus a = dbl_of_fp (fp_neg (fp_of_dbl a))"
definition dbl_abs :: "dbl \<Rightarrow> dbl" where "dbl_abs a = mk_dbl False (dbl_mag a)"

definition flt_add :: "flt \<Rightarrow> flt \<Rightarrow> flt" where "flt_add a b = flt_of_fp (fp_add binary32 (fp_of_flt a) (fp_of_flt b))"
definition flt_sub :: "flt \<Rightarrow> flt \<Rightarrow> flt" where "flt_sub a b = flt_of_fp (fp_sub binary32 (fp_of_flt a) (fp_of_flt b))"
definition flt_mul :: "flt \<Rightarrow> flt \<Rightarrow> flt" where "flt_mul a b = flt_of_fp (fp_mul binary32 (fp_of_flt a) (fp_of_flt b))"
definition flt_div :: "flt \<Rightarrow> flt \<Rightarrow> flt" where "flt_div a b = flt_of_fp (fp_div binary32 (fp_of_flt a) (fp_of_flt b))"

text \<open>Conversion of an integer.\<close>

definition dbl_of_int :: "int \<Rightarrow> dbl" where
  "dbl_of_int i = dbl_of_fp (fp_round binary64 (i < 0) (nat \<bar>i\<bar> * 2 ^ 1074) 0)"

definition flt_of_int :: "int \<Rightarrow> flt" where
  "flt_of_int i = flt_of_fp (fp_round binary32 (i < 0) (nat \<bar>i\<bar> * 2 ^ 149) 0)"

text \<open>\<open>ceil\<close> and \<open>floor\<close> of a finite double, as integers; a conversion to an integer type cuts off towards zero.\<close>

definition dbl_floor :: "dbl \<Rightarrow> int" where "dbl_floor d = fp_ival binary64 (fp_of_dbl d) div 2 ^ 1074"
definition dbl_ceil :: "dbl \<Rightarrow> int" where "dbl_ceil d = - ((- fp_ival binary64 (fp_of_dbl d)) div 2 ^ 1074)"
definition dbl_trunc :: "dbl \<Rightarrow> int" where "dbl_trunc d = (if dbl_neg d then dbl_ceil d else dbl_floor d)"

section \<open>Rounding is monotone, and exact on the numbers of the format\<close>

lemma rne_mono: "m \<le> n \<Longrightarrow> rne k m \<le> rne k n"
proof -
  assume mn: "m \<le> n"
  have c: "rne k x = x div 2 ^ k \<or> rne k x = Suc (x div 2 ^ k)" for x by (rule rne_cases)
  show ?thesis
  proof (cases "m div 2 ^ k = n div 2 ^ k")
    case True
    then have "m mod 2 ^ k \<le> n mod 2 ^ k" using mn by (metis add_le_cancel_left div_mult_mod_eq)
    then show ?thesis using True by (auto simp: rne_def Let_def)
  next
    case False
    then have "m div 2 ^ k < n div 2 ^ k" using div_le_mono[OF mn, of "2 ^ k"] by simp
    then show ?thesis using c[of m] c[of n] by linarith
  qed
qed

lemma top_bit_mono: "m \<le> n \<Longrightarrow> top_bit m \<le> top_bit n"
proof -
  assume mn: "m \<le> n"
  show ?thesis
  proof (cases "m = 0")
    case False
    then have "(2::nat) ^ top_bit m < 2 ^ Suc (top_bit n)"
      using top_bit_bounds[of m] top_bit_bounds[of n] mn by linarith
    then show ?thesis by (simp add: power_strict_increasing_iff[of 2] less_Suc_eq_le del: power_Suc)
  qed (simp add: top_bit.simps)
qed

lemma top_bit_unique: "2 ^ t \<le> n \<Longrightarrow> n < 2 ^ Suc t \<Longrightarrow> top_bit n = t"
proof -
  assume b: "2 ^ t \<le> n" "n < 2 ^ Suc t"
  then have "0 < n" using zero_less_power[of "2::nat" t] by linarith
  then have "(2::nat) ^ t < 2 ^ Suc (top_bit n)" "(2::nat) ^ top_bit n < 2 ^ Suc t"
    using top_bit_bounds[of n] b by linarith+
  then show ?thesis by (simp add: power_strict_increasing_iff[of 2] less_Suc_eq_le del: power_Suc)
qed

lemma fp_rnd_mono:
  assumes "0 < p" and mn: "m \<le> n"
  shows "fp_rnd p m s \<le> fp_rnd p n s"
proof -
  obtain q where p: "p = Suc q" using assms(1) by (cases p) auto
  let ?k = "\<lambda>x. max s (top_bit x - q)"
  have kk: "?k m \<le> ?k n" using top_bit_mono[OF mn] by auto
  show ?thesis
  proof (cases "?k m = ?k n")
    case True
    then show ?thesis using rne_mono[OF mn, of "?k n"] by (simp add: fp_rnd_def Let_def p)
  next
    case False
    with kk have lt: "?k m < ?k n" by (rule order_neq_le_trans[rotated])
    have "s \<le> ?k m" by simp
    with lt have "s < ?k n" by linarith
    then have sq: "s < top_bit n - q" by linarith
    then have kn: "top_bit n = ?k n + q" by linarith
    have "top_bit 0 = 0" by (subst top_bit.simps) simp
    with sq have n0: "0 < n" by (cases n) simp_all
    have "m < 2 ^ (?k m + Suc q)"
    proof (cases "m = 0")
      case False
      have "m < 2 ^ Suc (top_bit m)" using top_bit_bounds[of m] False by simp
      also have "\<dots> \<le> 2 ^ (?k m + Suc q)" by (rule power_increasing) auto
      finally show ?thesis .
    qed simp
    then have "m div 2 ^ ?k m < 2 ^ Suc q" by (subst div_less_iff_less_mult) (simp_all add: power_add mult.commute)
    then have up: "rne (?k m) m \<le> 2 * 2 ^ q" using rne_cases[of "?k m" m] by auto
    have "2 ^ ?k n * 2 ^ q \<le> n" using top_bit_bounds[OF n0] by (metis kn power_add)
    then have "2 ^ q \<le> n div 2 ^ ?k n" by (simp add: less_eq_div_iff_mult_less_eq mult.commute)
    then have down: "2 ^ q \<le> rne (?k n) n" using rne_cases[of "?k n" n] by auto
    have "s \<le> ?k m" by simp
    then have "Suc (?k m - s) \<le> ?k n - s" using lt by linarith
    then have "Suc (?k m - s) * 2 ^ q \<le> (?k n - s) * 2 ^ q" by (rule mult_le_mono1)
    then have "(?k m - s) * 2 ^ q + 2 ^ q \<le> (?k n - s) * 2 ^ q" by (simp only: mult_Suc add.commute)
    then show ?thesis using up down unfolding fp_rnd_def Let_def p diff_Suc_1 by linarith
  qed
qed

lemma fp_rnd_exact:
  assumes "0 < p"
  shows "fp_rnd p (fp_val p m * 2 ^ s) s = m"
proof -
  obtain q where p: "p = Suc q" using assms by (cases p) auto
  have rne: "rne k (x * 2 ^ k) = x" for k x by (subst rne_exact) simp_all
  show ?thesis
  proof (cases "m < 2 ^ q")
    case True
    have "top_bit (m * 2 ^ s) - q \<le> s"
    proof (cases "m = 0")
      case False
      then have "(2::nat) ^ top_bit m < 2 ^ q" using True top_bit_bounds[of m] by linarith
      then have "top_bit m < q" by simp
      moreover have "top_bit (m * 2 ^ s) = top_bit m + s"
        using top_bit_bounds[of m] False by (intro top_bit_unique) (simp_all add: power_add)
      ultimately show ?thesis by simp
    qed (simp add: top_bit.simps)
    then show ?thesis using True rne[of s m] by (simp add: fp_rnd_def Let_def fp_val_def p max_def)
  next
    case False
    define e where "e = m div 2 ^ q - 1"
    have e: "m div 2 ^ q = Suc e" using False by (simp add: e_def div_greater_zero_iff linorder_not_less)
    define r where "r = m mod 2 ^ q"
    have r: "r < 2 ^ q" by (simp add: r_def)
    have m: "m = 2 ^ q + e * 2 ^ q + r" using div_mult_mod_eq[of m "2 ^ q"] e by (simp add: r_def)
    have v: "fp_val p m * 2 ^ s = (2 ^ q + r) * 2 ^ (s + e)"
      using False e by (simp add: fp_val_def p r_def power_add)
    have "top_bit ((2 ^ q + r) * 2 ^ (s + e)) = q + (s + e)"
      using r by (intro top_bit_unique) (simp_all add: power_add add_mult_distrib)
    then show ?thesis unfolding v using rne[of "s + e" "2 ^ q + r"] by (simp add: fp_rnd_def Let_def p m)
  qed
qed

section \<open>Values\<close>

lemma div_mod_split: "f < N \<Longrightarrow> (x * N + f) div N = x \<and> (x * N + f) mod N = f" for x f N :: nat
  by simp

lemma fp_val_mono:
  assumes "0 < p" and "m \<le> n"
  shows "fp_val p m \<le> fp_val p n"
proof -
  obtain q where p: "p = Suc q" using assms(1) by (cases p) auto
  have step: "fp_val p k \<le> fp_val p (Suc k)" for k
  proof -
    define a where "a = k div 2 ^ q"
    define r where "r = k mod 2 ^ q"
    have k: "k = a * 2 ^ q + r" and r: "r < 2 ^ q" unfolding a_def r_def by (simp_all only: div_mult_mod_eq) simp
    show ?thesis
    proof (cases "Suc r < 2 ^ q")
      case True
      then have s: "Suc k div 2 ^ q = a" "Suc k mod 2 ^ q = Suc r" using div_mod_split[OF True, of a] by (simp_all add: k)
      show ?thesis
      proof (cases "a = 0")
        case True
        then show ?thesis using r \<open>Suc r < 2 ^ q\<close> by (simp add: fp_val_def p k)
      next
        case False
        then have "2 ^ q \<le> k" "2 ^ q \<le> Suc k" using k by (simp_all add: trans_le_add1 le_SucI)
        then show ?thesis using s by (simp add: fp_val_def p flip: a_def r_def)
      qed
    next
      case False
      then have q: "Suc r = 2 ^ q" using r by simp
      then have k': "Suc k = (a + 1) * 2 ^ q" by (simp add: k)
      have "fp_val p (Suc k) = 2 ^ q * 2 ^ a" unfolding k' by (simp add: fp_val_def p)
      moreover have "fp_val p k \<le> 2 ^ q * 2 ^ a"
      proof (cases a)
        case 0
        then show ?thesis using r by (simp add: fp_val_def p k)
      next
        case (Suc b)
        then have "2 ^ q \<le> k" using k by simp
        then have "fp_val p k = (2 ^ q + r) * 2 ^ b" using Suc by (simp add: fp_val_def p flip: a_def r_def)
        also have "\<dots> \<le> (2 * 2 ^ q) * 2 ^ b" using r by simp
        finally show ?thesis using Suc by simp
      qed
      ultimately show ?thesis by simp
    qed
  qed
  show ?thesis using assms(2) by (induction rule: dec_induct) (auto intro: le_trans[OF _ step])
qed

text \<open>The double of a small integer is exact.\<close>

lemma fp_val_int:
  assumes "0 < n" and "n < 2 ^ 53"
  shows "\<exists>m. fp_val 53 m = n * 2 ^ 1074 \<and> m < 0x7FF0000000000000"
proof -
  let ?t = "top_bit n"
  have t: "2 ^ ?t \<le> n" "n < 2 ^ Suc ?t" using top_bit_bounds[OF assms(1)] by auto
  then have "(2::nat) ^ ?t < 2 ^ 53" using assms(2) by linarith
  then have "?t < 53" by (rule power_less_imp_less_exp[rotated]) simp
  then have t53: "?t \<le> 52" by simp
  define f where "f = n * 2 ^ (52 - ?t) - 2 ^ 52"
  have pw: "(2::nat) ^ 52 = 2 ^ ?t * 2 ^ (52 - ?t)" "(2::nat) ^ 53 = 2 ^ Suc ?t * 2 ^ (52 - ?t)"
    using t53 by (simp_all flip: power_add)
  have "2 ^ 52 \<le> n * 2 ^ (52 - ?t)" unfolding pw(1) using t(1) by simp
  then have f: "2 ^ 52 + f = n * 2 ^ (52 - ?t)" by (simp add: f_def)
  have "n * 2 ^ (52 - ?t) < 2 ^ 53" unfolding pw(2) using t(2) by simp
  then have f2: "f < 2 ^ 52" using f by simp
  define m where "m = (?t + 1023) * 2 ^ 52 + f"
  have d: "m div 2 ^ 52 = ?t + 1023" "m mod 2 ^ 52 = f" "\<not> m < 2 ^ 52"
    using div_mod_split[OF f2, of "?t + 1023"] unfolding m_def by (simp_all only: trans_le_add1 not_less) simp
  have "fp_val 53 m = (2 ^ 52 + f) * 2 ^ (?t + 1022)" using d by (simp add: fp_val_def)
  also have "\<dots> = n * (2 ^ (52 - ?t) * 2 ^ (?t + 1022))" unfolding f by simp
  also have "(2::nat) ^ (52 - ?t) * 2 ^ (?t + 1022) = 2 ^ 1074" using t53 by (simp flip: power_add)
  finally have "fp_val 53 m = n * 2 ^ 1074" .
  moreover have "m < 1075 * 2 ^ 52 + 2 ^ 52" using f2 t53 mult_le_mono1[of "?t + 1023" 1075 "2 ^ 52"] unfolding m_def by linarith
  then have "m < 0x7FF0000000000000" by simp
  ultimately show ?thesis by blast
qed

lemma dbl_of_int_small:
  assumes "0 < n" and "n < 2 ^ 53"
  shows "\<not> dbl_neg (dbl_of_int (int n))" "fp_val 53 (dbl_mag (dbl_of_int (int n))) = n * 2 ^ 1074" "dbl_mag (dbl_of_int (int n)) < 0x7FF0000000000000"
proof -
  obtain m where m: "fp_val 53 m = n * 2 ^ 1074" "m < 0x7FF0000000000000" using fp_val_int[OF assms] by blast
  have "fp_rnd 53 (n * 2 ^ 1074) 0 = m" using fp_rnd_exact[of 53 m 0] m by simp
  then have d: "dbl_of_int (int n) = mk_dbl False m"
    using m(2) by (simp add: dbl_of_int_def fp_round_def binary64_def dbl_of_fp_def)
  have "m < 2 ^ 63" using m(2) by simp
  then show "\<not> dbl_neg (dbl_of_int (int n))" "fp_val 53 (dbl_mag (dbl_of_int (int n))) = n * 2 ^ 1074" "dbl_mag (dbl_of_int (int n)) < 0x7FF0000000000000"
    using mk_dbl_parts[of m False] m unfolding d by simp_all
qed

text \<open>A product with a constant between 0 and 1: its ceiling.\<close>

lemma ceil_fraction:
  assumes n: "2 \<le> n" "n < 2 ^ 53" and c: "\<not> dbl_neg c" "dbl_mag c < 0x7FF0000000000000" "0 < fp_val 53 (dbl_mag c)"
    and half: "2 * fp_val 53 (dbl_mag c) \<le> 2 ^ 1074"
  shows "1 \<le> dbl_ceil (dbl_mul c (dbl_of_int (int n)))" "dbl_ceil (dbl_mul c (dbl_of_int (int n))) < int n"
proof -
  let ?v = "fp_val 53 (dbl_mag c)"
  have n0: "0 < n" "0 < n - 1" "n - 1 < 2 ^ 53" using n by simp_all
  note i = dbl_of_int_small[OF n0(1) n(2)]
  obtain m where m: "fp_val 53 m = (n - 1) * 2 ^ 1074" "m < 0x7FF0000000000000" using fp_val_int[OF n0(2,3)] by blast
  define R where "R = fp_rnd 53 (?v * fp_val 53 (dbl_mag (dbl_of_int (int n)))) 1074"
  have "?v * n \<le> (n - 1) * 2 ^ 1074"
  proof -
    have "2 * (?v * n) \<le> n * 2 ^ 1074" using mult_le_mono1[OF half, of n] by (simp only: mult.commute mult.left_commute)
    also have "\<dots> \<le> 2 * ((n - 1) * 2 ^ 1074)" using n(1) by (cases n) simp_all
    finally show ?thesis by (simp add: mult.commute)
  qed
  then have "?v * (n * 2 ^ 1074) \<le> fp_val 53 m * 2 ^ 1074" unfolding m(1) mult.assoc[symmetric] by (rule mult_le_mono1)
  then have up: "R \<le> m" unfolding R_def i(2) using fp_rnd_mono[of 53] fp_rnd_exact[of 53 m 1074] by (metis zero_less_numeral)
  have "?v * 2 ^ 1074 \<le> ?v * (n * 2 ^ 1074)" using n0(1) by simp
  then have down: "dbl_mag c \<le> R" unfolding R_def i(2) using fp_rnd_mono[of 53] fp_rnd_exact[of 53 "dbl_mag c" 1074] by (metis zero_less_numeral)
  have p: "dbl_mul c (dbl_of_int (int n)) = mk_dbl False R"
    using c(1,2) i(1,3) up m(2) by (simp add: dbl_mul_def fp_mul_def Let_def fp_of_dbl_def binary64_def fp_round_def dbl_of_fp_def min_def flip: R_def)
  have "R < 2 ^ 63" using up m(2) by simp
  note q = mk_dbl_parts[OF this, of False]
  have r: "0 < fp_val 53 R" "fp_val 53 R \<le> (n - 1) * 2 ^ 1074"
    using fp_val_mono[OF _ down, of 53] fp_val_mono[OF _ up, of 53] c(3) m(1) by simp_all
  have ceil: "dbl_ceil (dbl_mul c (dbl_of_int (int n))) = - ((- int (fp_val 53 R)) div 2 ^ 1074)"
    by (simp add: p dbl_ceil_def fp_ival_def fp_of_dbl_def q binary64_def)
  have "(- int (fp_val 53 R)) div 2 ^ 1074 < 0" using r(1) by (simp add: neg_imp_zdiv_neg_iff)
  then show "1 \<le> dbl_ceil (dbl_mul c (dbl_of_int (int n)))" unfolding ceil by linarith
  have "- (int (n - 1) * 2 ^ 1074) \<le> - int (fp_val 53 R)" using r(2) by (metis neg_le_iff_le of_nat_le_iff of_nat_mult of_nat_numeral of_nat_power)
  then have "(- int (n - 1)) * 2 ^ 1074 div 2 ^ 1074 \<le> (- int (fp_val 53 R)) div 2 ^ 1074" by (intro zdiv_mono1) simp_all
  then have "- int (n - 1) \<le> (- int (fp_val 53 R)) div 2 ^ 1074" by simp
  then show "dbl_ceil (dbl_mul c (dbl_of_int (int n))) < int n" unfolding ceil using n(1) by linarith
qed

end
