(* ===== verification/Gserialized.thy ===== *)
theory Gserialized
  imports Gser1 Ieee "HOL-Library.Option_ord" "HOL-Library.Product_Lexorder" "HOL-Library.List_Lexorder"
begin

text \<open>
  Stored geometries of either version (liblwgeom/gserialized.c): the functions that the server calls, which ask the
  version bit of the flags, and the order of stored geometries, by which the server sorts them and builds B-trees.
\<close>

section \<open>Dispatch\<close>

definition GFLAGS_GET_VERSION :: "u8 \<Rightarrow> nat" where
  "GFLAGS_GET_VERSION gflags = unat (drop_bit 6 (gflags AND 0x40))"

definition gserialized_get_version :: "gserialized \<Rightarrow> nat" where
  "gserialized_get_version g = GFLAGS_GET_VERSION (gs_gflags g)"

definition gserialized_get_lwflags :: "bool \<Rightarrow> gserialized \<Rightarrow> u16 res" where
  "gserialized_get_lwflags be g =
     (if GFLAGS_GET_VERSION (gs_gflags g) \<noteq> 0 then gserialized2_get_lwflags be g else Inr (gserialized1_get_lwflags g))"

definition gserialized_set_gbox :: "bool \<Rightarrow> gserialized \<Rightarrow> gbox \<Rightarrow> gserialized option res" where
  "gserialized_set_gbox be g gbox =
     (if GFLAGS_GET_VERSION (gs_gflags g) \<noteq> 0 then gserialized2_set_gbox be g gbox else gserialized1_set_gbox be g gbox)"

definition gserialized_drop_gbox :: "bool \<Rightarrow> gserialized \<Rightarrow> gserialized res" where
  "gserialized_drop_gbox be g =
     (if GFLAGS_GET_VERSION (gs_gflags g) \<noteq> 0 then gserialized2_drop_gbox be g else gserialized1_drop_gbox be g)"

definition gserialized_fast_gbox_p :: "bool \<Rightarrow> gserialized \<Rightarrow> gbox \<Rightarrow> (bool \<times> gbox) res" where
  "gserialized_fast_gbox_p be g gbox =
     (if GFLAGS_GET_VERSION (gs_gflags g) \<noteq> 0 then gserialized2_fast_gbox_p be g gbox else gserialized1_fast_gbox_p be g gbox)"

definition gserialized_get_type :: "bool \<Rightarrow> gserialized \<Rightarrow> u32 res" where
  "gserialized_get_type be g =
     (if GFLAGS_GET_VERSION (gs_gflags g) \<noteq> 0 then gserialized2_get_type be g else gserialized1_get_type be g)"

definition gserialized_hash :: "(u8 list \<Rightarrow> u32 \<Rightarrow> u32 \<Rightarrow> u32 \<times> u32) \<Rightarrow> bool \<Rightarrow> gserialized \<Rightarrow> i32 res" where
  "gserialized_hash hashlittle2 be g =
     (if GFLAGS_GET_VERSION (gs_gflags g) \<noteq> 0 then gserialized2_hash hashlittle2 be g else gserialized1_hash hashlittle2 be g)"

definition gserialized_get_srid :: "gserialized \<Rightarrow> i32" where
  "gserialized_get_srid g =
     (if GFLAGS_GET_VERSION (gs_gflags g) \<noteq> 0 then gserialized2_get_srid g else gserialized1_get_srid g)"

definition gserialized_set_srid :: "i32 \<Rightarrow> gserialized \<Rightarrow> gserialized" where
  "gserialized_set_srid srid g =
     (if GFLAGS_GET_VERSION (gs_gflags g) \<noteq> 0 then gserialized2_set_srid srid g else gserialized1_set_srid srid g)"

definition gserialized_is_empty :: "nat \<Rightarrow> bool \<Rightarrow> gserialized \<Rightarrow> bool res" where
  "gserialized_is_empty fuel be g =
     (if GFLAGS_GET_VERSION (gs_gflags g) \<noteq> 0 then gserialized2_is_empty fuel be g else gserialized1_is_empty fuel be g)"

definition gserialized_has_bbox :: "gserialized \<Rightarrow> bool" where
  "gserialized_has_bbox g =
     (if GFLAGS_GET_VERSION (gs_gflags g) \<noteq> 0 then gserialized2_has_bbox g else gserialized1_has_bbox g)"

definition gserialized_has_z :: "gserialized \<Rightarrow> bool" where
  "gserialized_has_z g =
     (if GFLAGS_GET_VERSION (gs_gflags g) \<noteq> 0 then gserialized2_has_z g else gserialized1_has_z g)"

definition gserialized_has_m :: "gserialized \<Rightarrow> bool" where
  "gserialized_has_m g =
     (if GFLAGS_GET_VERSION (gs_gflags g) \<noteq> 0 then gserialized2_has_m g else gserialized1_has_m g)"

definition gserialized_is_geodetic :: "gserialized \<Rightarrow> bool" where
  "gserialized_is_geodetic g =
     (if GFLAGS_GET_VERSION (gs_gflags g) \<noteq> 0 then gserialized2_is_geodetic g else gserialized1_is_geodetic g)"

definition gserialized_ndims :: "gserialized \<Rightarrow> nat" where
  "gserialized_ndims g =
     (if GFLAGS_GET_VERSION (gs_gflags g) \<noteq> 0 then gserialized2_ndims g else gserialized1_ndims g)"

definition gserialized_get_float_box_p :: "gserialized \<Rightarrow> nat option" where
  "gserialized_get_float_box_p g =
     (if GFLAGS_GET_VERSION (gs_gflags g) \<noteq> 0 then gserialized2_get_float_box_p g else gserialized1_get_float_box_p g)"

definition gserialized_peek_first_point :: "bool \<Rightarrow> gserialized \<Rightarrow> point4d \<Rightarrow> point4d option res" where
  "gserialized_peek_first_point be g out_point =
     (if GFLAGS_GET_VERSION (gs_gflags g) \<noteq> 0 then gserialized2_peek_first_point be g out_point else gserialized1_peek_first_point be g out_point)"

definition gserialized_max_header_size :: nat where
  "gserialized_max_header_size =
     (let sz1 = gserialized1_max_header_size; sz2 = gserialized2_max_header_size in if sz1 > sz2 then sz1 else sz2)"

text \<open>New data are always of version 2.\<close>

definition gserialized_from_lwgeom :: "gs_env \<Rightarrow> lwgeom \<Rightarrow> gserialized res" where
  "gserialized_from_lwgeom env geom = gserialized2_from_lwgeom env geom"

definition gserialized_from_lwgeom_size :: "lwgeom \<Rightarrow> nat" where
  "gserialized_from_lwgeom_size geom = gserialized2_from_lwgeom_size geom"

definition lwgeom_from_gserialized :: "nat \<Rightarrow> gs_env \<Rightarrow> gserialized \<Rightarrow> lwgeom res" where
  "lwgeom_from_gserialized fuel env g =
     (if GFLAGS_GET_VERSION (gs_gflags g) \<noteq> 0 then lwgeom_from_gserialized2 fuel env g
      else lwgeom_from_gserialized1 fuel env g)"

text \<open>The box: read, else found by a look at the bytes of a simple geometry, else calculated. \<open>None\<close>: \<open>LW_FAILURE\<close>.\<close>

definition gserialized1_get_gbox_p :: "nat \<Rightarrow> gs_env \<Rightarrow> gserialized \<Rightarrow> gbox \<Rightarrow> gbox option res" where
  "gserialized1_get_gbox_p fuel env g box =
     rbind (gserialized1_read_gbox_p (big_endian env) g box) (\<lambda>(ok, box).
       if ok then Inr (Some box)
       else rbind (gserialized1_peek_gbox_p (big_endian env) g box) (\<lambda>r.
         case r of Some box \<Rightarrow> Inr (Some box)
         | None \<Rightarrow> rbind (lwgeom_from_gserialized fuel env g) (\<lambda>geom.
             Inr (map_option gbox_float_round
               (lwgeom_calculate_gbox (curves env) (geodetic_gbox env) geom box)))))"

definition gserialized2_get_gbox_p :: "nat \<Rightarrow> gs_env \<Rightarrow> gserialized \<Rightarrow> gbox \<Rightarrow> gbox option res" where
  "gserialized2_get_gbox_p fuel env g box =
     rbind (gserialized2_read_gbox_p (big_endian env) g box) (\<lambda>(ok, box).
       if ok then Inr (Some box)
       else rbind (gserialized2_peek_gbox_p (big_endian env) g box) (\<lambda>r.
         case r of Some box \<Rightarrow> Inr (Some box)
         | None \<Rightarrow> rbind (lwgeom_from_gserialized fuel env g) (\<lambda>geom.
             Inr (map_option gbox_float_round
               (lwgeom_calculate_gbox (curves env) (geodetic_gbox env) geom box)))))"

definition gserialized_get_gbox_p :: "nat \<Rightarrow> gs_env \<Rightarrow> gserialized \<Rightarrow> gbox \<Rightarrow> gbox option res" where
  "gserialized_get_gbox_p fuel env g gbox =
     (if GFLAGS_GET_VERSION (gs_gflags g) \<noteq> 0 then gserialized2_get_gbox_p fuel env g gbox
      else gserialized1_get_gbox_p fuel env g gbox)"

definition gserialized_error_if_srid_mismatch :: "bool \<Rightarrow> gserialized \<Rightarrow> gserialized \<Rightarrow> string \<Rightarrow> unit res" where
  "gserialized_error_if_srid_mismatch be g1 g2 funcname =
     (if gserialized_get_srid g1 \<noteq> gserialized_get_srid g2
      then rbind (gserialized1_get_type be g1) (\<lambda>_. rbind (gserialized_get_type be g2) (\<lambda>_.
        Inl (LwError ''%s: Operation on mixed SRID geometries (%s, %d) != (%s, %d)'')))
      else Inr ())"

definition gserialized_error_if_srid_mismatch_reference :: "bool \<Rightarrow> gserialized \<Rightarrow> i32 \<Rightarrow> string \<Rightarrow> unit res" where
  "gserialized_error_if_srid_mismatch_reference be g1 srid2 funcname =
     (if gserialized_get_srid g1 \<noteq> srid2
      then rbind (gserialized1_get_type be g1) (\<lambda>_.
        Inl (LwError ''%s: Operation on mixed SRID geometries %s %d != %d''))
      else Inr ())"

section \<open>A key on the Hilbert curve\<close>

definition uint64_interleave_2 :: "u64 \<Rightarrow> u64 \<Rightarrow> u64" where
  "uint64_interleave_2 x y =
     (let x = (x OR push_bit 16 x) AND 0x0000FFFF0000FFFF;
          x = (x OR push_bit 8 x) AND 0x00FF00FF00FF00FF;
          x = (x OR push_bit 4 x) AND 0x0F0F0F0F0F0F0F0F;
          x = (x OR push_bit 2 x) AND 0x3333333333333333;
          x = (x OR push_bit 1 x) AND 0x5555555555555555;
          y = (y OR push_bit 16 y) AND 0x0000FFFF0000FFFF;
          y = (y OR push_bit 8 y) AND 0x00FF00FF00FF00FF;
          y = (y OR push_bit 4 y) AND 0x0F0F0F0F0F0F0F0F;
          y = (y OR push_bit 2 y) AND 0x3333333333333333;
          y = (y OR push_bit 1 y) AND 0x5555555555555555
      in x OR push_bit 1 y)"

text \<open>One round of the prefix scan over the shift \<open>k\<close>: the states \<open>A\<close>, \<open>B\<close>, \<open>C\<close>, \<open>D\<close> of the next round.\<close>

definition hilbert_round :: "nat \<Rightarrow> u64 \<times> u64 \<times> u64 \<times> u64 \<Rightarrow> u64 \<times> u64 \<times> u64 \<times> u64" where
  "hilbert_round k = (\<lambda>(a, b, c, d).
     ((a AND drop_bit k a) XOR (b AND drop_bit k b),
      (a AND drop_bit k b) XOR (b AND drop_bit k (a XOR b)),
      c XOR ((a AND drop_bit k c) XOR (b AND drop_bit k d)),
      d XOR ((b AND drop_bit k c) XOR ((a XOR b) AND drop_bit k d))))"

definition uint32_hilbert :: "u32 \<Rightarrow> u32 \<Rightarrow> u64" where
  "uint32_hilbert p_x p_y =
     (let x = ucast p_x; y = ucast p_y;
          a = x XOR y; b = 0xFFFFFFFF XOR a; c = 0xFFFFFFFF XOR (x OR y); d = x AND (y XOR 0xFFFFFFFF);
          A = a OR drop_bit 1 b; B = drop_bit 1 a XOR a;
          C = (drop_bit 1 c XOR (b AND drop_bit 1 d)) XOR c;
          D = ((a AND drop_bit 1 c) XOR drop_bit 1 d) XOR d;
          (a, b, c, d) = hilbert_round 8 (hilbert_round 4 (hilbert_round 2 (A, B, C, D)));
          C = c XOR ((a AND drop_bit 16 c) XOR (b AND drop_bit 16 d));
          D = d XOR ((b AND drop_bit 16 c) XOR ((a XOR b) AND drop_bit 16 d));
          a = C XOR drop_bit 1 C; b = D XOR drop_bit 1 D;
          i0 = x XOR y; i1 = b OR (0xFFFFFFFF XOR (i0 OR a))
      in uint64_interleave_2 i0 i1)"

text \<open>The functions of the C library that the key of a geography uses. \<open>FP_TOLERANCE\<close> is 5e-14 there.\<close>

record libm =
  m_atan2 :: "dbl \<Rightarrow> dbl \<Rightarrow> dbl"
  m_asin :: "dbl \<Rightarrow> dbl"

definition normalize :: "point3d \<Rightarrow> point3d" where
  "normalize p =
     (let d = dbl_sqrt (dbl_add (dbl_add (dbl_mul (p3x p) (p3x p)) (dbl_mul (p3y p) (p3y p))) (dbl_mul (p3z p) (p3z p)))
      in if dbl_le (dbl_abs d) 0x3D2C25C268497682 then p\<lparr>p3x := 0, p3y := 0, p3z := 0\<rparr>
         else p\<lparr>p3x := dbl_div (p3x p) d, p3y := dbl_div (p3y p) d, p3z := dbl_div (p3z p) d\<rparr>)"

text \<open>Longitude and latitude.\<close>

definition cart2geog :: "libm \<Rightarrow> point3d \<Rightarrow> dbl \<times> dbl" where
  "cart2geog m p = (m_atan2 m (p3y p) (p3x p), m_asin m (p3z p))"

text \<open>\<open>1.5 + v / scale\<close> for a power of two.\<close>

definition hash_coord :: "dbl \<Rightarrow> dbl \<Rightarrow> flt" where
  "hash_coord v scale = flt_of_dbl (dbl_add 0x3FF8000000000000 (dbl_div v scale))"

definition gbox_get_sortable_hash :: "libm \<Rightarrow> gbox \<Rightarrow> i32 \<Rightarrow> u64" where
  "gbox_get_sortable_hash m g srid =
     (let mid = (\<lambda>hi lo. dbl_div (dbl_add hi lo) 0x4000000000000000);
          (x, y) =
            (if FLAGS_GET_GEODETIC (gb_flags g) \<noteq> 0
             then let p = normalize \<lparr>p3x = mid (xmax g) (xmin g), p3y = mid (ymax g) (ymin g), p3z = mid (zmax g) (zmin g)\<rparr>;
                      (lon, lat) = cart2geog m p
               in (hash_coord lon 0x4080000000000000, hash_coord lat 0x4070000000000000)
             else let x = flt_of_dbl (mid (xmax g) (xmin g)); y = flt_of_dbl (mid (ymax g) (ymin g))
               in if srid = 3857 \<or> srid = 3395
                  then (hash_coord (dbl_of_flt x) 0x4190000000000000, hash_coord (dbl_of_flt y) 0x4190000000000000)
                  else if srid = 4326
                  then (hash_coord (dbl_of_flt x) 0x4080000000000000, hash_coord (dbl_of_flt y) 0x4070000000000000)
                  else (x, y))
      in uint32_hilbert y x)"

definition gserialized_get_sortable_hash :: "libm \<Rightarrow> nat \<Rightarrow> gs_env \<Rightarrow> gserialized \<Rightarrow> u64 res" where
  "gserialized_get_sortable_hash m fuel env g =
     rbind (gserialized_get_gbox_p fuel env g (stack_gbox env)) (\<lambda>r.
       case r of None \<Rightarrow> Inr 0 | Some box \<Rightarrow> Inr (gbox_get_sortable_hash m box (gserialized_get_srid g)))"

section \<open>The order\<close>

definition gserialized_header_size :: "gserialized \<Rightarrow> nat" where
  "gserialized_header_size g =
     (let f = gs_gflags g
      in 8 + (if GFLAGS_GET_VERSION f \<noteq> 0 \<and> f AND 0x10 \<noteq> 0 then 8 else 0) +
         (if f AND 0x04 \<noteq> 0
          then if f AND 0x08 \<noteq> 0 then 6 * 4
            else 4 * 4 + (if f AND 0x01 \<noteq> 0 then 2 * 4 else 0) + (if f AND 0x02 \<noteq> 0 then 2 * 4 else 0)
          else 0))"

definition gserialized_cmp_srid :: "gserialized \<Rightarrow> gserialized \<Rightarrow> int" where
  "gserialized_cmp_srid g1 g2 = (if gs_srid g1 = gs_srid g2 then 0 else 1)"

text \<open>\<open>memcmp\<close> on blocks of the same length: the sign of the first difference.\<close>

fun memcmp :: "u8 list \<Rightarrow> u8 list \<Rightarrow> int" where
  "memcmp (a # as) (b # bs) = (if a < b then -1 else if b < a then 1 else memcmp as bs)"
| "memcmp as bs = 0"

definition gserialized_cmp :: "libm \<Rightarrow> nat \<Rightarrow> gs_env \<Rightarrow> gserialized \<Rightarrow> gserialized \<Rightarrow> int res" where
  "gserialized_cmp m fuel env g1 g2 =
     (let be = big_endian env;
          sz1 = unat (LWSIZE_GET be (gs_size g1)); sz2 = unat (LWSIZE_GET be (gs_size g2));
          hsz1 = gserialized_header_size g1; hsz2 = gserialized_header_size g2;
          bsz1 = sz1 - hsz1; bsz2 = sz2 - hsz2; bsz_min = (if bsz1 < bsz2 then bsz1 else bsz2)
      in if sz1 < hsz1 \<or> sz2 < hsz2 \<or> length (gs_data g1) < sz1 - 8 \<or> length (gs_data g2) < sz2 - 8 then Inl MemFault
         else
           let cmp_srid = gserialized_cmp_srid g1 g2;
               cmp = memcmp (take bsz_min (drop (hsz1 - 8) (gs_data g1))) (take bsz_min (drop (hsz2 - 8) (gs_data g2)));
               g1hasz = gserialized_has_z g1; g1hasm = gserialized_has_m g1;
               g2hasz = gserialized_has_z g2; g2hasm = gserialized_has_m g2
           in if bsz1 = bsz2 \<and> cmp_srid = 0 \<and> cmp = 0 \<and> g1hasz = g2hasz \<and> g1hasm = g2hasm then Inr 0
              else
                rbind (gserialized_get_gbox_p fuel env g1 gbox_init) (\<lambda>box1.
                rbind (gserialized_get_gbox_p fuel env g2 gbox_init) (\<lambda>box2.
                  let srid1 = gserialized_get_srid g1; srid2 = gserialized_get_srid g2;
                      rest =
                        (if bsz1 \<noteq> bsz2 \<and> cmp = 0 then Inr (if bsz1 < bsz2 then -1 else 1)
                         else if cmp_srid \<noteq> 0 then Inr (if srid2 <s srid1 then 1 else -1)
                         else if g1hasz \<noteq> g2hasz then Inr (if g1hasz then 1 else -1)
                         else if g1hasm \<noteq> g2hasm then Inr (if g1hasm then 1 else -1)
                         else if cmp = 0 then Inl (LwError ''assert(cmp != 0)'')
                         else Inr (if cmp > 0 then 1 else -1))
                  in case (box1, box2) of
                       (None, Some _) \<Rightarrow> Inr (-1)
                     | (Some _, None) \<Rightarrow> Inr 1
                     | (None, None) \<Rightarrow> rest
                     | (Some b1, Some b2) \<Rightarrow>
                         let hash1 = gbox_get_sortable_hash m b1 srid1; hash2 = gbox_get_sortable_hash m b2 srid2
                         in if hash1 > hash2 then Inr 1 else if hash1 < hash2 then Inr (-1) else rest)))"

section \<open>Bodies of stored geometries\<close>

lemma u8_flag_bits [flags_simps]:
  "(f AND 0x01 = 0) = (\<not> bit f 0)" "(f AND 0x02 = 0) = (\<not> bit f 1)" "(f AND 0x04 = 0) = (\<not> bit f 2)"
  "(f AND 0x08 = 0) = (\<not> bit f 3)" "(f AND 0x10 = 0) = (\<not> bit f 4)" for f :: u8
  using bit_iff_and_push_bit_not_eq_0[of f 0] bit_iff_and_push_bit_not_eq_0[of f 1] bit_iff_and_push_bit_not_eq_0[of f 2]
    bit_iff_and_push_bit_not_eq_0[of f 3] bit_iff_and_push_bit_not_eq_0[of f 4]
  by (simp_all add: push_bit_of_1)

lemma version_bit [flags_simps]: "GFLAGS_GET_VERSION f = of_bool (bit f 6)"
  using unat_drop_and[of 6 f] by (simp add: GFLAGS_GET_VERSION_def push_bit_of_1)

text \<open>What a datum consists of.\<close>

definition gs_datum :: "gs_env \<Rightarrow> bool \<times> bool \<Rightarrow> lwgeom \<Rightarrow> gserialized \<Rightarrow> bool" where
  "gs_datum env zm G d \<longleftrightarrow> gs_storable zm G \<and> (bit (g_flags (g_hdr G)) 2 \<longleftrightarrow> g_bbox (g_hdr G) \<noteq> None) \<and>
    unat (LWSIZE_GET (big_endian env) (gs_size d)) = 8 + length (gs_data d) \<and>
    gs_gflags d = lwflags_get_g2flags (g_flags (g_hdr G)) \<and>
    gserialized2_get_srid d = clamp_srid (g_srid (g_hdr G)) \<and>
    gs_srid d = gs_srid (gserialized2_set_srid (g_srid (g_hdr G)) \<lparr>gs_size = 0, gs_srid = (0, 0, 0), gs_gflags = 0, gs_data = []\<rparr>) \<and>
    gs_data d = gserialized2_from_extended_flags (big_endian env) (g_flags (g_hdr G)) @
      box_bytes (big_endian env) (g_bbox (g_hdr G)) @ gs_body (big_endian env) G"

lemma gs_datumI:
  assumes "gs_storable zm (gserialized2_prepare env g)" and "gserialized_from_lwgeom env g = Inr d"
  shows "gs_datum env zm (gserialized2_prepare env g) d"
proof -
  have "gs_srid d = gs_srid (gserialized2_set_srid (g_srid (g_hdr (gserialized2_prepare env g)))
      \<lparr>gs_size = 0, gs_srid = (0, 0, 0), gs_gflags = 0, gs_data = []\<rparr>)"
    using assms(2) by (auto simp: gserialized_from_lwgeom_def gserialized2_from_lwgeom_def Let_def rbind_eq_Inr_iff split: if_splits)
  then show ?thesis
    using write_datum[OF refl assms(1)] assms prepare_flag[of env g] by (auto simp: gs_datum_def gserialized_from_lwgeom_def)
qed

definition gs_header :: "gs_env \<Rightarrow> lwgeom \<Rightarrow> u8 list" where
  "gs_header env G = gserialized2_from_extended_flags (big_endian env) (g_flags (g_hdr G)) @ box_bytes (big_endian env) (g_bbox (g_hdr G))"

lemma datum_data: "gs_datum env zm G d \<Longrightarrow> gs_data d = gs_header env G @ gs_body (big_endian env) G"
  by (simp add: gs_datum_def gs_header_def)

lemma datum_box_length:
  "gs_datum env zm G d \<Longrightarrow> length (gs_header env G) =
    (if lwflags_uses_extended_flags (g_flags (g_hdr G)) then 8 else 0) +
    (if bit (g_flags (g_hdr G)) 2 then gbox_serialized_size (g_flags (g_hdr G)) else 0)"
  using box_bytes_length[of "g_flags (g_hdr G)" _ "big_endian env"]
  by (auto simp: gs_datum_def gs_header_def gs_storable_def extended_length box_bytes_def split: option.splits)

lemma datum_header_size:
  assumes "gs_datum env zm G d"
  shows "gserialized_header_size d = 8 + length (gs_header env G)"
    and "gserialized2_get_geometry_p d = length (gs_header env G)"
proof -
  have "gs_gflags d = lwflags_get_g2flags (g_flags (g_hdr G))" using assms by (simp add: gs_datum_def)
  then show "gserialized_header_size d = 8 + length (gs_header env G)" "gserialized2_get_geometry_p d = length (gs_header env G)"
    unfolding datum_box_length[OF assms]
    by (simp_all add: gserialized_header_size_def Let_def flags_simps gbox_serialized_size_def FLAGS_NDIMS_bits
      gserialized2_get_geometry_p_def gserialized2_has_extended_def gserialized2_has_bbox_def gserialized2_box_size_def G2FLAGS_NDIMS_def)
qed

lemma datum_dispatch:
  assumes "gs_datum env zm G d"
  shows "gserialized_has_z d = fst zm" "gserialized_has_m d = snd zm" "gserialized_get_srid d = clamp_srid (g_srid (g_hdr G))"
    "GFLAGS_GET_VERSION (gs_gflags d) \<noteq> 0"
  using assms gs_ok_flags[of zm G]
  by (simp_all add: gs_datum_def gs_storable_def gserialized_has_z_def gserialized_has_m_def gserialized_get_srid_def
    gserialized2_has_z_def gserialized2_has_m_def gs_flags_def flags_simps)

lemma datum_srid:
  assumes "gs_datum env zm G d" and "gs_datum env zm' G' d'"
  shows "gs_srid d = gs_srid d' \<longleftrightarrow> gserialized_get_srid d = gserialized_get_srid d'"
proof -
  let ?b = "\<lparr>gs_size = 0, gs_srid = (0, 0, 0), gs_gflags = 0, gs_data = []\<rparr>"
  have d: "gs_srid d = gs_srid (gserialized2_set_srid (g_srid (g_hdr G)) ?b)" "gs_srid d' = gs_srid (gserialized2_set_srid (g_srid (g_hdr G')) ?b)"
    and s: "gserialized_get_srid d = gserialized2_get_srid d" "gserialized_get_srid d' = gserialized2_get_srid d'"
      "gserialized2_get_srid d = clamp_srid (g_srid (g_hdr G))" "gserialized2_get_srid d' = clamp_srid (g_srid (g_hdr G'))"
    using assms datum_dispatch(4)[OF assms(1)] datum_dispatch(4)[OF assms(2)] by (simp_all add: gs_datum_def gserialized_get_srid_def)
  show ?thesis
  proof
    assume "gs_srid d = gs_srid d'"
    then show "gserialized_get_srid d = gserialized_get_srid d'" unfolding s(1,2) by (simp add: gserialized2_get_srid_def)
  next
    assume "gserialized_get_srid d = gserialized_get_srid d'"
    then have "clamp_srid (g_srid (g_hdr G)) = clamp_srid (g_srid (g_hdr G'))" by (simp add: s)
    then show "gs_srid d = gs_srid d'" unfolding d by (simp add: gserialized2_set_srid_def)
  qed
qed

text \<open>No body is a proper prefix of another of the same dimensions.\<close>

lemma body_prefix:
  assumes "gs_ok zm G" and "gs_ok zm G'" and "gs_body be G @ rest = gs_body be G'"
  shows "rest = []"
proof -
  let ?fl = "g_flags (g_hdr G)" and ?fuel = "max (gs_depth G) (gs_depth G')"
  have "fl_dims zm ?fl" using gs_ok_flags[OF assms(1)] by (simp add: fl_dims_def gs_flags_def)
  then show ?thesis
    using gser2.unique_decoding[where x = G and y = G' and zm = zm and fl = ?fl and fuel = ?fuel and be = be and rest = rest and rest' = "[]"]
      assms by simp
qed
section \<open>The box of a stored geometry\<close>

lemma rd_u32_append:
  "rd_u32 be (xs @ bs) (length xs + n) = rd_u32 be bs n" "rd_u32 be (xs @ bs) (length xs) = rd_u32 be bs 0"
  by (simp_all add: rd_u32_def)

lemma rd_total_room:
  "off + 4 \<le> length bs \<Longrightarrow> \<exists>w. rd_u32 be bs off = Inr w"
  "off + 8 * n \<le> length bs \<Longrightarrow> \<exists>ds. rd_dbls be bs off n = Inr ds"
  by (simp_all add: rd_u32_def rd_dbls_def)

text \<open>What the peek relies on: behind the counts it looks at there is all it reads.\<close>

definition peek_room :: "bool \<Rightarrow> nat \<Rightarrow> u8 list \<Rightarrow> bool" where
  "peek_room be nd bs \<longleftrightarrow> 8 \<le> length bs \<and>
     (rd_u32 be bs 0 = Inr 1 \<and> rd_u32 be bs 4 \<noteq> Inr 0 \<longrightarrow> 8 + 8 * nd \<le> length bs) \<and>
     (rd_u32 be bs 0 = Inr 2 \<and> rd_u32 be bs 4 = Inr 2 \<longrightarrow> 8 + 8 * (2 * nd) \<le> length bs) \<and>
     (rd_u32 be bs 0 = Inr 4 \<and> rd_u32 be bs 4 = Inr 1 \<longrightarrow>
       16 \<le> length bs \<and> (rd_u32 be bs 12 = Inr 1 \<longrightarrow> 16 + 8 * nd \<le> length bs)) \<and>
     (rd_u32 be bs 0 = Inr 5 \<and> rd_u32 be bs 4 = Inr 1 \<longrightarrow>
       16 \<le> length bs \<and> (rd_u32 be bs 12 = Inr 2 \<longrightarrow> 16 + 8 * (2 * nd) \<le> length bs))"

lemma body_length: "8 \<le> length (gs_body be g)"
  by (cases g) simp_all
text \<open>Members of the types looked into.\<close>

lemma multi_member:
  assumes "gs_ok zm (LwColl ty h gs)" and "(of_nat (length gs) :: u32) = 1" and "ty = 4 \<or> ty = 5"
  shows "\<exists>h' pa. gs = [if ty = 4 then LwPoint h' pa else LwLine h' pa] \<and> gs_array zm pa"
proof -
  have "length gs < 2 ^ 32" using assms(1) by simp
  then have "unat (of_nat (length gs) :: u32) = length gs" by (simp add: unat_of_nat)
  then have "length gs = 1" using assms(2) by simp
  then obtain g where g: "gs = [g]" by (cases gs) auto
  then have "lwcollection_allows_subtype ty (lwgeom_get_type g)" and ok: "gs_ok zm g" using assms(1) by simp_all
  then have "lwgeom_get_type g = (if ty = 4 then 1 else 2)"
    using assms(3) by (auto simp: lwcollection_allows_subtype_def split: if_splits)
  then show ?thesis using assms(3) g ok by (cases g) (auto simp: lwtype_is_collection_def split: if_splits)
qed

lemma body_peek_room:
  assumes "gs_ok zm G" and nd: "nd = 2 + of_bool (fst zm) + of_bool (snd zm)"
  shows "peek_room be nd (gs_body be G)"
proof -
  have a: "length (serialized_pointlist pa) = nd * unat (npoints pa)" if "gs_array zm pa" for pa
    using gs_array_length[OF that] that nd by (simp add: gs_array_def FLAGS_NDIMS_bits)
  show ?thesis
  proof (cases G)
    case (LwPoint h pa)
    then have pa: "gs_array zm pa" "npoints pa \<le> 1" using assms(1) by simp_all
    have "npoints pa \<noteq> 0 \<Longrightarrow> 1 \<le> unat (npoints pa)" by (simp add: Suc_le_eq unat_gt_0)
    then have "npoints pa \<noteq> 0 \<Longrightarrow> nd \<le> nd * unat (npoints pa)" by simp
    then show ?thesis using LwPoint a[OF pa(1)] by (auto simp: peek_room_def)
  next
    case (LwLine h pa)
    then show ?thesis using a[of pa] assms(1) by (auto simp: peek_room_def)
  next
    case (LwColl ty h gs)
    then have ok: "gs_ok zm (LwColl ty h gs)" using assms(1) by simp
    have t: "(ucast ty = (4 :: u32)) = (ty = 4)" "(ucast ty = (5 :: u32)) = (ty = 5)" "ucast ty \<noteq> (1 :: u32)" "ucast ty \<noteq> (2 :: u32)"
      using ok collection_code[of ty] by (auto simp: lwtype_is_collection_def)
    show ?thesis
    proof (cases "(of_nat (length gs) :: u32) = 1 \<and> (ty = 4 \<or> ty = 5)")
      case True
      then obtain h' pa where gs: "gs = [if ty = 4 then LwPoint h' pa else LwLine h' pa]" "gs_array zm pa"
        using multi_member[OF ok] by auto
      have "rd_u32 be (gs_body be G) 12 = Inr (npoints pa)"
        using rd_u32_append(1)[of be "put_u32 be (ucast ty) @ put_u32 be 1" _ 4] LwColl gs True by (auto split: if_splits)
      then show ?thesis using LwColl gs a[OF gs(2)] True t by (auto simp: peek_room_def)
    next
      case False
      then show ?thesis using LwColl t by (auto simp: peek_room_def)
    qed
  qed (simp_all add: peek_room_def)
qed
lemma rd_dbls_append: "rd_dbls be (xs @ bs) (length xs + n) k = rd_dbls be bs n k"
  by (simp add: rd_dbls_def)

lemma rbind_Inr_ex: "\<exists>x. m = Inr x \<Longrightarrow> (\<And>x. m = Inr x \<Longrightarrow> \<exists>y. f x = Inr y) \<Longrightarrow> \<exists>y. rbind m f = Inr y"
  by auto

lemma if_Inr_ex: "(b \<Longrightarrow> \<exists>y. x = Inr y) \<Longrightarrow> (\<not> b \<Longrightarrow> \<exists>y. z = Inr y) \<Longrightarrow> \<exists>y. (if b then x else z) = Inr y"
  by simp

lemma peek_returns:
  assumes "gs_data d = xs @ bs" and "gserialized2_get_geometry_p d = length xs"
    and "gserialized2_get_lwflags be d = Inr fl" and "peek_room be (G2FLAGS_NDIMS (gs_gflags d)) bs"
  shows "\<exists>r. gserialized2_peek_gbox_p be d box = Inr r"
proof -
  have room: "8 \<le> length bs" using assms(4) by (simp add: peek_room_def)
  note u = rd_total_room(1)[of _ bs be] and v = rd_total_room(2)[of _ _ bs be]
  show ?thesis
    unfolding gserialized2_peek_gbox_p_def Let_def assms(1,2,3) gserialized2_get_type_def rd_u32_append rd_dbls_append rbind_simps
    using assms(4) room
    by (intro rbind_Inr_ex if_Inr_ex) (auto simp: peek_room_def intro!: u v)
qed

lemma datum_gbox:
  assumes d: "gs_datum env zm G d" and fuel: "gs_depth G \<le> fuel"
  shows "\<exists>r. gserialized_get_gbox_p fuel env d box = Inr r"
proof -
  let ?be = "big_endian env" and ?f = "g_flags (g_hdr G)"
  have gf: "gs_gflags d = lwflags_get_g2flags ?f" and data: "gs_data d = gserialized2_from_extended_flags ?be ?f @
      box_bytes ?be (g_bbox (g_hdr G)) @ gs_body ?be G" and st: "gs_storable zm G" and ok: "gs_ok zm G"
    and bbox: "bit ?f 2 \<longleftrightarrow> g_bbox (g_hdr G) \<noteq> None"
    using d by (simp_all add: gs_datum_def gs_storable_def)
  note lw = get_lwflags[OF gf data]
  show ?thesis
  proof (cases "g_bbox (g_hdr G)")
    case (Some b)
    then have "gserialized2_read_gbox_p ?be d box = Inr (True, stored_box (stored_flags ?f) b box)"
      using read_gbox_present[OF gf, of ?be b] data bbox st by (simp add: box_bytes_def gs_storable_def)
    then show ?thesis using datum_dispatch(4)[OF d] by (simp add: gserialized_get_gbox_p_def gserialized2_get_gbox_p_def)
  next
    case None
    then have r: "gserialized2_read_gbox_p ?be d b = Inr (False, b\<lparr>gb_flags := stored_flags ?f\<rparr>)" for b
      using read_gbox_absent[OF gf data] bbox by simp
    have "G2FLAGS_NDIMS (gs_gflags d) = 2 + of_bool (fst zm) + of_bool (snd zm)"
      using gs_ok_flags[OF ok] by (simp add: gf G2FLAGS_NDIMS_def flags_simps gs_flags_def)
    then have p: "\<exists>r. gserialized2_peek_gbox_p ?be d b = Inr r" for b
      using peek_returns[OF datum_data[OF d] datum_header_size(2)[OF d] lw] body_peek_room[OF ok] by simp
    have "fl_dims zm (stored_flags ?f)" using gs_ok_flags[OF ok] by (simp add: fl_dims_def gs_flags_def flags_simps)
    then have rd: "lwgeom_from_gserialized2_buffer fuel ?be s (stored_flags ?f) (gs_body ?be G)
        = Inr (gs_canon (stored_flags ?f) s G, length (gs_body ?be G))" for s
      using gs_reader[OF ok _ fuel, of _ ?be s "[]"] by simp
    have off: "(if gserialized2_has_extended d then 8 else 0) + (if FLAGS_GET_BBOX (stored_flags ?f) \<noteq> 0 then gbox_serialized_size (stored_flags ?f) else 0)
        = length (gs_header env G)"
      using datum_box_length[OF d] bbox None by (simp add: gserialized2_has_extended_def gf flags_simps)
    have ty: "\<exists>t. gserialized2_get_type ?be d = Inr t"
      using body_length[of ?be G] by (simp add: gserialized2_get_type_def datum_header_size(2)[OF d] datum_data[OF d] rd_u32_append(2) rd_u32_def)
    obtain g where g: "lwgeom_from_gserialized2 fuel env d = Inr g"
      using ty unfolding lwgeom_from_gserialized2_def Let_def lw rbind_simps off datum_data[OF d]
      by (auto simp: rd r)
    obtain x where "gserialized2_peek_gbox_p ?be d (box\<lparr>gb_flags := stored_flags ?f\<rparr>) = Inr x" using p by blast
    then show ?thesis using datum_dispatch(4)[OF d]
      by (cases x) (simp_all add: gserialized_get_gbox_p_def gserialized2_get_gbox_p_def lwgeom_from_gserialized_def r g)
  qed
qed
section \<open>The order of stored geometries\<close>

lemma memcmp_take: "n = min (length as) (length bs) \<Longrightarrow> memcmp (take n as) (take n bs) = memcmp as bs"
proof (induction as bs arbitrary: n rule: memcmp.induct)
  case (1 a as b bs)
  then show ?case by (cases n) (auto simp: min_def split: if_splits)
qed auto

lemma memcmp_prefix: "memcmp as bs = 0 \<Longrightarrow> \<exists>r. as @ r = bs \<or> bs @ r = as"
  by (induction as bs rule: memcmp.induct) (auto split: if_splits)

lemma memcmp_refl [simp]: "memcmp as as = 0"
  by (induction as) simp_all

lemma memcmp_less: "memcmp as bs \<noteq> 0 \<Longrightarrow> memcmp as bs = (if as < bs then -1 else 1)"
  by (induction as bs rule: memcmp.induct) (auto split: if_splits)

text \<open>
  The order as the comment on \<open>gserialized_cmp\<close> has it, among data of the same dimensions: by the key on the curve, with
  empty geometries first, then by SRID, then by the bytes of the geometry. \<open><\<close> on the triple is the
  lexicographic order of the library.
\<close>

definition cmp_key :: "libm \<Rightarrow> nat \<Rightarrow> gs_env \<Rightarrow> gserialized \<Rightarrow> u64 option \<times> int \<times> u8 list" where
  "cmp_key m fuel env d =
     (case gserialized_get_gbox_p fuel env d gbox_init of
        Inr (Some b) \<Rightarrow> Some (gbox_get_sortable_hash m b (gserialized_get_srid d)) | _ \<Rightarrow> None,
      sint (gserialized_get_srid d), drop (gserialized_header_size d - 8) (gs_data d))"

text \<open>The comparison in terms of the geometries stored.\<close>

definition cmp_boxes :: "libm \<Rightarrow> i32 \<Rightarrow> i32 \<Rightarrow> gbox option \<Rightarrow> gbox option \<Rightarrow> int res \<Rightarrow> int res" where
  "cmp_boxes m s1 s2 x1 x2 rest =
     (case (x1, x2) of (None, Some _) \<Rightarrow> Inr (-1) | (Some _, None) \<Rightarrow> Inr 1 | (None, None) \<Rightarrow> rest
      | (Some b1, Some b2) \<Rightarrow>
          if gbox_get_sortable_hash m b1 s1 > gbox_get_sortable_hash m b2 s2 then Inr 1
          else if gbox_get_sortable_hash m b1 s1 < gbox_get_sortable_hash m b2 s2 then Inr (-1) else rest)"

lemma datum_cmp_unfold:
  assumes d1: "gs_datum env zm1 G1 d1" and d2: "gs_datum env zm2 G2 d2"
    and x1: "gserialized_get_gbox_p fuel env d1 gbox_init = Inr x1" and x2: "gserialized_get_gbox_p fuel env d2 gbox_init = Inr x2"
    and b: "b1 = gs_body (big_endian env) G1" "b2 = gs_body (big_endian env) G2"
    and s: "s1 = gserialized_get_srid d1" "s2 = gserialized_get_srid d2"
  shows "gserialized_cmp m fuel env d1 d2 =
    (if length b1 = length b2 \<and> s1 = s2 \<and> memcmp b1 b2 = 0 \<and> fst zm1 = fst zm2 \<and> snd zm1 = snd zm2 then Inr 0
     else cmp_boxes m s1 s2 x1 x2
       (if length b1 \<noteq> length b2 \<and> memcmp b1 b2 = 0 then Inr (if length b1 < length b2 then -1 else 1)
        else if s1 \<noteq> s2 then Inr (if s2 <s s1 then 1 else -1)
        else if fst zm1 \<noteq> fst zm2 then Inr (if fst zm1 then 1 else -1)
        else if snd zm1 \<noteq> snd zm2 then Inr (if snd zm1 then 1 else -1)
        else if memcmp b1 b2 = 0 then Inl (LwError ''assert(cmp != 0)'')
        else Inr (if memcmp b1 b2 > 0 then 1 else -1)))"
proof -
  let ?be = "big_endian env"
  have sz: "unat (LWSIZE_GET ?be (gs_size d1)) = 8 + length (gs_data d1)" "unat (LWSIZE_GET ?be (gs_size d2)) = 8 + length (gs_data d2)"
    using d1 d2 by (simp_all add: gs_datum_def)
  note h = datum_header_size(1)[OF d1] datum_header_size(1)[OF d2]
  have dt: "gs_data d1 = gs_header env G1 @ b1" "gs_data d2 = gs_header env G2 @ b2" using datum_data[OF d1] datum_data[OF d2] b by simp_all
  have srid: "gserialized_cmp_srid d1 d2 = (if s1 = s2 then 0 else 1)"
    using datum_srid[OF d1 d2] s by (simp add: gserialized_cmp_srid_def)
  have tk: "memcmp (take (if length b1 < length b2 then length b1 else length b2) b1)
      (take (if length b1 < length b2 then length b1 else length b2) b2) = memcmp b1 b2"
    by (rule memcmp_take) simp
  have len: "8 + length (hd @ b) - (8 + length hd) = length b" "8 + length hd - 8 = length hd" "drop (length hd) (hd @ b) = b"
    "\<not> 8 + length (hd @ b) < 8 + length hd" "\<not> length (hd @ b) < 8 + length (hd @ b) - 8" for hd b :: "u8 list" by simp_all
  have zero: "(if s1 = s2 then 0 else 1) = (0 :: int) \<longleftrightarrow> s1 = s2" by simp
  show ?thesis
    unfolding gserialized_cmp_def[of m fuel env d1 d2, unfolded Let_def sz h dt srid x1 x2 rbind_simps len tk
      datum_dispatch(1,2)[OF d1] datum_dispatch(1,2)[OF d2] if_False de_Morgan_disj simp_thms refl zero] s cmp_boxes_def
    by simp
qed

lemma datum_cmp:
  assumes d1: "gs_datum env zm G1 d1" "gs_depth G1 \<le> fuel" and d2: "gs_datum env zm G2 d2" "gs_depth G2 \<le> fuel"
  shows "gserialized_cmp m fuel env d1 d2 = Inr (if snd (cmp_key m fuel env d1) = snd (cmp_key m fuel env d2) then 0
    else if cmp_key m fuel env d1 < cmp_key m fuel env d2 then -1 else 1)"
proof -
  let ?be = "big_endian env" and ?s1 = "gserialized_get_srid d1" and ?s2 = "gserialized_get_srid d2"
  let ?b1 = "gs_body ?be G1" and ?b2 = "gs_body ?be G2"
  obtain x1 where x1: "gserialized_get_gbox_p fuel env d1 gbox_init = Inr x1" using datum_gbox[OF d1] by blast
  obtain x2 where x2: "gserialized_get_gbox_p fuel env d2 gbox_init = Inr x2" using datum_gbox[OF d2] by blast
  have ok: "gs_ok zm G1" "gs_ok zm G2" using d1(1) d2(1) by (simp_all add: gs_datum_def gs_storable_def)
  have k: "cmp_key m fuel env d1 = (map_option (\<lambda>b. gbox_get_sortable_hash m b ?s1) x1, sint ?s1, ?b1)"
    "cmp_key m fuel env d2 = (map_option (\<lambda>b. gbox_get_sortable_hash m b ?s2) x2, sint ?s2, ?b2)"
    using datum_header_size(1)[OF d1(1)] datum_header_size(1)[OF d2(1)] datum_data[OF d1(1)] datum_data[OF d2(1)]
    by (simp_all add: cmp_key_def x1 x2 split: option.splits)
  have "?b1 = ?b2" if "memcmp ?b1 ?b2 = 0"
    using memcmp_prefix[OF that] body_prefix[OF ok, of ?be] body_prefix[OF ok(2,1), of ?be] by (metis append_Nil2)
  then have mc: "memcmp ?b1 ?b2 = (if ?b1 = ?b2 then 0 else if ?b1 < ?b2 then -1 else 1)"
    by (cases "memcmp ?b1 ?b2 = 0") (use memcmp_less[of ?b1 ?b2] in \<open>auto split: if_splits\<close>)
  let ?rest = "Inr (if ?s1 \<noteq> ?s2 then if ?s2 <s ?s1 then 1 else -1 else if ?b1 < ?b2 then -1 else 1)"
  note cmp = datum_cmp_unfold[OF d1(1) d2(1) x1 x2 refl refl refl refl, of m]
  have all: "gserialized_cmp m fuel env d1 d2 = (if ?s1 = ?s2 \<and> ?b1 = ?b2 then Inr 0 else cmp_boxes m ?s1 ?s2 x1 x2 ?rest)"
    unfolding cmp mc by (cases "?s1 = ?s2"; cases "?b1 = ?b2"; simp)
  consider "?s1 = ?s2" | "?s1 \<noteq> ?s2" "sint ?s1 < sint ?s2" | "?s1 \<noteq> ?s2" "sint ?s2 < sint ?s1"
    using signed_word_eqI[of ?s1 ?s2] linorder_less_linear[of "sint ?s1" "sint ?s2"] by blast
  then show ?thesis
    unfolding k all by cases (cases x1; cases x2; auto simp: cmp_boxes_def word_sless_alt less_prod_def')+
qed

section \<open>A cycle\<close>

definition cmp_line :: "bool \<Rightarrow> i32 \<Rightarrow> lwgeom" where
  "cmp_line z srid = LwLine (gser_hdr (if z then 1 else 0) srid)
     \<lparr>npoints = 2, maxpoints = 2, pa_flags = (if z then 1 else 0), serialized_pointlist = (if z then [0, 0, 0, 0, 0, 0] else [0, 0, 0, 0])\<rparr>"

definition cmp_multipoint :: "i32 \<Rightarrow> lwgeom" where
  "cmp_multipoint srid = LwColl 4 (gser_hdr 0 srid)
     [LwPoint (gser_hdr 0 srid) \<lparr>npoints = 1, maxpoints = 1, pa_flags = 0, serialized_pointlist = [0, 0]\<rparr>]"

lemma small_flags: "FLAGS_SET_BBOX 0 False = 0" "FLAGS_SET_BBOX 1 False = 1" "lwflags_get_g2flags 0 = 0x40" "lwflags_get_g2flags 1 = 0x41"
  "\<not> lwflags_uses_extended_flags 0" "\<not> lwflags_uses_extended_flags 1"
  by code_simp+

lemma cmp_prepared:
  "gserialized2_prepare env (cmp_line z srid) = cmp_line z srid"
  "gserialized2_prepare env (cmp_multipoint srid) = cmp_multipoint srid"
  by (simp_all add: gserialized2_prepare_def cmp_line_def cmp_multipoint_def gser_hdr_def small_flags lwgeom_needs_bbox_def lwline_count_vertices_def)

lemma cmp_storable: "gs_storable (z, False) (cmp_line z srid)" "gs_storable (False, False) (cmp_multipoint srid)"
  by (auto simp: gs_storable_def cmp_line_def cmp_multipoint_def gser_hdr_def small_flags gserialized2_from_lwgeom_size_def
    gs_flags_def gs_array_def pa_wf_def points_size_def FLAGS_NDIMS_bits lwtype_is_collection_def lwcollection_allows_subtype_def flag_1_bits)

lemma box_hash_zero:
  assumes "FLAGS_GET_GEODETIC (gb_flags b) = 0" "xmin b = round_down 0" "xmax b = round_up 0" "ymin b = round_down 0" "ymax b = round_up 0"
    and "srid \<notin> {3857, 3395, 4326}"
  shows "gbox_get_sortable_hash m b srid =
    (let h = flt_of_dbl (dbl_div (dbl_add (round_up 0) (round_down 0)) 0x4000000000000000) in uint32_hilbert h h)"
  using assms by (simp add: gbox_get_sortable_hash_def Let_def)

definition zero_box :: "gbox \<Rightarrow> bool" where
  "zero_box b \<longleftrightarrow> FLAGS_GET_GEODETIC (gb_flags b) = 0 \<and> xmin b = round_down 0 \<and> xmax b = round_up 0 \<and>
     ymin b = round_down 0 \<and> ymax b = round_up 0"

lemma peek_zero:
  "fl = 0 \<or> fl = 1 \<Longrightarrow> p = [0, 0] \<or> p = [0, 0, 0] \<Longrightarrow> zero_box (peek_bounds fl p p gbox_init)"
  by (auto simp: zero_box_def peek_bounds_def gbox_float_round_def Let_def FLAGS_GET_Z_def FLAGS_GET_M_def FLAGS_GET_GEODETIC_def
    FP_MIN_def FP_MAX_def)

lemma peek_flags: "peek_bounds fl p q (b\<lparr>gb_flags := f\<rparr>) = peek_bounds fl p q b"
  by (simp add: peek_bounds_def)

lemma rd_u32_second: "rd_u32 be (put_u32 be a @ put_u32 be b @ put_u32 be c @ put_u32 be d @ r) 12 = Inr d"
  using rd_u32_behind[of be "put_u32 be a @ put_u32 be b @ put_u32 be c" d r] by simp

lemma cmp_box:
  assumes d: "gs_datum env zm G d" and G: "G = cmp_line z s \<and> zm = (z, False) \<or> G = cmp_multipoint s \<and> zm = (False, False)"
  shows "\<exists>b. gserialized_get_gbox_p fuel env d gbox_init = Inr (Some b) \<and> zero_box b"
proof -
  let ?be = "big_endian env" and ?fl = "g_flags (g_hdr G)"
  have G': "g_bbox (g_hdr G) = None" "?fl = 0 \<or> ?fl = 1" "\<not> lwflags_uses_extended_flags ?fl" "stored_flags ?fl = ?fl"
    "\<not> bit ?fl 2" "\<not> bit ?fl 3" "FLAGS_NDIMS ?fl = 2 + of_bool (?fl = 1)"
    using G by (auto simp: cmp_line_def cmp_multipoint_def gser_hdr_def small_flags stored_flags_def flag_1_bits FLAGS_NDIMS_bits split: if_splits)
  have gf: "gs_gflags d = lwflags_get_g2flags ?fl" and data: "gs_data d = gserialized2_from_extended_flags ?be ?fl @ gs_body ?be G"
    using d G' by (simp_all add: gs_datum_def box_bytes_def)
  have data': "gs_data d = gs_body ?be G" using data G' by (simp add: gserialized2_from_extended_flags_def)
  note lw = get_lwflags[OF gf data, unfolded G'] and rd = read_gbox_absent[OF gf data G'(5), of gbox_init]
  have start: "gserialized2_get_geometry_p d = 0" "G2FLAGS_NDIMS (gs_gflags d) = 2 + of_bool (?fl = 1)" "G2FLAGS_GET_GEODETIC (gs_gflags d) = 0" "G2FLAGS_GET_BBOX (gs_gflags d) = 0"
    using G' by (auto simp: gserialized2_get_geometry_p_def gserialized2_has_extended_def gserialized2_has_bbox_def gf flags_simps
      G2FLAGS_NDIMS_def flag_1_bits)
  have r: "rd_dbls ?be (put_u32 ?be a @ put_u32 ?be b @ dbl_bytes ?be ds) 8 n = Inr ds" if "n = length ds" for a b ds n
    using rd_dbls_behind[of 8 "put_u32 ?be a @ put_u32 ?be b" n ds ?be "[]"] that by simp
  have r': "rd_dbls ?be (put_u32 ?be a @ put_u32 ?be b @ put_u32 ?be x @ put_u32 ?be y @ dbl_bytes ?be ds) 16 n = Inr ds" if "n = length ds" for a b x y ds n
    using rd_dbls_behind[of 16 "put_u32 ?be a @ put_u32 ?be b @ put_u32 ?be x @ put_u32 ?be y" n ds ?be "[]"] that by simp
  have "\<exists>p. gserialized2_peek_gbox_p ?be d (gbox_init\<lparr>gb_flags := stored_flags ?fl\<rparr>)
      = Inr (Some (peek_bounds ?fl p p gbox_init)) \<and> (p = [0, 0] \<or> p = [0, 0, 0])"
    using G
  proof (elim disjE conjE)
    assume g: "G = cmp_line z s"
    show ?thesis
      using r[of 6 "[0, 0, 0, 0, 0, 0]" 2 2] r[of 4 "[0, 0, 0, 0]" 2 2]
      by (intro exI[of _ "if z then [0, 0, 0] else [0, 0]"]; cases z)
        (simp_all add: gserialized2_peek_gbox_p_def Let_def start lw gserialized2_get_type_def data' peek_flags g cmp_line_def
          rd_u32_at gser_hdr_def)
  next
    assume g: "G = cmp_multipoint s"
    show ?thesis
      using r'[of 2 "[0, 0]" 4 1 1 1] rd_u32_second[of ?be 4 1 1 1]
      by (intro exI[of _ "[0, 0]"]) (simp add: gserialized2_peek_gbox_p_def Let_def start lw gserialized2_get_type_def data' peek_flags g
        cmp_multipoint_def rd_u32_at gser_hdr_def)
  qed
  then show ?thesis using rd peek_zero[OF G'(2)] datum_dispatch(4)[OF d]
    by (auto simp: gserialized_get_gbox_p_def gserialized2_get_gbox_p_def)
qed

lemma memcmp_append:
  "length as = length bs \<Longrightarrow> memcmp (as @ xs) (bs @ ys) = (if memcmp as bs = 0 then memcmp xs ys else memcmp as bs)"
  by (induction as bs rule: list_induct2) auto

lemma memcmp_longer [simp]: "memcmp as (as @ r) = 0"
  by (induction as) simp_all

lemma cmp_line_prefix: "memcmp (gs_body be (cmp_line False s)) (gs_body be (cmp_line True s')) = 0"
proof -
  have "gs_body be (cmp_line True s') = gs_body be (cmp_line False s) @ dbl_bytes be [0, 0]"
    by (simp add: cmp_line_def dbl_bytes_def)
  then show ?thesis by simp
qed

lemma le_bytes_types: "le_bytes 4 (2 :: u32) = [2, 0, 0, 0]" "le_bytes 4 (4 :: u32) = [4, 0, 0, 0]"
proof -
  have four: "4 = Suc (Suc (Suc (Suc 0)))" by simp
  show "le_bytes 4 (2 :: u32) = [2, 0, 0, 0]" "le_bytes 4 (4 :: u32) = [4, 0, 0, 0]" unfolding four by simp_all
qed

lemma cmp_types: "memcmp (put_u32 be 2) (put_u32 be 4) = -1" "memcmp (put_u32 be 4) (put_u32 be 2) = 1"
  by (cases be; simp add: put_u32_def mem_bytes_def le_bytes_types)+

lemma cmp_multipoint_differs:
  "memcmp (gs_body be (cmp_line z s)) (gs_body be (cmp_multipoint s')) = -1"
  "memcmp (gs_body be (cmp_multipoint s')) (gs_body be (cmp_line z s)) = 1"
  using memcmp_append[of "put_u32 be 2" "put_u32 be 4"] memcmp_append[of "put_u32 be 4" "put_u32 be 2"]
  by (simp_all add: cmp_line_def cmp_multipoint_def cmp_types)

lemma cmp_small_srid: "clamp_srid 3 = 3" "clamp_srid 4 = 4" "clamp_srid 5 = 5"
  by (simp_all add: clamp_srid_def word_sle_eq word_sless_alt)

lemma cmp_boxes_zero:
  "zero_box b1 \<Longrightarrow> zero_box b2 \<Longrightarrow> s1 \<notin> {3857, 3395, 4326} \<Longrightarrow> s2 \<notin> {3857, 3395, 4326} \<Longrightarrow>
   cmp_boxes m s1 s2 (Some b1) (Some b2) rest = rest"
  using box_hash_zero[of b1 s1 m] box_hash_zero[of b2 s2 m] by (simp add: cmp_boxes_def zero_box_def)

text \<open>C32: With mixed dimensions the comparison is not an order: whatever the machine, LINESTRING(0 0, 0 0) with SRID 5 comes before
  LINESTRING Z (0 0 0, 0 0 0) with SRID 3, that before MULTIPOINT((0 0)) with SRID 4, and that before the
  first. The boxes have the same key; the rule that a prefix comes first, which is meant for equal SRIDs, stands
  before the comparison of the SRIDs.\<close>

theorem gserialized_cmp_cycle:
  "\<exists>a b c. gserialized_from_lwgeom env (cmp_line False 5) = Inr a \<and> gserialized_from_lwgeom env (cmp_line True 3) = Inr b \<and>
    gserialized_from_lwgeom env (cmp_multipoint 4) = Inr c \<and>
    gserialized_cmp m fuel env a b = Inr (-1) \<and> gserialized_cmp m fuel env b c = Inr (-1) \<and> gserialized_cmp m fuel env c a = Inr (-1)"
proof -
  have datum: "\<exists>d x. gserialized_from_lwgeom env g = Inr d \<and> gs_datum env zm g d \<and>
      gserialized_get_gbox_p fuel env d gbox_init = Inr (Some x) \<and> zero_box x"
    if "g = cmp_line z s \<and> zm = (z, False) \<or> g = cmp_multipoint s \<and> zm = (False, False)" for g zm z s
  proof -
    have p: "gserialized2_prepare env g = g" "gs_storable zm (gserialized2_prepare env g)" using that cmp_prepared cmp_storable by auto
    from write_datum[OF refl p(2)] obtain d where d: "gserialized_from_lwgeom env g = Inr d" by (auto simp: gserialized_from_lwgeom_def)
    then show ?thesis using gs_datumI[OF p(2) d] cmp_box[OF _ that, of env d fuel] p(1) by auto
  qed
  obtain a x where a: "gserialized_from_lwgeom env (cmp_line False 5) = Inr a" "gs_datum env (False, False) (cmp_line False 5) a"
    "gserialized_get_gbox_p fuel env a gbox_init = Inr (Some x)" "zero_box x" using datum by blast
  obtain b y where b: "gserialized_from_lwgeom env (cmp_line True 3) = Inr b" "gs_datum env (True, False) (cmp_line True 3) b"
    "gserialized_get_gbox_p fuel env b gbox_init = Inr (Some y)" "zero_box y" using datum by blast
  obtain c z where c: "gserialized_from_lwgeom env (cmp_multipoint 4) = Inr c" "gs_datum env (False, False) (cmp_multipoint 4) c"
    "gserialized_get_gbox_p fuel env c gbox_init = Inr (Some z)" "zero_box z" using datum by blast
  have s: "gserialized_get_srid a = 5" "gserialized_get_srid b = 3" "gserialized_get_srid c = 4"
    using datum_dispatch(3)[OF a(2)] datum_dispatch(3)[OF b(2)] datum_dispatch(3)[OF c(2)]
    by (simp_all add: cmp_line_def cmp_multipoint_def gser_hdr_def cmp_small_srid)
  have len: "length (gs_body be (cmp_line z s)) = (if z then 56 else 40)" "length (gs_body be (cmp_multipoint s)) = 32" for be z s
    by (simp_all add: cmp_line_def cmp_multipoint_def)
  note u = datum_cmp_unfold[OF _ _ _ _ refl refl refl refl, where m = m and fuel = fuel and env = env]
  show ?thesis
    using u[OF a(2) b(2) a(3) b(3)] u[OF b(2) c(2) b(3) c(3)] u[OF c(2) a(2) c(3) a(3)] a b c s
    by (intro exI[of _ a] exI[of _ b] exI[of _ c])
      (simp add: len cmp_line_prefix cmp_multipoint_differs cmp_boxes_zero word_sless_alt)
qed

definition libm_example :: libm where
  "libm_example = \<lparr>m_atan2 = \<lambda>_ _. 0, m_asin = \<lambda>_. 0\<rparr>"


end
