(* ===== verification/IndexTree.thy ===== *)
theory IndexTree
  imports Prelude
begin

text \<open>
  Search trees of the server. A leaf entry holds the key of one row, an inner entry the key of a page of entries. A
  scan visits an inner entry if the index says the query may be satisfied below it, and returns the leaf entries that
  satisfy the query. The locale is the contract between the functions of an index and the scan: what must hold of
  them so that no row is missed.
\<close>

datatype 'k index_tree = Entry 'k | Page 'k "'k index_tree list"

fun index_leaves :: "'k index_tree \<Rightarrow> 'k list" where
  "index_leaves (Entry k) = [k]"
| "index_leaves (Page k ts) = concat (map index_leaves ts)"

fun index_key :: "'k index_tree \<Rightarrow> 'k" where
  "index_key (Entry k) = k"
| "index_key (Page k ts) = k"

fun index_search :: "('k \<Rightarrow> bool) \<Rightarrow> ('k \<Rightarrow> bool) \<Rightarrow> 'k index_tree \<Rightarrow> 'k list" where
  "index_search leaf internal (Entry k) = (if leaf k then [k] else [])"
| "index_search leaf internal (Page k ts) = (if internal k then concat (map (index_search leaf internal) ts) else [])"

text \<open>The keys of inner entries are what the union function makes of the keys below them.\<close>

fun index_built :: "('k list \<Rightarrow> 'k res) \<Rightarrow> ('k \<Rightarrow> bool) \<Rightarrow> 'k index_tree \<Rightarrow> bool" where
  "index_built unite entry (Entry k) \<longleftrightarrow> entry k"
| "index_built unite entry (Page k ts) \<longleftrightarrow> unite (map index_key ts) = Inr k \<and> list_all (index_built unite entry) ts"

lemma filter_concat_map: "filter P (concat (map f ts)) = concat (map (\<lambda>t. filter P (f t)) ts)"
  by (induction ts) simp_all

locale index_contract =
  fixes leaf internal :: "'k \<Rightarrow> 'q \<Rightarrow> 's \<Rightarrow> bool" and unite :: "'k list \<Rightarrow> 'k res"
    and entry live :: "'k \<Rightarrow> bool" and cover :: "'k \<Rightarrow> 'k \<Rightarrow> bool" and query :: "'q \<Rightarrow> bool"
  assumes cover_self: "entry k \<Longrightarrow> live k \<Longrightarrow> cover k k"
    and unite_entry: "list_all entry ks \<Longrightarrow> unite ks = Inr u \<Longrightarrow> entry u"
    and unite_cover: "list_all entry ks \<Longrightarrow> unite ks = Inr u \<Longrightarrow> k \<in> set ks \<Longrightarrow> live x \<Longrightarrow> cover k x \<Longrightarrow> cover u x"
    and consistent: "entry u \<Longrightarrow> cover u k \<Longrightarrow> entry k \<Longrightarrow> live k \<Longrightarrow> query q \<Longrightarrow> leaf k q s \<Longrightarrow> internal u q s"
begin

lemma built_entries:
  "index_built unite entry t \<Longrightarrow> entry (index_key t) \<and> list_all entry (index_leaves t) \<and>
     (\<forall>x \<in> set (index_leaves t). live x \<longrightarrow> cover (index_key t) x)"
proof (induction t)
  case (Entry k)
  then show ?case using cover_self by simp
next
  case (Page k ts)
  then have u: "unite (map index_key ts) = Inr k" and e: "list_all entry (map index_key ts)"
    by (auto simp: list_all_iff)
  have "cover k x" if "t \<in> set ts" "x \<in> set (index_leaves t)" "live x" for t x
    using unite_cover[OF e u, of "index_key t" x] Page that by (auto simp: list_all_iff)
  then show ?case using unite_entry[OF e u] Page by (auto simp: list_all_iff)
qed

lemma no_hit: "(\<And>x. x \<in> set (index_leaves t) \<Longrightarrow> \<not> P x) \<Longrightarrow> filter P (index_leaves t) = []"
  by (simp add: filter_empty_conv)

lemma search_complete:
  assumes "query q"
  shows "index_built unite entry t \<Longrightarrow>
    filter live (index_search (\<lambda>k. leaf k q s) (\<lambda>k. internal k q s) t) =
    filter (\<lambda>k. live k \<and> leaf k q s) (index_leaves t)"
proof (induction t)
  case (Entry k)
  then show ?case by simp
next
  case (Page k ts)
  show ?case
  proof (cases "internal k q s")
    case True
    then show ?thesis using Page by (auto simp: filter_concat_map list_all_iff intro!: arg_cong[where f = concat] map_cong)
  next
    case False
    have "\<not> (live x \<and> leaf x q s)" if "x \<in> set (index_leaves (Page k ts))" for x
      using built_entries[OF Page.prems] consistent[of k x q s] that assms False by (auto simp: list_all_iff)
    then have "filter (\<lambda>k. live k \<and> leaf k q s) (index_leaves (Page k ts)) = []" by (simp add: filter_empty_conv)
    then show ?thesis using False by simp
  qed
qed

text \<open>The key of a page is widened when an entry is inserted below it.\<close>

lemma insert_cover:
  assumes "entry u" and "entry k" and "live k" and "unite [u, k] = Inr u'"
  shows "cover u' k \<and> (\<forall>x. live x \<longrightarrow> cover u x \<longrightarrow> cover u' x)"
  using unite_cover[of "[u, k]" u'] cover_self[of k] assms by auto

end

end
