(* ===== verification/Gist2d.thy ===== *)
theory Gist2d
  imports Gserialized IndexTree
begin

text \<open>
  The two-dimensional index (postgis/gserialized_gist_2d.c, libpgcommon/gserialized_gist.h): the boxes of floats that are
  its keys, the operators on boxes, and the functions a GiST index of the server calls. A pointer that may be
  null is an option.
\<close>

section \<open>Boxes of floats\<close>

record box2df =
  b2_xmin :: flt
  b2_xmax :: flt
  b2_ymin :: flt
  b2_ymax :: flt

definition FLT_NAN :: flt where "FLT_NAN = 0x7FC00000"

definition box2df_is_empty :: "box2df \<Rightarrow> bool" where
  "box2df_is_empty a \<longleftrightarrow> flt_isnan (b2_xmin a)"

definition box2df_set_empty :: "box2df \<Rightarrow> box2df" where
  "box2df_set_empty a = a\<lparr>b2_xmin := FLT_NAN, b2_xmax := FLT_NAN, b2_ymin := FLT_NAN, b2_ymax := FLT_NAN\<rparr>"

definition box2df_set_finite :: "box2df \<Rightarrow> box2df" where
  "box2df_set_finite a =
     (let a = (if \<not> flt_isfinite (b2_xmax a) then a\<lparr>b2_xmax := FLT_MAX\<rparr> else a);
          a = (if \<not> flt_isfinite (b2_ymax a) then a\<lparr>b2_ymax := FLT_MAX\<rparr> else a);
          a = (if \<not> flt_isfinite (b2_ymin a) then a\<lparr>b2_ymin := NEG_FLT_MAX\<rparr> else a)
      in if \<not> flt_isfinite (b2_xmin a) then a\<lparr>b2_xmin := NEG_FLT_MAX\<rparr> else a)"

text \<open>A minimum, or maximum, is replaced if the new one is beyond it or there is none yet.\<close>

definition box2df_merge :: "box2df \<Rightarrow> box2df \<Rightarrow> box2df" where
  "box2df_merge b_union b_new =
     (let u = b_union;
          u = (if flt_lt (b2_xmin b_new) (b2_xmin u) \<or> flt_isnan (b2_xmin u) then u\<lparr>b2_xmin := b2_xmin b_new\<rparr> else u);
          u = (if flt_lt (b2_ymin b_new) (b2_ymin u) \<or> flt_isnan (b2_ymin u) then u\<lparr>b2_ymin := b2_ymin b_new\<rparr> else u);
          u = (if flt_lt (b2_xmax u) (b2_xmax b_new) \<or> flt_isnan (b2_xmax u) then u\<lparr>b2_xmax := b2_xmax b_new\<rparr> else u)
      in if flt_lt (b2_ymax u) (b2_ymax b_new) \<or> flt_isnan (b2_ymax u) then u\<lparr>b2_ymax := b2_ymax b_new\<rparr> else u)"

definition box2df_from_gbox_p :: "gbox \<Rightarrow> box2df" where
  "box2df_from_gbox_p box =
     \<lparr>b2_xmin = next_float_down (xmin box), b2_xmax = next_float_up (xmax box),
      b2_ymin = next_float_down (ymin box), b2_ymax = next_float_up (ymax box)\<rparr>"

definition box2df_to_gbox_p :: "box2df \<Rightarrow> gbox" where
  "box2df_to_gbox_p a = gbox_init\<lparr>xmin := dbl_of_flt (b2_xmin a), xmax := dbl_of_flt (b2_xmax a),
     ymin := dbl_of_flt (b2_ymin a), ymax := dbl_of_flt (b2_ymax a)\<rparr>"

definition box2df_validate :: "box2df \<Rightarrow> box2df" where
  "box2df_validate b =
     (if box2df_is_empty b then b
      else
        let b = (if flt_lt (b2_xmax b) (b2_xmin b) then b\<lparr>b2_xmin := b2_xmax b, b2_xmax := b2_xmin b\<rparr> else b)
        in if flt_lt (b2_ymax b) (b2_ymin b) then b\<lparr>b2_ymin := b2_ymax b, b2_ymax := b2_ymin b\<rparr> else b)"

section \<open>Tests\<close>

type_synonym box2df_predicate = "box2df option \<Rightarrow> box2df option \<Rightarrow> bool"

definition box2df_overlaps :: box2df_predicate where
  "box2df_overlaps a b =
     (case (a, b) of (Some a, Some b) \<Rightarrow>
        if box2df_is_empty a \<or> box2df_is_empty b then False
        else if flt_lt (b2_xmax b) (b2_xmin a) \<or> flt_lt (b2_xmax a) (b2_xmin b) \<or>
                flt_lt (b2_ymax b) (b2_ymin a) \<or> flt_lt (b2_ymax a) (b2_ymin b) then False
        else True
      | _ \<Rightarrow> False)"

definition box2df_contains :: box2df_predicate where
  "box2df_contains a b =
     (case (a, b) of (Some a, Some b) \<Rightarrow>
        if box2df_is_empty b \<and> \<not> box2df_is_empty a then True
        else if flt_lt (b2_xmin b) (b2_xmin a) \<or> flt_lt (b2_xmax a) (b2_xmax b) \<or>
                flt_lt (b2_ymin b) (b2_ymin a) \<or> flt_lt (b2_ymax a) (b2_ymax b) then False
        else True
      | _ \<Rightarrow> False)"

definition box2df_within :: box2df_predicate where
  "box2df_within a b =
     (case (a, b) of (Some a, Some b) \<Rightarrow>
        if box2df_is_empty a \<and> \<not> box2df_is_empty b then True
        else if flt_lt (b2_xmin a) (b2_xmin b) \<or> flt_lt (b2_xmax b) (b2_xmax a) \<or>
                flt_lt (b2_ymin a) (b2_ymin b) \<or> flt_lt (b2_ymax b) (b2_ymax a) then False
        else True
      | _ \<Rightarrow> False)"

definition box2df_equals :: box2df_predicate where
  "box2df_equals a b =
     (case (a, b) of (None, None) \<Rightarrow> True
      | (Some a, Some b) \<Rightarrow>
          if box2df_is_empty a \<and> box2df_is_empty b then True
          else if box2df_is_empty a \<or> box2df_is_empty b then False
          else flt_eq (b2_xmin a) (b2_xmin b) \<and> flt_eq (b2_xmax a) (b2_xmax b) \<and>
               flt_eq (b2_ymin a) (b2_ymin b) \<and> flt_eq (b2_ymax a) (b2_ymax b)
      | _ \<Rightarrow> False)"

text \<open>The one-sided tests fail on a null pointer and on an empty box.\<close>

definition both_boxes :: "(box2df \<Rightarrow> box2df \<Rightarrow> bool) \<Rightarrow> box2df_predicate" where
  "both_boxes P a b =
     (case (a, b) of (Some a, Some b) \<Rightarrow> \<not> (box2df_is_empty a \<or> box2df_is_empty b) \<and> P a b | _ \<Rightarrow> False)"

definition box2df_overleft :: box2df_predicate where
  "box2df_overleft = both_boxes (\<lambda>a b. flt_le (b2_xmax a) (b2_xmax b))"
definition box2df_left :: box2df_predicate where
  "box2df_left = both_boxes (\<lambda>a b. flt_lt (b2_xmax a) (b2_xmin b))"
definition box2df_right :: box2df_predicate where
  "box2df_right = both_boxes (\<lambda>a b. flt_lt (b2_xmax b) (b2_xmin a))"
definition box2df_overright :: box2df_predicate where
  "box2df_overright = both_boxes (\<lambda>a b. flt_le (b2_xmin b) (b2_xmin a))"
definition box2df_overbelow :: box2df_predicate where
  "box2df_overbelow = both_boxes (\<lambda>a b. flt_le (b2_ymax a) (b2_ymax b))"
definition box2df_below :: box2df_predicate where
  "box2df_below = both_boxes (\<lambda>a b. flt_lt (b2_ymax a) (b2_ymin b))"
definition box2df_above :: box2df_predicate where
  "box2df_above = both_boxes (\<lambda>a b. flt_lt (b2_ymax b) (b2_ymin a))"
definition box2df_overabove :: box2df_predicate where
  "box2df_overabove = both_boxes (\<lambda>a b. flt_le (b2_ymin b) (b2_ymin a))"

section \<open>Distances\<close>

definition box2df_distance_leaf_centroid :: "box2df \<Rightarrow> box2df \<Rightarrow> dbl" where
  "box2df_distance_leaf_centroid a b =
     (let mid = (\<lambda>hi lo. dbl_div (dbl_of_flt (flt_add hi lo)) 0x4000000000000000);
          a_x = mid (b2_xmax a) (b2_xmin a); a_y = mid (b2_ymax a) (b2_ymin a);
          b_x = mid (b2_xmax b) (b2_xmin b); b_y = mid (b2_ymax b) (b2_ymin b)
      in dbl_sqrt (dbl_add (dbl_mul (dbl_sub a_x b_x) (dbl_sub a_x b_x)) (dbl_mul (dbl_sub a_y b_y) (dbl_sub a_y b_y))))"

definition pt_distance :: "dbl \<Rightarrow> dbl \<Rightarrow> dbl \<Rightarrow> dbl \<Rightarrow> dbl" where
  "pt_distance a_x a_y b_x b_y =
     dbl_sqrt (dbl_add (dbl_mul (dbl_sub a_x b_x) (dbl_sub a_x b_x)) (dbl_mul (dbl_sub a_y b_y) (dbl_sub a_y b_y)))"

definition box2df_distance :: "box2df \<Rightarrow> box2df \<Rightarrow> dbl" where
  "box2df_distance a b =
     (let d = dbl_of_flt; p = Some a; q = Some b
      in if box2df_overlaps p q then 0
         else if box2df_left p q
         then if box2df_above p q then pt_distance (d (b2_xmax a)) (d (b2_ymin a)) (d (b2_xmin b)) (d (b2_ymax b))
           else if box2df_below p q then pt_distance (d (b2_xmax a)) (d (b2_ymax a)) (d (b2_xmin b)) (d (b2_ymin b))
           else dbl_sub (d (b2_xmin b)) (d (b2_xmax a))
         else if box2df_right p q
         then if box2df_above p q then pt_distance (d (b2_xmin a)) (d (b2_ymin a)) (d (b2_xmax b)) (d (b2_ymax b))
           else if box2df_below p q then pt_distance (d (b2_xmin a)) (d (b2_ymax a)) (d (b2_xmax b)) (d (b2_ymin b))
           else dbl_sub (d (b2_xmin a)) (d (b2_xmax b))
         else if box2df_above p q
         then if box2df_left p q then pt_distance (d (b2_xmax a)) (d (b2_ymin a)) (d (b2_xmin b)) (d (b2_ymax b))
           else if box2df_right p q then pt_distance (d (b2_xmin a)) (d (b2_ymin a)) (d (b2_xmax b)) (d (b2_ymax b))
           else dbl_sub (d (b2_ymin a)) (d (b2_ymax b))
         else if box2df_below p q
         then if box2df_left p q then pt_distance (d (b2_xmax a)) (d (b2_ymax a)) (d (b2_xmin b)) (d (b2_ymin b))
           else if box2df_right p q then pt_distance (d (b2_xmin a)) (d (b2_ymax a)) (d (b2_xmax b)) (d (b2_ymin b))
           else dbl_sub (d (b2_ymin b)) (d (b2_ymax a))
         else d FLT_MAX)"

definition box2df_get_sortable_hash :: "box2df \<Rightarrow> u64" where
  "box2df_get_sortable_hash b =
     (let x = flt_div (flt_add (b2_xmax b) (b2_xmin b)) 0x40000000; y = flt_div (flt_add (b2_ymax b) (b2_ymin b)) 0x40000000
      in uint32_hilbert y x)"

section \<open>The box of a datum\<close>

text \<open>
  A datum of the server may be compressed or stored elsewhere; then only the part asked for is fetched first.
  \<open>detoast_slice n\<close> is what the server returns for the first \<open>n\<close> bytes behind the 4 bytes of the size.
\<close>

record datum =
  needs_detoast :: bool
  detoasted :: gserialized

definition detoast_slice :: "bool \<Rightarrow> nat \<Rightarrow> gserialized \<Rightarrow> gserialized" where
  "detoast_slice be n g =
     (let sz = min (4 + n) (unat (LWSIZE_GET be (gs_size g)))
      in g\<lparr>gs_size := LWSIZE_SET be sz, gs_data := take (sz - 8) (gs_data g)\<rparr>)"

definition gserialized_datum_get_internals_p ::
  "nat \<Rightarrow> gs_env \<Rightarrow> datum \<Rightarrow> gbox \<Rightarrow> (gbox option \<times> u16 \<times> i32 \<times> u8) res" where
  "gserialized_datum_get_internals_p fuel env gsdatum gbox =
     (let be = big_endian env; need_detoast = needs_detoast gsdatum;
          gpart = (if need_detoast then detoast_slice be gserialized_max_header_size (detoasted gsdatum) else detoasted gsdatum);
          gpart = (if \<not> gserialized_has_bbox gpart \<and> need_detoast \<and>
                      gserialized_max_header_size \<le> unat (LWSIZE_GET be (gs_size gpart))
                   then detoasted gsdatum else gpart)
      in rbind (gserialized_get_gbox_p fuel env gpart gbox) (\<lambda>result.
         rbind (gserialized_get_lwflags be gpart) (\<lambda>flags.
         rbind (gserialized_get_type be gpart) (\<lambda>type.
           Inr (result, flags, gserialized_get_srid gpart, ucast type)))))"

definition gserialized_datum_get_gbox_p :: "nat \<Rightarrow> gs_env \<Rightarrow> datum \<Rightarrow> gbox \<Rightarrow> gbox option res" where
  "gserialized_datum_get_gbox_p fuel env gsdatum gbox =
     rbind (gserialized_datum_get_internals_p fuel env gsdatum gbox) (\<lambda>r. Inr (fst r))"

definition gserialized_datum_get_box2df_p :: "nat \<Rightarrow> gs_env \<Rightarrow> datum \<Rightarrow> box2df option res" where
  "gserialized_datum_get_box2df_p fuel env gsdatum =
     (let be = big_endian env; need_detoast = needs_detoast gsdatum;
          gpart = (if need_detoast then detoast_slice be gserialized_max_header_size (detoasted gsdatum) else detoasted gsdatum)
      in if gserialized_has_bbox gpart
         then case gserialized_get_float_box_p gpart of
             None \<Rightarrow> Inl MemFault
           | Some off \<Rightarrow> rbind (rd_flts be (gs_data gpart) off 4) (\<lambda>f.
               Inr (Some \<lparr>b2_xmin = f ! 0, b2_xmax = f ! 1, b2_ymin = f ! 2, b2_ymax = f ! 3\<rparr>))
         else
           let gpart = (if need_detoast \<and> gserialized_max_header_size \<le> unat (LWSIZE_GET be (gs_size gpart))
                        then detoasted gsdatum else gpart)
           in rbind (gserialized_get_gbox_p fuel env gpart gbox_init) (\<lambda>r. Inr (map_option box2df_from_gbox_p r)))"

text \<open>The operators: a predicate on the boxes of two data, which are null for empty geometries.\<close>

definition gserialized_datum_predicate_2d :: "nat \<Rightarrow> gs_env \<Rightarrow> datum \<Rightarrow> datum \<Rightarrow> box2df_predicate \<Rightarrow> bool res" where
  "gserialized_datum_predicate_2d fuel env gs1 gs2 predicate =
     rbind (gserialized_datum_get_box2df_p fuel env gs1) (\<lambda>br1.
     rbind (gserialized_datum_get_box2df_p fuel env gs2) (\<lambda>br2. Inr (predicate br1 br2)))"

definition gserialized_datum_predicate_box2df_geom_2d ::
  "nat \<Rightarrow> gs_env \<Rightarrow> box2df option \<Rightarrow> datum \<Rightarrow> box2df_predicate \<Rightarrow> bool res" where
  "gserialized_datum_predicate_box2df_geom_2d fuel env br1 gs2 predicate =
     rbind (gserialized_datum_get_box2df_p fuel env gs2) (\<lambda>br2. Inr (predicate br1 br2))"

definition gserialized_distance_centroid_2d :: "nat \<Rightarrow> gs_env \<Rightarrow> datum \<Rightarrow> datum \<Rightarrow> dbl res" where
  "gserialized_distance_centroid_2d fuel env gs1 gs2 =
     rbind (gserialized_datum_get_box2df_p fuel env gs1) (\<lambda>b1. case b1 of None \<Rightarrow> Inr (dbl_of_flt FLT_MAX)
       | Some b1 \<Rightarrow> rbind (gserialized_datum_get_box2df_p fuel env gs2) (\<lambda>b2. case b2 of None \<Rightarrow> Inr (dbl_of_flt FLT_MAX)
         | Some b2 \<Rightarrow> Inr (box2df_distance_leaf_centroid b1 b2)))"

definition gserialized_distance_box_2d :: "nat \<Rightarrow> gs_env \<Rightarrow> datum \<Rightarrow> datum \<Rightarrow> dbl res" where
  "gserialized_distance_box_2d fuel env gs1 gs2 =
     rbind (gserialized_datum_get_box2df_p fuel env gs1) (\<lambda>b1. case b1 of None \<Rightarrow> Inr (dbl_of_flt FLT_MAX)
       | Some b1 \<Rightarrow> rbind (gserialized_datum_get_box2df_p fuel env gs2) (\<lambda>b2. case b2 of None \<Rightarrow> Inr (dbl_of_flt FLT_MAX)
         | Some b2 \<Rightarrow> Inr (box2df_distance b1 b2)))"

section \<open>The functions of the index\<close>

text \<open>
  An entry has a key, null, a datum that came from the table, or a box; \<open>leafkey\<close> says which of the two is meant.
\<close>

datatype gist_key = NullKey | DatumKey datum | BoxKey box2df

definition gserialized_gist_compress_2d :: "nat \<Rightarrow> gs_env \<Rightarrow> bool \<Rightarrow> gist_key \<Rightarrow> gist_key res" where
  "gserialized_gist_compress_2d fuel env leafkey entry_in =
     (if \<not> leafkey then Inr entry_in
      else case entry_in of
          NullKey \<Rightarrow> Inr NullKey
        | BoxKey _ \<Rightarrow> Inl MemFault
        | DatumKey d \<Rightarrow>
            rbind (gserialized_datum_get_box2df_p fuel env d) (\<lambda>result.
              case result of
                None \<Rightarrow> Inr (BoxKey (box2df_set_empty \<lparr>b2_xmin = 0, b2_xmax = 0, b2_ymin = 0, b2_ymax = 0\<rparr>))
              | Some bbox \<Rightarrow>
                  if \<not> flt_isfinite (b2_xmax bbox) \<or> \<not> flt_isfinite (b2_xmin bbox) \<or>
                     \<not> flt_isfinite (b2_ymax bbox) \<or> \<not> flt_isfinite (b2_ymin bbox)
                  then Inr (BoxKey (box2df_set_finite bbox))
                  else Inr (BoxKey (box2df_validate bbox))))"

text \<open>The strategies of R-trees, whose numbers are the server's.\<close>

datatype strategy = RTLeft | RTOverLeft | RTOverlap | RTOverRight | RTRight | RTSame | RTContains | RTContainedBy
  | RTOldContains | RTOldContainedBy | RTOverBelow | RTBelow | RTAbove | RTOverAbove | RTOther

fun gserialized_gist_consistent_leaf_2d :: "box2df option \<Rightarrow> box2df option \<Rightarrow> strategy \<Rightarrow> bool" where
  "gserialized_gist_consistent_leaf_2d key query RTOverlap = box2df_overlaps key query"
| "gserialized_gist_consistent_leaf_2d key query RTSame = box2df_equals key query"
| "gserialized_gist_consistent_leaf_2d key query RTContains = box2df_contains key query"
| "gserialized_gist_consistent_leaf_2d key query RTOldContains = box2df_contains key query"
| "gserialized_gist_consistent_leaf_2d key query RTContainedBy = box2df_within key query"
| "gserialized_gist_consistent_leaf_2d key query RTOldContainedBy = box2df_within key query"
| "gserialized_gist_consistent_leaf_2d key query RTAbove = box2df_above key query"
| "gserialized_gist_consistent_leaf_2d key query RTBelow = box2df_below key query"
| "gserialized_gist_consistent_leaf_2d key query RTRight = box2df_right key query"
| "gserialized_gist_consistent_leaf_2d key query RTLeft = box2df_left key query"
| "gserialized_gist_consistent_leaf_2d key query RTOverAbove = box2df_overabove key query"
| "gserialized_gist_consistent_leaf_2d key query RTOverBelow = box2df_overbelow key query"
| "gserialized_gist_consistent_leaf_2d key query RTOverRight = box2df_overright key query"
| "gserialized_gist_consistent_leaf_2d key query RTOverLeft = box2df_overleft key query"
| "gserialized_gist_consistent_leaf_2d key query RTOther = False"

fun gserialized_gist_consistent_internal_2d :: "box2df option \<Rightarrow> box2df option \<Rightarrow> strategy \<Rightarrow> bool" where
  "gserialized_gist_consistent_internal_2d key query RTOverlap = box2df_overlaps key query"
| "gserialized_gist_consistent_internal_2d key query RTSame = box2df_contains key query"
| "gserialized_gist_consistent_internal_2d key query RTContains = box2df_contains key query"
| "gserialized_gist_consistent_internal_2d key query RTOldContains = box2df_contains key query"
| "gserialized_gist_consistent_internal_2d key query RTContainedBy = box2df_overlaps key query"
| "gserialized_gist_consistent_internal_2d key query RTOldContainedBy = box2df_overlaps key query"
| "gserialized_gist_consistent_internal_2d key query RTAbove = (\<not> box2df_overbelow key query)"
| "gserialized_gist_consistent_internal_2d key query RTBelow = (\<not> box2df_overabove key query)"
| "gserialized_gist_consistent_internal_2d key query RTRight = (\<not> box2df_overleft key query)"
| "gserialized_gist_consistent_internal_2d key query RTLeft = (\<not> box2df_overright key query)"
| "gserialized_gist_consistent_internal_2d key query RTOverAbove = (\<not> box2df_below key query)"
| "gserialized_gist_consistent_internal_2d key query RTOverBelow = (\<not> box2df_above key query)"
| "gserialized_gist_consistent_internal_2d key query RTOverRight = (\<not> box2df_left key query)"
| "gserialized_gist_consistent_internal_2d key query RTOverLeft = (\<not> box2df_right key query)"
| "gserialized_gist_consistent_internal_2d key query RTOther = False"

text \<open>\<open>leaf\<close> is \<open>GIST_LEAF\<close>, whether the entry is on a page of leaves. The second result is \<open>recheck\<close>.\<close>

definition gserialized_gist_consistent_2d ::
  "nat \<Rightarrow> gs_env \<Rightarrow> bool \<Rightarrow> box2df option \<Rightarrow> datum option \<Rightarrow> strategy \<Rightarrow> (bool \<times> bool) res" where
  "gserialized_gist_consistent_2d fuel env leaf key query strategy =
     (let recheck = False
      in case query of None \<Rightarrow> Inr (False, recheck)
         | Some query \<Rightarrow>
             case key of None \<Rightarrow> Inr (False, recheck)
             | Some key \<Rightarrow>
                 rbind (gserialized_datum_get_box2df_p fuel env query) (\<lambda>r.
                   case r of None \<Rightarrow> Inr (False, recheck)
                   | Some q \<Rightarrow>
                       if leaf then Inr (gserialized_gist_consistent_leaf_2d (Some key) (Some q) strategy, recheck)
                       else Inr (gserialized_gist_consistent_internal_2d (Some key) (Some q) strategy, recheck)))"

text \<open>The distance for the ordering operators, whose strategy numbers are 13 and 14, and \<open>recheck\<close>.\<close>

definition gserialized_gist_distance_2d :: "nat \<Rightarrow> gs_env \<Rightarrow> bool \<Rightarrow> box2df \<Rightarrow> datum \<Rightarrow> nat \<Rightarrow> (dbl \<times> bool) res" where
  "gserialized_gist_distance_2d fuel env leaf entry_box query strategy =
     (if strategy \<noteq> 13 \<and> strategy \<noteq> 14 then Inl (LwError ''unrecognized strategy number: %d'')
      else rbind (gserialized_datum_get_box2df_p fuel env query) (\<lambda>r.
        case r of None \<Rightarrow> Inr (dbl_of_flt FLT_MAX, False)
        | Some query_box \<Rightarrow>
            if strategy = 14 then Inr (box2df_distance entry_box query_box, False)
            else Inr (box2df_distance entry_box query_box, leaf)))"

text \<open>
  The fields of the union in \<open>pack_float\<close>: 31 bits of value and a sign, or 30 bits of value, a realm and a sign.
\<close>

definition pack_float :: "flt \<Rightarrow> u8 \<Rightarrow> flt" where
  "pack_float value realm =
     (let a = (value AND NOT 0x3FFFFFFF) OR (drop_bit 1 (value AND 0x7FFFFFFF) AND 0x3FFFFFFF)
      in (a AND NOT 0x40000000) OR push_bit 30 (ucast realm AND 1))"

definition FLT_EPSILON :: flt where "FLT_EPSILON = 0x34000000"

definition flt_Min :: "flt \<Rightarrow> flt \<Rightarrow> flt" where "flt_Min x y = (if flt_lt x y then x else y)"
definition flt_Max :: "flt \<Rightarrow> flt \<Rightarrow> flt" where "flt_Max x y = (if flt_lt y x then x else y)"

definition box2df_penalty :: "box2df \<Rightarrow> box2df \<Rightarrow> flt" where
  "box2df_penalty b1 b2 =
     (let box_union_xmin = flt_Min (b2_xmin b1) (b2_xmin b2); box_union_xmax = flt_Max (b2_xmax b1) (b2_xmax b2);
          box_union_ymin = flt_Min (b2_ymin b1) (b2_ymin b2); box_union_ymax = flt_Max (b2_ymax b1) (b2_ymax b2);
          b1dx = flt_sub (b2_xmax b1) (b2_xmin b1); b1dy = flt_sub (b2_ymax b1) (b2_ymin b1);
          box_union_dx = flt_sub box_union_xmax box_union_xmin; box_union_dy = flt_sub box_union_ymax box_union_ymin;
          box_union_area = flt_mul box_union_dx box_union_dy; box1area = flt_mul b1dx b1dy;
          box_union_edge = flt_add box_union_dx box_union_dy; box1edge = flt_add b1dx b1dy;
          area_extension = flt_sub box_union_area box1area; edge_extension = flt_sub box_union_edge box1edge
      in if flt_lt FLT_EPSILON area_extension then pack_float area_extension 1
         else if flt_lt FLT_EPSILON edge_extension then pack_float edge_extension 0
         else 0)"

definition gserialized_gist_penalty_2d :: "box2df option \<Rightarrow> box2df option \<Rightarrow> flt" where
  "gserialized_gist_penalty_2d b1 b2 =
     (case (b1, b2) of (Some b1, Some b2) \<Rightarrow>
        if \<not> box2df_is_empty b1 \<and> \<not> box2df_is_empty b2 then box2df_penalty b1 b2 else 0
      | _ \<Rightarrow> 0)"

definition gserialized_gist_union_2d :: "box2df list \<Rightarrow> box2df res" where
  "gserialized_gist_union_2d entryvec =
     (case entryvec of [] \<Rightarrow> Inl MemFault | b # bs \<Rightarrow> Inr (fold (\<lambda>box_cur box_union. box2df_merge box_union box_cur) bs b))"

definition gserialized_gist_same_2d :: "box2df option \<Rightarrow> box2df option \<Rightarrow> bool" where
  "gserialized_gist_same_2d b1 b2 = box2df_equals b1 b2"

definition gserialized_gist_cmp_abbrev_2d :: "u64 \<Rightarrow> u64 \<Rightarrow> int" where
  "gserialized_gist_cmp_abbrev_2d x y = (if x = 0 \<or> y = 0 \<or> x = y then 0 else if x > y then 1 else -1)"

definition gserialized_gist_cmp_full_2d :: "bool \<Rightarrow> box2df \<Rightarrow> box2df \<Rightarrow> int" where
  "gserialized_gist_cmp_full_2d be b1 b2 =
     (let bytes = (\<lambda>b. flt_bytes be [b2_xmin b, b2_xmax b, b2_ymin b, b2_ymax b]);
          cmp = memcmp (bytes b1) (bytes b2); hash1 = box2df_get_sortable_hash b1; hash2 = box2df_get_sortable_hash b2
      in if cmp = 0 then 0 else if hash1 > hash2 then 1 else if hash1 < hash2 then -1 else if cmp > 0 then 1 else -1)"

section \<open>Keys\<close>

lemmas flt_order = flt_lt_def flt_le_def flt_eq_def

text \<open>A key is a box with its minima below its maxima, or the box of an empty geometry.\<close>

definition box2df_proper :: "box2df \<Rightarrow> bool" where
  "box2df_proper b \<longleftrightarrow> flt_le (b2_xmin b) (b2_xmax b) \<and> flt_le (b2_ymin b) (b2_ymax b)"

definition box2df_void :: "box2df \<Rightarrow> bool" where
  "box2df_void b \<longleftrightarrow> flt_isnan (b2_xmin b) \<and> flt_isnan (b2_xmax b) \<and> flt_isnan (b2_ymin b) \<and> flt_isnan (b2_ymax b)"

definition box2df_entry :: "box2df \<Rightarrow> bool" where
  "box2df_entry b \<longleftrightarrow> box2df_void b \<or> box2df_proper b"

definition box2df_covers :: "box2df \<Rightarrow> box2df \<Rightarrow> bool" where
  "box2df_covers u b \<longleftrightarrow> flt_le (b2_xmin u) (b2_xmin b) \<and> flt_le (b2_xmax b) (b2_xmax u) \<and>
     flt_le (b2_ymin u) (b2_ymin b) \<and> flt_le (b2_ymax b) (b2_ymax u)"

lemma entry_not_empty: "box2df_entry b \<Longrightarrow> \<not> box2df_is_empty b \<longleftrightarrow> box2df_proper b"
  by (auto simp: box2df_entry_def box2df_void_def box2df_proper_def box2df_is_empty_def flt_order)

text \<open>The bounds of a union.\<close>

definition lower_bound :: "flt \<Rightarrow> flt \<Rightarrow> flt" where "lower_bound u n = (if flt_lt n u \<or> flt_isnan u then n else u)"
definition upper_bound :: "flt \<Rightarrow> flt \<Rightarrow> flt" where "upper_bound u n = (if flt_lt u n \<or> flt_isnan u then n else u)"

lemma merge_bounds:
  "box2df_merge u n = \<lparr>b2_xmin = lower_bound (b2_xmin u) (b2_xmin n), b2_xmax = upper_bound (b2_xmax u) (b2_xmax n),
     b2_ymin = lower_bound (b2_ymin u) (b2_ymin n), b2_ymax = upper_bound (b2_ymax u) (b2_ymax n)\<rparr>"
  by (cases u) (simp add: box2df_merge_def lower_bound_def upper_bound_def Let_def)

lemma bounds_old:
  "flt_le u x \<Longrightarrow> flt_le (lower_bound u n) x" "flt_le x u \<Longrightarrow> flt_le x (upper_bound u n)"
  by (auto simp: lower_bound_def upper_bound_def flt_order)

lemma bounds_new:
  "flt_le n x \<Longrightarrow> flt_le (lower_bound u n) x" "flt_le x n \<Longrightarrow> flt_le x (upper_bound u n)"
  by (auto simp: lower_bound_def upper_bound_def flt_order)

lemma bounds_least:
  "flt_le x u \<Longrightarrow> flt_le x n \<Longrightarrow> flt_le x (lower_bound u n)" "flt_le u x \<Longrightarrow> flt_le n x \<Longrightarrow> flt_le (upper_bound u n) x"
  by (auto simp: lower_bound_def upper_bound_def)

lemma bounds_nan:
  "flt_isnan n \<Longrightarrow> \<not> flt_isnan u \<Longrightarrow> lower_bound u n = u" "flt_isnan n \<Longrightarrow> \<not> flt_isnan u \<Longrightarrow> upper_bound u n = u"
  "flt_isnan u \<Longrightarrow> lower_bound u n = n" "flt_isnan u \<Longrightarrow> upper_bound u n = n"
  by (auto simp: lower_bound_def upper_bound_def flt_order)

lemma merge_void:
  "box2df_void u \<Longrightarrow> box2df_merge u n = n"
  "box2df_void n \<Longrightarrow> box2df_proper u \<Longrightarrow> box2df_merge u n = u"
  by (simp_all add: merge_bounds box2df_void_def box2df_proper_def flt_order bounds_nan)

lemma merge_covers:
  "box2df_covers u x \<Longrightarrow> box2df_covers (box2df_merge u n) x"
  "box2df_covers n x \<Longrightarrow> box2df_covers (box2df_merge u n) x"
  by (simp_all add: merge_bounds box2df_covers_def bounds_old bounds_new)

lemma merge_entry: "box2df_entry u \<Longrightarrow> box2df_entry n \<Longrightarrow> box2df_entry (box2df_merge u n)"
proof -
  assume e: "box2df_entry u" "box2df_entry n"
  have "box2df_proper (box2df_merge u n)" if "box2df_proper u" "box2df_proper n"
  proof -
    have a: "flt_le l h \<Longrightarrow> flt_le (lower_bound l l') (upper_bound h h')" for l h l' h'
      by (auto simp: lower_bound_def upper_bound_def flt_order)
    show ?thesis using that by (simp add: box2df_proper_def merge_bounds a)
  qed
  then show ?thesis using e merge_void by (auto simp: box2df_entry_def)
qed

lemma union_entry: "list_all box2df_entry ks \<Longrightarrow> gserialized_gist_union_2d ks = Inr u \<Longrightarrow> box2df_entry u"
proof -
  have "box2df_entry b \<Longrightarrow> list_all box2df_entry bs \<Longrightarrow> box2df_entry (fold (\<lambda>c u. box2df_merge u c) bs b)" for b bs
    by (induction bs arbitrary: b) (simp_all add: merge_entry)
  then show "list_all box2df_entry ks \<Longrightarrow> gserialized_gist_union_2d ks = Inr u \<Longrightarrow> box2df_entry u"
    by (auto simp: gserialized_gist_union_2d_def split: list.splits)
qed

lemma fold_merge_covers:
  "box2df_covers b x \<or> (\<exists>k \<in> set bs. box2df_covers k x) \<Longrightarrow> box2df_covers (fold (\<lambda>c u. box2df_merge u c) bs b) x"
  by (induction bs arbitrary: b) (auto simp: merge_covers)

lemma union_covers: "gserialized_gist_union_2d ks = Inr u \<Longrightarrow> k \<in> set ks \<Longrightarrow> box2df_covers k x \<Longrightarrow> box2df_covers u x"
  using fold_merge_covers by (fastforce simp: gserialized_gist_union_2d_def split: list.splits)

text \<open>Whatever the strategy: what holds of a key is possible below every key that covers it.\<close>

lemma leaf_consistent_internal:
  assumes "box2df_covers u k" and "box2df_proper k" and "box2df_proper q"
    and "gserialized_gist_consistent_leaf_2d (Some k) (Some q) s"
  shows "gserialized_gist_consistent_internal_2d (Some u) (Some q) s"
  using assms
  by (cases s) (auto simp: box2df_covers_def box2df_proper_def flt_order box2df_is_empty_def both_boxes_def
    box2df_overlaps_def box2df_contains_def box2df_within_def box2df_equals_def box2df_above_def box2df_below_def
    box2df_left_def box2df_right_def box2df_overabove_def box2df_overbelow_def box2df_overleft_def box2df_overright_def
    split: if_splits)

interpretation gist2d: index_contract
  "\<lambda>k q. gserialized_gist_consistent_leaf_2d (Some k) (Some q)" "\<lambda>k q. gserialized_gist_consistent_internal_2d (Some k) (Some q)"
  gserialized_gist_union_2d box2df_entry "\<lambda>k. \<not> box2df_is_empty k" box2df_covers box2df_proper
proof unfold_locales
  show "box2df_covers k k" if "box2df_entry k" "\<not> box2df_is_empty k" for k
    using that by (simp add: entry_not_empty box2df_proper_def box2df_covers_def flt_order)
qed (use union_entry union_covers leaf_consistent_internal entry_not_empty in blast)+

text \<open>C33: No scan misses a row: in any tree whose inner keys are the unions of the keys below them, of entries that are
  boxes or empty, a scan for any strategy and any query box returns exactly the rows with a box whose key
  satisfies the test at the leaves.\<close>

theorem gist_2d_search_complete:
  assumes "index_built gserialized_gist_union_2d box2df_entry t" and "box2df_proper q"
  shows "filter (\<lambda>k. \<not> box2df_is_empty k)
      (index_search (\<lambda>k. gserialized_gist_consistent_leaf_2d (Some k) (Some q) s)
        (\<lambda>k. gserialized_gist_consistent_internal_2d (Some k) (Some q) s) t) =
    filter (\<lambda>k. \<not> box2df_is_empty k \<and> gserialized_gist_consistent_leaf_2d (Some k) (Some q) s) (index_leaves t)"
  by (rule gist2d.search_complete[OF assms(2,1)])

section \<open>Unions\<close>

lemma fold_merge_least:
  "(box2df_proper b \<longrightarrow> box2df_covers c b) \<Longrightarrow> box2df_entry b \<Longrightarrow> list_all box2df_entry bs \<Longrightarrow>
   \<forall>k \<in> set bs. box2df_proper k \<longrightarrow> box2df_covers c k \<Longrightarrow>
   box2df_proper (fold (\<lambda>c u. box2df_merge u c) bs b) \<longrightarrow> box2df_covers c (fold (\<lambda>c u. box2df_merge u c) bs b)"
proof (induction bs arbitrary: b)
  case (Cons n bs)
  have "box2df_proper (box2df_merge b n) \<longrightarrow> box2df_covers c (box2df_merge b n)"
  proof (cases "box2df_proper b \<and> box2df_proper n")
    case True
    then show ?thesis using Cons.prems by (auto simp: merge_bounds box2df_covers_def bounds_least)
  next
    case False
    then show ?thesis using Cons.prems merge_void by (auto simp: box2df_entry_def)
  qed
  then show ?case using Cons.IH[of "box2df_merge b n"] Cons.prems merge_entry by simp
qed simp

lemma fold_merge_void: "box2df_void b \<Longrightarrow> list_all box2df_void bs \<Longrightarrow> box2df_void (fold (\<lambda>c u. box2df_merge u c) bs b)"
  by (induction bs arbitrary: b) (simp_all add: merge_void)

text \<open>C34: The union of the keys of a page is the least box that covers them: it returns a key, which is empty only if all keys are,
  covers every key that is a box, and lies inside every box that covers them all.\<close>

theorem gist_2d_union_least:
  assumes "ks \<noteq> []" and "list_all box2df_entry ks"
  shows "\<exists>u. gserialized_gist_union_2d ks = Inr u \<and> box2df_entry u \<and>
    (box2df_is_empty u \<longleftrightarrow> list_all box2df_is_empty ks) \<and>
    (\<forall>k \<in> set ks. \<not> box2df_is_empty k \<longrightarrow> box2df_covers u k) \<and>
    (\<forall>c. \<not> box2df_is_empty u \<and> (\<forall>k \<in> set ks. \<not> box2df_is_empty k \<longrightarrow> box2df_covers c k) \<longrightarrow> box2df_covers c u)"
proof -
  obtain b bs where ks: "ks = b # bs" using assms(1) by (cases ks) auto
  let ?u = "fold (\<lambda>c u. box2df_merge u c) bs b"
  have u: "gserialized_gist_union_2d ks = Inr ?u" by (simp add: ks gserialized_gist_union_2d_def)
  have e: "box2df_entry ?u" using union_entry[OF assms(2) u] .
  have proper: "box2df_entry k \<and> (\<not> box2df_is_empty k \<longleftrightarrow> box2df_proper k)" if "k \<in> set ks" for k
    using that assms(2) entry_not_empty by (auto simp: list_all_iff)
  have cover: "box2df_covers ?u k" if "k \<in> set ks" "\<not> box2df_is_empty k" for k
    using union_covers[OF u that(1)] proper[OF that(1)] that(2) gist2d.cover_self by blast
  have "\<not> box2df_is_empty ?u" if "k \<in> set ks" "\<not> box2df_is_empty k" for k
    using cover[OF that] by (auto simp: box2df_covers_def flt_order box2df_is_empty_def)
  moreover have "box2df_is_empty ?u" if "list_all box2df_is_empty ks"
  proof -
    have "list_all box2df_void ks" using that proper by (auto simp: list_all_iff box2df_entry_def)
    then have "box2df_void ?u" using fold_merge_void by (simp add: ks)
    then show ?thesis by (simp add: box2df_void_def box2df_is_empty_def)
  qed
  moreover have "box2df_covers c ?u" if "\<not> box2df_is_empty ?u" "\<forall>k \<in> set ks. \<not> box2df_is_empty k \<longrightarrow> box2df_covers c k" for c
    using fold_merge_least[of b c bs] that e entry_not_empty proper assms(2) by (auto simp: ks)
  ultimately show ?thesis using u e cover by (auto simp: list_all_iff)
qed

section \<open>Empty geometries in the index\<close>

definition gist_empty_key :: box2df where
  "gist_empty_key = box2df_set_empty \<lparr>b2_xmin = 0, b2_xmax = 0, b2_ymin = 0, b2_ymax = 0\<rparr>"

lemma empty_key_nan [simp]: "flt_isnan (b2_xmin gist_empty_key)" "flt_isnan (b2_xmax gist_empty_key)"
  "flt_isnan (b2_ymin gist_empty_key)" "flt_isnan (b2_ymax gist_empty_key)"
  by (simp_all add: gist_empty_key_def box2df_set_empty_def FLT_NAN_def flt_isnan_def flt_mag_def)

text \<open>C35: The index and the operators disagree on empty geometries: the key that stands for one satisfies containment both
  ways for every query box, where the operators, called without an index, find a null box and answer no; and
  whether a scan returns the row depends on the tree, because a page is visited for contained-by only if its key
  overlaps the query.\<close>

theorem gist_2d_empty_disagrees:
  assumes "gserialized_datum_get_box2df_p fuel env d = Inr None" and "gserialized_datum_get_box2df_p fuel env query = Inr (Some q)"
    and "box2df_proper q" and "box2df_proper k" and "\<not> box2df_overlaps (Some k) (Some q)"
  shows "gserialized_gist_compress_2d fuel env True (DatumKey d) = Inr (BoxKey gist_empty_key) \<and>
    gserialized_gist_consistent_2d fuel env True (Some gist_empty_key) (Some query) RTContains = Inr (True, False) \<and>
    gserialized_gist_consistent_2d fuel env True (Some gist_empty_key) (Some query) RTContainedBy = Inr (True, False) \<and>
    gserialized_datum_predicate_2d fuel env d query box2df_contains = Inr False \<and>
    gserialized_datum_predicate_2d fuel env d query box2df_within = Inr False \<and>
    gserialized_gist_union_2d [k, gist_empty_key] = Inr k \<and>
    gserialized_gist_consistent_2d fuel env False (Some k) (Some query) RTContainedBy = Inr (False, False)"
proof -
  have nan: "box2df_is_empty gist_empty_key" "\<not> box2df_is_empty q" "box2df_void gist_empty_key"
    using assms(3) by (auto simp: box2df_is_empty_def box2df_proper_def box2df_void_def flt_order)
  then have "box2df_contains (Some gist_empty_key) (Some q)" "box2df_within (Some gist_empty_key) (Some q)"
    by (simp_all add: box2df_contains_def box2df_within_def flt_order)
  then show ?thesis
    using assms nan merge_void(2)[of gist_empty_key k]
    by (simp add: gserialized_gist_compress_2d_def gserialized_gist_consistent_2d_def gserialized_datum_predicate_2d_def
      gserialized_gist_union_2d_def box2df_contains_def box2df_within_def flip: gist_empty_key_def)
qed

section \<open>Compression\<close>

lemma finite_not_nan: "flt_isfinite f \<Longrightarrow> \<not> flt_isnan f"
  by (simp add: flt_isfinite_def flt_isnan_def)

lemma flt_max_finite [simp]: "flt_isfinite FLT_MAX" "flt_isfinite NEG_FLT_MAX" "flt_key FLT_MAX = 0x7F7FFFFF" "flt_key NEG_FLT_MAX = - 0x7F7FFFFF"
  by (simp_all add: flt_isfinite_def flt_mag_def FLT_MAX_def NEG_FLT_MAX_def flt_key_def flt_neg_def)

lemma finite_key: "flt_isfinite f \<Longrightarrow> - 0x7F7FFFFF \<le> flt_key f \<and> flt_key f \<le> 0x7F7FFFFF"
  by (auto simp: flt_isfinite_def flt_key_def)

text \<open>The key of a row is a box or empty, provided the box of the geometry is not upside down.\<close>

lemma compress_entry:
  assumes "gserialized_datum_get_box2df_p fuel env d = Inr r"
    and "\<And>b. r = Some b \<Longrightarrow> \<not> flt_lt (b2_xmax b) (b2_xmin b) \<and> \<not> flt_lt (b2_ymax b) (b2_ymin b)"
  shows "\<exists>k. gserialized_gist_compress_2d fuel env True (DatumKey d) = Inr (BoxKey k) \<and> box2df_entry k"
proof (cases r)
  case None
  then show ?thesis using assms(1)
    by (simp add: gserialized_gist_compress_2d_def box2df_entry_def box2df_void_def flip: gist_empty_key_def)
next
  case (Some b)
  have fin: "box2df_proper (box2df_set_finite b)" using assms(2)[OF Some] finite_key finite_not_nan
    by (auto simp: box2df_set_finite_def box2df_proper_def flt_order)
  show ?thesis
  proof (cases "flt_isfinite (b2_xmax b) \<and> flt_isfinite (b2_xmin b) \<and> flt_isfinite (b2_ymax b) \<and> flt_isfinite (b2_ymin b)")
    case True
    then have "box2df_proper b" using assms(2)[OF Some] finite_not_nan by (auto simp: box2df_proper_def flt_order)
    moreover have "box2df_validate b = b" using assms(2)[OF Some] by (simp add: box2df_validate_def Let_def)
    ultimately show ?thesis using Some True assms(1) by (simp add: gserialized_gist_compress_2d_def box2df_entry_def)
  next
    case False
    then show ?thesis using Some assms(1) fin by (auto simp: gserialized_gist_compress_2d_def box2df_entry_def)
  qed
qed

section \<open>The penalty\<close>

lemma even_ucast8: "even (ucast (r :: u8) :: u32) = even r"
  using bit_ucast_iff[of r 0, where 'a = 32] by (simp add: bit_0)

lemma pack_float_bits: "bit (pack_float v r) n \<longleftrightarrow> (n < 30 \<and> bit v (Suc n)) \<or> (n = 30 \<and> odd r) \<or> (n = 31 \<and> bit v 31)"
proof -
  have m: "(0x3FFFFFFF :: u32) = mask 30" "(0x7FFFFFFF :: u32) = mask 31" "(0x40000000 :: u32) = push_bit 30 1"
    by (simp_all add: mask_eq_exp_minus_1)
  consider "n < 30" | "n = 30" | "n = 31" | "32 \<le> n" by linarith
  then show ?thesis
  proof cases
    case 4
    then show ?thesis using bit_imp_le_length[of "pack_float v r" n] by auto
  qed (simp_all add: pack_float_def m Let_def bit_or_iff bit_and_iff bit_not_iff bit_mask_iff bit_push_bit_iff bit_drop_bit_eq bit_ucast_iff bit_1_iff
      bit_0 even_ucast8 del: push_bit_of_1)
qed

lemma pack_float_mag:
  assumes "\<not> flt_neg v"
  shows "flt_mag (pack_float v r) = flt_mag v div 2 + (if odd r then 0x40000000 else 0)" "\<not> flt_neg (pack_float v r)"
proof -
  show n: "\<not> flt_neg (pack_float v r)" using assms by (simp add: flt_neg_def pack_float_bits)
  have bv: "bit v k \<Longrightarrow> k < 31" for k using assms bit_imp_le_length[of v k] by (cases "k = 31") (auto simp: flt_neg_def)
  then have bv': "bit v (Suc n) \<Longrightarrow> n < 30" for n by fastforce
  have u: "flt_mag f = unat f" if "\<not> flt_neg f" for f
  proof -
    have m: "(0x7FFFFFFF :: u32) = mask 31" by (simp add: mask_eq_exp_minus_1)
    have "f AND mask 31 = f"
      proof (rule bit_word_eqI)
      fix n show "bit (f AND mask 31) n = bit f n" using that bit_imp_le_length[of f n]
        by (cases "n = 31") (auto simp: flt_neg_def bit_and_iff bit_mask_iff)
    qed
    then show ?thesis by (simp add: flt_mag_def m)
  qed
  have "pack_float v r = drop_bit 1 v OR (if odd r then push_bit 30 1 else 0)"
    by (rule bit_word_eqI) (use bv bv' in \<open>auto simp: pack_float_bits bit_or_iff bit_drop_bit_eq bit_push_bit_iff bit_1_iff simp del: push_bit_of_1\<close>)
  moreover have "drop_bit 1 v AND (if odd r then push_bit 30 1 else 0) = 0"
    by (rule bit_word_eqI) (use bv bv' in \<open>auto simp: bit_and_iff bit_drop_bit_eq bit_push_bit_iff bit_1_iff simp del: push_bit_of_1\<close>)
  ultimately have "unat (pack_float v r) = unat (drop_bit 1 v) + unat ((if odd r then push_bit 30 1 else 0) :: u32)"
    by (metis disjunctive_add_eq_or unsigned_or_eq unsigned_and_eq unsigned_0)
  then show "flt_mag (pack_float v r) = flt_mag v div 2 + (if odd r then 0x40000000 else 0)"
    using u[OF n] u[OF assms] by (auto simp: unsigned_drop_bit_eq drop_bit_eq_div push_bit_eq_mult unat_div)
qed

text \<open>The penalty keeps its two realms apart: for extensions that are not negative and below 2 ^ 127, every area extension
  counts more than every edge extension, and within a realm the order of the extensions is kept up to their last
  bit; but an infinite area extension becomes a NaN and, from 2 ^ 127 on, the result is not a finite number.\<close>

theorem pack_float_realms:
  assumes "\<not> flt_neg v" and "\<not> flt_neg w" and "flt_mag v < 0x7F000000" and "flt_mag w < 0x7F000000"
  shows "flt_lt (pack_float v 0) (pack_float w 1) \<and>
    (flt_lt (pack_float v 0) (pack_float w 0) \<longleftrightarrow> flt_mag v div 2 < flt_mag w div 2) \<and>
    (flt_lt (pack_float v 1) (pack_float w 1) \<longleftrightarrow> flt_mag v div 2 < flt_mag w div 2) \<and>
    flt_isnan (pack_float 0x7F800000 1) \<and> \<not> flt_isfinite (pack_float 0x7F000000 1)"
proof -
  have big: "\<not> flt_neg 0x7F800000" "flt_mag 0x7F800000 = 0x7F800000" "\<not> flt_neg 0x7F000000" "flt_mag 0x7F000000 = 0x7F000000"
    by (simp_all add: flt_neg_def flt_mag_def)
  note mag = pack_float_mag[OF assms(1)] pack_float_mag[OF assms(2)] pack_float_mag[OF big(1)] pack_float_mag[OF big(3)]
  show ?thesis using assms(3,4) by (simp add: flt_lt_def flt_isnan_def flt_isfinite_def flt_key_def mag big) linarith
qed

theorem pack_float_realms_witness:
  "flt_lt (pack_float 0x47000000 0) (pack_float 0x34000001 1)"
  using pack_float_realms[of "0x47000000" "0x34000001"] by (simp add: flt_neg_def flt_mag_def)

section \<open>Slices\<close>

lemma chunks_append: "n * k \<le> length xs \<Longrightarrow> chunks n k (xs @ ys) = chunks n k xs"
  by (induction k arbitrary: xs) (simp_all add: add_leD1)

lemma rd_take:
  "off + 4 \<le> m \<Longrightarrow> rd_u32 be (take m bs) off = rd_u32 be bs off"
  "off + 8 \<le> m \<Longrightarrow> rd_u64 be (take m bs) off = rd_u64 be bs off"
  by (auto simp: rd_u32_def rd_u64_def drop_take min_def)

lemma rd_flts_take: "off + 4 * n \<le> m \<Longrightarrow> rd_flts be (take m bs) off n = rd_flts be bs off n"
proof (cases "length bs \<le> m")
  case False
  assume m: "off + 4 * n \<le> m"
  have "drop off bs = drop off (take m bs) @ drop m bs" using m False
    by (metis append_take_drop_id drop_append length_take min.absorb2 nat_le_linear diff_is_0_eq' drop_0 add_leD1)
  then have "chunks 4 n (drop off (take m bs)) = chunks 4 n (drop off bs)" using chunks_append[of 4 n "drop off (take m bs)"] m False by simp
  then show ?thesis using m False by (simp add: rd_flts_def)
qed simp

lemma datum_size_field:
  assumes "gs_storable zm (gserialized2_prepare env g)" and "gserialized_from_lwgeom env g = Inr d"
  shows "gs_size d = LWSIZE_SET (big_endian env) (8 + length (gs_data d))" "8 + length (gs_data d) < 2 ^ 30"
proof -
  have "gs_size d = LWSIZE_SET (big_endian env) (gserialized2_from_lwgeom_size (gserialized2_prepare env g)) \<and>
      gserialized2_from_lwgeom_size (gserialized2_prepare env g) = 8 + length (gs_data d)"
    using assms(2) by (auto simp: gserialized_from_lwgeom_def gserialized2_from_lwgeom_def Let_def rbind_eq_Inr_iff split: if_splits)
  then show "gs_size d = LWSIZE_SET (big_endian env) (8 + length (gs_data d))" "8 + length (gs_data d) < 2 ^ 30"
    using assms(1) by (simp_all add: gs_storable_def)
qed

lemma slice_cases:
  assumes "gs_size d = LWSIZE_SET be (8 + length (gs_data d))" and "8 + length (gs_data d) < 2 ^ 30"
  shows "detoast_slice be gserialized_max_header_size d = d \<and> length (gs_data d) \<le> 48 \<or>
    (\<exists>s. detoast_slice be gserialized_max_header_size d = d\<lparr>gs_size := s, gs_data := take 48 (gs_data d)\<rparr> \<and>
      unat (LWSIZE_GET be s) = 56)"
proof -
  have m: "gserialized_max_header_size = 52"
    by (simp add: gserialized_max_header_size_def gserialized1_max_header_size_def gserialized2_max_header_size_def)
  have sz: "unat (LWSIZE_GET be (gs_size d)) = 8 + length (gs_data d)" using assms by (simp add: LWSIZE_GET_SET)
  show ?thesis
  proof (cases "length (gs_data d) \<le> 48")
    case True
    have "d\<lparr>gs_size := LWSIZE_SET be (8 + length (gs_data d)), gs_data := gs_data d\<rparr> = d"
      unfolding assms(1)[symmetric] by simp
    then have "detoast_slice be gserialized_max_header_size d = d"
      using True by (cases "length (gs_data d) = 48") (simp_all add: detoast_slice_def m sz Let_def min_def)
    then show ?thesis using True by simp
  next
    case False
    then show ?thesis by (simp add: detoast_slice_def m sz Let_def min_def LWSIZE_GET_SET exI[of _ "LWSIZE_SET be 56"])
  qed
qed

text \<open>C36: The part of a stored geometry that an index fetches is enough: for a geometry kept compressed or out of line, the box, and
  the box with flags, SRID and type, read from the first bytes are those of the whole datum, whether the datum
  carries its box or is so small that the bytes are all of it.\<close>

theorem gserialized_slice_enough:
  assumes "gs_storable zm (gserialized2_prepare env g)" and "gserialized_from_lwgeom env g = Inr d"
  shows "gserialized_datum_get_box2df_p fuel env \<lparr>needs_detoast = True, detoasted = d\<rparr>
      = gserialized_datum_get_box2df_p fuel env \<lparr>needs_detoast = False, detoasted = d\<rparr> \<and>
    gserialized_datum_get_internals_p fuel env \<lparr>needs_detoast = True, detoasted = d\<rparr> gbox
      = gserialized_datum_get_internals_p fuel env \<lparr>needs_detoast = False, detoasted = d\<rparr> gbox"
proof -
  let ?be = "big_endian env"
  have m: "gserialized_max_header_size = 52"
    by (simp add: gserialized_max_header_size_def gserialized1_max_header_size_def gserialized2_max_header_size_def)
  have dt: "gs_datum env zm (gserialized2_prepare env g) d" by (rule gs_datumI[OF assms])
  from slice_cases[OF datum_size_field[OF assms]] show ?thesis
  proof (elim disjE exE conjE)
    assume "detoast_slice ?be gserialized_max_header_size d = d"
    then show ?thesis
      by (simp add: gserialized_datum_get_box2df_p_def gserialized_datum_get_internals_p_def Let_def cong: option.case_cong)
  next
    fix s
    assume s: "detoast_slice ?be gserialized_max_header_size d = d\<lparr>gs_size := s, gs_data := take 48 (gs_data d)\<rparr>" "unat (LWSIZE_GET ?be s) = 56"
    let ?d = "d\<lparr>gs_size := s, gs_data := take 48 (gs_data d)\<rparr>"
    note v = datum_dispatch(4)[OF dt]
    have same: "gserialized_has_bbox ?d = gserialized_has_bbox d" "gserialized_get_float_box_p ?d = gserialized_get_float_box_p d"
      "gserialized_get_srid ?d = gserialized_get_srid d"
      using v by (simp_all add: gserialized_has_bbox_def gserialized2_has_bbox_def gserialized_get_float_box_p_def
        gserialized2_get_float_box_p_def gserialized2_has_extended_def gserialized_get_srid_def gserialized2_get_srid_def)
    show ?thesis
    proof (cases "gserialized_has_bbox d")
      case False
      then show ?thesis using s by (simp add: gserialized_datum_get_box2df_p_def gserialized_datum_get_internals_p_def Let_def same m)
    next
      case True
      have lw: "gserialized2_get_lwflags ?be ?d = gserialized2_get_lwflags ?be d"
        by (simp add: gserialized2_get_lwflags_def Let_def rd_take)
      have nd: "2 * G2FLAGS_NDIMS_BOX f \<le> 8" for f by (simp add: ndims_box_bits)
      have box: "gserialized2_read_gbox_p ?be ?d b = gserialized2_read_gbox_p ?be d b" for b
        using nd[of "gs_gflags d"] by (simp add: gserialized2_read_gbox_p_def lw gserialized2_get_float_box_p_def
          gserialized2_has_bbox_def gserialized2_has_extended_def rd_flts_take Let_def)
      have ty: "gserialized2_get_type ?be ?d = gserialized2_get_type ?be d"
        by (simp add: gserialized2_get_type_def gserialized2_get_geometry_p_def gserialized2_has_bbox_def gserialized2_has_extended_def
          gserialized2_box_size_def G2FLAGS_NDIMS_def flags_simps rd_take)
      have "\<not> (\<exists>b'. gserialized2_read_gbox_p ?be d b = Inr (False, b'))" for b
        using True v by (auto simp: gserialized_has_bbox_def gserialized2_read_gbox_p_def gserialized2_get_float_box_p_def
          Let_def rbind_eq_Inr_iff)
      then have all: "gserialized_get_gbox_p fuel env ?d b = gserialized_get_gbox_p fuel env d b" for b
        using v by (cases "gserialized2_read_gbox_p ?be d b") (auto simp: gserialized_get_gbox_p_def gserialized2_get_gbox_p_def box)
      obtain off where off: "gserialized_get_float_box_p d = Some off" "off + 4 * 4 \<le> 48"
        using True v by (auto simp: gserialized_has_bbox_def gserialized_get_float_box_p_def gserialized2_get_float_box_p_def)
      have "gserialized_datum_get_box2df_p fuel env \<lparr>needs_detoast = True, detoasted = d\<rparr>
          = gserialized_datum_get_box2df_p fuel env \<lparr>needs_detoast = False, detoasted = d\<rparr>"
        using rd_flts_take[OF off(2)] by (simp add: gserialized_datum_get_box2df_p_def Let_def s same True off)
      moreover have "gserialized_datum_get_internals_p fuel env \<lparr>needs_detoast = True, detoasted = d\<rparr> gbox
          = gserialized_datum_get_internals_p fuel env \<lparr>needs_detoast = False, detoasted = d\<rparr> gbox"
        using v by (simp add: gserialized_datum_get_internals_p_def Let_def s same True all lw ty
          gserialized_get_lwflags_def gserialized_get_type_def)
      ultimately show ?thesis ..
    qed
  qed
qed

section \<open>Concrete data\<close>

definition box_one :: box2df where
  "box_one = \<lparr>b2_xmin = 0, b2_xmax = 0x3F800000, b2_ymin = 0, b2_ymax = 0x3F800000\<rparr>"

definition box_two :: box2df where
  "box_two = \<lparr>b2_xmin = 0x40000000, b2_xmax = 0x40400000, b2_ymin = 0x40000000, b2_ymax = 0x40400000\<rparr>"

definition box_query_datum :: datum where
  "box_query_datum = \<lparr>needs_detoast = False, detoasted = \<lparr>gs_size = LWSIZE_SET False 24, gs_srid = (0, 0, 0), gs_gflags = 0x44,
     gs_data = flt_bytes False [0x40000000, 0x40400000, 0x40000000, 0x40400000]\<rparr>\<rparr>"

definition empty_point_datum :: datum where
  "empty_point_datum = \<lparr>needs_detoast = False, detoasted = \<lparr>gs_size = LWSIZE_SET False 16, gs_srid = (0, 0, 0), gs_gflags = 0x40,
     gs_data = put_u32 False 1 @ put_u32 False 0\<rparr>\<rparr>"

lemmas box_example_simps = box_one_def box_two_def box2df_proper_def flt_order flt_isnan_def flt_mag_def flt_key_def flt_neg_def
  box2df_is_empty_def

lemma box_examples: "box2df_proper box_one" "box2df_proper box_two" "\<not> box2df_is_empty box_one" "\<not> box2df_is_empty box_two"
  "\<not> box2df_overlaps (Some box_one) (Some box_two)" "box2df_overlaps (Some box_two) (Some box_two)" "box2df_is_empty gist_empty_key"
  "box2df_entry gist_empty_key" "box2df_entry box_one" "box2df_entry box_two"
  by (simp_all add: box_example_simps box2df_overlaps_def box2df_entry_def box2df_void_def gist_empty_key_def box2df_set_empty_def FLT_NAN_def)

theorem gist_2d_union_least_witness:
  "\<exists>u. gserialized_gist_union_2d [box_one, gist_empty_key, box_two] = Inr u \<and> box2df_covers u box_one \<and> box2df_covers u box_two"
  using gist_2d_union_least[of "[box_one, gist_empty_key, box_two]"] box_examples by auto

theorem gist_2d_search_complete_witness:
  "\<exists>u. gserialized_gist_union_2d [box_one, gist_empty_key, box_two] = Inr u \<and>
    filter (\<lambda>k. \<not> box2df_is_empty k) (index_search (\<lambda>k. gserialized_gist_consistent_leaf_2d (Some k) (Some box_two) RTOverlap)
        (\<lambda>k. gserialized_gist_consistent_internal_2d (Some k) (Some box_two) RTOverlap)
        (Page u [Entry box_one, Entry gist_empty_key, Entry box_two])) = [box_two]"
proof -
  obtain u where u: "gserialized_gist_union_2d [box_one, gist_empty_key, box_two] = Inr u" by (simp add: gserialized_gist_union_2d_def)
  then show ?thesis
    using gist_2d_search_complete[of "Page u [Entry box_one, Entry gist_empty_key, Entry box_two]" box_two RTOverlap] box_examples by simp
qed

lemma query_box: "gserialized_datum_get_box2df_p fuel gs_env_example box_query_datum = Inr (Some box_two)"
proof -
  have "rd_flts False (flt_bytes False [0x40000000, 0x40400000, 0x40000000, 0x40400000]) 0 4
      = Inr [0x40000000, 0x40400000, 0x40000000, 0x40400000]"
    using rd_flts_behind[of 0 "[]" 4 "[0x40000000, 0x40400000, 0x40000000, 0x40400000]" False "[]"] by simp
  then show ?thesis
    by (simp add: gserialized_datum_get_box2df_p_def box_query_datum_def Let_def gserialized_has_bbox_def gserialized2_has_bbox_def
      GFLAGS_GET_VERSION_def G2FLAGS_GET_BBOX_def gserialized_get_float_box_p_def gserialized2_get_float_box_p_def
      gserialized2_has_extended_def G2FLAGS_GET_EXTENDED_def gs_env_example_def box_two_def)
qed

lemma empty_box: "gserialized_datum_get_box2df_p (Suc 0) gs_env_example empty_point_datum = Inr None"
proof -
  have f: "lwflags_get_g2flags 0 = 0x40" by (rule small_flags)
  have fl: "gserialized2_get_lwflags False \<lparr>gs_size = s, gs_srid = t, gs_gflags = 0x40, gs_data = b\<rparr> = Inr 0" for s t b
    by (simp add: gserialized2_get_lwflags_def Let_def G2FLAGS_GET_Z_def G2FLAGS_GET_M_def G2FLAGS_GET_BBOX_def G2FLAGS_GET_GEODETIC_def
      G2FLAGS_GET_EXTENDED_def FLAGS_SET_Z_def FLAGS_SET_M_def FLAGS_SET_BBOX_def FLAGS_SET_GEODETIC_def)
  have rd: "rd_u32 False (put_u32 False 1 @ put_u32 False 0) 0 = Inr 1" "rd_u32 False (put_u32 False 1 @ put_u32 False 0) 4 = Inr 0"
    using rd_u32_at(1)[of False 1 "put_u32 False 0"] rd_u32_at(2)[of False 1 0 "[]"] by simp_all
  show ?thesis
    by (simp add: gserialized_datum_get_box2df_p_def empty_point_datum_def Let_def gserialized_has_bbox_def gserialized2_has_bbox_def
      GFLAGS_GET_VERSION_def G2FLAGS_GET_BBOX_def G2FLAGS_GET_GEODETIC_def gserialized_get_gbox_p_def gserialized2_get_gbox_p_def
      gserialized2_read_gbox_p_def fl gs_env_example_def gserialized2_get_float_box_p_def gserialized2_peek_gbox_p_def
      gserialized2_get_type_def gserialized2_get_geometry_p_def gserialized2_has_extended_def G2FLAGS_GET_EXTENDED_def rd
      lwgeom_from_gserialized_def lwgeom_from_gserialized2_def lwpoint_from_gserialized2_buffer_def FLAGS_GET_BBOX_def
      lwgeom_needs_bbox_def lwgeom_calculate_gbox_def lwpoint_calculate_gbox_cartesian_def ptarray_calculate_gbox_cartesian_def
      no_points_def ptarray_construct_empty_def gser_hdr_def FLAGS_GET_GEODETIC_def)
qed


theorem gist_2d_empty_disagrees_witness:
  "gserialized_gist_consistent_2d (Suc 0) gs_env_example True (Some gist_empty_key) (Some box_query_datum) RTContains = Inr (True, False) \<and>
    gserialized_datum_predicate_2d (Suc 0) gs_env_example empty_point_datum box_query_datum box2df_contains = Inr False"
  using gist_2d_empty_disagrees[OF empty_box query_box box_examples(2,1,5)] by simp

theorem gserialized_slice_enough_witness:
  "\<exists>d. gserialized_from_lwgeom gs_env_example gs_example = Inr d \<and>
    gserialized_datum_get_box2df_p 2 gs_env_example \<lparr>needs_detoast = True, detoasted = d\<rparr>
      = gserialized_datum_get_box2df_p 2 gs_env_example \<lparr>needs_detoast = False, detoasted = d\<rparr>"
proof -
  obtain d where d: "gserialized_from_lwgeom gs_env_example gs_example = Inr d"
    using write_datum[OF refl gs_example_storable(1)] by (auto simp: gserialized_from_lwgeom_def)
  then show ?thesis using gserialized_slice_enough[OF gs_example_storable(1) d, of 2] by auto
qed

end
