(* ===== verification/GistSplit.thy ===== *)
theory GistSplit
  imports Gist2d "HOL-Library.Multiset"
begin

text \<open>
  Splitting a page of the two-dimensional index (postgis/gserialized_gist_2d.c): the double sorting split and the trivial
  split it falls back to. The keys of the page are a list; the offset of the first is 1. \<open>qsort\<close> is a
  parameter, as the C library leaves the order of equal elements open; the algorithm sorts intervals
  and common entries, so there is one parameter for either.
\<close>

section \<open>The trivial split\<close>

record split_vec =
  spl_left :: "nat list"
  spl_right :: "nat list"
  spl_ldatum :: "box2df option"
  spl_rdatum :: "box2df option"
  spl_ldatum_exists :: bool
  spl_rdatum_exists :: bool

definition adjustBox :: "box2df \<Rightarrow> box2df \<Rightarrow> box2df" where
  "adjustBox b addon =
     (let b = (if flt_lt (b2_xmax b) (b2_xmax addon) \<or> flt_isnan (b2_xmax b) then b\<lparr>b2_xmax := b2_xmax addon\<rparr> else b);
          b = (if flt_lt (b2_xmin addon) (b2_xmin b) \<or> flt_isnan (b2_xmin b) then b\<lparr>b2_xmin := b2_xmin addon\<rparr> else b);
          b = (if flt_lt (b2_ymax b) (b2_ymax addon) \<or> flt_isnan (b2_ymax b) then b\<lparr>b2_ymax := b2_ymax addon\<rparr> else b)
      in if flt_lt (b2_ymin addon) (b2_ymin b) \<or> flt_isnan (b2_ymin b) then b\<lparr>b2_ymin := b2_ymin addon\<rparr> else b)"

definition key_at :: "box2df list \<Rightarrow> nat \<Rightarrow> box2df" where
  "key_at entryvec i = entryvec ! (i - 1)"

text \<open>A box that is adjusted, or set if it is null.\<close>

definition grow :: "box2df option \<Rightarrow> box2df \<Rightarrow> box2df" where
  "grow u cur = (case u of None \<Rightarrow> cur | Some b \<Rightarrow> adjustBox b cur)"

definition fallback_step :: "box2df list \<Rightarrow> nat \<Rightarrow> split_vec \<Rightarrow> split_vec" where
  "fallback_step entryvec i v =
     (let cur = key_at entryvec i
      in if i \<le> length entryvec div 2
         then v\<lparr>spl_left := spl_left v @ [i], spl_ldatum := Some (grow (spl_ldatum v) cur)\<rparr>
         else v\<lparr>spl_right := spl_right v @ [i], spl_rdatum := Some (grow (spl_rdatum v) cur)\<rparr>)"

text \<open>The boxes of the new pages are built in \<open>unionL\<close> and \<open>unionR\<close>, here the fields of an empty vector.\<close>

definition fallbackSplit :: "box2df list \<Rightarrow> split_vec \<Rightarrow> split_vec res" where
  "fallbackSplit entryvec v =
     (let w = fold (fallback_step entryvec) [1..<length entryvec + 1]
            (v\<lparr>spl_left := [], spl_right := [], spl_ldatum := None, spl_rdatum := None\<rparr>)
      in rbind (if spl_ldatum_exists v
                then case (spl_ldatum w, spl_ldatum v) of (Some u, Some d) \<Rightarrow> Inr (Some (adjustBox u d)) | _ \<Rightarrow> Inl MemFault
                else Inr (spl_ldatum w)) (\<lambda>l.
         rbind (if spl_rdatum_exists v
                then case (spl_rdatum w, spl_rdatum v) of (Some u, Some d) \<Rightarrow> Inr (Some (adjustBox u d)) | _ \<Rightarrow> Inl MemFault
                else Inr (spl_rdatum w)) (\<lambda>r.
           Inr (w\<lparr>spl_ldatum := l, spl_rdatum := r, spl_ldatum_exists := False, spl_rdatum_exists := False\<rparr>))))"

section \<open>Choosing a split\<close>

record consider_split_context =
  entriesCount :: nat
  boundingBox :: box2df
  cx_first :: bool
  leftUpper :: flt
  rightLower :: flt
  cx_ratio :: flt
  cx_overlap :: flt
  cx_dim :: nat
  cx_range :: flt

record split_interval =
  lower :: flt
  upper :: flt

definition interval_cmp_lower :: "split_interval \<Rightarrow> split_interval \<Rightarrow> int" where
  "interval_cmp_lower i1 i2 =
     (if flt_isnan (lower i1) then if flt_isnan (lower i2) then 0 else 1
      else if flt_isnan (lower i2) then -1
      else if flt_lt (lower i1) (lower i2) then -1 else if flt_lt (lower i2) (lower i1) then 1 else 0)"

definition interval_cmp_upper :: "split_interval \<Rightarrow> split_interval \<Rightarrow> int" where
  "interval_cmp_upper i1 i2 =
     (if flt_isnan (upper i1) then if flt_isnan (upper i2) then 0 else -1
      else if flt_isnan (upper i2) then 1
      else if flt_lt (upper i1) (upper i2) then -1 else if flt_lt (upper i2) (upper i1) then 1 else 0)"

definition non_negative :: "flt \<Rightarrow> flt" where
  "non_negative val = (if flt_le 0 val then val else 0)"

definition LIMIT_RATIO :: dbl where "LIMIT_RATIO = 0x3FB999999999999A"

definition g_box_consider_split ::
  "consider_split_context \<Rightarrow> nat \<Rightarrow> flt \<Rightarrow> nat \<Rightarrow> flt \<Rightarrow> nat \<Rightarrow> consider_split_context" where
  "g_box_consider_split context dimNum rLower minLeftCount lUpper maxLeftCount =
     (let n = entriesCount context;
          leftCount = (if (n + 1) div 2 \<le> minLeftCount then minLeftCount
                       else if maxLeftCount \<le> n div 2 then maxLeftCount else n div 2);
          rightCount = int n - int leftCount;
          rat = flt_div (flt_of_int (min (int leftCount) rightCount)) (flt_of_int (int n))
      in if \<not> dbl_lt LIMIT_RATIO (dbl_of_flt rat) then context
         else
           let rng = (if dimNum = 0 then flt_sub (b2_xmax (boundingBox context)) (b2_xmin (boundingBox context))
                      else flt_sub (b2_ymax (boundingBox context)) (b2_ymin (boundingBox context)));
               ovl = flt_div (flt_sub lUpper rLower) rng;
               selectthis =
                 (if cx_first context then True
                  else if cx_dim context = dimNum
                  then flt_lt ovl (cx_overlap context) \<or> flt_eq ovl (cx_overlap context) \<and> flt_lt (cx_ratio context) rat
                  else flt_lt (non_negative ovl) (non_negative (cx_overlap context)) \<or>
                    flt_lt (cx_range context) rng \<and> flt_le (non_negative ovl) (non_negative (cx_overlap context)))
           in if selectthis
              then context\<lparr>cx_first := False, cx_ratio := rat, cx_range := rng, cx_overlap := ovl, rightLower := rLower,
                     leftUpper := lUpper, cx_dim := dimNum\<rparr>
              else context)"

text \<open>
  The loop over the lower bounds of the right group: \<open>next_lower\<close> steps over the intervals with the current lower bound,
  \<open>count_upper\<close> counts those that must go left.
\<close>

function next_lower :: "split_interval list \<Rightarrow> flt \<Rightarrow> flt \<Rightarrow> nat \<Rightarrow> flt \<times> nat" where
  "next_lower L rLower lUpper i1 =
     (if i1 < length L \<and> (flt_eq rLower (lower (L ! i1)) \<or> flt_isnan (lower (L ! i1)))
      then next_lower L rLower (flt_Max lUpper (upper (L ! i1))) (i1 + 1)
      else (lUpper, i1))"
  by pat_completeness auto
termination by (relation "measure (\<lambda>(L, _, _, i1). length L - i1)") auto

function count_upper :: "split_interval list \<Rightarrow> flt \<Rightarrow> nat \<Rightarrow> nat" where
  "count_upper U lUpper i2 = (if i2 < length U \<and> flt_le (upper (U ! i2)) lUpper then count_upper U lUpper (i2 + 1) else i2)"
  by pat_completeness auto
termination by (relation "measure (\<lambda>(U, _, i2). length U - i2)") auto

declare next_lower.simps [simp del] count_upper.simps [simp del]

lemma next_lower_index: "next_lower L r l i = (l', i') \<Longrightarrow> i \<le> i' \<and> (i' = i \<or> i' \<le> length L) \<and>
   (i' < length L \<longrightarrow> \<not> flt_eq r (lower (L ! i')) \<and> \<not> flt_isnan (lower (L ! i')))"
proof (induction L r l i rule: next_lower.induct)
  case (1 L r l i)
  show ?case
  proof (cases "i < length L \<and> (flt_eq r (lower (L ! i)) \<or> flt_isnan (lower (L ! i)))")
    case True
    then show ?thesis using 1 by (fastforce simp: next_lower.simps[of L r l i])
  next
    case False
    then show ?thesis using "1.prems" by (auto simp: next_lower.simps[of L r l i])
  qed
qed

lemma next_lower_advance:
  "next_lower L r l i = (l', i') \<Longrightarrow> i < length L \<Longrightarrow> flt_eq r (lower (L ! i)) \<or> flt_isnan (lower (L ! i)) \<Longrightarrow> i < i'"
  using next_lower_index[of L r "flt_Max l (upper (L ! i))" "i + 1" l' i'] by (simp add: next_lower.simps[of L r l i])

function lower_splits :: "split_interval list \<Rightarrow> split_interval list \<Rightarrow> nat \<Rightarrow> consider_split_context \<Rightarrow>
    flt \<Rightarrow> flt \<Rightarrow> nat \<Rightarrow> nat \<Rightarrow> consider_split_context" where
  "lower_splits L U d context rLower lUpper i1 i2 =
     (let r = next_lower L rLower lUpper i1; lUpper = fst r; i1 = snd r
      in if length L \<le> i1 then context
         else
           let rLower = lower (L ! i1); i2 = count_upper U lUpper i2
           in lower_splits L U d (g_box_consider_split context d rLower i1 lUpper i2) rLower lUpper i1 i2)"
  by pat_completeness auto
termination
proof (relation "measure (\<lambda>(L, U, d, context, rLower, lUpper, i1, i2).
    2 * (length L - i1) + (if i1 < length L \<and> flt_eq rLower (lower (L ! i1)) then 0 else 1))", goal_cases)
  case (2 L U d ctx rLower lUpper i1 i2 r lUpper' i1' rLower' i2')
  obtain a b where ab: "next_lower L rLower lUpper i1 = (a, b)" by fastforce
  have b: "i1' = b" "rLower' = lower (L ! b)" using 2 ab by simp_all
  have "i1 \<le> b" "b < length L" "\<not> flt_isnan (lower (L ! b))" "\<not> flt_eq rLower (lower (L ! b))"
    using next_lower_index[OF ab] 2 b by auto
  then show ?case by (cases "i1 = b") (auto simp: b flt_eq_def)
qed simp

text \<open>The loop over the upper bounds of the left group. \<open>j1\<close> and \<open>j2\<close> are the indices plus one, so that 0 is the end.\<close>

fun next_upper :: "split_interval list \<Rightarrow> flt \<Rightarrow> flt \<Rightarrow> nat \<Rightarrow> flt \<times> nat" where
  "next_upper U lUpper rLower 0 = (rLower, 0)"
| "next_upper U lUpper rLower (Suc i2) =
     (if flt_eq lUpper (upper (U ! i2)) \<or> flt_isnan (upper (U ! i2))
      then next_upper U lUpper (flt_Min rLower (lower (U ! i2))) i2 else (rLower, Suc i2))"

fun count_lower :: "split_interval list \<Rightarrow> flt \<Rightarrow> nat \<Rightarrow> nat" where
  "count_lower L rLower 0 = 0"
| "count_lower L rLower (Suc i1) = (if flt_le rLower (lower (L ! i1)) then count_lower L rLower i1 else Suc i1)"

lemma next_upper_index: "next_upper U l r j = (r', j') \<Longrightarrow> j' \<le> j \<and>
   (0 < j' \<longrightarrow> \<not> flt_eq l (upper (U ! (j' - 1))) \<and> \<not> flt_isnan (upper (U ! (j' - 1))))"
proof (induction U l r j rule: next_upper.induct)
  case (2 U l r i)
  show ?case
  proof (cases "flt_eq l (upper (U ! i)) \<or> flt_isnan (upper (U ! i))")
    case True
    then show ?thesis using 2 by fastforce
  next
    case False
    then show ?thesis using "2.prems" by auto
  qed
qed simp

lemma next_upper_advance:
  "next_upper U l r j = (r', j') \<Longrightarrow> 0 < j \<Longrightarrow> flt_eq l (upper (U ! (j - 1))) \<or> flt_isnan (upper (U ! (j - 1))) \<Longrightarrow> j' < j"
  using next_upper_index[of U l "flt_Min r (lower (U ! (j - 1)))" "j - 1" r' j'] by (cases j) auto

function upper_splits :: "split_interval list \<Rightarrow> split_interval list \<Rightarrow> nat \<Rightarrow> consider_split_context \<Rightarrow>
    flt \<Rightarrow> flt \<Rightarrow> nat \<Rightarrow> nat \<Rightarrow> consider_split_context" where
  "upper_splits L U d context rLower lUpper j1 j2 =
     (let r = next_upper U lUpper rLower j2; rLower = fst r; j2 = snd r
      in if j2 = 0 then context
         else
           let lUpper = upper (U ! (j2 - 1)); j1 = count_lower L rLower j1
           in upper_splits L U d (g_box_consider_split context d rLower j1 lUpper j2) rLower lUpper j1 j2)"
  by pat_completeness auto
termination
proof (relation "measure (\<lambda>(L, U, d, context, rLower, lUpper, j1, j2).
    2 * j2 + (if 0 < j2 \<and> flt_eq lUpper (upper (U ! (j2 - 1))) then 0 else 1))", goal_cases)
  case (2 L U d ctx rLower lUpper j1 j2 r rLower' j2' lUpper' j1')
  obtain a b where ab: "next_upper U lUpper rLower j2 = (a, b)" by fastforce
  have b: "j2' = b" "lUpper' = upper (U ! (b - 1))" using 2 ab by simp_all
  have "b \<le> j2" "0 < b" "\<not> flt_isnan (upper (U ! (b - 1)))" "\<not> flt_eq lUpper (upper (U ! (b - 1)))"
    using next_upper_index[OF ab] 2 b by auto
  then show ?case by (cases "j2 = b") (auto simp: b flt_eq_def)
qed simp

declare lower_splits.simps [simp del] upper_splits.simps [simp del]

definition project :: "nat \<Rightarrow> box2df \<Rightarrow> split_interval" where
  "project d box = (if d = 0 then \<lparr>lower = b2_xmin box, upper = b2_xmax box\<rparr> else \<lparr>lower = b2_ymin box, upper = b2_ymax box\<rparr>)"

type_synonym 'a sorter = "('a \<Rightarrow> 'a \<Rightarrow> int) \<Rightarrow> 'a list \<Rightarrow> 'a list"

definition consider_axis :: "split_interval sorter \<Rightarrow> box2df list \<Rightarrow> nat \<Rightarrow> consider_split_context \<Rightarrow> consider_split_context" where
  "consider_axis qsort entryvec d context =
     (let intervals = map (project d) entryvec; n = length entryvec;
          intervalsLower = qsort interval_cmp_lower intervals; intervalsUpper = qsort interval_cmp_upper intervals;
          context = lower_splits intervalsLower intervalsUpper d context
            (lower (intervalsLower ! 0)) (lower (intervalsUpper ! 0)) 0 0
      in upper_splits intervalsLower intervalsUpper d context
           (upper (intervalsLower ! (n - 1))) (upper (intervalsUpper ! (n - 1))) n n)"

text \<open>The bounding box of the page, and the split that both axes leave selected.\<close>

definition initial_context :: "box2df list \<Rightarrow> consider_split_context" where
  "initial_context entryvec =
     \<lparr>entriesCount = length entryvec, boundingBox = fold (\<lambda>box b. adjustBox b box) (tl entryvec) (hd entryvec),
      cx_first = True, leftUpper = 0, rightLower = 0, cx_ratio = 0, cx_overlap = 0, cx_dim = 0, cx_range = 0\<rparr>"

definition selected_split :: "split_interval sorter \<Rightarrow> box2df list \<Rightarrow> consider_split_context" where
  "selected_split qsort entryvec = fold (consider_axis qsort entryvec) [0, 1] (initial_context entryvec)"

section \<open>Distributing the entries\<close>

record common_entry =
  ce_index :: nat
  ce_delta :: flt

record groups =
  left :: "nat list"
  right :: "nat list"
  leftBox :: box2df
  rightBox :: box2df

definition PLACE_LEFT :: "box2df \<Rightarrow> nat \<Rightarrow> groups \<Rightarrow> groups" where
  "PLACE_LEFT box off v =
     v\<lparr>leftBox := (if 0 < length (left v) then adjustBox (leftBox v) box else box), left := left v @ [off]\<rparr>"

definition PLACE_RIGHT :: "box2df \<Rightarrow> nat \<Rightarrow> groups \<Rightarrow> groups" where
  "PLACE_RIGHT box off v =
     v\<lparr>rightBox := (if 0 < length (right v) then adjustBox (rightBox v) box else box), right := right v @ [off]\<rparr>"

definition place_entry :: "box2df list \<Rightarrow> consider_split_context \<Rightarrow> nat \<Rightarrow> groups \<times> nat list \<Rightarrow> (groups \<times> nat list) res" where
  "place_entry entryvec context i = (\<lambda>(v, common).
     let box = key_at entryvec i; p = project (cx_dim context) box
     in if flt_le (upper p) (leftUpper context) \<or> flt_isnan (upper p)
        then if flt_le (rightLower context) (lower p) \<or> flt_isnan (lower p) then Inr (v, common @ [i])
          else Inr (PLACE_LEFT box i v, common)
        else if \<not> flt_le (rightLower context) (lower p) then Inl (LwError ''Assert(lower >= context.rightLower)'')
        else Inr (PLACE_RIGHT box i v, common))"

definition flt_Abs :: "flt \<Rightarrow> flt" where
  "flt_Abs x = (if flt_le 0 x then x else x XOR 0x80000000)"

definition common_entry_cmp :: "common_entry \<Rightarrow> common_entry \<Rightarrow> int" where
  "common_entry_cmp i1 i2 =
     (if flt_lt (ce_delta i1) (ce_delta i2) then -1 else if flt_lt (ce_delta i2) (ce_delta i1) then 1 else 0)"

text \<open>\<open>k\<close> common entries are left, this one included.\<close>

definition place_common :: "box2df list \<Rightarrow> int \<Rightarrow> nat \<Rightarrow> common_entry \<Rightarrow> groups \<Rightarrow> groups" where
  "place_common entryvec m k ce v =
     (let box = key_at entryvec (ce_index ce)
      in if int (length (left v) + k) \<le> m then PLACE_LEFT box (ce_index ce) v
         else if int (length (right v) + k) \<le> m then PLACE_RIGHT box (ce_index ce) v
         else if flt_lt (box2df_penalty (leftBox v) box) (box2df_penalty (rightBox v) box)
         then PLACE_LEFT box (ce_index ce) v else PLACE_RIGHT box (ce_index ce) v)"

primrec place_commons :: "box2df list \<Rightarrow> int \<Rightarrow> common_entry list \<Rightarrow> groups \<Rightarrow> groups" where
  "place_commons entryvec m [] v = v"
| "place_commons entryvec m (ce # ces) v = place_commons entryvec m ces (place_common entryvec m (Suc (length ces)) ce v)"

definition gserialized_gist_picksplit_2d ::
  "split_interval sorter \<Rightarrow> common_entry sorter \<Rightarrow> box2df list \<Rightarrow> split_vec \<Rightarrow> split_vec res" where
  "gserialized_gist_picksplit_2d qsort qsort' entryvec v =
     (if entryvec = [] then Inl MemFault
      else
        let context = selected_split qsort entryvec; n = length entryvec; z = \<lparr>b2_xmin = 0, b2_xmax = 0, b2_ymin = 0, b2_ymax = 0\<rparr>
        in if cx_first context then fallbackSplit entryvec v
           else rbind (fold (\<lambda>i r. rbind r (place_entry entryvec context i)) [1..<n + 1]
                  (Inr (\<lparr>left = [], right = [], leftBox = z, rightBox = z\<rparr>, []))) (\<lambda>(g, common).
             let m = dbl_ceil (dbl_mul LIMIT_RATIO (dbl_of_int (int n)));
                 commonEntries = map (\<lambda>i. \<lparr>ce_index = i, ce_delta = flt_Abs (flt_sub
                   (box2df_penalty (leftBox g) (key_at entryvec i)) (box2df_penalty (rightBox g) (key_at entryvec i)))\<rparr>) common;
                 g = place_commons entryvec m (qsort' common_entry_cmp commonEntries) g
             in Inr (v\<lparr>spl_left := left g, spl_right := right g, spl_ldatum := Some (leftBox g),
                    spl_rdatum := Some (rightBox g)\<rparr>)))"

section \<open>Every entry fits\<close>

text \<open>What is required of \<open>qsort\<close>: it permutes the array and puts it in order.\<close>

definition sorts :: "'a sorter \<Rightarrow> ('a \<Rightarrow> 'a \<Rightarrow> int) \<Rightarrow> bool" where
  "sorts qs cmp \<longleftrightarrow> (\<forall>xs. mset (qs cmp xs) = mset xs \<and> sorted_wrt (\<lambda>a b. cmp a b \<le> 0) (qs cmp xs))"

text \<open>The intervals of the keys, and what a split has to do for each.\<close>

definition iv_ok :: "split_interval \<Rightarrow> bool" where
  "iv_ok p \<longleftrightarrow> flt_isnan (lower p) \<and> flt_isnan (upper p) \<or> flt_le (lower p) (upper p)"

definition iv_fits :: "flt \<Rightarrow> flt \<Rightarrow> split_interval \<Rightarrow> bool" where
  "iv_fits r l p \<longleftrightarrow> flt_isnan (upper p) \<or> flt_le (upper p) l \<or> flt_le r (lower p)"

lemma iv_nan: "iv_ok p \<Longrightarrow> flt_isnan (lower p) \<longleftrightarrow> flt_isnan (upper p)"
  by (auto simp: iv_ok_def flt_order)

lemma project_ok: "box2df_entry k \<Longrightarrow> iv_ok (project d k)"
  by (auto simp: box2df_entry_def box2df_void_def box2df_proper_def iv_ok_def project_def)

text \<open>Every interval fits on a side, and there is one for either.\<close>

definition split_sides :: "flt \<Rightarrow> flt \<Rightarrow> split_interval set \<Rightarrow> bool" where
  "split_sides r l P \<longleftrightarrow> (\<forall>p \<in> P. iv_fits r l p) \<and> (\<exists>p \<in> P. flt_le r (lower p)) \<and> (\<exists>p \<in> P. flt_le (upper p) l)"

definition split_ok :: "box2df list \<Rightarrow> consider_split_context \<Rightarrow> bool" where
  "split_ok entryvec context \<longleftrightarrow> \<not> cx_first context \<longrightarrow>
     split_sides (rightLower context) (leftUpper context) (project (cx_dim context) ` set entryvec)"

lemma consider_split_ok:
  assumes "split_ok entryvec context" and "split_sides r l (project d ` set entryvec)"
  shows "split_ok entryvec (g_box_consider_split context d r m l m')"
  using assms by (simp add: g_box_consider_split_def Let_def split_ok_def)

lemma max_le: "flt_le x l \<Longrightarrow> \<not> flt_isnan u \<Longrightarrow> flt_le x (flt_Max l u)" "\<not> flt_isnan u \<Longrightarrow> flt_le u (flt_Max l u)"
  by (auto simp: flt_Max_def flt_order)

lemma min_le: "flt_le r x \<Longrightarrow> \<not> flt_isnan u \<Longrightarrow> flt_le (flt_Min r u) x" "\<not> flt_isnan u \<Longrightarrow> flt_le (flt_Min r u) u"
  by (auto simp: flt_Min_def flt_order)

text \<open>The intervals stepped over end at the upper bound of the left group, unless there were empty ones among them.\<close>

definition below_upper :: "split_interval list \<Rightarrow> flt \<Rightarrow> nat \<Rightarrow> bool" where
  "below_upper L l i \<longleftrightarrow> ((\<forall>j < i. \<not> flt_isnan (upper (L ! j))) \<longrightarrow> (\<forall>j < i. flt_le (upper (L ! j)) l))"

lemma next_lower_below: "below_upper L l i \<Longrightarrow> next_lower L r l i = (l', i') \<Longrightarrow> below_upper L l' i'"
proof (induction L r l i rule: next_lower.induct)
  case (1 L r l i)
  show ?case
  proof (cases "i < length L \<and> (flt_eq r (lower (L ! i)) \<or> flt_isnan (lower (L ! i)))")
    case True
    have "below_upper L (flt_Max l (upper (L ! i))) (i + 1)"
      using "1.prems"(1) max_le by (auto simp: below_upper_def less_Suc_eq)
    then show ?thesis using 1 True by (simp add: next_lower.simps[of L r l i])
  next
    case False
    then show ?thesis using "1.prems" by (auto simp: next_lower.simps[of L r l i])
  qed
qed

lemma sorted_lower:
  assumes "sorted_wrt (\<lambda>a b. interval_cmp_lower a b \<le> 0) L" and "i < length L" and "\<not> flt_isnan (lower (L ! i))"
  shows "j < i \<Longrightarrow> \<not> flt_isnan (lower (L ! j))"
    and "i \<le> j \<Longrightarrow> j < length L \<Longrightarrow> flt_isnan (lower (L ! j)) \<or> flt_le (lower (L ! i)) (lower (L ! j))"
proof -
  show "\<not> flt_isnan (lower (L ! j))" if "j < i"
    using sorted_wrt_nth_less[OF assms(1) that assms(2)] assms(3) by (auto simp: interval_cmp_lower_def split: if_splits)
  show "flt_isnan (lower (L ! j)) \<or> flt_le (lower (L ! i)) (lower (L ! j))" if "i \<le> j" "j < length L"
  proof (cases "i = j")
    case False
    then have "interval_cmp_lower (L ! i) (L ! j) \<le> 0" using sorted_wrt_nth_less[OF assms(1)] that by simp
    then show ?thesis using assms(3) by (auto simp: interval_cmp_lower_def flt_order split: if_splits)
  qed (use assms(3) in \<open>simp add: flt_order\<close>)
qed

lemma lower_splits_ok:
  "list_all iv_ok L \<Longrightarrow> sorted_wrt (\<lambda>a b. interval_cmp_lower a b \<le> 0) L \<Longrightarrow> set L = project d ` set entryvec \<Longrightarrow>
   split_ok entryvec context \<Longrightarrow> below_upper L l i1 \<Longrightarrow>
   0 < i1 \<or> L = [] \<or> flt_eq r (lower (L ! 0)) \<or> flt_isnan (lower (L ! 0)) \<Longrightarrow>
   split_ok entryvec (lower_splits L U d context r l i1 i2)"
proof (induction L U d "context" r l i1 i2 rule: lower_splits.induct)
  case (1 L U d ctx r l i1 i2)
  obtain l' i where n: "next_lower L r l i1 = (l', i)" by fastforce
  note below = next_lower_below[OF "1.prems"(5) n]
  show ?case
  proof (cases "length L \<le> i")
    case True
    then show ?thesis using "1.prems"(4) n by (simp add: lower_splits.simps[of L U d ctx r l i1 i2])
  next
    case False
    then have i: "i < length L" "\<not> flt_isnan (lower (L ! i))" using next_lower_index[OF n] by auto
    have iv: "iv_ok (L ! j)" if "j < length L" for j using "1.prems"(1) that by (simp add: list_all_length)
    have pos: "0 < i"
    proof (cases "i1 = 0")
      case True
      then show ?thesis using next_lower_advance[OF n] "1.prems"(6) i(1) by (cases L) auto
    qed (use next_lower_index[OF n] in simp)
    have low: "\<not> flt_isnan (upper (L ! k))" if "k < i" for k
      using sorted_lower(1)[OF "1.prems"(2) i that] iv_nan[OF iv[of k]] that i by simp
    have fits: "iv_fits (lower (L ! i)) l' p" if p: "p \<in> set L" for p
    proof -
      obtain j where j: "j < length L" "p = L ! j" using p by (auto simp: in_set_conv_nth)
      show ?thesis
      proof (cases "j < i")
        case True
        then show ?thesis using below j low by (auto simp: below_upper_def iv_fits_def)
      next
        case False
        then show ?thesis using sorted_lower(2)[OF "1.prems"(2) i _ j(1)] iv_nan[OF iv[OF j(1)]] j by (auto simp: iv_fits_def)
      qed
    qed
    have "flt_le (upper (L ! 0)) l'" using below low pos by (auto simp: below_upper_def)
    moreover have "flt_le (lower (L ! i)) (lower (L ! i))" using i(2) by (simp add: flt_order)
    ultimately have "split_sides (lower (L ! i)) l' (project d ` set entryvec)"
      using fits pos i(1) nth_mem[of 0 L] nth_mem[of i L] unfolding split_sides_def "1.prems"(3)[symmetric] by fastforce
    then have "split_ok entryvec (g_box_consider_split ctx d (lower (L ! i)) i l' (count_upper U l' i2))"
      using "1.prems"(4) by (intro consider_split_ok)
    then show ?thesis
      using "1.IH"[OF refl refl refl _ refl refl] "1.prems" below False n pos
      by (simp add: lower_splits.simps[of L U d ctx r l i1 i2] Let_def)
  qed
qed

text \<open>The same from above.\<close>

definition above_lower :: "split_interval list \<Rightarrow> flt \<Rightarrow> nat \<Rightarrow> bool" where
  "above_lower U r j \<longleftrightarrow> ((\<forall>i. j \<le> i \<and> i < length U \<longrightarrow> \<not> flt_isnan (lower (U ! i))) \<longrightarrow>
     (\<forall>i. j \<le> i \<and> i < length U \<longrightarrow> flt_le r (lower (U ! i))))"

lemma next_upper_above: "above_lower U r j \<Longrightarrow> j \<le> length U \<Longrightarrow> next_upper U l r j = (r', j') \<Longrightarrow> above_lower U r' j'"
proof (induction U l r j rule: next_upper.induct)
  case (2 U l r i)
  show ?case
  proof (cases "flt_eq l (upper (U ! i)) \<or> flt_isnan (upper (U ! i))")
    case True
    have "above_lower U (flt_Min r (lower (U ! i))) i"
      unfolding above_lower_def
    proof (intro impI allI)
      fix k assume h: "\<forall>k. i \<le> k \<and> k < length U \<longrightarrow> \<not> flt_isnan (lower (U ! k))" "i \<le> k \<and> k < length U"
      then have "\<not> flt_isnan (lower (U ! i))" using 2 by auto
      moreover have "flt_le r (lower (U ! k))" if "k \<noteq> i" using "2.prems"(1) h that by (auto simp: above_lower_def)
      ultimately show "flt_le (flt_Min r (lower (U ! i))) (lower (U ! k))" using min_le by (cases "k = i") auto
    qed
    then show ?thesis using 2 True by simp
  next
    case False
    then show ?thesis using "2.prems" by auto
  qed
qed simp

lemma sorted_upper:
  assumes "sorted_wrt (\<lambda>a b. interval_cmp_upper a b \<le> 0) U" and "i < length U" and "\<not> flt_isnan (upper (U ! i))"
  shows "i \<le> j \<Longrightarrow> j < length U \<Longrightarrow> \<not> flt_isnan (upper (U ! j))"
    and "j \<le> i \<Longrightarrow> flt_isnan (upper (U ! j)) \<or> flt_le (upper (U ! j)) (upper (U ! i))"
proof -
  show "\<not> flt_isnan (upper (U ! j))" if "i \<le> j" "j < length U"
    using sorted_wrt_nth_less[OF assms(1), of i j] assms(3) that by (cases "i = j") (auto simp: interval_cmp_upper_def split: if_splits)
  show "flt_isnan (upper (U ! j)) \<or> flt_le (upper (U ! j)) (upper (U ! i))" if "j \<le> i"
  proof (cases "i = j")
    case False
    then have "interval_cmp_upper (U ! j) (U ! i) \<le> 0" using sorted_wrt_nth_less[OF assms(1)] that assms(2) by simp
    then show ?thesis using assms(3) by (auto simp: interval_cmp_upper_def flt_order split: if_splits)
  qed (use assms(3) in \<open>simp add: flt_order\<close>)
qed

lemma upper_splits_ok:
  "list_all iv_ok U \<Longrightarrow> sorted_wrt (\<lambda>a b. interval_cmp_upper a b \<le> 0) U \<Longrightarrow> set U = project d ` set entryvec \<Longrightarrow>
   split_ok entryvec context \<Longrightarrow> above_lower U r j2 \<Longrightarrow> j2 \<le> length U \<Longrightarrow>
   j2 < length U \<or> U = [] \<or> flt_eq l (upper (U ! (j2 - 1))) \<or> flt_isnan (upper (U ! (j2 - 1))) \<Longrightarrow>
   split_ok entryvec (upper_splits L U d context r l j1 j2)"
proof (induction L U d "context" r l j1 j2 rule: upper_splits.induct)
  case (1 L U d ctx r l j1 j2)
  obtain r' j where n: "next_upper U l r j2 = (r', j)" by fastforce
  note above = next_upper_above[OF "1.prems"(5,6) n]
  show ?case
  proof (cases "j = 0")
    case True
    then show ?thesis using "1.prems"(4) n by (simp add: upper_splits.simps[of L U d ctx r l j1 j2])
  next
    case False
    then have i: "j - 1 < length U" "\<not> flt_isnan (upper (U ! (j - 1)))" "j \<le> length U"
      using next_upper_index[OF n] "1.prems"(6) by auto
    have iv: "iv_ok (U ! k)" if "k < length U" for k using "1.prems"(1) that by (simp add: list_all_length)
    have pos: "j < length U" using next_upper_advance[OF n] "1.prems"(6,7) next_upper_index[OF n] i by fastforce
    have high: "\<not> flt_isnan (lower (U ! k))" if "j \<le> k" "k < length U" for k
      using sorted_upper(1)[OF "1.prems"(2) i(1,2), of k] iv_nan[OF iv[of k]] that by simp
    have fits: "iv_fits r' (upper (U ! (j - 1))) p" if p: "p \<in> set U" for p
    proof -
      obtain k where k: "k < length U" "p = U ! k" using p by (auto simp: in_set_conv_nth)
      show ?thesis
      proof (cases "j \<le> k")
        case True
        then show ?thesis using above k high by (auto simp: above_lower_def iv_fits_def)
      next
        case False
        then show ?thesis using sorted_upper(2)[OF "1.prems"(2) i(1,2), of k] k by (auto simp: iv_fits_def)
      qed
    qed
    have "flt_le r' (lower (U ! j))" using above high pos by (auto simp: above_lower_def)
    moreover have "flt_le (upper (U ! (j - 1))) (upper (U ! (j - 1)))" using i(2) by (simp add: flt_order)
    ultimately have "split_sides r' (upper (U ! (j - 1))) (project d ` set entryvec)"
      using fits pos i(1) nth_mem[of j U] nth_mem[of "j - 1" U] unfolding split_sides_def "1.prems"(3)[symmetric] by fastforce
    then have "split_ok entryvec (g_box_consider_split ctx d r' (count_lower L r' j1) (upper (U ! (j - 1))) j)"
      using "1.prems"(4) by (intro consider_split_ok)
    then show ?thesis
      using "1.IH"[OF refl refl refl _ refl refl] "1.prems" above False n i pos
      by (simp add: upper_splits.simps[of L U d ctx r l j1 j2] Let_def)
  qed
qed

lemma consider_axis_ok:
  assumes "sorts qsort interval_cmp_lower" and "sorts qsort interval_cmp_upper" and "list_all box2df_entry entryvec"
    and "split_ok entryvec context"
  shows "split_ok entryvec (consider_axis qsort entryvec d context)"
proof -
  let ?iv = "map (project d) entryvec"
  let ?L = "qsort interval_cmp_lower ?iv" and ?U = "qsort interval_cmp_upper ?iv"
  have m: "mset ?L = mset ?iv" "mset ?U = mset ?iv" and s: "sorted_wrt (\<lambda>a b. interval_cmp_lower a b \<le> 0) ?L"
    "sorted_wrt (\<lambda>a b. interval_cmp_upper a b \<le> 0) ?U"
    using assms(1,2) by (simp_all add: sorts_def)
  note set = m[THEN mset_eq_setD] and len = m[THEN mset_eq_length]
  have ok: "list_all iv_ok ?L" "list_all iv_ok ?U" using set assms(3) by (auto simp: list_all_iff project_ok)
  have "above_lower ?U r (length entryvec)" for r using len by (auto simp: above_lower_def)
  moreover have "flt_eq x x \<or> flt_isnan x" for x by (auto simp: flt_eq_def)
  ultimately show ?thesis
    unfolding consider_axis_def Let_def using len set
    by (intro upper_splits_ok[OF ok(2) s(2)] lower_splits_ok[OF ok(1) s(1)] assms(4)) (simp_all add: below_upper_def)
qed

lemma selected_split_ok:
  assumes "sorts qsort interval_cmp_lower" and "sorts qsort interval_cmp_upper" and "list_all box2df_entry entryvec"
  shows "split_ok entryvec (selected_split qsort entryvec)"
proof -
  have "split_ok entryvec (initial_context entryvec)" by (simp add: split_ok_def initial_context_def)
  then show ?thesis by (simp add: selected_split_def consider_axis_ok[OF assms])
qed

section \<open>The groups\<close>

lemma adjust_merge: "adjustBox b a = box2df_merge b a"
  by (simp add: adjustBox_def box2df_merge_def Let_def)

text \<open>The boxes of the groups cover what is covered by the keys in them.\<close>

definition groups_cover :: "box2df list \<Rightarrow> groups \<Rightarrow> bool" where
  "groups_cover entryvec v \<longleftrightarrow>
     (\<forall>i \<in> set (left v). \<forall>x. box2df_covers (key_at entryvec i) x \<longrightarrow> box2df_covers (leftBox v) x) \<and>
     (\<forall>i \<in> set (right v). \<forall>x. box2df_covers (key_at entryvec i) x \<longrightarrow> box2df_covers (rightBox v) x)"

lemma place_cover:
  "groups_cover entryvec v \<Longrightarrow> groups_cover entryvec (PLACE_LEFT (key_at entryvec i) i v)"
  "groups_cover entryvec v \<Longrightarrow> groups_cover entryvec (PLACE_RIGHT (key_at entryvec i) i v)"
  by (auto simp: groups_cover_def PLACE_LEFT_def PLACE_RIGHT_def adjust_merge merge_covers)

lemma place_offsets [simp]:
  "left (PLACE_LEFT b i v) = left v @ [i]" "right (PLACE_LEFT b i v) = right v"
  "left (PLACE_RIGHT b i v) = left v" "right (PLACE_RIGHT b i v) = right v @ [i]"
  by (simp_all add: PLACE_LEFT_def PLACE_RIGHT_def)

lemma place_entry_ok:
  assumes "split_ok entryvec context" and "\<not> cx_first context" and "key_at entryvec i \<in> set entryvec"
    and "groups_cover entryvec v"
  shows "\<exists>v' common'. place_entry entryvec context i (v, common) = Inr (v', common') \<and> groups_cover entryvec v' \<and>
    mset (left v') + mset (right v') + mset common' = mset (left v) + mset (right v) + mset common + {#i#}"
  using assms(1-3) place_cover[OF assms(4), of i] assms(4)
  by (auto simp: place_entry_def Let_def split_ok_def split_sides_def iv_fits_def)

lemma place_entries_ok:
  assumes "split_ok entryvec context" and "\<not> cx_first context"
  shows "(\<And>i. i \<in> set is \<Longrightarrow> key_at entryvec i \<in> set entryvec) \<Longrightarrow> groups_cover entryvec v \<Longrightarrow>
    \<exists>v' common'. fold (\<lambda>i r. rbind r (place_entry entryvec context i)) is (Inr (v, common)) = Inr (v', common') \<and>
      groups_cover entryvec v' \<and>
      mset (left v') + mset (right v') + mset common' = mset (left v) + mset (right v) + mset common + mset is"
proof (induction "is" arbitrary: v common)
  case (Cons i js)
  obtain v1 c1 where 1: "place_entry entryvec context i (v, common) = Inr (v1, c1)" "groups_cover entryvec v1"
    "mset (left v1) + mset (right v1) + mset c1 = mset (left v) + mset (right v) + mset common + {#i#}"
    using place_entry_ok[OF assms _ Cons.prems(2), of i common] Cons.prems(1) by auto
  obtain v2 c2 where "fold (\<lambda>i r. rbind r (place_entry entryvec context i)) js (Inr (v1, c1)) = Inr (v2, c2)"
    "groups_cover entryvec v2" "mset (left v2) + mset (right v2) + mset c2 = mset (left v1) + mset (right v1) + mset c1 + mset js"
    using Cons.IH[of v1 c1] Cons.prems(1) 1(2) by auto
  then show ?case using 1 by simp
qed simp

text \<open>An entry that fits on a side ends on that side or among the common ones.\<close>

definition on_side :: "consider_split_context \<Rightarrow> split_interval \<Rightarrow> nat \<Rightarrow> groups \<times> nat list \<Rightarrow> bool" where
  "on_side context p i = (\<lambda>(v, common).
     (flt_le (upper p) (leftUpper context) \<longrightarrow> i \<in> set (left v) \<union> set common) \<and>
     (flt_le (rightLower context) (lower p) \<longrightarrow> i \<in> set (right v) \<union> set common))"

lemma place_entry_sides:
  "place_entry entryvec context i vc = Inr vc' \<Longrightarrow> on_side context (project (cx_dim context) (key_at entryvec i)) i vc'"
  "place_entry entryvec context i vc = Inr vc' \<Longrightarrow> on_side context p j vc \<Longrightarrow> on_side context p j vc'"
  by (auto simp: place_entry_def on_side_def Let_def split: if_splits prod.splits)

lemma place_entries_sides:
  "fold (\<lambda>i r. rbind r (place_entry entryvec context i)) is (Inr vc) = Inr vc' \<Longrightarrow>
   (\<forall>i \<in> set is. on_side context (project (cx_dim context) (key_at entryvec i)) i vc') \<and>
   (\<forall>p j. on_side context p j vc \<longrightarrow> on_side context p j vc')"
proof (induction "is" arbitrary: vc)
  case (Cons i js)
  have e: "fold (\<lambda>i r. rbind r (place_entry entryvec context i)) js (Inl e) = Inl e" for e by (induction js) simp_all
  obtain vc1 where 1: "place_entry entryvec context i vc = Inr vc1"
    using Cons.prems e by (cases "place_entry entryvec context i vc") auto
  then show ?case using Cons.IH[of vc1] Cons.prems place_entry_sides[OF 1] by auto
qed simp

lemma place_commons_sides:
  "1 \<le> m \<Longrightarrow> m < int (length (left v) + length (right v) + length ces) \<Longrightarrow> left v \<noteq> [] \<or> ces \<noteq> [] \<Longrightarrow> right v \<noteq> [] \<or> ces \<noteq> [] \<Longrightarrow>
   left (place_commons entryvec m ces v) \<noteq> [] \<and> right (place_commons entryvec m ces v) \<noteq> []"
proof (induction ces arbitrary: v)
  case (Cons ce ces)
  let ?v = "place_common entryvec m (Suc (length ces)) ce v"
  have "length (left ?v) + length (right ?v) = Suc (length (left v) + length (right v))" by (simp add: place_common_def Let_def)
  moreover have "left ?v \<noteq> [] \<or> ces \<noteq> []" "right ?v \<noteq> [] \<or> ces \<noteq> []"
    using Cons.prems by (cases ces; auto simp: place_common_def Let_def)+
  ultimately show ?case using Cons.IH[of ?v] Cons.prems(1,2) by simp
qed simp

lemma place_commons_ok:
  "groups_cover entryvec v \<Longrightarrow> groups_cover entryvec (place_commons entryvec m ces v) \<and>
   mset (left (place_commons entryvec m ces v)) + mset (right (place_commons entryvec m ces v)) =
   mset (left v) + mset (right v) + mset (map ce_index ces)"
proof (induction ces arbitrary: v)
  case (Cons ce ces)
  let ?v = "place_common entryvec m (Suc (length ces)) ce v"
  have "groups_cover entryvec ?v \<and> mset (left ?v) + mset (right ?v) = mset (left v) + mset (right v) + {#ce_index ce#}"
    using place_cover[OF Cons.prems] by (simp add: place_common_def Let_def)
  then show ?case using Cons.IH[of ?v] by simp
qed simp

lemma fallback_step_sides:
  "spl_left (fallback_step entryvec i v) = spl_left v @ (if i \<le> length entryvec div 2 then [i] else [])"
  "spl_right (fallback_step entryvec i v) = spl_right v @ (if i \<le> length entryvec div 2 then [] else [i])"
  by (simp_all add: fallback_step_def Let_def)

lemma fallback_sides:
  "spl_left (fold (fallback_step entryvec) is v) = spl_left v @ filter (\<lambda>i. i \<le> length entryvec div 2) is"
  "spl_right (fold (fallback_step entryvec) is v) = spl_right v @ filter (\<lambda>i. \<not> i \<le> length entryvec div 2) is"
  by (induction "is" arbitrary: v) (simp_all add: fallback_step_sides)

lemma fallback_steps:
  "mset (spl_left (fold (fallback_step entryvec) is v)) + mset (spl_right (fold (fallback_step entryvec) is v))
     = mset (spl_left v) + mset (spl_right v) + mset is"
  by (induction "is" arbitrary: v) (simp_all add: fallback_step_def Let_def)

definition split_cover :: "box2df list \<Rightarrow> split_vec \<Rightarrow> bool" where
  "split_cover entryvec v \<longleftrightarrow>
     (\<forall>i \<in> set (spl_left v). \<exists>u. spl_ldatum v = Some u \<and> (\<forall>x. box2df_covers (key_at entryvec i) x \<longrightarrow> box2df_covers u x)) \<and>
     (\<forall>i \<in> set (spl_right v). \<exists>u. spl_rdatum v = Some u \<and> (\<forall>x. box2df_covers (key_at entryvec i) x \<longrightarrow> box2df_covers u x))"

lemma fallback_cover: "split_cover entryvec v \<Longrightarrow> split_cover entryvec (fold (fallback_step entryvec) is v)"
proof (induction "is" arbitrary: v)
  case (Cons i js)
  have "split_cover entryvec (fallback_step entryvec i v)"
    using Cons.prems by (fastforce simp: split_cover_def fallback_step_def Let_def grow_def adjust_merge merge_covers split: option.splits)
  then show ?case using Cons.IH by simp
qed simp

lemma offsets: "i \<in> set [1..<length entryvec + 1] \<Longrightarrow> key_at entryvec i \<in> set entryvec"
  by (auto simp: key_at_def intro!: nth_mem)

lemma key_offset: "p \<in> set entryvec \<Longrightarrow> \<exists>i \<in> set [1..<length entryvec + 1]. key_at entryvec i = p"
proof -
  assume "p \<in> set entryvec"
  then obtain i where "i < length entryvec" "p = entryvec ! i" by (auto simp: in_set_conv_nth)
  then show ?thesis by (intro bexI[of _ "i + 1"]) (auto simp: key_at_def)
qed

lemma split_cover_keys:
  assumes "split_cover entryvec v" and "mset (spl_left v) + mset (spl_right v) = mset [1..<length entryvec + 1]"
    and "list_all box2df_entry entryvec"
  shows "mset (spl_left v @ spl_right v) = mset [1..<length entryvec + 1] \<and>
    (\<forall>i \<in> set (spl_left v). \<not> box2df_is_empty (key_at entryvec i) \<longrightarrow>
      (\<exists>u. spl_ldatum v = Some u \<and> box2df_covers u (key_at entryvec i))) \<and>
    (\<forall>i \<in> set (spl_right v). \<not> box2df_is_empty (key_at entryvec i) \<longrightarrow>
      (\<exists>u. spl_rdatum v = Some u \<and> box2df_covers u (key_at entryvec i)))"
proof -
  have "set (spl_left v) \<union> set (spl_right v) = set [1..<length entryvec + 1]"
    using assms(2) by (metis set_mset_mset set_mset_union)
  then have "box2df_entry (key_at entryvec i)" if "i \<in> set (spl_left v) \<or> i \<in> set (spl_right v)" for i
    using that offsets[of i entryvec] assms(3) by (auto simp: list_all_iff)
  then have "box2df_covers (key_at entryvec i) (key_at entryvec i)"
    if "i \<in> set (spl_left v) \<or> i \<in> set (spl_right v)" "\<not> box2df_is_empty (key_at entryvec i)" for i
    using that gist2d.cover_self by blast
  then show ?thesis using assms(1,2) unfolding split_cover_def by (metis mset_append)
qed

lemma limit_ratio:
  assumes "2 \<le> n" and "n < 65536"
  shows "1 \<le> dbl_ceil (dbl_mul LIMIT_RATIO (dbl_of_int (int n)))" "dbl_ceil (dbl_mul LIMIT_RATIO (dbl_of_int (int n))) < int n"
proof -
  have "\<not> dbl_neg LIMIT_RATIO" "dbl_mag LIMIT_RATIO < 0x7FF0000000000000" "0 < fp_val 53 (dbl_mag LIMIT_RATIO)"
    "2 * fp_val 53 (dbl_mag LIMIT_RATIO) \<le> 2 ^ 1074" by (simp_all add: LIMIT_RATIO_def dbl_neg_def dbl_mag_def fp_val_def)
  then show "1 \<le> dbl_ceil (dbl_mul LIMIT_RATIO (dbl_of_int (int n)))"
    "dbl_ceil (dbl_mul LIMIT_RATIO (dbl_of_int (int n))) < int n" using ceil_fraction[of n LIMIT_RATIO] assms by simp_all
qed

text \<open>C37: A split of a page of n entries (n at least 2 and a 16-bit offset) loses no entry and leaves no page empty: whatever
  order \<open>qsort\<close> gives to equal elements, the entries, boxes or empty, are divided between the two pages, each to exactly one;
  either page gets an entry; the boxes of the pages cover the keys of their entries; every entry fits on one of the sides
  of the split that was selected, so the assertion never fails.\<close>

theorem picksplit_partition:
  assumes "sorts qsort interval_cmp_lower" and "sorts qsort interval_cmp_upper"
    and "\<And>xs. mset (qsort' common_entry_cmp xs) = mset xs"
    and "2 \<le> length entryvec" and "length entryvec < 65536" and "list_all box2df_entry entryvec" and "\<not> spl_ldatum_exists v" and "\<not> spl_rdatum_exists v"
  shows "\<exists>v'. gserialized_gist_picksplit_2d qsort qsort' entryvec v = Inr v' \<and>
    mset (spl_left v' @ spl_right v') = mset [1..<length entryvec + 1] \<and> spl_left v' \<noteq> [] \<and> spl_right v' \<noteq> [] \<and>
    (\<forall>i \<in> set (spl_left v'). \<not> box2df_is_empty (key_at entryvec i) \<longrightarrow>
      (\<exists>u. spl_ldatum v' = Some u \<and> box2df_covers u (key_at entryvec i))) \<and>
    (\<forall>i \<in> set (spl_right v'). \<not> box2df_is_empty (key_at entryvec i) \<longrightarrow>
      (\<exists>u. spl_rdatum v' = Some u \<and> box2df_covers u (key_at entryvec i)))"
proof -
  let ?c = "selected_split qsort entryvec" and ?is = "[1..<length entryvec + 1]"
  have ne: "entryvec \<noteq> []" using assms(4) by auto
  show ?thesis
  proof (cases "cx_first ?c")
    case True
    define w where "w = fold (fallback_step entryvec) ?is (v\<lparr>spl_left := [], spl_right := [], spl_ldatum := None, spl_rdatum := None\<rparr>)"
    let ?w = "w\<lparr>spl_ldatum_exists := False, spl_rdatum_exists := False\<rparr>"
    have "gserialized_gist_picksplit_2d qsort qsort' entryvec v = Inr ?w"
      unfolding gserialized_gist_picksplit_2d_def Let_def fallbackSplit_def w_def[symmetric] using ne assms(7,8) True by simp
    moreover have "split_cover entryvec w" unfolding w_def by (rule fallback_cover) (simp add: split_cover_def)
    then have "split_cover entryvec ?w" by (simp add: split_cover_def)
    moreover have "mset (spl_left ?w) + mset (spl_right ?w) = mset ?is" using fallback_steps[of entryvec ?is] by (simp add: w_def)
    moreover have "1 \<in> set (spl_left w)" "length entryvec \<in> set (spl_right w)"
      unfolding w_def fallback_sides using assms(4) by auto
    then have "spl_left ?w \<noteq> []" "spl_right ?w \<noteq> []" by auto
    ultimately show ?thesis using split_cover_keys[OF _ _ assms(6), of ?w] by blast
  next
    case False
    let ?z = "\<lparr>b2_xmin = 0, b2_xmax = 0, b2_ymin = 0, b2_ymax = 0\<rparr>"
    obtain g common where g: "fold (\<lambda>i r. rbind r (place_entry entryvec ?c i)) ?is
        (Inr (\<lparr>left = [], right = [], leftBox = ?z, rightBox = ?z\<rparr>, [])) = Inr (g, common)"
      "groups_cover entryvec g" "mset (left g) + mset (right g) + mset common = mset ?is"
      using place_entries_ok[OF selected_split_ok[OF assms(1,2,6)] False offsets, of ?is
        "\<lparr>left = [], right = [], leftBox = ?z, rightBox = ?z\<rparr>" "[]"] by (auto simp: groups_cover_def)
    define ces where "ces = qsort' common_entry_cmp (map (\<lambda>i. \<lparr>ce_index = i, ce_delta = flt_Abs (flt_sub
        (box2df_penalty (leftBox g) (key_at entryvec i)) (box2df_penalty (rightBox g) (key_at entryvec i)))\<rparr>) common)"
    have ces: "mset (map ce_index ces) = mset common" unfolding ces_def by (simp add: assms(3) image_mset.compositionality comp_def)
    define g' where "g' = place_commons entryvec (dbl_ceil (dbl_mul LIMIT_RATIO (dbl_of_int (int (length entryvec))))) ces g"
    let ?w = "v\<lparr>spl_left := left g', spl_right := right g', spl_ldatum := Some (leftBox g'), spl_rdatum := Some (rightBox g')\<rparr>"
    have g': "groups_cover entryvec g'" "mset (left g') + mset (right g') = mset ?is"
      using place_commons_ok[OF g(2)] g(3) ces by (simp_all add: g'_def)
    obtain p q where "p \<in> set entryvec" "flt_le (rightLower ?c) (lower (project (cx_dim ?c) p))"
      "q \<in> set entryvec" "flt_le (upper (project (cx_dim ?c) q)) (leftUpper ?c)"
      using selected_split_ok[OF assms(1,2,6)] False by (auto simp: split_ok_def split_sides_def)
    then obtain i j where ij: "i \<in> set ?is" "flt_le (rightLower ?c) (lower (project (cx_dim ?c) (key_at entryvec i)))"
      "j \<in> set ?is" "flt_le (upper (project (cx_dim ?c) (key_at entryvec j))) (leftUpper ?c)"
      using key_offset by metis
    have "length ces = length common" using ces by (metis length_map size_mset)
    moreover have "left g \<noteq> [] \<or> common \<noteq> []" "right g \<noteq> [] \<or> common \<noteq> []"
      using place_entries_sides[OF g(1)] ij by (auto simp: on_side_def)
    moreover have "length (left g) + length (right g) + length common = length entryvec"
      using arg_cong[OF g(3), of size] by (simp del: upt_Suc)
    ultimately have "left g' \<noteq> [] \<and> right g' \<noteq> []"
      unfolding g'_def using limit_ratio[OF assms(4,5)] by (intro place_commons_sides) auto
    moreover have "gserialized_gist_picksplit_2d qsort qsort' entryvec v = Inr ?w"
      using ne False g(1) by (simp add: gserialized_gist_picksplit_2d_def Let_def flip: ces_def g'_def)
    moreover have "split_cover entryvec ?w" using g'(1) by (simp add: split_cover_def groups_cover_def)
    ultimately show ?thesis using split_cover_keys[OF _ _ assms(6), of ?w] g'(2) by simp
  qed
qed

text \<open>An insertion sort is a \<open>qsort\<close> of the kind required.\<close>

primrec insert_by :: "('a \<Rightarrow> 'a \<Rightarrow> int) \<Rightarrow> 'a \<Rightarrow> 'a list \<Rightarrow> 'a list" where
  "insert_by cmp x [] = [x]"
| "insert_by cmp x (y # ys) = (if cmp x y \<le> 0 then x # y # ys else y # insert_by cmp x ys)"

definition insertion_sort :: "'a sorter" where
  "insertion_sort cmp xs = foldr (insert_by cmp) xs []"

lemma insert_by_mset [simp]: "mset (insert_by cmp x ys) = add_mset x (mset ys)"
  by (induction ys) simp_all

lemma insertion_sort_mset: "mset (insertion_sort cmp xs) = mset xs"
  unfolding insertion_sort_def by (induction xs) simp_all

lemma insert_by_set [simp]: "set (insert_by cmp x ys) = insert x (set ys)"
  by (metis insert_by_mset set_mset_add_mset_insert set_mset_mset)

lemma insertion_sort_sorts:
  assumes key: "\<And>x y. cmp x y \<le> 0 \<longleftrightarrow> key x \<le> (key y :: int)"
  shows "sorts insertion_sort cmp"
proof -
  have ins: "sorted_wrt (\<lambda>a b. cmp a b \<le> 0) ys \<Longrightarrow> sorted_wrt (\<lambda>a b. cmp a b \<le> 0) (insert_by cmp x ys)" for x ys
    by (induction ys) (auto simp: key)
  have "sorted_wrt (\<lambda>a b. cmp a b \<le> 0) (insertion_sort cmp xs)" for xs
    unfolding insertion_sort_def by (induction xs) (auto intro: ins)
  then show ?thesis using insertion_sort_mset by (auto simp: sorts_def)
qed

lemma flt_key_bounds: "- 0x80000000 < flt_key f" "flt_key f < 0x80000000"
  using flt_mag_less[of f] by (auto simp: flt_key_def)

lemma interval_cmp_keys:
  "interval_cmp_lower x y \<le> 0 \<longleftrightarrow>
     (if flt_isnan (lower x) then 0x80000000 else flt_key (lower x)) \<le> (if flt_isnan (lower y) then 0x80000000 else flt_key (lower y))"
  "interval_cmp_upper x y \<le> 0 \<longleftrightarrow>
     (if flt_isnan (upper x) then - 0x80000000 else flt_key (upper x)) \<le> (if flt_isnan (upper y) then - 0x80000000 else flt_key (upper y))"
  using flt_key_bounds[of "lower x"] flt_key_bounds[of "upper x"] flt_key_bounds[of "lower y"] flt_key_bounds[of "upper y"]
  by (auto simp: interval_cmp_lower_def interval_cmp_upper_def flt_lt_def)

definition split_page :: "box2df list" where
  "split_page = [box_one, box_two, gist_empty_key]"

theorem picksplit_partition_witness:
  "\<exists>v'. gserialized_gist_picksplit_2d insertion_sort insertion_sort split_page
      \<lparr>spl_left = [], spl_right = [], spl_ldatum = None, spl_rdatum = None, spl_ldatum_exists = False, spl_rdatum_exists = False\<rparr> = Inr v' \<and>
    mset (spl_left v' @ spl_right v') = {#1, 2, 3#} \<and> spl_left v' \<noteq> [] \<and> spl_right v' \<noteq> []"
proof -
  have s: "sorts insertion_sort interval_cmp_lower" "sorts insertion_sort interval_cmp_upper"
    by (rule insertion_sort_sorts, rule interval_cmp_keys)+
  have p: "2 \<le> length split_page" "length split_page < 65536" "[1..<length split_page + 1] = [1, 2, 3]"
    by (simp_all add: split_page_def upt_rec)
  have e: "list_all box2df_entry split_page" using box_examples by (simp add: split_page_def)
  show ?thesis
    using picksplit_partition[where qsort' = insertion_sort and v = "\<lparr>spl_left = [], spl_right = [], spl_ldatum = None,
      spl_rdatum = None, spl_ldatum_exists = False, spl_rdatum_exists = False\<rparr>", OF s insertion_sort_mset p(1,2) e]
    unfolding p(3) by (auto simp: ac_simps)
qed

end
