(* ===== verification/TwkbOut.thy ===== *)
theory TwkbOut
  imports ByteBuffer LwGeom Ieee
begin

text \<open>
  The writer of tiny well-known binary (liblwgeom/lwout_twkb.c and .h). Coordinates are scaled, rounded to integers and
  written as varints of their differences to the point before. \<open>TWKB_GLOBALS\<close> and \<open>TWKB_STATE\<close> are records that
  the functions return updated; every write goes through the byte buffer. A result is \<open>None\<close> if a call of the
  buffer does not return.
\<close>

section \<open>State\<close>

type_synonym i64 = "64 word"

record twkb_globals =
  tg_variant :: u8
  prec_xy :: "8 word"
  prec_z :: "8 word"
  prec_m :: "8 word"
  factor :: "flt list"

text \<open>\<open>header_buf\<close> is NULL in the state of the caller of the outermost geometry. The arrays have MAX_N_DIMS, 4, elements.\<close>

record twkb_state =
  header_buf :: "bytebuffer option"
  geom_buf :: bytebuffer
  idlist :: "i64 list option"
  bbox_min :: "i64 list"
  bbox_max :: "i64 list"
  accum_rels :: "i64 list"

type_synonym twkb = "twkb_globals \<times> twkb_state"

abbreviation TWKB_BBOX :: u8 where "TWKB_BBOX \<equiv> 0x01"
abbreviation TWKB_SIZE :: u8 where "TWKB_SIZE \<equiv> 0x02"

definition twkb_wants :: "twkb_globals \<Rightarrow> u8 \<Rightarrow> bool" where
  "twkb_wants tg flag \<longleftrightarrow> tg_variant tg AND flag \<noteq> 0"

definition obind :: "'a res option \<Rightarrow> ('a \<Rightarrow> 'b res option) \<Rightarrow> 'b res option" where
  "obind m f = (case m of None \<Rightarrow> None | Some (Inl e) \<Rightarrow> Some (Inl e) | Some (Inr x) \<Rightarrow> f x)"

lemma obind_simps [simp]: "obind (Some (Inr x)) f = f x" "obind (Some (Inl e)) f = Some (Inl e)" "obind None f = None"
  by (simp_all add: obind_def)

lemma obind_cong [fundef_cong]: "m = m' \<Longrightarrow> (\<And>x. m' = Some (Inr x) \<Longrightarrow> f x = f' x) \<Longrightarrow> obind m f = obind m' f'"
  by (auto simp: obind_def split: option.splits sum.splits)

abbreviation ret :: "'a \<Rightarrow> 'a res option" where "ret x \<equiv> Some (Inr x)"

definition fail_if :: "bool \<Rightarrow> string \<Rightarrow> unit res option" where
  "fail_if b msg = (if b then Some (Inl (LwError msg)) else ret ())"

lemma run_steps_cong [fundef_cong]:
  "s = s' \<Longrightarrow> xs = xs' \<Longrightarrow> (\<And>s x. x \<in> set xs' \<Longrightarrow> f s x = f' s x) \<Longrightarrow> run_steps f s xs = run_steps f' s' xs'"
proof (induction xs' arbitrary: s s' xs)
  case (Cons x xs')
  then have "f s' x = f' s' x" "\<And>t. run_steps f t xs' = run_steps f' t xs'" by auto
  then show ?case using Cons.prems(1,2) by (simp split: option.splits sum.splits)
qed simp

section \<open>Numbers\<close>

text \<open>\<open>pow(10, k)\<close>, which is exact or correctly rounded for the exponents that occur.\<close>

definition pow10 :: "int \<Rightarrow> dbl" where
  "pow10 k = (if 0 \<le> k then dbl_of_int (10 ^ nat k) else dbl_div 0x3FF0000000000000 (dbl_of_int (10 ^ nat (- k))))"

text \<open>
  \<open>llround\<close> rounds halves away from zero. C leaves the result open for numbers outside the range of \<open>long long\<close>; here
  it is the least value, as the conversion of x86-64 gives.
\<close>

definition INT64_MIN :: i64 where "INT64_MIN = 0x8000000000000000"
definition INT64_MAX :: i64 where "INT64_MAX = 0x7FFFFFFFFFFFFFFF"

definition llround :: "dbl \<Rightarrow> i64" where
  "llround d =
     (let n = (fp_val 53 (dbl_mag d) + 2 ^ 1073) div 2 ^ 1074
      in if isfinite d \<and> n < 2 ^ 63 then word_of_int (if dbl_neg d then - int n else int n) else INT64_MIN)"

definition llabs :: "i64 \<Rightarrow> i64" where
  "llabs i = (if sint i < 0 then - i else i)"

text \<open>A loop over the first elements of an array.\<close>

definition update_front :: "('a \<Rightarrow> 'b \<Rightarrow> 'a) \<Rightarrow> 'a list \<Rightarrow> 'b list \<Rightarrow> 'a list" where
  "update_front f xs ys = map2 f xs ys @ drop (length ys) xs"

definition smin :: "i64 \<Rightarrow> i64 \<Rightarrow> i64" where "smin a b = (if sint b < sint a then b else a)"
definition smax :: "i64 \<Rightarrow> i64 \<Rightarrow> i64" where "smax a b = (if sint a < sint b then b else a)"

section \<open>Header bytes\<close>

definition lwgeom_twkb_type :: "lwgeom \<Rightarrow> u8 res" where
  "lwgeom_twkb_type geom =
     (let ty = lwgeom_get_type geom
      in if ty = POINTTYPE then Inr 1
         else if ty = LINETYPE then Inr 2
         else if ty = TRIANGLETYPE \<or> ty = POLYGONTYPE then Inr 3
         else if ty = MULTIPOINTTYPE then Inr 4
         else if ty = MULTILINETYPE then Inr 5
         else if ty = MULTIPOLYGONTYPE then Inr 6
         else if ty = TINTYPE \<or> ty = COLLECTIONTYPE then Inr 7
         else Inl (LwError ''%s: Unsupported geometry type: %s''))"

definition TYPE_PREC_SET_TYPE :: "u8 \<Rightarrow> u8 \<Rightarrow> u8" where
  "TYPE_PREC_SET_TYPE flag type = (flag AND 0xF0) OR (type AND 0x0F)"
definition TYPE_PREC_SET_PREC :: "u8 \<Rightarrow> u8 \<Rightarrow> u8" where
  "TYPE_PREC_SET_PREC flag prec = (flag AND 0x0F) OR push_bit 4 (prec AND 0x0F)"
definition set_flag :: "u8 \<Rightarrow> u8 \<Rightarrow> bool \<Rightarrow> u8" where
  "set_flag msk flag b = (if b then flag OR msk else flag AND NOT msk)"

abbreviation "FIRST_BYTE_SET_BBOXES \<equiv> set_flag 0x01"
abbreviation "FIRST_BYTE_SET_SIZES \<equiv> set_flag 0x02"
abbreviation "FIRST_BYTE_SET_IDLIST \<equiv> set_flag 0x04"
abbreviation "FIRST_BYTE_SET_EXTENDED \<equiv> set_flag 0x08"
abbreviation "FIRST_BYTE_SET_EMPTY \<equiv> set_flag 0x10"
abbreviation "HIGHER_DIM_SET_HASZ \<equiv> set_flag 0x01"
abbreviation "HIGHER_DIM_SET_HASM \<equiv> set_flag 0x02"

definition HIGHER_DIM_SET_PRECZ :: "u8 \<Rightarrow> u8 \<Rightarrow> u8" where
  "HIGHER_DIM_SET_PRECZ flag prec = (flag AND 0xE3) OR push_bit 2 (prec AND 0x07)"
definition HIGHER_DIM_SET_PRECM :: "u8 \<Rightarrow> u8 \<Rightarrow> u8" where
  "HIGHER_DIM_SET_PRECM flag prec = (flag AND 0x1F) OR push_bit 5 (prec AND 0x07)"

section \<open>Boxes\<close>

definition sizeof_bbox :: "twkb_state \<Rightarrow> nat \<Rightarrow> nat" where
  "sizeof_bbox ts ndims =
     sum_list (map (\<lambda>i. length (varint_s64_encode_buf (bbox_min ts ! i)) +
       length (varint_s64_encode_buf (bbox_max ts ! i - bbox_min ts ! i))) [0..<ndims])"

definition write_bbox :: "twkb_state \<Rightarrow> nat \<Rightarrow> bytebuffer \<Rightarrow> bytebuffer res option" where
  "write_bbox ts ndims b =
     run_steps (\<lambda>b i. obind (bytebuffer_append_varint b (bbox_min ts ! i))
       (\<lambda>b. bytebuffer_append_varint b (bbox_max ts ! i - bbox_min ts ! i))) b [0..<ndims]"

section \<open>Point arrays\<close>

text \<open>The variables of the loop over the points; \<open>lp_buf\<close> is \<open>b_p\<close>.\<close>

record twkb_loop =
  lp_buf :: bytebuffer
  lp_accum :: "i64 list"
  lp_min :: "i64 list"
  lp_max :: "i64 list"
  lp_npoints :: u32
  lp_left :: u32

definition twkb_write_point :: "ptarray \<Rightarrow> twkb_globals \<Rightarrow> u32 \<Rightarrow> twkb_loop \<Rightarrow> nat \<Rightarrow> twkb_loop res option" where
  "twkb_write_point pa globals minpoints l i =
     (let ndims = pa_ndims pa; dbl_ptr = getPoint_internal pa i;
          nextdelta = map (\<lambda>j. llround (dbl_mul (dbl_of_flt (factor globals ! j)) (dbl_ptr ! j)) - lp_accum l ! j) [0..<ndims];
          diff = sum_list (map llabs nextdelta)
      in if 0 < i \<and> diff = 0 \<and> minpoints < lp_left l then ret (l\<lparr>lp_left := lp_left l - 1\<rparr>)
         else obind (run_steps bytebuffer_append_varint (lp_buf l) nextdelta) (\<lambda>b.
           let accum = update_front (+) (lp_accum l) nextdelta;
               l = l\<lparr>lp_buf := b, lp_accum := accum, lp_npoints := lp_npoints l + 1\<rparr>
           in ret (if twkb_wants globals TWKB_BBOX
                   then l\<lparr>lp_max := update_front smax (lp_max l) (take ndims accum),
                         lp_min := update_front smin (lp_min l) (take ndims accum)\<rparr>
                   else l)))"

text \<open>Writing over bytes that are there, with the capacity as the bound.\<close>

definition bb_poke :: "bytebuffer \<Rightarrow> nat \<Rightarrow> u8 list \<Rightarrow> bytebuffer res" where
  "bb_poke s off bs =
     (if off + length bs \<le> unat (capacity s)
      then Inr (s\<lparr>written := take (length (written s)) (take off (written s) @ bs @ drop (off + length bs) (written s))\<rparr>)
      else Inl MemFault)"

definition ptarray_to_twkb_buf :: "ptarray \<Rightarrow> twkb_globals \<Rightarrow> twkb_state \<Rightarrow> bool \<Rightarrow> u32 \<Rightarrow> twkb_state res option" where
  "ptarray_to_twkb_buf pa globals ts register_npoints minpoints =
     (let n = npoints pa; offset = bytebuffer_getlength (geom_buf ts)
      in if n = 0 \<and> register_npoints
         then obind (bytebuffer_append_uvarint (geom_buf ts) (ucast n)) (\<lambda>b. ret (ts\<lparr>geom_buf := b\<rparr>))
         else
           obind (if 127 < n then ret (bytebuffer_init_with_size (ucast (3 * of_nat (pa_ndims pa) * n)))
                  else if register_npoints then bytebuffer_append_byte (geom_buf ts) 0
                  else ret (geom_buf ts)) (\<lambda>b.
           obind (run_steps (twkb_write_point pa globals minpoints)
               \<lparr>lp_buf = b, lp_accum = accum_rels ts, lp_min = bbox_min ts, lp_max = bbox_max ts, lp_npoints = 0, lp_left = n\<rparr>
               [0..<unat n]) (\<lambda>l.
             let ts = ts\<lparr>accum_rels := lp_accum l, bbox_min := lp_min l, bbox_max := lp_max l\<rparr>
             in if 127 < n
                then obind (if register_npoints then bytebuffer_append_uvarint (geom_buf ts) (scast (lp_npoints l))
                            else ret (geom_buf ts)) (\<lambda>g.
                     obind (bytebuffer_append_bytebuffer g (lp_buf l)) (\<lambda>g. ret (ts\<lparr>geom_buf := g\<rparr>)))
                else if register_npoints
                then obind (Some (bb_poke (lp_buf l) offset (varint_u64_encode_buf (scast (lp_npoints l)))))
                       (\<lambda>g. ret (ts\<lparr>geom_buf := g\<rparr>))
                else ret (ts\<lparr>geom_buf := lp_buf l\<rparr>))))"

section \<open>Geometries\<close>

definition lwpoint_to_twkb_buf :: "ptarray \<Rightarrow> twkb_globals \<Rightarrow> twkb_state \<Rightarrow> twkb_state res option" where
  "lwpoint_to_twkb_buf pa globals ts = ptarray_to_twkb_buf pa globals ts False 1"

definition lwline_to_twkb_buf :: "ptarray \<Rightarrow> twkb_globals \<Rightarrow> twkb_state \<Rightarrow> twkb_state res option" where
  "lwline_to_twkb_buf pa globals ts = ptarray_to_twkb_buf pa globals ts True 2"

definition lwtriangle_to_twkb_buf :: "ptarray \<Rightarrow> twkb_globals \<Rightarrow> twkb_state \<Rightarrow> twkb_state res option" where
  "lwtriangle_to_twkb_buf pa globals ts =
     obind (bytebuffer_append_uvarint (geom_buf ts) 1) (\<lambda>b. ptarray_to_twkb_buf pa globals (ts\<lparr>geom_buf := b\<rparr>) True 2)"

definition lwpoly_to_twkb_buf :: "ptarray list \<Rightarrow> twkb_globals \<Rightarrow> twkb_state \<Rightarrow> twkb_state res option" where
  "lwpoly_to_twkb_buf rings globals ts =
     obind (bytebuffer_append_uvarint (geom_buf ts) (of_nat (length rings))) (\<lambda>b.
       run_steps (\<lambda>ts pa. ptarray_to_twkb_buf pa globals ts True 4) (ts\<lparr>geom_buf := b\<rparr>) rings)"

text \<open>The identifiers of the members \<open>is\<close>; those behind the end of the list are read out of bounds.\<close>

definition twkb_put_ids :: "nat list \<Rightarrow> twkb_state \<Rightarrow> twkb_state res option" where
  "twkb_put_ids is ts =
     (case idlist ts of None \<Rightarrow> ret ts
      | Some ids \<Rightarrow> obind (run_steps (\<lambda>b i. if i < length ids then bytebuffer_append_varint b (ids ! i) else Some (Inl MemFault))
            (geom_buf ts) is) (\<lambda>b. ret (ts\<lparr>geom_buf := b, idlist := None\<rparr>)))"

definition twkb_skips :: "u8 \<Rightarrow> lwgeom \<Rightarrow> bool" where
  "twkb_skips ty g \<longleftrightarrow> ty = MULTIPOINTTYPE \<and> lwgeom_is_empty g"

text \<open>\<open>wr\<close> writes a member.\<close>

definition lwmulti_to_twkb_buf :: "(lwgeom \<Rightarrow> twkb \<Rightarrow> twkb res option) \<Rightarrow> u8 \<Rightarrow> lwgeom list \<Rightarrow> twkb \<Rightarrow> twkb res option" where
  "lwmulti_to_twkb_buf wr ty gs = (\<lambda>(tg, ts).
     obind (bytebuffer_append_uvarint (geom_buf ts) (of_nat (length gs - length (filter (twkb_skips ty) gs)))) (\<lambda>b.
     obind (twkb_put_ids (filter (\<lambda>i. \<not> twkb_skips ty (gs ! i)) [0..<length gs]) (ts\<lparr>geom_buf := b\<rparr>)) (\<lambda>ts.
       run_steps (\<lambda>s g. if twkb_skips ty g then ret s else wr g s) (tg, ts) gs)))"

definition lwcollection_to_twkb_buf :: "(lwgeom \<Rightarrow> twkb \<Rightarrow> twkb res option) \<Rightarrow> lwgeom list \<Rightarrow> twkb \<Rightarrow> twkb res option" where
  "lwcollection_to_twkb_buf wr gs = (\<lambda>(tg, ts).
     obind (bytebuffer_append_uvarint (geom_buf ts) (of_nat (length gs))) (\<lambda>b.
     obind (twkb_put_ids [0..<length gs] (ts\<lparr>geom_buf := b\<rparr>)) (\<lambda>ts.
       run_steps (\<lambda>s g. wr g s) (tg, ts) gs)))"

lemma lwmulti_cong [fundef_cong]:
  "ty = ty' \<Longrightarrow> gs = gs' \<Longrightarrow> s = s' \<Longrightarrow> (\<And>g s. g \<in> set gs' \<Longrightarrow> wr g s = wr' g s) \<Longrightarrow>
   lwmulti_to_twkb_buf wr ty gs s = lwmulti_to_twkb_buf wr' ty' gs' s'"
  unfolding lwmulti_to_twkb_buf_def by (auto intro!: obind_cong run_steps_cong split: prod.split)

lemma lwcollection_cong [fundef_cong]:
  "gs = gs' \<Longrightarrow> s = s' \<Longrightarrow> (\<And>g s. g \<in> set gs' \<Longrightarrow> wr g s = wr' g s) \<Longrightarrow>
   lwcollection_to_twkb_buf wr gs s = lwcollection_to_twkb_buf wr' gs' s'"
  unfolding lwcollection_to_twkb_buf_def by (auto intro!: obind_cong run_steps_cong split: prod.split)

section \<open>A geometry with its header\<close>

definition twkb_set_factors :: "bool \<Rightarrow> bool \<Rightarrow> twkb_globals \<Rightarrow> twkb_globals" where
  "twkb_set_factors has_z has_m tg =
     (let pw = (\<lambda>p. flt_of_dbl (pow10 (sint p))); f = (factor tg)[0 := pw (prec_xy tg)]; f = f[1 := f ! 0];
          f = (if has_z then f[2 := pw (prec_z tg)] else f);
          f = (if has_m then f[2 + of_bool has_z := pw (prec_m tg)] else f)
      in tg\<lparr>factor := f\<rparr>)"

definition twkb_metadata :: "bool \<Rightarrow> bool \<Rightarrow> bool \<Rightarrow> bool \<Rightarrow> bool \<Rightarrow> u8" where
  "twkb_metadata bboxes sizes ids extended is_empty =
     FIRST_BYTE_SET_EMPTY (FIRST_BYTE_SET_EXTENDED (FIRST_BYTE_SET_IDLIST (FIRST_BYTE_SET_SIZES
       (FIRST_BYTE_SET_BBOXES 0 bboxes) sizes) ids) extended) is_empty"

text \<open>The part in front of the size: type and precision, flags, and the precision of the higher dimensions.\<close>

definition twkb_write_header :: "lwgeom \<Rightarrow> bool \<Rightarrow> bool \<Rightarrow> bool \<Rightarrow> twkb_globals \<Rightarrow> bytebuffer \<Rightarrow> bytebuffer res option" where
  "twkb_write_header geom has_ids has_z has_m tg hb =
     (let is_empty = lwgeom_is_empty geom; optional_precision_byte = (has_z \<or> has_m)
      in obind (fail_if (7 < \<bar>sint (prec_xy tg)\<bar>) ''%s: X/Z precision cannot be greater than 7 or less than -7'') (\<lambda>_.
         obind (Some (lwgeom_twkb_type geom)) (\<lambda>ty.
         obind (bytebuffer_append_byte hb (TYPE_PREC_SET_PREC (TYPE_PREC_SET_TYPE 0 ty) (zigzag8 (prec_xy tg)))) (\<lambda>hb.
         obind (bytebuffer_append_byte hb (twkb_metadata (twkb_wants tg TWKB_BBOX \<and> \<not> is_empty) (twkb_wants tg TWKB_SIZE)
             (has_ids \<and> \<not> is_empty) optional_precision_byte is_empty)) (\<lambda>hb.
         if \<not> optional_precision_byte then ret hb
         else
           obind (fail_if (has_z \<and> (7 < sint (prec_z tg) \<or> sint (prec_z tg) < 0)) ''%s: Z precision cannot be negative or greater than 7'') (\<lambda>_.
           obind (fail_if (has_m \<and> (7 < sint (prec_m tg) \<or> sint (prec_m tg) < 0)) ''%s: M precision cannot be negative or greater than 7'') (\<lambda>_.
             bytebuffer_append_byte hb (HIGHER_DIM_SET_PRECM (HIGHER_DIM_SET_PRECZ
               (HIGHER_DIM_SET_HASM (HIGHER_DIM_SET_HASZ 0 has_z) has_m) (prec_z tg)) (prec_m tg)))))))))"

text \<open>The part behind the header of a geometry that is not empty; \<open>body\<close> is \<open>lwgeom_to_twkb_buf\<close> for the geometry.\<close>

definition twkb_write_body :: "(twkb \<Rightarrow> twkb res option) \<Rightarrow> nat \<Rightarrow> bytebuffer \<Rightarrow> twkb_globals \<Rightarrow> twkb_state \<Rightarrow> twkb_state \<Rightarrow> twkb res option" where
  "twkb_write_body body ndims hb tg child_state parent_state =
     obind (body (tg, child_state)) (\<lambda>(tg, child_state).
       let parent_state =
             (if twkb_wants tg TWKB_BBOX \<and> header_buf parent_state \<noteq> None
              then parent_state\<lparr>bbox_min := update_front smin (bbox_min parent_state) (take ndims (bbox_min child_state)),
                     bbox_max := update_front smax (bbox_max parent_state) (take ndims (bbox_max child_state))\<rparr>
              else parent_state);
           bbox_size = (if twkb_wants tg TWKB_BBOX then sizeof_bbox child_state ndims else 0)
       in obind (if twkb_wants tg TWKB_SIZE
                 then bytebuffer_append_uvarint hb (of_nat (bytebuffer_getlength (geom_buf child_state) + bbox_size))
                 else ret hb) (\<lambda>hb.
          obind (if twkb_wants tg TWKB_BBOX then write_bbox child_state ndims hb else ret hb) (\<lambda>hb.
          obind (bytebuffer_append_bytebuffer (geom_buf parent_state) hb) (\<lambda>g.
          obind (bytebuffer_append_bytebuffer g (geom_buf child_state)) (\<lambda>g.
            ret (tg, parent_state\<lparr>geom_buf := g\<rparr>))))))"

definition lwgeom_write_to_buffer :: "(twkb \<Rightarrow> twkb res option) \<Rightarrow> lwgeom \<Rightarrow> twkb \<Rightarrow> twkb res option" where
  "lwgeom_write_to_buffer body geom = (\<lambda>(tg, parent_state).
     let ndims = lwgeom_ndims geom;
         has_z = (2 < ndims \<and> lwgeom_has_z geom \<noteq> 0); has_m = (2 < ndims \<and> lwgeom_has_m geom \<noteq> 0);
         tg = twkb_set_factors has_z has_m tg;
         child_state = \<lparr>header_buf = Some (bytebuffer_init_with_size 16), geom_buf = bytebuffer_init_with_size 64,
           idlist = idlist parent_state, bbox_min = replicate 4 INT64_MAX, bbox_max = replicate 4 INT64_MIN,
           accum_rels = replicate 4 0\<rparr>
     in obind (twkb_write_header geom (idlist parent_state \<noteq> None) has_z has_m tg (bytebuffer_init_with_size 16)) (\<lambda>hb.
        if lwgeom_is_empty geom
        then obind (if twkb_wants tg TWKB_SIZE then bytebuffer_append_byte hb 0 else ret hb) (\<lambda>hb.
             obind (bytebuffer_append_bytebuffer (geom_buf parent_state) hb) (\<lambda>g. ret (tg, parent_state\<lparr>geom_buf := g\<rparr>)))
        else twkb_write_body body ndims hb tg child_state parent_state))"

definition twkb_leaf :: "(twkb_globals \<Rightarrow> twkb_state \<Rightarrow> twkb_state res option) \<Rightarrow> twkb \<Rightarrow> twkb res option" where
  "twkb_leaf f = (\<lambda>(tg, ts). obind (f tg ts) (\<lambda>ts. ret (tg, ts)))"

lemma write_to_buffer_cong [fundef_cong]:
  "geom = geom' \<Longrightarrow> s = s' \<Longrightarrow> (\<And>s. body s = body' s) \<Longrightarrow> lwgeom_write_to_buffer body geom s = lwgeom_write_to_buffer body' geom' s'"
proof -
  assume "geom = geom'" "s = s'" "\<And>s. body s = body' s"
  then have "body = body'" by blast
  then show ?thesis using \<open>geom = geom'\<close> \<open>s = s'\<close> by simp
qed

function lwgeom_to_twkb_buf :: "lwgeom \<Rightarrow> twkb \<Rightarrow> twkb res option" where
  "lwgeom_to_twkb_buf (LwPoint h pa) s = twkb_leaf (lwpoint_to_twkb_buf pa) s"
| "lwgeom_to_twkb_buf (LwLine h pa) s = twkb_leaf (lwline_to_twkb_buf pa) s"
| "lwgeom_to_twkb_buf (LwTriangle h pa) s = twkb_leaf (lwtriangle_to_twkb_buf pa) s"
| "lwgeom_to_twkb_buf (LwPoly h rings) s = twkb_leaf (lwpoly_to_twkb_buf rings) s"
| "lwgeom_to_twkb_buf (LwColl ty h gs) s =
     (if ty \<in> {MULTIPOINTTYPE, MULTILINETYPE, MULTIPOLYGONTYPE} then lwmulti_to_twkb_buf lwgeom_to_twkb_buf ty gs s
      else if ty \<in> {COLLECTIONTYPE, TINTYPE}
      then lwcollection_to_twkb_buf (\<lambda>g. lwgeom_write_to_buffer (lwgeom_to_twkb_buf g) g) gs s
      else Some (Inl (LwError ''%s: Unsupported geometry type: %s'')))"
| "lwgeom_to_twkb_buf (LwCircString h pa) s = Some (Inl (LwError ''%s: Unsupported geometry type: %s''))"
| "lwgeom_to_twkb_buf (LwEllipse h e) s = Some (Inl (LwError ''%s: Unsupported geometry type: %s''))"
| "lwgeom_to_twkb_buf (LwBezier h pa) s = Some (Inl (LwError ''%s: Unsupported geometry type: %s''))"
  by pat_completeness auto
termination
  by (relation "measure (\<lambda>(g, s). size g)") (auto simp: size_list_estimation' less_Suc_eq_le)

definition lwgeom_to_twkb_with_idlist ::
  "lwgeom \<Rightarrow> i64 list option \<Rightarrow> u8 \<Rightarrow> 8 word \<Rightarrow> 8 word \<Rightarrow> 8 word \<Rightarrow> (u32 \<times> u8 list) res option" where
  "lwgeom_to_twkb_with_idlist geom ids variant precision_xy precision_z precision_m =
     (let tg = \<lparr>tg_variant = variant, prec_xy = precision_xy, prec_z = precision_z, prec_m = precision_m, factor = replicate 4 0\<rparr>;
          ts = \<lparr>header_buf = None, geom_buf = bytebuffer_init_with_size 512, idlist = ids, bbox_min = replicate 4 0,
                bbox_max = replicate 4 0, accum_rels = replicate 4 0\<rparr>
      in obind (fail_if (ids \<noteq> None \<and> \<not> lwgeom_is_collection geom) ''Only collections can support ID lists'') (\<lambda>_.
         obind (lwgeom_write_to_buffer (lwgeom_to_twkb_buf geom) geom (tg, ts)) (\<lambda>(tg, ts).
           ret (bytebuffer_get_buffer_varlena (geom_buf ts)))))"

definition lwgeom_to_twkb :: "lwgeom \<Rightarrow> u8 \<Rightarrow> 8 word \<Rightarrow> 8 word \<Rightarrow> 8 word \<Rightarrow> (u32 \<times> u8 list) res option" where
  "lwgeom_to_twkb geom variant precision_xy precision_z precision_m =
     lwgeom_to_twkb_with_idlist geom None variant precision_xy precision_z precision_m"

end
