(* ===== verification/TwkbSpec.thy ===== *)
theory TwkbSpec
  imports TwkbOut WkbRoundtrip
begin

text \<open>
  What the writer of theory \<open>TwkbOut\<close> writes: the points of a geometry become lists of integers, some repeated
  points are left out, and the differences are varints. The format is a function of the geometry, the options and
  the identifiers; the lemmas reduce the writer, with its buffers and state, to it.
\<close>

section \<open>Points as integers\<close>

definition twkb_factors :: "twkb_globals \<Rightarrow> bool \<Rightarrow> bool \<Rightarrow> flt list" where
  "twkb_factors tg z m =
     (let pw = (\<lambda>p. flt_of_dbl (pow10 (sint p)))
      in [pw (prec_xy tg), pw (prec_xy tg)] @ (if z then [pw (prec_z tg)] else []) @ (if m then [pw (prec_m tg)] else []))"

definition quantise :: "flt list \<Rightarrow> dbl list \<Rightarrow> i64 list" where
  "quantise fs p = map2 (\<lambda>f x. llround (dbl_mul (dbl_of_flt f) x)) fs p"

text \<open>
  The points that are written: the first, and each that differs from the one written before it, or that is
  needed to keep \<open>m\<close> of the \<open>left\<close> points.
\<close>

fun keep_points :: "nat \<Rightarrow> nat \<Rightarrow> i64 list option \<Rightarrow> i64 list list \<Rightarrow> i64 list list" where
  "keep_points m left prev [] = []"
| "keep_points m left prev (q # qs) =
     (if prev = Some q \<and> m < left then keep_points m (left - 1) prev qs else q # keep_points m left (Some q) qs)"

definition kept_points :: "flt list \<Rightarrow> nat \<Rightarrow> ptarray \<Rightarrow> i64 list list" where
  "kept_points fs m pa = keep_points m (unat (npoints pa)) None (map (quantise fs) (pa_points pa))"

definition varints :: "i64 list \<Rightarrow> u8 list" where
  "varints ds = concat (map varint_s64_encode_buf ds)"

fun delta_bytes :: "i64 list \<Rightarrow> i64 list list \<Rightarrow> u8 list" where
  "delta_bytes a [] = []"
| "delta_bytes a (q # qs) = varints (map2 (-) q a) @ delta_bytes q qs"

definition last_point :: "i64 list \<Rightarrow> i64 list list \<Rightarrow> i64 list" where
  "last_point a qs = last (a # qs)"

lemma last_point_simps [simp]: "last_point a [] = a" "last_point a (q # qs) = last_point q qs"
  "last_point a (qs @ rs) = last_point (last_point a qs) rs"
  by (simp_all add: last_point_def)

lemma delta_bytes_append: "delta_bytes a (qs @ rs) = delta_bytes a qs @ delta_bytes (last_point a qs) rs"
  by (induction qs arbitrary: a) simp_all

text \<open>The box of some integer points, on top of given bounds.\<close>

definition box_min :: "i64 list \<Rightarrow> i64 list list \<Rightarrow> i64 list" where
  "box_min b qs = fold (\<lambda>q b. update_front smin b q) qs b"
definition box_max :: "i64 list \<Rightarrow> i64 list list \<Rightarrow> i64 list" where
  "box_max b qs = fold (\<lambda>q b. update_front smax b q) qs b"

lemma box_simps [simp]:
  "box_min b [] = b" "box_max b [] = b" "box_min b (q # qs) = box_min (update_front smin b q) qs"
  "box_max b (q # qs) = box_max (update_front smax b q) qs"
  "box_min b (qs @ rs) = box_min (box_min b qs) rs" "box_max b (qs @ rs) = box_max (box_max b qs) rs"
  by (simp_all add: box_min_def box_max_def)

lemma update_front_length [simp]: "length ys \<le> length xs \<Longrightarrow> length (update_front f xs ys) = length xs"
  by (simp add: update_front_def)

text \<open>Integers for which no difference overflows, and no sum of four absolute differences.\<close>

definition small_int :: "i64 \<Rightarrow> bool" where
  "small_int i \<longleftrightarrow> \<bar>sint i\<bar> < 2 ^ 60"

abbreviation small_point :: "i64 list \<Rightarrow> bool" where
  "small_point \<equiv> list_all small_int"

lemma sint_small_diff:
  assumes "small_int a" and "small_int b"
  shows "sint (a - b) = sint a - sint b"
proof -
  have "- (2 ^ 63) \<le> sint a - sint b" "sint a - sint b < 2 ^ 63" using assms by (auto simp: small_int_def)
  then show ?thesis unfolding sint_word_diff by (intro signed_take_bit_int_eq_self) simp_all
qed

lemma llabs_small:
  assumes "small_int a" and "small_int b"
  shows "unat (llabs (a - b)) = nat \<bar>sint a - sint b\<bar>"
proof -
  have s: "sint (a - b) = sint a - sint b" using sint_small_diff[OF assms] .
  have u: "unat w = nat (sint w)" if "0 \<le> sint w" for w :: i64
  proof -
    have "uint w = sint w" using that sint_lt[of w] by (simp add: uint_sint take_bit_int_eq_self)
    then have "nat (uint w) = nat (sint w)" by simp
    then show ?thesis by simp
  qed
  show ?thesis
  proof (cases "sint (a - b) < 0")
    case True
    have "sint (b - a) = sint b - sint a" using sint_small_diff[OF assms(2,1)] .
    moreover have "- (a - b) = b - a" by simp
    ultimately show ?thesis using True s u[of "b - a"] by (simp add: llabs_def)
  next
    case False
    then show ?thesis using s u[of "a - b"] by (simp add: llabs_def)
  qed
qed

lemma sum_llabs:
  "length q \<le> 4 \<Longrightarrow> small_point q \<Longrightarrow> small_point a \<Longrightarrow>
   unat (sum_list (map llabs (map2 (-) q a))) = sum_list (map (\<lambda>(x, y). nat \<bar>sint x - sint y\<bar>) (zip q a)) \<and>
   sum_list (map (\<lambda>(x, y). nat \<bar>sint x - sint y\<bar>) (zip q a)) < length q * 2 ^ 61 + 1"
proof (induction q a rule: list_induct2')
  case (4 x q y a)
  let ?s = "sum_list (map (\<lambda>(x, y). nat \<bar>sint x - sint y\<bar>) (zip q a))"
  have xy: "small_int x" "small_int y" using 4 by simp_all
  then have d: "nat \<bar>sint x - sint y\<bar> < 2 ^ 61" by (auto simp: small_int_def)
  have ih: "unat (sum_list (map llabs (map2 (-) q a))) = ?s" "?s < length q * 2 ^ 61 + 1" using 4 by simp_all
  have "length q * 2 ^ 61 \<le> 3 * 2 ^ 61" using 4 by (intro mult_le_mono1) simp
  then have "nat \<bar>sint x - sint y\<bar> + ?s < 2 ^ 64" using d ih(2) by simp
  then have "unat (llabs (x - y) + sum_list (map llabs (map2 (-) q a))) = nat \<bar>sint x - sint y\<bar> + ?s"
    using llabs_small[OF xy] ih(1) by (subst unat_add_lem[THEN iffD1]) simp_all
  then show ?case using d ih(2) by simp
qed simp_all

lemma diff_zero_iff:
  assumes "length q \<le> 4" and "small_point q" and "small_point a" and "length q = length a"
  shows "sum_list (map llabs (map2 (-) q a)) = 0 \<longleftrightarrow> q = a"
proof -
  have "sum_list (map llabs (map2 (-) q a)) = 0 \<longleftrightarrow> sum_list (map (\<lambda>(x, y). nat \<bar>sint x - sint y\<bar>) (zip q a)) = 0"
    using sum_llabs[OF assms(1-3)] by (metis unat_0 unat_eq_0)
  also have "\<dots> \<longleftrightarrow> (\<forall>(x, y) \<in> set (zip q a). sint x = sint y)" by auto
  also have "\<dots> \<longleftrightarrow> q = a" using assms(4) by (induction q a rule: list_induct2) (auto intro: signed_word_eqI)
  finally show ?thesis .
qed

section \<open>The loop over the points\<close>

definition opt_min :: "twkb_globals \<Rightarrow> i64 list \<Rightarrow> i64 list list \<Rightarrow> i64 list" where
  "opt_min tg b qs = (if twkb_wants tg TWKB_BBOX then box_min b qs else b)"
definition opt_max :: "twkb_globals \<Rightarrow> i64 list \<Rightarrow> i64 list list \<Rightarrow> i64 list" where
  "opt_max tg b qs = (if twkb_wants tg TWKB_BBOX then box_max b qs else b)"

definition add_min :: "twkb_globals \<Rightarrow> i64 list \<Rightarrow> i64 list \<Rightarrow> i64 list" where
  "add_min tg b q = (if twkb_wants tg TWKB_BBOX then update_front smin b q else b)"
definition add_max :: "twkb_globals \<Rightarrow> i64 list \<Rightarrow> i64 list \<Rightarrow> i64 list" where
  "add_max tg b q = (if twkb_wants tg TWKB_BBOX then update_front smax b q else b)"

lemma opt_simps [simp]:
  "opt_min tg b [] = b" "opt_max tg b [] = b"
  "opt_min tg b (q # qs) = opt_min tg (add_min tg b q) qs" "opt_max tg b (q # qs) = opt_max tg (add_max tg b q) qs"
  "opt_min tg b (qs @ rs) = opt_min tg (opt_min tg b qs) rs" "opt_max tg b (qs @ rs) = opt_max tg (opt_max tg b qs) rs"
  by (simp_all add: opt_min_def opt_max_def add_min_def add_max_def)

text \<open>An array and the factors for its dimensions; the integers are small.\<close>

definition pa_fits :: "flt list \<Rightarrow> ptarray \<Rightarrow> bool" where
  "pa_fits fs pa \<longleftrightarrow> pa_wf pa \<and> pa_ndims pa = length fs \<and> npoints pa \<le> 134217727 \<and>
     list_all small_point (map (quantise fs) (pa_points pa))"

lemma pa_fits_point:
  assumes "pa_fits fs pa" and "p \<in> set (pa_points pa)"
  shows "length (quantise fs p) = length fs" "small_point (quantise fs p)"
  using assms pa_points_dims[of pa p] by (auto simp: pa_fits_def quantise_def list_all_iff)

lemma pa_fits_dims: "pa_fits fs pa \<Longrightarrow> 2 \<le> length fs \<and> length fs \<le> 4"
  using FLAGS_NDIMS_cases[of "pa_flags pa"] by (auto simp: pa_fits_def)

lemma point_deltas:
  assumes fits: "pa_fits fs pa" and tg: "take (length fs) (factor tg) = fs" and i: "i < unat (npoints pa)"
    and acc: "length acc = 4"
  shows "map (\<lambda>j. llround (dbl_mul (dbl_of_flt (factor tg ! j)) (getPoint_internal pa i ! j)) - acc ! j) [0..<pa_ndims pa]
    = map2 (-) (quantise fs (pa_points pa ! i)) (take (length fs) acc)"
proof (rule nth_equalityI)
  have p: "length (pa_points pa ! i) = length fs" "length (quantise fs (pa_points pa ! i)) = length fs"
    using fits i pa_points_dims[of pa "pa_points pa ! i"] by (auto simp: pa_fits_def quantise_def)
  have nd: "pa_ndims pa = length fs" "pa_wf pa" "length fs \<le> 4" using fits pa_fits_dims[OF fits] by (auto simp: pa_fits_def)
  show "length (map (\<lambda>j. llround (dbl_mul (dbl_of_flt (factor tg ! j)) (getPoint_internal pa i ! j)) - acc ! j) [0..<pa_ndims pa])
    = length (map2 (-) (quantise fs (pa_points pa ! i)) (take (length fs) acc))" using p nd acc by simp
  fix j assume "j < length (map (\<lambda>j. llround (dbl_mul (dbl_of_flt (factor tg ! j)) (getPoint_internal pa i ! j)) - acc ! j) [0..<pa_ndims pa])"
  then have j: "j < length fs" using nd by simp
  have f: "factor tg ! j = fs ! j" using tg j by (metis nth_take)
  have "getPoint_internal pa i ! j = pa_points pa ! i ! j"
    using j nd i by (intro getPoint_internal_ordinate) simp_all
  then show "map (\<lambda>j. llround (dbl_mul (dbl_of_flt (factor tg ! j)) (getPoint_internal pa i ! j)) - acc ! j) [0..<pa_ndims pa] ! j
    = map2 (-) (quantise fs (pa_points pa ! i)) (take (length fs) acc) ! j"
    using j p nd acc f by (simp add: quantise_def)
qed

definition loop_at :: "nat \<Rightarrow> u8 list \<Rightarrow> i64 list \<Rightarrow> i64 list \<Rightarrow> i64 list \<Rightarrow> nat \<Rightarrow> nat \<Rightarrow> twkb_loop \<Rightarrow> bool" where
  "loop_at nd w a mn mx np left l \<longleftrightarrow> bb_inv (lp_buf l) \<and> written (lp_buf l) = w \<and> take nd (lp_accum l) = a \<and>
     length (lp_accum l) = 4 \<and> lp_min l = mn \<and> lp_max l = mx \<and> lp_npoints l = of_nat np \<and> lp_left l = of_nat left"

lemma varints_length: "length (varints ds) \<le> 10 * length ds"
  unfolding varints_def by (induction ds) (use length_varint_s64 in \<open>auto intro: add_le_mono\<close>)

lemma update_front_minus:
  fixes q a acc :: "i64 list"
  assumes "length q = nd" and "take nd acc = a" and "nd \<le> length acc"
  shows "update_front (+) acc (map2 (-) q a) = q @ drop nd acc"
proof -
  have a: "length a = nd" using assms by auto
  have "acc = a @ drop nd acc" using assms(2) by auto
  then have "map2 (+) acc (map2 (-) q a) = map2 (+) (a @ drop nd acc) (map2 (-) q a)" by simp
  also have "\<dots> = map2 (+) a (map2 (-) q a)" using assms(1) a by (simp add: zip_append1)
  also have "\<dots> = q"
  proof -
    have "x + (y - x) = y" for x y :: i64 by (metis add.commute diff_add_cancel)
    then show ?thesis using assms(1) a by (intro nth_equalityI) simp_all
  qed
  finally show ?thesis using assms a by (simp add: update_front_def)
qed

lemma write_point_step:
  assumes fits: "pa_fits fs pa" and tg: "take (length fs) (factor tg) = fs" and i: "i < unat (npoints pa)"
    and l: "loop_at (length fs) w a mn mx np left l" and a: "small_point a" and m: "m < 2 ^ 32" "left < 2 ^ 32" "0 < left"
    and room: "length w + 64 \<le> 2 ^ 62"
  defines "q \<equiv> quantise fs (pa_points pa ! i)"
  shows "if 0 < i \<and> q = a \<and> m < left
    then \<exists>l'. twkb_write_point pa tg (of_nat m) l i = ret l' \<and> loop_at (length fs) w a mn mx np (left - 1) l'
    else \<exists>l'. twkb_write_point pa tg (of_nat m) l i = ret l' \<and>
      loop_at (length fs) (w @ varints (map2 (-) q a)) q (add_min tg mn q) (add_max tg mx q) (Suc np) left l'"
proof -
  have dims: "length fs \<le> 4" "pa_ndims pa = length fs" using pa_fits_dims[OF fits] fits by (auto simp: pa_fits_def)
  have acc: "length (lp_accum l) = 4" "take (length fs) (lp_accum l) = a" using l by (auto simp: loop_at_def)
  have q: "length q = length fs" "small_point q" using pa_fits_point[OF fits, of "pa_points pa ! i"] i by (auto simp: q_def)
  have la: "length a = length fs" using acc dims by auto
  note delta = point_deltas[OF fits tg i acc(1), unfolded acc(2), folded q_def]
  have z: "sum_list (map llabs (map2 (-) q a)) = 0 \<longleftrightarrow> q = a" using q a la dims by (intro diff_zero_iff) simp_all
  have lt: "(of_nat m :: u32) < of_nat left \<longleftrightarrow> m < left"
    using m by (simp add: word_less_nat_alt unsigned_of_nat take_bit_nat_eq_self)
  have left: "lp_left l = of_nat left" using l by (simp add: loop_at_def)
  have cond: "(0 < i \<and> sum_list (map llabs (map2 (-) q a)) = 0 \<and> of_nat m < lp_left l) = (0 < i \<and> q = a \<and> m < left)"
    unfolding z left lt ..
  show ?thesis
  proof (cases "0 < i \<and> q = a \<and> m < left")
    case True
    have "(of_nat left - 1 :: u32) = of_nat (left - 1)" using m(3) by simp
    moreover have "twkb_write_point pa tg (of_nat m) l i = ret (l\<lparr>lp_left := lp_left l - 1\<rparr>)"
      unfolding twkb_write_point_def Let_def delta cond if_P[OF True] ..
    ultimately show ?thesis unfolding if_P[OF True] using l by (simp add: loop_at_def)
  next
    case False
    have "16 * length (map2 (-) q a) \<le> 64" using q la dims by simp
    then have "length (written (lp_buf l)) + 16 * length (map2 (-) q a) \<le> 2 ^ 62" using room l by (simp add: loop_at_def)
    then obtain b where b: "run_steps bytebuffer_append_varint (lp_buf l) (map2 (-) q a) = ret b" "bb_inv b"
        "written b = w @ varints (map2 (-) q a)"
      using bb.run_varints[of "lp_buf l" "map2 (-) q a"] l by (auto simp: loop_at_def varints_def)
    have upd: "update_front (+) (lp_accum l) (map2 (-) q a) = q @ drop (length fs) (lp_accum l)"
      using q acc dims by (intro update_front_minus) simp_all
    have tk: "take (pa_ndims pa) (q @ drop (length fs) (lp_accum l)) = q" "take (length fs) (q @ drop (length fs) (lp_accum l)) = q"
      "length (q @ drop (length fs) (lp_accum l)) = 4" using q dims acc by simp_all
    define l1 where "l1 = l\<lparr>lp_buf := b, lp_accum := q @ drop (length fs) (lp_accum l), lp_npoints := lp_npoints l + 1\<rparr>"
    have w: "twkb_write_point pa tg (of_nat m) l i = ret (if twkb_wants tg TWKB_BBOX
        then l1\<lparr>lp_max := update_front smax (lp_max l1) q, lp_min := update_front smin (lp_min l1) q\<rparr> else l1)"
      unfolding twkb_write_point_def Let_def delta cond if_not_P[OF False] b(1) obind_simps upd tk l1_def ..
    have "loop_at (length fs) (w @ varints (map2 (-) q a)) q mn mx (Suc np) left l1"
      using l b(2,3) tk(2,3) by (simp add: loop_at_def l1_def)
    then have "loop_at (length fs) (w @ varints (map2 (-) q a)) q (add_min tg mn q) (add_max tg mx q) (Suc np) left
        (if twkb_wants tg TWKB_BBOX then l1\<lparr>lp_max := update_front smax (lp_max l1) q, lp_min := update_front smin (lp_min l1) q\<rparr> else l1)"
      by (simp add: loop_at_def add_min_def add_max_def)
    then show ?thesis unfolding if_not_P[OF False] w by blast
  qed
qed

lemma keep_points_small: "list_all small_point qs \<Longrightarrow> list_all small_point (keep_points m left prev qs)"
  by (induction m left prev qs rule: keep_points.induct) auto

lemma write_points:
  assumes fits: "pa_fits fs pa" and tg: "take (length fs) (factor tg) = fs" and m: "m < 2 ^ 32"
  shows "qs = map (quantise fs) (drop k (pa_points pa)) \<Longrightarrow> k \<le> unat (npoints pa) \<Longrightarrow>
    loop_at (length fs) w a mn mx np left l \<Longrightarrow> small_point a \<Longrightarrow> left < 2 ^ 32 \<Longrightarrow> length qs \<le> left \<Longrightarrow>
    length w + length (delta_bytes a (keep_points m left (if k = 0 then None else Some a) qs)) + 64 \<le> 2 ^ 62 \<Longrightarrow>
    \<exists>l' left'. run_steps (twkb_write_point pa tg (of_nat m)) l [k..<unat (npoints pa)] = ret l' \<and>
      (let ks = keep_points m left (if k = 0 then None else Some a) qs
       in loop_at (length fs) (w @ delta_bytes a ks) (last_point a ks) (opt_min tg mn ks) (opt_max tg mx ks) (np + length ks) left' l')"
proof (induction qs arbitrary: k w a mn mx np left l)
  case Nil
  then have "length (pa_points pa) \<le> k" by simp
  then show ?case using Nil by auto
next
  case (Cons q qs)
  have k: "k < unat (npoints pa)"
  proof (rule ccontr)
    assume "\<not> ?thesis"
    then show False using Cons.prems(1) by simp
  qed
  then have d: "drop k (pa_points pa) = pa_points pa ! k # drop (Suc k) (pa_points pa)" by (simp add: Cons_nth_drop_Suc)
  then have q: "q = quantise fs (pa_points pa ! k)" and qs: "qs = map (quantise fs) (drop (Suc k) (pa_points pa))"
    using Cons.prems(1) by simp_all
  have sq: "small_point q" "length q = length fs" using pa_fits_point[OF fits, of "pa_points pa ! k"] k q by auto
  have up: "[k..<unat (npoints pa)] = k # [Suc k..<unat (npoints pa)]" using k by (simp add: upt_conv_Cons)
  have left: "0 < left" "left - 1 < 2 ^ 32" "length qs \<le> left - 1" using Cons.prems(5,6) by auto
  have room: "length w + 64 \<le> 2 ^ 62" using Cons.prems(7) by simp
  note step = write_point_step[OF fits tg k Cons.prems(3,4) m Cons.prems(5) left(1) room, folded q]
  show ?case
  proof (cases "0 < k \<and> q = a \<and> m < left")
    case True
    from step[unfolded if_P[OF True]]
    obtain l1 where l1: "twkb_write_point pa tg (of_nat m) l k = ret l1" "loop_at (length fs) w a mn mx np (left - 1) l1"
      by blast
    have "\<exists>l' left'. run_steps (twkb_write_point pa tg (of_nat m)) l1 [Suc k..<unat (npoints pa)] = ret l' \<and>
      (let ks = keep_points m (left - 1) (if Suc k = 0 then None else Some a) qs
       in loop_at (length fs) (w @ delta_bytes a ks) (last_point a ks) (opt_min tg mn ks) (opt_max tg mx ks) (np + length ks) left' l')"
      using True Cons.prems(4,7) left k by (intro Cons.IH[OF qs _ l1(2)]) simp_all
    then show ?thesis using l1(1) True by (simp add: up)
  next
    case False
    then have nk: "\<not> ((if k = 0 then None else Some a) = Some q \<and> m < left)" by (auto split: if_splits)
    from step[unfolded if_not_P[OF False]] obtain l1 where l1: "twkb_write_point pa tg (of_nat m) l k = ret l1"
        "loop_at (length fs) (w @ varints (map2 (-) q a)) q (add_min tg mn q) (add_max tg mx q) (Suc np) left l1"
      by blast
    have ks: "keep_points m left (if k = 0 then None else Some a) (q # qs) = q # keep_points m left (Some q) qs"
      unfolding keep_points.simps if_not_P[OF nk] ..
    have r: "length (w @ varints (map2 (-) q a)) + length (delta_bytes q (keep_points m left (if Suc k = 0 then None else Some q) qs)) + 64
        \<le> 2 ^ 62" using Cons.prems(7) unfolding ks delta_bytes.simps length_append by (simp only: nat.simps if_False add.assoc)
    have "Suc k \<le> unat (npoints pa)" "length qs \<le> left" using k Cons.prems(6) by simp_all
    note Cons.IH[OF qs this(1) l1(2) sq(1) Cons.prems(5) this(2) r]
    then show ?thesis unfolding ks up using l1(1) by (simp add: Let_def)
  qed
qed

section \<open>Point arrays in the buffer\<close>

lemma keep_points_length: "length (keep_points m left prev qs) \<le> length qs"
  by (induction m left prev qs rule: keep_points.induct) (auto intro: le_SucI)

lemma kept_length: "length (kept_points fs m pa) \<le> unat (npoints pa)"
  using keep_points_length[of m "unat (npoints pa)" None "map (quantise fs) (pa_points pa)"] by (simp add: kept_points_def)

definition pa_bytes :: "flt list \<Rightarrow> bool \<Rightarrow> nat \<Rightarrow> i64 list \<Rightarrow> ptarray \<Rightarrow> u8 list" where
  "pa_bytes fs reg m a pa =
     (if reg then varint_u64_encode_buf (of_nat (length (kept_points fs m pa))) else []) @ delta_bytes a (kept_points fs m pa)"

definition ts_at :: "nat \<Rightarrow> u8 list \<Rightarrow> i64 list \<Rightarrow> i64 list \<Rightarrow> i64 list \<Rightarrow> twkb_state \<Rightarrow> bool" where
  "ts_at nd w a mn mx ts \<longleftrightarrow> bb_inv (geom_buf ts) \<and> written (geom_buf ts) = w \<and> take nd (accum_rels ts) = a \<and>
     length (accum_rels ts) = 4 \<and> bbox_min ts = mn \<and> bbox_max ts = mx"

definition same_frame :: "twkb_state \<Rightarrow> twkb_state \<Rightarrow> bool" where
  "same_frame ts ts' \<longleftrightarrow> idlist ts' = idlist ts \<and> header_buf ts' = header_buf ts"

lemma scast_of_nat: "n < 2147483648 \<Longrightarrow> (scast (of_nat n :: u32) :: u64) = of_nat n"
  using sint_of_nat_small[of n] by (metis of_int_of_nat_eq of_int_sint)

lemma varint_u64_one_byte:
  assumes "n < 128"
  shows "\<exists>b. varint_u64_encode_buf (of_nat n) = [b]"
proof -
  have "unat (of_nat n :: u64) < 2 ^ 7" using assms by (simp add: unsigned_of_nat take_bit_nat_eq_self)
  then have "drop_bit 7 (of_nat n :: u64) = 0"
    by (simp add: drop_bit_eq_div word_arith_nat_div)
  then show ?thesis using varint_u64_encode_buf_last[of "of_nat n"] by simp
qed

lemma poke_byte:
  assumes "bb_inv s" and "written s = w @ [c] @ v" and "length bs = 1"
  shows "\<exists>s'. bb_poke s (length w) bs = Inr s' \<and> bb_inv s' \<and> written s' = w @ bs @ v"
  using assms by (auto simp: bb_poke_def bb_inv_def)

lemma ptarray_writes:
  assumes fits: "pa_fits fs pa" and tg: "take (length fs) (factor tg) = fs" and m: "m < 2 ^ 32"
    and ts: "ts_at (length fs) w a mn mx ts" and a: "small_point a" and n: "npoints pa \<noteq> 0 \<or> reg"
    and room: "length w + length (pa_bytes fs reg m a pa) + 64 \<le> 2 ^ 62"
  defines "ks \<equiv> kept_points fs m pa"
  shows "\<exists>ts'. ptarray_to_twkb_buf pa tg ts reg (of_nat m) = ret ts' \<and> same_frame ts ts' \<and>
    ts_at (length fs) (w @ pa_bytes fs reg m a pa) (last_point a ks) (opt_min tg mn ks) (opt_max tg mx ks) ts'"
proof -
  let ?n = "unat (npoints pa)" and ?v = "varint_u64_encode_buf (of_nat (length ks))"
  let ?l0 = "\<lambda>b. \<lparr>lp_buf = b, lp_accum = accum_rels ts, lp_min = bbox_min ts, lp_max = bbox_max ts, lp_npoints = 0, lp_left = npoints pa\<rparr>"
  have inv: "bb_inv (geom_buf ts)" "written (geom_buf ts) = w" using ts by (simp_all add: ts_at_def)
  have bytes: "pa_bytes fs reg m a pa = (if reg then ?v else []) @ delta_bytes a ks" by (simp add: pa_bytes_def ks_def)
  have n31: "?n < 2147483648" using fits by (simp add: pa_fits_def word_le_nat_alt)
  have lk: "length ks < 2147483648" using kept_length[of fs m pa] n31 by (simp add: ks_def)
  have run: "\<exists>l'. run_steps (twkb_write_point pa tg (of_nat m)) (?l0 b) [0..<?n] = ret l' \<and> bb_inv (lp_buf l') \<and>
      written (lp_buf l') = written b @ delta_bytes a ks \<and> (scast (lp_npoints l') :: u64) = of_nat (length ks) \<and>
      ts_at (length fs) (written g) (last_point a ks) (opt_min tg mn ks) (opt_max tg mx ks)
        (ts\<lparr>accum_rels := lp_accum l', bbox_min := lp_min l', bbox_max := lp_max l', geom_buf := g\<rparr>)"
    if bg: "bb_inv b" "length (written b) + length (delta_bytes a ks) + 64 \<le> 2 ^ 62" "bb_inv g" for b g
  proof -
    have "loop_at (length fs) (written b) a mn mx 0 ?n (?l0 b)" using ts bg(1) by (simp add: loop_at_def ts_at_def)
    moreover have "keep_points m ?n (if (0::nat) = 0 then None else Some a) (map (quantise fs) (drop 0 (pa_points pa))) = ks"
      by (simp add: ks_def kept_points_def)
    ultimately obtain l' left' where "run_steps (twkb_write_point pa tg (of_nat m)) (?l0 b) [0..<?n] = ret l'"
      "loop_at (length fs) (written b @ delta_bytes a ks) (last_point a ks) (opt_min tg mn ks) (opt_max tg mx ks) (0 + length ks) left' l'"
      using write_points[OF fits tg m refl, of 0 "written b" a mn mx 0 ?n "?l0 b"] a bg(2) n31 unfolding Let_def by auto
    then show ?thesis using bg(3) scast_of_nat[OF lk] by (auto simp: loop_at_def ts_at_def)
  qed
  show ?thesis
  proof (cases "npoints pa = 0")
    case True
    then have r: reg and ks: "ks = []" using n kept_length[of fs m pa] by (auto simp: ks_def)
    have "bb_room (geom_buf ts) 16" using room inv by (simp add: bb_room_def)
    then obtain b where "bytebuffer_append_uvarint (geom_buf ts) 0 = ret b" "bb_inv b" "written b = w @ varint_u64_encode_buf 0"
      using bb.put_uvarint[of "geom_buf ts" 0] inv by auto
    then show ?thesis using True r ts unfolding bytes ks by (auto simp: ptarray_to_twkb_buf_def ts_at_def same_frame_def)
  next
    case False
    show ?thesis
    proof (cases "127 < npoints pa")
      case True
      let ?b = "bytebuffer_init_with_size (ucast (3 * of_nat (pa_ndims pa) * npoints pa))"
      obtain g where g: "(if reg then bytebuffer_append_uvarint (geom_buf ts) (of_nat (length ks)) else ret (geom_buf ts)) = ret g"
          "bb_inv g" "written g = w @ (if reg then ?v else [])"
        using bb.put_uvarint[of "geom_buf ts" "of_nat (length ks)"] room inv by (cases reg) (auto simp: bb_room_def)
      have rb: "length (written ?b) + length (delta_bytes a ks) + 64 \<le> 2 ^ 62" using room unfolding bytes by simp
      obtain l where l: "run_steps (twkb_write_point pa tg (of_nat m)) (?l0 ?b) [0..<?n] = ret l" "bb_inv (lp_buf l)"
          "written (lp_buf l) = delta_bytes a ks" "(scast (lp_npoints l) :: u64) = of_nat (length ks)"
        using run[OF bb_inv_init rb g(2)] by fastforce
      have "bb_room g (length (written (lp_buf l)))" using room g(3) l(3) unfolding bytes by (simp add: bb_room_def)
      then obtain g' where g': "bytebuffer_append_bytebuffer g (lp_buf l) = ret g'" "bb_inv g'"
          "written g' = w @ (if reg then ?v else []) @ delta_bytes a ks"
        using bb.put_buffer[OF g(2)] g(3) l(3) by fastforce
      have fin: "ts_at (length fs) (written g') (last_point a ks) (opt_min tg mn ks) (opt_max tg mx ks)
        (ts\<lparr>accum_rels := lp_accum l, bbox_min := lp_min l, bbox_max := lp_max l, geom_buf := g'\<rparr>)"
        using run[OF bb_inv_init rb g'(2)] l(1) by fastforce
      have "ptarray_to_twkb_buf pa tg ts reg (of_nat m)
          = ret (ts\<lparr>accum_rels := lp_accum l, bbox_min := lp_min l, bbox_max := lp_max l, geom_buf := g'\<rparr>)"
        using False True l(1,4) g(1) g'(1) unfolding ptarray_to_twkb_buf_def Let_def by (cases reg) simp_all
      then show ?thesis using fin unfolding bytes g'(3) by (auto simp: same_frame_def)
    next
      case small: False
      obtain b where b: "(if reg then bytebuffer_append_byte (geom_buf ts) 0 else ret (geom_buf ts)) = ret b"
          "bb_inv b" "written b = w @ (if reg then [0] else [])"
        using bb.put_byte[of "geom_buf ts" 0] room inv by (cases reg) (auto simp: bb_room_def)
      have lv: "1 \<le> length ?v" using varint_u64_encode_buf_nonempty[of "of_nat (length ks)"] by (cases ?v) auto
      have rb: "length (written b) + length (delta_bytes a ks) + 64 \<le> 2 ^ 62"
        using room lv unfolding bytes b(3) by (cases reg) simp_all
      obtain l where l: "run_steps (twkb_write_point pa tg (of_nat m)) (?l0 b) [0..<?n] = ret l" "bb_inv (lp_buf l)"
          "written (lp_buf l) = written b @ delta_bytes a ks" "(scast (lp_npoints l) :: u64) = of_nat (length ks)"
        using run[OF b(2) rb b(2)] by blast
      have off: "bytebuffer_getlength (geom_buf ts) = length w" using inv by (simp add: bytebuffer_getlength_def)
      have "?n \<le> 127" using small by (simp add: word_less_nat_alt)
      then obtain c where c: "?v = [c]" using varint_u64_one_byte[of "length ks"] kept_length[of fs m pa] by (auto simp: ks_def)
      obtain g where g: "(if reg then Some (bb_poke (lp_buf l) (length w) ?v) else ret (lp_buf l)) = ret g" "bb_inv g"
          "written g = w @ (if reg then ?v else []) @ delta_bytes a ks"
      proof (cases reg)
        case True
        then show ?thesis using that poke_byte[of "lp_buf l" w 0 "delta_bytes a ks" ?v] l(2,3) b(3) c by auto
      next
        case False
        then show ?thesis using that l(2,3) b(3) by simp
      qed
      have fin: "ts_at (length fs) (written g) (last_point a ks) (opt_min tg mn ks) (opt_max tg mx ks)
        (ts\<lparr>accum_rels := lp_accum l, bbox_min := lp_min l, bbox_max := lp_max l, geom_buf := g\<rparr>)"
        using run[OF b(2) rb g(2)] l(1) by fastforce
      have "ptarray_to_twkb_buf pa tg ts reg (of_nat m)
          = ret (ts\<lparr>accum_rels := lp_accum l, bbox_min := lp_min l, bbox_max := lp_max l, geom_buf := g\<rparr>)"
        using False small l(1,4) b(1) g(1) off unfolding ptarray_to_twkb_buf_def Let_def by (cases reg) simp_all
      then show ?thesis using fin unfolding bytes g(3) by (auto simp: same_frame_def)
    qed
  qed
qed

section \<open>Sequences of arrays\<close>

text \<open>The contents of a geometry under one header are counts, which are fixed bytes, and arrays.\<close>

datatype twkb_token = TBytes "u8 list" | TPoints bool nat ptarray

fun tok_points :: "flt list \<Rightarrow> twkb_token list \<Rightarrow> i64 list list" where
  "tok_points fs [] = []"
| "tok_points fs (TBytes bs # ts) = tok_points fs ts"
| "tok_points fs (TPoints reg m pa # ts) = kept_points fs m pa @ tok_points fs ts"

fun tok_bytes :: "flt list \<Rightarrow> i64 list \<Rightarrow> twkb_token list \<Rightarrow> u8 list" where
  "tok_bytes fs a [] = []"
| "tok_bytes fs a (TBytes bs # ts) = bs @ tok_bytes fs a ts"
| "tok_bytes fs a (TPoints reg m pa # ts) = pa_bytes fs reg m a pa @ tok_bytes fs (last_point a (kept_points fs m pa)) ts"

lemma tok_points_append [simp]: "tok_points fs (t @ u) = tok_points fs t @ tok_points fs u"
  by (induction fs t rule: tok_points.induct) simp_all

lemma tok_bytes_append [simp]: "tok_bytes fs a (t @ u) = tok_bytes fs a t @ tok_bytes fs (last_point a (tok_points fs t)) u"
  by (induction fs a t rule: tok_bytes.induct) simp_all

text \<open>A step that writes tokens.\<close>

definition writes :: "flt list \<Rightarrow> twkb_globals \<Rightarrow> twkb_token list \<Rightarrow> (twkb_state \<Rightarrow> twkb_state res option) \<Rightarrow> bool" where
  "writes fs tg toks f \<longleftrightarrow> list_all small_point (tok_points fs toks) \<and>
     (\<forall>ts w a mn mx. ts_at (length fs) w a mn mx ts \<and> small_point a \<and> length w + length (tok_bytes fs a toks) + 64 \<le> 2 ^ 62 \<longrightarrow>
       (\<exists>ts'. f ts = ret ts' \<and> same_frame ts ts' \<and> ts_at (length fs) (w @ tok_bytes fs a toks)
          (last_point a (tok_points fs toks)) (opt_min tg mn (tok_points fs toks)) (opt_max tg mx (tok_points fs toks)) ts'))"

lemma writesD:
  assumes "writes fs tg toks f" and "ts_at (length fs) w a mn mx ts" and "small_point a"
    and "length w + length (tok_bytes fs a toks) + 64 \<le> 2 ^ 62"
  obtains ts' where "f ts = ret ts'" and "same_frame ts ts'" and "ts_at (length fs) (w @ tok_bytes fs a toks)
    (last_point a (tok_points fs toks)) (opt_min tg mn (tok_points fs toks)) (opt_max tg mx (tok_points fs toks)) ts'"
  using assms unfolding writes_def by blast

lemma last_point_small: "small_point a \<Longrightarrow> list_all small_point qs \<Longrightarrow> small_point (last_point a qs)"
  by (induction qs arbitrary: a) simp_all

lemma same_frame_trans: "same_frame a b \<Longrightarrow> same_frame b c \<Longrightarrow> same_frame a c"
  by (simp add: same_frame_def)

lemma writes_Nil: "writes fs tg [] ret"
  by (simp add: writes_def same_frame_def)

lemma writes_append:
  assumes 1: "writes fs tg t f" and 2: "writes fs tg u g"
  shows "writes fs tg (t @ u) (\<lambda>ts. obind (f ts) g)"
  unfolding writes_def
proof (intro conjI allI impI)
  show "list_all small_point (tok_points fs (t @ u))" using assms by (simp add: writes_def)
  fix ts w a mn mx
  assume h: "ts_at (length fs) w a mn mx ts \<and> small_point a \<and> length w + length (tok_bytes fs a (t @ u)) + 64 \<le> 2 ^ 62"
  then have r: "length w + length (tok_bytes fs a t) + 64 \<le> 2 ^ 62" by simp
  obtain ts1 where t1: "f ts = ret ts1" "same_frame ts ts1" "ts_at (length fs) (w @ tok_bytes fs a t)
    (last_point a (tok_points fs t)) (opt_min tg mn (tok_points fs t)) (opt_max tg mx (tok_points fs t)) ts1"
    using writesD[OF 1 _ _ r] h by blast
  have s: "small_point (last_point a (tok_points fs t))" using 1 h by (intro last_point_small) (simp_all add: writes_def)
  have "length (w @ tok_bytes fs a t) + length (tok_bytes fs (last_point a (tok_points fs t)) u) + 64 \<le> 2 ^ 62" using h by simp
  from writesD[OF 2 t1(3) s this]
  obtain ts2 where "g ts1 = ret ts2" "same_frame ts1 ts2" "ts_at (length fs) ((w @ tok_bytes fs a t) @ tok_bytes fs (last_point a (tok_points fs t)) u)
    (last_point (last_point a (tok_points fs t)) (tok_points fs u)) (opt_min tg (opt_min tg mn (tok_points fs t)) (tok_points fs u))
    (opt_max tg (opt_max tg mx (tok_points fs t)) (tok_points fs u)) ts2" by blast
  then show "\<exists>ts'. obind (f ts) g = ret ts' \<and> same_frame ts ts' \<and> ts_at (length fs) (w @ tok_bytes fs a (t @ u))
      (last_point a (tok_points fs (t @ u))) (opt_min tg mn (tok_points fs (t @ u))) (opt_max tg mx (tok_points fs (t @ u))) ts'"
    using t1 same_frame_trans by auto
qed

lemma run_steps_obind: "run_steps f s (x # xs) = obind (f s x) (\<lambda>s. run_steps f s xs)"
  by (auto split: option.splits sum.splits)

lemma obind_ret: "obind (obind m (\<lambda>b. ret (h b))) k = obind m (\<lambda>b. k (h b))"
  by (auto simp: obind_def split: option.splits sum.splits)

lemma writes_list:
  "(\<And>x. x \<in> set xs \<Longrightarrow> writes fs tg (t x) (\<lambda>ts. f ts x)) \<Longrightarrow> writes fs tg (concat (map t xs)) (\<lambda>ts. run_steps f ts xs)"
proof (induction xs)
  case (Cons x xs)
  have "writes fs tg (t x @ concat (map t xs)) (\<lambda>ts. obind (f ts x) (\<lambda>s. run_steps f s xs))"
    using Cons by (intro writes_append) simp_all
  then show ?case unfolding run_steps_obind by simp
qed (simp add: writes_Nil)

lemma writes_count: "writes fs tg [TBytes (varint_u64_encode_buf v)] (\<lambda>ts. obind (bytebuffer_append_uvarint (geom_buf ts) v) (\<lambda>b. ret (ts\<lparr>geom_buf := b\<rparr>)))"
  unfolding writes_def
proof (intro conjI allI impI)
  fix ts w a mn mx
  assume h: "ts_at (length fs) w a mn mx ts \<and> small_point a \<and> length w + length (tok_bytes fs a [TBytes (varint_u64_encode_buf v)]) + 64 \<le> 2 ^ 62"
  then obtain b where "bytebuffer_append_uvarint (geom_buf ts) v = ret b" "bb_inv b" "written b = w @ varint_u64_encode_buf v"
    using bb.put_uvarint[of "geom_buf ts" v] by (auto simp: ts_at_def bb_room_def)
  then show "\<exists>ts'. obind (bytebuffer_append_uvarint (geom_buf ts) v) (\<lambda>b. ret (ts\<lparr>geom_buf := b\<rparr>)) = ret ts' \<and> same_frame ts ts' \<and>
    ts_at (length fs) (w @ tok_bytes fs a [TBytes (varint_u64_encode_buf v)]) (last_point a (tok_points fs [TBytes (varint_u64_encode_buf v)]))
      (opt_min tg mn (tok_points fs [TBytes (varint_u64_encode_buf v)])) (opt_max tg mx (tok_points fs [TBytes (varint_u64_encode_buf v)])) ts'"
    using h by (auto simp: ts_at_def same_frame_def)
qed simp

lemma writes_pa:
  assumes "pa_fits fs pa" and "take (length fs) (factor tg) = fs" and "m < 2 ^ 32" and "npoints pa \<noteq> 0 \<or> reg"
  shows "writes fs tg [TPoints reg m pa] (\<lambda>ts. ptarray_to_twkb_buf pa tg ts reg (of_nat m))"
  unfolding writes_def
proof (intro conjI allI impI)
  show "list_all small_point (tok_points fs [TPoints reg m pa])"
    using assms(1) keep_points_small by (auto simp: pa_fits_def kept_points_def)
  fix ts w a mn mx
  assume h: "ts_at (length fs) w a mn mx ts \<and> small_point a \<and> length w + length (tok_bytes fs a [TPoints reg m pa]) + 64 \<le> 2 ^ 62"
  then show "\<exists>ts'. ptarray_to_twkb_buf pa tg ts reg (of_nat m) = ret ts' \<and> same_frame ts ts' \<and>
    ts_at (length fs) (w @ tok_bytes fs a [TPoints reg m pa]) (last_point a (tok_points fs [TPoints reg m pa]))
      (opt_min tg mn (tok_points fs [TPoints reg m pa])) (opt_max tg mx (tok_points fs [TPoints reg m pa])) ts'"
    using ptarray_writes[OF assms(1-3) _ _ assms(4), of w a mn mx ts] by simp
qed

section \<open>Simple geometries and their collections\<close>

fun leaf_tokens :: "lwgeom \<Rightarrow> twkb_token list" where
  "leaf_tokens (LwPoint h pa) = [TPoints False 1 pa]"
| "leaf_tokens (LwLine h pa) = [TPoints True 2 pa]"
| "leaf_tokens (LwTriangle h pa) = [TBytes (varint_u64_encode_buf 1), TPoints True 2 pa]"
| "leaf_tokens (LwPoly h rings) = TBytes (varint_u64_encode_buf (of_nat (length rings))) # map (TPoints True 4) rings"
| "leaf_tokens g = []"

fun leaf_fits :: "flt list \<Rightarrow> lwgeom \<Rightarrow> bool" where
  "leaf_fits fs (LwPoint h pa) = (pa_fits fs pa \<and> npoints pa = 1)"
| "leaf_fits fs (LwLine h pa) = pa_fits fs pa"
| "leaf_fits fs (LwTriangle h pa) = pa_fits fs pa"
| "leaf_fits fs (LwPoly h rings) = list_all (pa_fits fs) rings"
| "leaf_fits fs g = False"

fun leaf_writer :: "lwgeom \<Rightarrow> twkb_globals \<Rightarrow> twkb_state \<Rightarrow> twkb_state res option" where
  "leaf_writer (LwPoint h pa) = lwpoint_to_twkb_buf pa"
| "leaf_writer (LwLine h pa) = lwline_to_twkb_buf pa"
| "leaf_writer (LwTriangle h pa) = lwtriangle_to_twkb_buf pa"
| "leaf_writer (LwPoly h rings) = lwpoly_to_twkb_buf rings"
| "leaf_writer g = (\<lambda>tg ts. Some (Inl MemFault))"

lemma leaf_writes:
  assumes g: "leaf_fits fs g" and tg: "take (length fs) (factor tg) = fs"
  shows "writes fs tg (leaf_tokens g) (leaf_writer g tg)" and "lwgeom_to_twkb_buf g s = twkb_leaf (leaf_writer g) s"
proof -
  note pa = writes_pa[OF _ tg]
  show "writes fs tg (leaf_tokens g) (leaf_writer g tg)"
  proof (cases g)
    case (LwTriangle h p)
    have "writes fs tg ([TBytes (varint_u64_encode_buf 1)] @ [TPoints True 2 p])
      (\<lambda>ts. obind (obind (bytebuffer_append_uvarint (geom_buf ts) 1) (\<lambda>b. ret (ts\<lparr>geom_buf := b\<rparr>)))
        (\<lambda>ts. ptarray_to_twkb_buf p tg ts True (of_nat 2)))"
      using g LwTriangle by (intro writes_append writes_count pa) simp_all
    then show ?thesis using LwTriangle by (simp add: lwtriangle_to_twkb_buf_def[abs_def] obind_ret)
  next
    case (LwPoly h rings)
    have "writes fs tg (concat (map (\<lambda>pa. [TPoints True 4 pa]) rings)) (\<lambda>ts. run_steps (\<lambda>ts pa. ptarray_to_twkb_buf pa tg ts True (of_nat 4)) ts rings)"
      using g LwPoly by (intro writes_list pa) (auto simp: list_all_iff)
    then have "writes fs tg ([TBytes (varint_u64_encode_buf (of_nat (length rings)))] @ concat (map (\<lambda>pa. [TPoints True 4 pa]) rings))
      (\<lambda>ts. obind (obind (bytebuffer_append_uvarint (geom_buf ts) (of_nat (length rings))) (\<lambda>b. ret (ts\<lparr>geom_buf := b\<rparr>)))
        (\<lambda>ts. run_steps (\<lambda>ts pa. ptarray_to_twkb_buf pa tg ts True (of_nat 4)) ts rings))"
      by (intro writes_append writes_count)
    moreover have "concat (map (\<lambda>pa. [TPoints True 4 pa]) rings) = map (TPoints True 4) rings" by (induction rings) simp_all
    ultimately show ?thesis using LwPoly by (simp add: lwpoly_to_twkb_buf_def[abs_def] obind_ret)
  qed (use g pa[of _ 1 False] pa[of _ 2 True] in \<open>auto simp: lwpoint_to_twkb_buf_def[abs_def] lwline_to_twkb_buf_def[abs_def]\<close>)
  show "lwgeom_to_twkb_buf g s = twkb_leaf (leaf_writer g) s" using g by (cases g) simp_all
qed

lemma put_varints:
  "bb_inv b \<Longrightarrow> length (written b) + length (varints ds) + 64 \<le> 2 ^ 62 \<Longrightarrow>
   \<exists>b'. run_steps bytebuffer_append_varint b ds = ret b' \<and> bb_inv b' \<and> written b' = written b @ varints ds"
proof (induction ds arbitrary: b)
  case (Cons d ds)
  have e: "varints (d # ds) = varint_s64_encode_buf d @ varints ds" by (simp add: varints_def)
  have "bb_room b 16" using Cons.prems(2) unfolding e by (simp add: bb_room_def)
  then obtain b1 where b1: "bytebuffer_append_varint b d = ret b1" "bb_inv b1" "written b1 = written b @ varint_s64_encode_buf d"
    using bb.put_varint[OF Cons.prems(1)] by blast
  have "length (written b1) + length (varints ds) + 64 \<le> 2 ^ 62" using Cons.prems(2) unfolding e b1(3) by simp
  from Cons.IH[OF b1(2) this] show ?case unfolding run_steps_obind b1(1) e using b1(3) by auto
qed (simp add: varints_def)

text \<open>The identifiers.\<close>

definition id_bytes :: "i64 list option \<Rightarrow> nat list \<Rightarrow> u8 list" where
  "id_bytes ids is = (case ids of None \<Rightarrow> [] | Some l \<Rightarrow> varints (map (nth l) is))"

definition ids_fit :: "i64 list option \<Rightarrow> lwgeom list \<Rightarrow> bool" where
  "ids_fit ids gs \<longleftrightarrow> (\<forall>l. ids = Some l \<longrightarrow> length gs \<le> length l)"

lemma put_ids:
  assumes ts: "ts_at nd w a mn mx ts" and ids: "ids_fit (idlist ts) gs" and sub: "set is \<subseteq> {..<length gs}"
    and room: "length w + length (id_bytes (idlist ts) is) + 64 \<le> 2 ^ 62"
  shows "\<exists>ts'. twkb_put_ids is ts = ret ts' \<and> ts_at nd (w @ id_bytes (idlist ts) is) a mn mx ts' \<and> idlist ts' = None \<and>
    header_buf ts' = header_buf ts"
proof (cases "idlist ts")
  case None
  then show ?thesis using ts by (simp add: twkb_put_ids_def id_bytes_def)
next
  case (Some l)
  have "set is \<subseteq> {..<length l}" using ids sub Some by (auto simp: ids_fit_def)
  then have "run_steps (\<lambda>b i. if i < length l then bytebuffer_append_varint b (l ! i) else Some (Inl MemFault)) b is
      = run_steps bytebuffer_append_varint b (map (nth l) is)" for b
  proof (induction "is" arbitrary: b)
    case (Cons i js)
    then have "i < length l" "set js \<subseteq> {..<length l}" by simp_all
    with Cons.IH show ?case by (simp only: run_steps_obind list.map if_True)
  qed simp
  moreover obtain b where "run_steps bytebuffer_append_varint (geom_buf ts) (map (nth l) is) = ret b" "bb_inv b"
      "written b = w @ id_bytes (idlist ts) is"
    using put_varints[of "geom_buf ts" "map (nth l) is"] ts room Some by (auto simp: ts_at_def id_bytes_def)
  ultimately show ?thesis using ts Some by (simp add: twkb_put_ids_def ts_at_def)
qed

lemma run_steps_filter: "run_steps (\<lambda>s g. if P g then ret s else f s g) s gs = run_steps f s (filter (\<lambda>g. \<not> P g) gs)"
  by (induction gs arbitrary: s) (simp_all split: option.splits sum.splits)

lemma run_leaves:
  "(\<And>g. g \<in> set gs \<Longrightarrow> F g = twkb_leaf (f g)) \<Longrightarrow> run_steps (\<lambda>s g. F g s) (tg, ts) gs = obind (run_steps (\<lambda>ts g. f g tg ts) ts gs) (\<lambda>ts. ret (tg, ts))"
proof (induction gs arbitrary: ts)
  case (Cons g gs)
  have a: "obind (obind m f) k = obind m (\<lambda>x. obind (f x) k)" for m :: "twkb_state res option" and f :: "twkb_state \<Rightarrow> twkb_state res option"
      and k :: "twkb_state \<Rightarrow> twkb res option"
    by (auto simp: obind_def split: option.splits sum.splits)
  show ?case unfolding run_steps_obind using Cons by (simp add: twkb_leaf_def a obind_ret)
qed simp

definition twkb_members :: "u8 \<Rightarrow> lwgeom list \<Rightarrow> lwgeom list" where
  "twkb_members ty gs = filter (\<lambda>g. \<not> twkb_skips ty g) gs"

definition member_indices :: "u8 \<Rightarrow> lwgeom list \<Rightarrow> nat list" where
  "member_indices ty gs = filter (\<lambda>i. \<not> twkb_skips ty (gs ! i)) [0..<length gs]"

abbreviation MULTI_TYPES :: "u8 set" where "MULTI_TYPES \<equiv> {MULTIPOINTTYPE, MULTILINETYPE, MULTIPOLYGONTYPE}"

lemma multi_writes:
  assumes fits: "list_all (leaf_fits fs) (twkb_members ty gs)" and tg: "take (length fs) (factor tg) = fs" and ty: "ty \<in> MULTI_TYPES"
    and ts: "ts_at (length fs) w a mn mx ts" and a: "small_point a" and ids: "ids_fit (idlist ts) gs"
  defines "toks \<equiv> concat (map leaf_tokens (twkb_members ty gs))"
  assumes room: "length w + length (varint_u64_encode_buf (of_nat (length (twkb_members ty gs))) @ id_bytes (idlist ts) (member_indices ty gs) @
      tok_bytes fs a toks) + 64 \<le> 2 ^ 62"
  shows "\<exists>ts'. lwgeom_to_twkb_buf (LwColl ty h gs) (tg, ts) = ret (tg, ts') \<and>
    ts_at (length fs) (w @ varint_u64_encode_buf (of_nat (length (twkb_members ty gs))) @ id_bytes (idlist ts) (member_indices ty gs) @
      tok_bytes fs a toks) (last_point a (tok_points fs toks)) (opt_min tg mn (tok_points fs toks)) (opt_max tg mx (tok_points fs toks)) ts'"
proof -
  let ?c = "of_nat (length (twkb_members ty gs)) :: u64" and ?ms = "twkb_members ty gs"
  have cnt: "length gs - length (filter (twkb_skips ty) gs) = length ?ms"
    using sum_length_filter_compl[of "twkb_skips ty" gs] by (simp add: twkb_members_def)
  obtain b where b: "bytebuffer_append_uvarint (geom_buf ts) ?c = ret b" "bb_inv b" "written b = w @ varint_u64_encode_buf ?c"
    using bb.put_uvarint[of "geom_buf ts" ?c] ts room by (auto simp: ts_at_def bb_room_def)
  have t1: "ts_at (length fs) (w @ varint_u64_encode_buf ?c) a mn mx (ts\<lparr>geom_buf := b\<rparr>)" using ts b by (simp add: ts_at_def)
  have "set (member_indices ty gs) \<subseteq> {..<length gs}" by (auto simp: member_indices_def)
  then obtain ts2 where t2: "twkb_put_ids (member_indices ty gs) (ts\<lparr>geom_buf := b\<rparr>) = ret ts2"
      "ts_at (length fs) ((w @ varint_u64_encode_buf ?c) @ id_bytes (idlist ts) (member_indices ty gs)) a mn mx ts2"
    using put_ids[OF t1, of gs "member_indices ty gs"] ids room by (auto simp: add.assoc)
  have leaf: "leaf_fits fs g" if "g \<in> set ?ms" for g using fits that by (simp add: list_all_iff)
  have wr: "writes fs tg toks (\<lambda>ts. run_steps (\<lambda>ts g. leaf_writer g tg ts) ts ?ms)"
    unfolding toks_def using leaf_writes(1)[OF leaf tg] by (intro writes_list) simp_all
  have "length ((w @ varint_u64_encode_buf ?c) @ id_bytes (idlist ts) (member_indices ty gs)) + length (tok_bytes fs a toks) + 64 \<le> 2 ^ 62"
    using room by simp
  from writesD[OF wr t2(2) a this]
  obtain ts3 where t3: "run_steps (\<lambda>ts g. leaf_writer g tg ts) ts2 ?ms = ret ts3"
      "ts_at (length fs) (((w @ varint_u64_encode_buf ?c) @ id_bytes (idlist ts) (member_indices ty gs)) @ tok_bytes fs a toks)
        (last_point a (tok_points fs toks)) (opt_min tg mn (tok_points fs toks)) (opt_max tg mx (tok_points fs toks)) ts3" by blast
  have "run_steps (\<lambda>s g. lwgeom_to_twkb_buf g s) (tg, ts2) ?ms = ret (tg, ts3)"
    using run_leaves[of ?ms lwgeom_to_twkb_buf leaf_writer tg ts2] leaf_writes(2)[OF leaf tg] t3(1) by (simp add: fun_eq_iff)
  then have "lwmulti_to_twkb_buf lwgeom_to_twkb_buf ty gs (tg, ts) = ret (tg, ts3)"
    unfolding lwmulti_to_twkb_buf_def prod.case cnt run_steps_filter twkb_members_def[symmetric] member_indices_def[symmetric] b(1) obind_simps t2(1) .
  then show ?thesis using ty t3(2) by (auto simp: append_assoc)
qed

end
