(* ===== verification/TwkbIn.thy ===== *)
theory TwkbIn
  imports TwkbOut
begin

text \<open>
  The reader of tiny well-known binary (liblwgeom/lwin_twkb.c). The state has the bytes from \<open>pos\<close> to the end of the
  input in place of the three pointers, and the integers added up so far in place of \<open>coords\<close>. The recursion of
  \<open>lwgeom_from_twkb_state\<close> takes the call depth still available.
\<close>

section \<open>State and scalars\<close>

record twkb_parse_state =
  tk_pos :: "u8 list"
  tk_check :: u8
  tk_lwtype :: u8
  tk_has_bbox :: bool
  tk_has_size :: bool
  tk_has_idlist :: bool
  tk_has_z :: bool
  tk_has_m :: bool
  tk_is_empty :: bool
  tk_factor :: dbl
  tk_factor_z :: dbl
  tk_factor_m :: dbl
  tk_size :: u64
  tk_ndims :: nat
  tk_coords :: "i64 list"

type_synonym 'a twkb_reader = "twkb_parse_state \<Rightarrow> ('a \<times> twkb_parse_state) res"

definition twkb_parse_state_advance :: "twkb_parse_state \<Rightarrow> nat \<Rightarrow> twkb_parse_state res" where
  "twkb_parse_state_advance s next =
     (if length (tk_pos s) < next then Inl (LwError ''%s: TWKB structure does not match expected size!'')
      else Inr (s\<lparr>tk_pos := drop next (tk_pos s)\<rparr>))"

definition twkb_parse_state_varint :: "i64 twkb_reader" where
  "twkb_parse_state_varint s =
     rbind (varint_s64_decode (tk_pos s)) (\<lambda>(val, size'). rbind (twkb_parse_state_advance s size') (\<lambda>s. Inr (val, s)))"

definition twkb_parse_state_uvarint :: "u64 twkb_reader" where
  "twkb_parse_state_uvarint s =
     rbind (varint_u64_decode (tk_pos s)) (\<lambda>(val, size'). rbind (twkb_parse_state_advance s size') (\<lambda>s. Inr (val, s)))"

text \<open>An integer divided by a factor, as a double.\<close>

definition twkb_scale :: "dbl \<Rightarrow> i64 \<Rightarrow> dbl" where
  "twkb_scale fac val = dbl_div (dbl_of_int (sint val)) fac"

definition twkb_parse_state_double :: "dbl \<Rightarrow> dbl twkb_reader" where
  "twkb_parse_state_double fac s =
     rbind (varint_s64_decode (tk_pos s)) (\<lambda>(val, size').
       rbind (twkb_parse_state_advance s size') (\<lambda>s. Inr (twkb_scale fac val, s)))"

definition twkb_parse_state_varint_skip :: "twkb_parse_state \<Rightarrow> twkb_parse_state res" where
  "twkb_parse_state_varint_skip s =
     (let size' = varint_size (tk_pos s)
      in if size' = 0 then Inl (LwError ''%s: no varint to skip'') else twkb_parse_state_advance s size')"

definition lwtype_from_twkb_type :: "u8 \<Rightarrow> u8 res" where
  "lwtype_from_twkb_type twkb_type =
     (if twkb_type = 1 then Inr POINTTYPE
      else if twkb_type = 2 then Inr LINETYPE
      else if twkb_type = 3 then Inr POLYGONTYPE
      else if twkb_type = 4 then Inr MULTIPOINTTYPE
      else if twkb_type = 5 then Inr MULTILINETYPE
      else if twkb_type = 6 then Inr MULTIPOLYGONTYPE
      else if twkb_type = 7 then Inr COLLECTIONTYPE
      else Inl (LwError ''Unknown WKB type''))"

text \<open>The byte is read before the end of the input is checked.\<close>

definition byte_from_twkb_state :: "u8 twkb_reader" where
  "byte_from_twkb_state s =
     (case tk_pos s of [] \<Rightarrow> Inl MemFault
      | val # _ \<Rightarrow> rbind (twkb_parse_state_advance s 1) (\<lambda>s. Inr (val, s)))"

section \<open>Point arrays\<close>

definition ptarray_construct :: "bool \<Rightarrow> bool \<Rightarrow> u32 \<Rightarrow> dbl list \<Rightarrow> ptarray" where
  "ptarray_construct hasz hasm n dlist = (ptarray_construct_empty hasz hasm n)\<lparr>npoints := n, serialized_pointlist := dlist\<rparr>"

text \<open>The ordinate \<open>j\<close>: the coordinate moves by the varint.\<close>

definition ordinate_from_twkb_state :: "nat \<Rightarrow> dbl \<Rightarrow> dbl twkb_reader" where
  "ordinate_from_twkb_state j fac s =
     rbind (twkb_parse_state_varint s) (\<lambda>(d, s).
       let s = s\<lparr>tk_coords := (tk_coords s)[j := tk_coords s ! j + d]\<rparr>
       in Inr (twkb_scale fac (tk_coords s ! j), s))"

definition point_from_twkb_state :: "dbl list twkb_reader" where
  "point_from_twkb_state s =
     rbind (ordinate_from_twkb_state 0 (tk_factor s) s) (\<lambda>(x, s).
     rbind (ordinate_from_twkb_state 1 (tk_factor s) s) (\<lambda>(y, s).
     rbind (if tk_has_z s then rbind (ordinate_from_twkb_state 2 (tk_factor_z s) s) (\<lambda>(z, s). Inr ([z], s)) else Inr ([], s)) (\<lambda>(zs, s).
     rbind (if tk_has_m s then rbind (ordinate_from_twkb_state (2 + of_bool (tk_has_z s)) (tk_factor_m s) s) (\<lambda>(m, s). Inr ([m], s))
            else Inr ([], s)) (\<lambda>(ms, s).
       Inr ([x, y] @ zs @ ms, s)))))"

primrec points_from_twkb_state :: "nat \<Rightarrow> dbl list twkb_reader" where
  "points_from_twkb_state 0 s = Inr ([], s)"
| "points_from_twkb_state (Suc n) s =
     rbind (point_from_twkb_state s) (\<lambda>(p, s). rbind (points_from_twkb_state n s) (\<lambda>(ps, s). Inr (p @ ps, s)))"

definition ptarray_from_twkb_state :: "u32 \<Rightarrow> ptarray twkb_reader" where
  "ptarray_from_twkb_state n s =
     (if n = 0 then Inr (ptarray_construct_empty (tk_has_z s) (tk_has_m s) 0, s)
      else
        let z = tk_has_z s; m = tk_has_m s
        in rbind (points_from_twkb_state (unat n) s) (\<lambda>(dlist, s). Inr (ptarray_construct z m n dlist, s)))"

section \<open>Simple geometries\<close>

definition tk_checks :: "twkb_parse_state \<Rightarrow> bool" where
  "tk_checks s \<longleftrightarrow> tk_check s AND 1 \<noteq> 0"

definition lwpoint_from_twkb_state :: "lwgeom twkb_reader" where
  "lwpoint_from_twkb_state s =
     (if tk_is_empty s then Inr (lwpoint_construct_empty SRID_UNKNOWN (tk_has_z s) (tk_has_m s), s)
      else rbind (ptarray_from_twkb_state 1 s) (\<lambda>(pa, s). Inr (lwpoint_construct SRID_UNKNOWN None pa, s)))"

definition lwline_from_twkb_state :: "lwgeom twkb_reader" where
  "lwline_from_twkb_state s =
     (let none = lwline_construct_empty SRID_UNKNOWN (tk_has_z s) (tk_has_m s)
      in if tk_is_empty s then Inr (none, s)
         else rbind (twkb_parse_state_uvarint s) (\<lambda>(n, s).
           let n = ucast n :: u32
           in if n = 0 then Inr (none, s)
              else rbind (ptarray_from_twkb_state n s) (\<lambda>(pa, s).
                if tk_checks s \<and> npoints pa < 2 then Inl (LwError ''%s must have at least two points'')
                else Inr (lwline_construct SRID_UNKNOWN None pa, s))))"

text \<open>
  A ring that is not closed is closed with its first point. An empty ring has none: \<open>getPoint4d_p\<close> fails, and what is
  appended is an uninitialised variable.
\<close>

definition twkb_close_ring :: "ptarray \<Rightarrow> ptarray res" where
  "twkb_close_ring pa =
     (if ptarray_is_closed_2d pa \<noteq> 0 then Inr pa
      else case getPoint4d_p pa 0 of None \<Rightarrow> Inl MemFault | Some pt \<Rightarrow> ptarray_append_point pa pt False)"

primrec rings_from_twkb_state :: "nat \<Rightarrow> ptarray list \<Rightarrow> ptarray list twkb_reader" where
  "rings_from_twkb_state 0 rings s = Inr (rings, s)"
| "rings_from_twkb_state (Suc n) rings s =
     rbind (twkb_parse_state_uvarint s) (\<lambda>(np, s).
     rbind (ptarray_from_twkb_state (ucast np) s) (\<lambda>(pa, s).
     rbind (twkb_close_ring pa) (\<lambda>pa.
       if tk_checks s \<and> npoints pa < 4 then Inl (LwError ''%s must have at least four points in each ring'')
       else rings_from_twkb_state n (lwpoly_add_ring rings pa) s)))"

definition lwpoly_from_twkb_state :: "lwgeom twkb_reader" where
  "lwpoly_from_twkb_state s =
     (let hdr = empty_hdr SRID_UNKNOWN (tk_has_z s) (tk_has_m s)
      in if tk_is_empty s then Inr (LwPoly hdr [], s)
         else rbind (twkb_parse_state_uvarint s) (\<lambda>(nrings, s).
           let nrings = ucast nrings :: u32
           in if nrings = 0 then Inr (LwPoly hdr [], s)
              else rbind (rings_from_twkb_state (unat nrings) [] s) (\<lambda>(rings, s). Inr (LwPoly hdr rings, s))))"

section \<open>Collections\<close>

primrec skip_ids_from_twkb_state :: "nat \<Rightarrow> twkb_parse_state \<Rightarrow> twkb_parse_state res" where
  "skip_ids_from_twkb_state 0 s = Inr s"
| "skip_ids_from_twkb_state (Suc n) s = rbind (twkb_parse_state_varint_skip s) (skip_ids_from_twkb_state n)"

primrec members_from_twkb_state :: "lwgeom twkb_reader \<Rightarrow> u8 \<Rightarrow> nat \<Rightarrow> lwgeom list \<Rightarrow> lwgeom list twkb_reader" where
  "members_from_twkb_state rd ty 0 gs s = Inr (gs, s)"
| "members_from_twkb_state rd ty (Suc n) gs s =
     rbind (rd s) (\<lambda>(g, s). rbind (lwcollection_add_lwgeom ty gs g) (\<lambda>gs. members_from_twkb_state rd ty n gs s))"

text \<open>
  The common text of the functions for the collections, each with its reader of members \<open>rd\<close>. The count is an \<open>int\<close>,
  so that 2 ^ 31 and more are no members.
\<close>

definition multi_from_twkb_state :: "lwgeom twkb_reader \<Rightarrow> lwgeom twkb_reader" where
  "multi_from_twkb_state rd s =
     (let ty = tk_lwtype s
      in rbind (lwcollection_construct_empty ty SRID_UNKNOWN (tk_has_z s) (tk_has_m s)) (\<lambda>col.
         if tk_is_empty s then Inr (col, s)
         else rbind (twkb_parse_state_uvarint s) (\<lambda>(n, s).
           let ngeoms = nat (sint (ucast n :: 32 word))
           in rbind (if tk_has_idlist s then skip_ids_from_twkb_state ngeoms s else Inr s) (\<lambda>s.
              rbind (members_from_twkb_state rd ty ngeoms [] s) (\<lambda>(gs, s). Inr (LwColl ty (g_hdr col) gs, s))))))"

definition lwmultipoint_from_twkb_state :: "lwgeom twkb_reader" where
  "lwmultipoint_from_twkb_state = multi_from_twkb_state lwpoint_from_twkb_state"

definition lwmultiline_from_twkb_state :: "lwgeom twkb_reader" where
  "lwmultiline_from_twkb_state = multi_from_twkb_state lwline_from_twkb_state"

definition lwmultipoly_from_twkb_state :: "lwgeom twkb_reader" where
  "lwmultipoly_from_twkb_state = multi_from_twkb_state lwpoly_from_twkb_state"

definition lwcollection_from_twkb_state :: "lwgeom twkb_reader \<Rightarrow> lwgeom twkb_reader" where
  "lwcollection_from_twkb_state rd = multi_from_twkb_state rd"

section \<open>Header and box\<close>

definition header_from_twkb_state :: "twkb_parse_state \<Rightarrow> twkb_parse_state res" where
  "header_from_twkb_state s =
     rbind (byte_from_twkb_state s) (\<lambda>(type_precision, s).
     rbind (byte_from_twkb_state s) (\<lambda>(metadata, s).
     rbind (lwtype_from_twkb_type (type_precision AND 0x0F)) (\<lambda>ty.
       let precision = unzigzag8 (drop_bit 4 (type_precision AND 0xF0));
           s = s\<lparr>tk_lwtype := ty, tk_factor := pow10 (sint precision), tk_has_bbox := metadata AND 0x01 \<noteq> 0,
                 tk_has_size := metadata AND 0x02 \<noteq> 0, tk_has_idlist := metadata AND 0x04 \<noteq> 0, tk_is_empty := metadata AND 0x10 \<noteq> 0\<rparr>
       in rbind (if metadata AND 0x08 \<noteq> 0
                 then rbind (byte_from_twkb_state s) (\<lambda>(extended_dims, s).
                   Inr (s\<lparr>tk_has_z := extended_dims AND 0x01 \<noteq> 0, tk_has_m := extended_dims AND 0x02 \<noteq> 0,
                          tk_factor_z := pow10 (sint (drop_bit 2 (extended_dims AND 0x1C))),
                          tk_factor_m := pow10 (sint (drop_bit 5 (extended_dims AND 0xE0)))\<rparr>))
                 else Inr (s\<lparr>tk_has_z := False, tk_has_m := False, tk_factor_z := 0, tk_factor_m := 0\<rparr>)) (\<lambda>s.
          rbind (if tk_has_size s then rbind (twkb_parse_state_uvarint s) (\<lambda>(n, s). Inr (s\<lparr>tk_size := n\<rparr>)) else Inr s) (\<lambda>s.
            Inr (s\<lparr>tk_ndims := 2 + of_bool (tk_has_z s) + of_bool (tk_has_m s)\<rparr>))))))"

text \<open>A minimum and the extent above it.\<close>

definition bounds_from_twkb_state :: "dbl \<Rightarrow> (dbl \<times> dbl) twkb_reader" where
  "bounds_from_twkb_state fac s =
     rbind (twkb_parse_state_double fac s) (\<lambda>(lo, s).
     rbind (twkb_parse_state_double fac s) (\<lambda>(d, s). Inr ((lo, dbl_add lo d), s)))"

definition bbox_from_twkb_state :: "gbox twkb_reader" where
  "bbox_from_twkb_state s =
     (let bbox = \<lparr>gb_flags = lwflags (tk_has_z s) (tk_has_m s) False, xmin = 0, xmax = 0, ymin = 0, ymax = 0,
                  zmin = 0, zmax = 0, mmin = 0, mmax = 0\<rparr>
      in rbind (bounds_from_twkb_state (tk_factor s) s) (\<lambda>(x, s).
         rbind (bounds_from_twkb_state (tk_factor s) s) (\<lambda>(y, s).
         let bbox = bbox\<lparr>xmin := fst x, xmax := snd x, ymin := fst y, ymax := snd y\<rparr>
         in rbind (if tk_has_z s
                   then rbind (bounds_from_twkb_state (tk_factor_z s) s) (\<lambda>(z, s). Inr (bbox\<lparr>zmin := fst z, zmax := snd z\<rparr>, s))
                   else Inr (bbox, s)) (\<lambda>(bbox, s).
            if tk_has_m s
            then rbind (bounds_from_twkb_state (tk_factor_m s) s) (\<lambda>(m, s). Inr (bbox\<lparr>mmin := fst m, mmax := snd m\<rparr>, s))
            else Inr (bbox, s)))))"

text \<open>The box is attached to the geometry; the flag for it is not set.\<close>

definition hdr_set_bbox :: "gbox \<Rightarrow> lwhdr \<Rightarrow> lwhdr" where
  "hdr_set_bbox bbox h = h\<lparr>g_bbox := Some bbox\<rparr>"

fun lwgeom_attach_bbox :: "gbox option \<Rightarrow> lwgeom \<Rightarrow> lwgeom" where
  "lwgeom_attach_bbox None g = g"
| "lwgeom_attach_bbox (Some b) (LwPoint h pa) = LwPoint (hdr_set_bbox b h) pa"
| "lwgeom_attach_bbox (Some b) (LwLine h pa) = LwLine (hdr_set_bbox b h) pa"
| "lwgeom_attach_bbox (Some b) (LwCircString h pa) = LwCircString (hdr_set_bbox b h) pa"
| "lwgeom_attach_bbox (Some b) (LwTriangle h pa) = LwTriangle (hdr_set_bbox b h) pa"
| "lwgeom_attach_bbox (Some b) (LwPoly h rings) = LwPoly (hdr_set_bbox b h) rings"
| "lwgeom_attach_bbox (Some b) (LwEllipse h e) = LwEllipse (hdr_set_bbox b h) e"
| "lwgeom_attach_bbox (Some b) (LwBezier h pa) = LwBezier (hdr_set_bbox b h) pa"
| "lwgeom_attach_bbox (Some b) (LwColl ty h gs) = LwColl ty (hdr_set_bbox b h) gs"

section \<open>Geometries\<close>

text \<open>The switch; \<open>rd\<close> is the recursive call.\<close>

definition body_from_twkb_state :: "lwgeom twkb_reader \<Rightarrow> lwgeom twkb_reader" where
  "body_from_twkb_state rd s =
     (if tk_lwtype s = POINTTYPE then lwpoint_from_twkb_state s
      else if tk_lwtype s = LINETYPE then lwline_from_twkb_state s
      else if tk_lwtype s = POLYGONTYPE then lwpoly_from_twkb_state s
      else if tk_lwtype s = MULTIPOINTTYPE then lwmultipoint_from_twkb_state s
      else if tk_lwtype s = MULTILINETYPE then lwmultiline_from_twkb_state s
      else if tk_lwtype s = MULTIPOLYGONTYPE then lwmultipoly_from_twkb_state s
      else if tk_lwtype s = COLLECTIONTYPE then lwcollection_from_twkb_state rd s
      else Inl (LwError ''%s: Unsupported geometry type: %s''))"

primrec lwgeom_from_twkb_state :: "nat \<Rightarrow> lwgeom twkb_reader" where
  "lwgeom_from_twkb_state 0 s = Inl StackOverflow"
| "lwgeom_from_twkb_state (Suc d) s =
     rbind (header_from_twkb_state s) (\<lambda>s.
       let s = s\<lparr>tk_coords := replicate 4 0\<rparr>
       in rbind (if tk_has_bbox s then rbind (bbox_from_twkb_state s) (\<lambda>(b, s). Inr (Some b, s)) else Inr (None, s)) (\<lambda>(bbox, s).
          rbind (body_from_twkb_state (lwgeom_from_twkb_state d) s) (\<lambda>(g, s). Inr (lwgeom_attach_bbox bbox g, s))))"

definition twkb_initial_state :: "u8 list \<Rightarrow> u8 \<Rightarrow> twkb_parse_state" where
  "twkb_initial_state twkb chk =
     \<lparr>tk_pos = twkb, tk_check = chk, tk_lwtype = 0, tk_has_bbox = False, tk_has_size = False, tk_has_idlist = False,
      tk_has_z = False, tk_has_m = False, tk_is_empty = False, tk_factor = 0, tk_factor_z = 0, tk_factor_m = 0, tk_size = 0,
      tk_ndims = 0, tk_coords = [0, 0, 0, 0]\<rparr>"

definition lwgeom_from_twkb :: "nat \<Rightarrow> u8 list \<Rightarrow> u8 \<Rightarrow> lwgeom res" where
  "lwgeom_from_twkb d twkb chk =
     rbind (lwgeom_from_twkb_state d (twkb_initial_state twkb chk)) (\<lambda>(g, s). Inr g)"

end
