(* ===== verification/TwkbNumbers.thy ===== *)
theory TwkbNumbers
  imports TwkbIn
begin

text \<open>
  Integers as coordinates of tiny well-known binary: with precision 0 the factor is 1, and an integer below
  2 ^ 53 survives the scaling, the rounding and the division of theories \<open>TwkbOut\<close> and \<open>TwkbIn\<close> unchanged.
\<close>

section \<open>Operations on normal numbers\<close>

lemma fp_rnd_shifted:
  assumes "2 ^ (p - 1) \<le> a" "a < 2 ^ p" "s \<le> e" "0 < p"
  shows "fp_rnd p (a * 2 ^ e) s = a + (e - s) * 2 ^ (p - 1)"
proof -
  have "top_bit (a * 2 ^ e) = p - 1 + e"
  proof (rule top_bit_unique)
    have "2 ^ (p - 1) * 2 ^ e \<le> a * 2 ^ e" using assms by (intro mult_le_mono1)
    then show "2 ^ (p - 1 + e) \<le> a * 2 ^ e" by (simp only: power_add)
    have "a * 2 ^ e < 2 ^ p * 2 ^ e" using assms by simp
    then show "a * 2 ^ e < 2 ^ Suc (p - 1 + e)" using assms(4) by (simp flip: power_add power_Suc)
  qed
  then show ?thesis using assms by (simp add: fp_rnd_def rne_exact max_def)
qed
lemma fp_val_normal: "fp_val 53 (a + e * 2 ^ 52) = a * 2 ^ e" if "2 ^ 52 \<le> a" "a < 2 ^ 53"
proof -
  define r where "r = a - 2 ^ 52"
  have r: "a = 2 ^ 52 + r" "r < 2 ^ 52" using that by (simp_all add: r_def)
  have e: "a + e * 2 ^ 52 = r + 2 ^ 52 * Suc e" using r(1) by simp
  have m: "(a + e * 2 ^ 52) div 2 ^ 52 = Suc e" "(a + e * 2 ^ 52) mod 2 ^ 52 = r"
    unfolding e using r(2) by (simp, simp only: mod_mult_self2 mod_less)
  show ?thesis using r unfolding fp_val_def m by simp
qed

text \<open>A positive normal number with significand \<open>a\<close>, which is \<open>a * 2 ^ e\<close> units.\<close>

definition normal_dbl :: "bool \<Rightarrow> nat \<Rightarrow> nat \<Rightarrow> dbl" where
  "normal_dbl neg a e = mk_dbl neg (a + e * 2 ^ 52)"

definition is_normal :: "nat \<Rightarrow> nat \<Rightarrow> bool" where
  "is_normal a e \<longleftrightarrow> 2 ^ 52 \<le> a \<and> a < 2 ^ 53 \<and> e < 2046"

lemma normal_dbl_parts:
  assumes "is_normal a e"
  shows "dbl_mag (normal_dbl neg a e) = a + e * 2 ^ 52" "dbl_neg (normal_dbl neg a e) = neg" "fp_val 53 (a + e * 2 ^ 52) = a * 2 ^ e"
    "a + e * 2 ^ 52 < 0x7FF0000000000000"
proof -
  have e: "e * 2 ^ 52 \<le> 2045 * 2 ^ 52" using assms by (intro mult_le_mono1) (simp add: is_normal_def)
  then show lt: "a + e * 2 ^ 52 < 0x7FF0000000000000" using assms by (simp add: is_normal_def)
  then show "dbl_mag (normal_dbl neg a e) = a + e * 2 ^ 52" "dbl_neg (normal_dbl neg a e) = neg"
    unfolding normal_dbl_def by (simp_all add: mk_dbl_parts)
  show "fp_val 53 (a + e * 2 ^ 52) = a * 2 ^ e" using assms by (intro fp_val_normal) (simp_all add: is_normal_def)
qed

lemma round_normal:
  assumes "is_normal a e" "n = a * 2 ^ (e + s)"
  shows "fp_round binary64 neg n s = (neg, a + e * 2 ^ 52)"
proof -
  have "fp_rnd 53 n s = a + e * 2 ^ 52" using assms by (simp add: is_normal_def fp_rnd_shifted)
  then show ?thesis using normal_dbl_parts(4)[OF assms(1)] by (simp add: fp_round_def binary64_def)
qed

lemma dbl_one: "(0x3FF0000000000000 :: dbl) = normal_dbl False (2 ^ 52) 1022"
  by (simp add: normal_dbl_def mk_dbl_def)

lemma dbl_mul_one:
  assumes "is_normal a e"
  shows "dbl_mul 0x3FF0000000000000 (normal_dbl neg a e) = normal_dbl neg a e"
proof -
  note p = normal_dbl_parts[OF assms]
  have one: "is_normal (2 ^ 52) 1022" by (simp add: is_normal_def)
  note q = normal_dbl_parts[OF one]
  have n: "2 ^ 52 * 2 ^ 1022 * (a * 2 ^ e) = a * 2 ^ (e + 1074)" by (simp only: flip: power_add mult.assoc) (simp add: power_add)
  have "fp_mul binary64 (False, 2 ^ 52 + 1022 * 2 ^ 52) (neg, a + e * 2 ^ 52) = (neg, a + e * 2 ^ 52)"
  proof -
    have i: "inf_mag binary64 = 0x7FF0000000000000" "sig_bits binary64 = 53" "unit_exp binary64 = 1074" by (simp_all add: binary64_def)
    have c: "\<not> (0x7FF0000000000000 < 2 ^ 52 + 1022 * (2::nat) ^ 52 \<or> 0x7FF0000000000000 < a + e * 2 ^ 52)"
      "\<not> (2 ^ 52 + 1022 * (2::nat) ^ 52 = 0x7FF0000000000000 \<or> a + e * 2 ^ 52 = 0x7FF0000000000000)" using p(4) q(4) by linarith+
    show ?thesis unfolding fp_mul_def Let_def fst_conv snd_conv i if_not_P[OF c(1)] if_not_P[OF c(2)] p(3) q(3) n round_normal[OF assms refl]
      by simp
  qed
  then show ?thesis unfolding dbl_one by (simp only: dbl_mul_def fp_of_dbl_def p q dbl_of_fp_def fst_conv snd_conv) (simp only: normal_dbl_def)
qed

lemma dbl_of_int_normal:
  assumes "i \<noteq> 0" "\<bar>i\<bar> < 2 ^ 53"
  obtains a k where "is_normal a (1074 - k)" "k \<le> 52" "nat \<bar>i\<bar> * 2 ^ k = a" "dbl_of_int i = normal_dbl (i < 0) a (1074 - k)"
proof -
  let ?n = "nat \<bar>i\<bar>"
  define t where "t = top_bit ?n"
  have t: "2 ^ t \<le> ?n" "?n < 2 ^ Suc t" using top_bit_bounds[of ?n] assms(1) by (simp_all add: t_def)
  have "?n < 2 ^ 53" using assms(2) by (simp add: nat_less_iff)
  then have "(2::nat) ^ t < 2 ^ 53" using t(1) by (rule le_less_trans[rotated])
  then have "t < 53" by (rule power_less_imp_less_exp[rotated]) simp
  then have t52: "t \<le> 52" by simp
  define a where "a = ?n * 2 ^ (52 - t)"
  have "2 ^ t * 2 ^ (52 - t) \<le> a" "a < 2 ^ Suc t * 2 ^ (52 - t)" unfolding a_def using t by (simp_all only: mult_le_mono1 mult_less_cancel2) simp
  moreover have "t + (52 - t) = 52" "Suc t + (52 - t) = 53" using t52 by simp_all
  then have "(2::nat) ^ t * 2 ^ (52 - t) = 2 ^ 52" "(2::nat) ^ Suc t * 2 ^ (52 - t) = 2 ^ 53" by (simp_all only: flip: power_add)
  ultimately have a: "2 ^ 52 \<le> a" "a < 2 ^ 53" by simp_all
  have nm: "is_normal a (1074 - (52 - t))" using a t52 by (simp add: is_normal_def)
  have "?n * 2 ^ 1074 = a * 2 ^ (1074 - (52 - t) + 0)" unfolding a_def mult.assoc using t52 by (simp flip: power_add)
  from round_normal[OF nm this] have "dbl_of_int i = normal_dbl (i < 0) a (1074 - (52 - t))"
    unfolding dbl_of_int_def by (simp only: dbl_of_fp_def fst_conv snd_conv normal_dbl_def)
  then show thesis using that[OF nm, of] a_def by simp
qed

lemma dbl_div_one:
  assumes "is_normal a e"
  shows "dbl_div (normal_dbl neg a e) 0x3FF0000000000000 = normal_dbl neg a e"
proof -
  note p = normal_dbl_parts[OF assms]
  have one: "is_normal (2 ^ 52) 1022" by (simp add: is_normal_def)
  note q = normal_dbl_parts[OF one]
  have d: "(2::nat) ^ 52 * 2 ^ 1022 = 2 ^ 1074" by (simp only: flip: power_add) simp
  have n: "a * 2 ^ e * 2 ^ (1074 + 1) = a * 2 ^ e * 2 * 2 ^ 1074" by (simp only: power_add power_one_right mult_ac)
  have dm: "(a * 2 ^ e * 2 * 2 ^ 1074) div 2 ^ 1074 = a * 2 ^ e * 2" "(a * 2 ^ e * 2 * 2 ^ 1074) mod 2 ^ 1074 = 0"
    by (simp only: nonzero_mult_div_cancel_right[OF power_not_zero[OF zero_neq_numeral[symmetric]]], simp only: mod_mult_self2_is_0)
  have four: "2 * (a * 2 ^ e * 2) + of_bool ((0::nat) \<noteq> 0) = a * 2 ^ (e + 2)" by (simp add: power_add)
  have "fp_div binary64 (neg, a + e * 2 ^ 52) (False, 2 ^ 52 + 1022 * 2 ^ 52) = (neg, a + e * 2 ^ 52)"
  proof -
    have i: "inf_mag binary64 = 0x7FF0000000000000" "sig_bits binary64 = 53" "unit_exp binary64 = 1074" by (simp_all add: binary64_def)
    have c: "\<not> (0x7FF0000000000000 < a + e * 2 ^ 52 \<or> 0x7FF0000000000000 < 2 ^ 52 + 1022 * (2::nat) ^ 52)"
      "a + e * 2 ^ 52 \<noteq> 0x7FF0000000000000" "2 ^ 52 + 1022 * (2::nat) ^ 52 \<noteq> 0x7FF0000000000000" "2 ^ 52 + 1022 * (2::nat) ^ 52 \<noteq> 0"
      using p(4) by simp_all
    show ?thesis unfolding fp_div_def Let_def fst_conv snd_conv i if_not_P[OF c(1)] if_not_P[OF c(2)] if_not_P[OF c(3)] if_not_P[OF c(4)]
        p(3) q(3) d n dm four round_normal[OF assms refl] by simp
  qed
  then show ?thesis unfolding dbl_one by (simp only: dbl_div_def fp_of_dbl_def p q dbl_of_fp_def fst_conv snd_conv) (simp only: normal_dbl_def)
qed

lemma fp_round_0: "fp_round binary64 neg 0 s = (neg, 0)"
proof -
  have "fp_rnd 53 0 s = 0" by (simp add: fp_rnd_def rne_def top_bit.simps)
  then show ?thesis by (simp add: fp_round_def binary64_def)
qed

lemma dbl_of_int_0: "dbl_of_int 0 = 0"
  by (simp add: dbl_of_int_def fp_round_0 dbl_of_fp_def mk_dbl_def)

lemma dbl_one_0: "dbl_mul 0x3FF0000000000000 0 = 0" "dbl_div 0 0x3FF0000000000000 = 0"
proof -
  have one: "is_normal (2 ^ 52) 1022" by (simp add: is_normal_def)
  have z: "dbl_mag 0 = 0" "\<not> dbl_neg 0" by (simp_all add: dbl_mag_def dbl_neg_def)
  have i: "inf_mag binary64 = 0x7FF0000000000000" "sig_bits binary64 = 53" "unit_exp binary64 = 1074" by (simp_all add: binary64_def)
  note q = normal_dbl_parts(1,2)[OF one, of False, folded dbl_one]
  have c: "\<not> (0x7FF0000000000000 < 2 ^ 52 + 1022 * (2::nat) ^ 52)" "2 ^ 52 + 1022 * (2::nat) ^ 52 \<noteq> 0x7FF0000000000000" "2 ^ 52 + 1022 * (2::nat) ^ 52 \<noteq> 0"
    by simp_all
  have v: "fp_val 53 0 = 0" by (simp add: fp_val_def)
  show "dbl_mul 0x3FF0000000000000 0 = 0" using c
    by (simp only: dbl_mul_def fp_of_dbl_def q z fp_mul_def Let_def fst_conv snd_conv i v mult_0_right fp_round_0)
      (simp add: dbl_of_fp_def mk_dbl_def)
  show "dbl_div 0 0x3FF0000000000000 = 0" using c
    by (simp only: dbl_div_def fp_of_dbl_def q z fp_div_def Let_def fst_conv snd_conv i v mult_0 div_0 mod_0 fp_round_0)
      (simp add: dbl_of_fp_def mk_dbl_def fp_round_0)
qed

lemma pow10_0: "pow10 0 = 0x3FF0000000000000"
proof -
  have "nat \<bar>(1::int)\<bar> * 2 ^ 1074 = 2 ^ 52 * 2 ^ (1022 + 0)" by (simp flip: power_add)
  moreover have "is_normal (2 ^ 52) 1022" by (simp add: is_normal_def)
  ultimately have "dbl_of_int 1 = normal_dbl False (2 ^ 52) 1022"
    unfolding dbl_of_int_def using round_normal[of "2 ^ 52" 1022 "nat \<bar>(1::int)\<bar> * 2 ^ 1074" 0 False]
    by (simp only: dbl_of_fp_def fst_conv snd_conv normal_dbl_def not_one_less_zero)
  then show ?thesis by (simp add: pow10_def dbl_one)
qed

lemma flt_one: "dbl_of_flt (flt_of_dbl (pow10 0)) = 0x3FF0000000000000"
proof -
  have "flt_of_dbl 0x3FF0000000000000 = 0x3F800000"
    by (simp add: flt_of_dbl_def mk_flt_def dbl_neg_def dbl_mag_def narrow_mag_def rne_def Let_def)
  then show ?thesis unfolding pow10_0 by (simp add: dbl_of_flt_def mk_dbl_def flt_neg_def flt_mag_def widen_mag_def)
qed

lemma e1074: "Suc 1073 = 1074"
  by simp

lemma round_half: "(n * 2 ^ Suc m + 2 ^ m) div 2 ^ Suc m = (n :: nat)"
  by (simp add: div_mult_self3 del: power_Suc)

lemma llround_dbl_of_int:
  assumes "\<bar>i\<bar> < 2 ^ 53"
  shows "llround (dbl_of_int i) = word_of_int i"
proof (cases "i = 0")
  case True
  have m: "dbl_mag 0 = 0" "isfinite 0" "fp_val 53 0 = 0" by (simp_all add: dbl_mag_def isfinite_def fp_val_def)
  have r: "(0 + 2 ^ 1073) div 2 ^ 1074 = (0::nat)" using round_half[of 0 1073] unfolding e1074 mult_0 .
  show ?thesis unfolding True dbl_of_int_0 llround_def m(1,3) r Let_def using m(2) by simp
next
  case False
  then obtain a k where a: "is_normal a (1074 - k)" "k \<le> 52" "nat \<bar>i\<bar> * 2 ^ k = a" "dbl_of_int i = normal_dbl (i < 0) a (1074 - k)"
    using dbl_of_int_normal assms by blast
  note p = normal_dbl_parts[OF a(1)]
  have k: "k + (1074 - k) = 1074" using a(2) by simp
  have v: "a * 2 ^ (1074 - k) = nat \<bar>i\<bar> * 2 ^ 1074"
    unfolding a(3)[symmetric] mult.assoc power_add[symmetric] k ..
  have r: "(nat \<bar>i\<bar> * 2 ^ 1074 + 2 ^ 1073) div 2 ^ 1074 = nat \<bar>i\<bar>" using round_half[of "nat \<bar>i\<bar>" 1073] unfolding e1074 .
  have f: "isfinite (normal_dbl (i < 0) a (1074 - k))" using p by (simp add: isfinite_def)
  have "nat \<bar>i\<bar> < 2 ^ 63" using assms by (simp add: nat_less_iff)
  then show ?thesis unfolding a(4) llround_def p v r Let_def using f by auto
qed

section \<open>Coordinates\<close>

lemma dbl_mul_one_int: "\<bar>i\<bar> < 2 ^ 53 \<Longrightarrow> dbl_mul 0x3FF0000000000000 (dbl_of_int i) = dbl_of_int i"
  by (cases "i = 0") (auto simp: dbl_of_int_0 dbl_one_0 elim!: dbl_of_int_normal[of i] intro: dbl_mul_one)

lemma dbl_div_one_int: "\<bar>i\<bar> < 2 ^ 53 \<Longrightarrow> dbl_div (dbl_of_int i) 0x3FF0000000000000 = dbl_of_int i"
  by (cases "i = 0") (auto simp: dbl_of_int_0 dbl_one_0 elim!: dbl_of_int_normal[of i] intro: dbl_div_one)

lemma llround_scaled_int: "\<bar>i\<bar> < 2 ^ 53 \<Longrightarrow> llround (dbl_mul (dbl_of_flt (flt_of_dbl (pow10 0))) (dbl_of_int i)) = word_of_int i"
  unfolding flt_one by (simp only: dbl_mul_one_int llround_dbl_of_int)



end
