(* ===== verification/TwkbWriter.thy ===== *)
theory TwkbWriter
  imports TwkbSpec TwkbNumbers
begin

text \<open>
  The format of tiny well-known binary for whole geometries, and the writer's refinement of it: headers, sizes, boxes and
  nested collections.
\<close>

section \<open>The format\<close>

definition twkb_ext :: "twkb_globals \<Rightarrow> bool \<Rightarrow> bool \<Rightarrow> u8" where
  "twkb_ext tg z m = HIGHER_DIM_SET_PRECM (HIGHER_DIM_SET_PRECZ (HIGHER_DIM_SET_HASM (HIGHER_DIM_SET_HASZ 0 z) m) (prec_z tg)) (prec_m tg)"

definition twkb_type_code :: "lwgeom \<Rightarrow> u8" where
  "twkb_type_code g = projr (lwgeom_twkb_type g)"

definition twkb_head :: "twkb_globals \<Rightarrow> bool \<Rightarrow> bool \<Rightarrow> bool \<Rightarrow> lwgeom \<Rightarrow> u8 list" where
  "twkb_head tg has_ids z m g =
     [TYPE_PREC_SET_PREC (TYPE_PREC_SET_TYPE 0 (twkb_type_code g)) (zigzag8 (prec_xy tg)),
      twkb_metadata (twkb_wants tg TWKB_BBOX \<and> \<not> lwgeom_is_empty g) (twkb_wants tg TWKB_SIZE) (has_ids \<and> \<not> lwgeom_is_empty g)
        (z \<or> m) (lwgeom_is_empty g)] @
     (if z \<or> m then [twkb_ext tg z m] else [])"

definition twkb_box :: "nat \<Rightarrow> i64 list list \<Rightarrow> u8 list" where
  "twkb_box nd pts =
     (let mn = box_min (replicate 4 INT64_MAX) pts; mx = box_max (replicate 4 INT64_MIN) pts
      in varints (concat (map (\<lambda>i. [mn ! i, mx ! i - mn ! i]) [0..<nd])))"

definition twkb_sized :: "twkb_globals \<Rightarrow> nat \<Rightarrow> i64 list list \<Rightarrow> u8 list \<Rightarrow> u8 list" where
  "twkb_sized tg nd pts body =
     (let box = (if twkb_wants tg TWKB_BBOX then twkb_box nd pts else [])
      in (if twkb_wants tg TWKB_SIZE then varint_u64_encode_buf (of_nat (length body + length box)) else []) @ box @ body)"

text \<open>\<open>z\<close> and \<open>m\<close> are the dimensions, which all parts of a geometry share.\<close>

fun twkb_points :: "flt list \<Rightarrow> lwgeom \<Rightarrow> i64 list list" where
  "twkb_points fs (LwColl ty h gs) =
     (if list_all lwgeom_is_empty gs then []
      else if ty \<in> MULTI_TYPES then tok_points fs (concat (map leaf_tokens (twkb_members ty gs)))
      else concat (map (twkb_points fs) gs))"
| "twkb_points fs g = (if lwgeom_is_empty g then [] else tok_points fs (leaf_tokens g))"

function twkb_bytes :: "twkb_globals \<Rightarrow> bool \<Rightarrow> bool \<Rightarrow> i64 list option \<Rightarrow> lwgeom \<Rightarrow> u8 list" where
  "twkb_bytes tg z m ids g =
     (let fs = twkb_factors tg z m; a = replicate (length fs) 0
      in twkb_head tg (ids \<noteq> None) z m g @
         (if lwgeom_is_empty g then (if twkb_wants tg TWKB_SIZE then [0] else [])
          else twkb_sized tg (length fs) (twkb_points fs g)
            (case g of LwColl ty h gs \<Rightarrow>
                if ty \<in> MULTI_TYPES
                then varint_u64_encode_buf (of_nat (length (twkb_members ty gs))) @ id_bytes ids (member_indices ty gs) @
                  tok_bytes fs a (concat (map leaf_tokens (twkb_members ty gs)))
                else varint_u64_encode_buf (of_nat (length gs)) @ id_bytes ids [0..<length gs] @
                  concat (map (twkb_bytes tg z m None) gs)
              | _ \<Rightarrow> tok_bytes fs a (leaf_tokens g))))"
  by pat_completeness auto
termination
  by (relation "measure (\<lambda>(tg, z, m, ids, g). size g)") (auto simp: size_list_estimation' less_Suc_eq_le)

declare twkb_bytes.simps [simp del]

text \<open>The geometries that can be written: supported types, members of the right kind, counts in range, small integers.\<close>

fun twkb_fits :: "flt list \<Rightarrow> bool \<Rightarrow> bool \<Rightarrow> lwgeom \<Rightarrow> bool" where
  "twkb_fits fs z m (LwColl ty h gs) =
     (hdr_z h = z \<and> hdr_m h = m \<and> length gs < 2147483648 \<and>
      (ty \<in> MULTI_TYPES \<and> list_all (leaf_fits fs) (twkb_members ty gs) \<or>
       ty \<in> {COLLECTIONTYPE, TINTYPE} \<and> list_all (twkb_fits fs z m) gs))"
| "twkb_fits fs z m g = (hdr_z (g_hdr g) = z \<and> hdr_m (g_hdr g) = m \<and>
     (case g of LwPoint _ _ \<Rightarrow> True | LwLine _ _ \<Rightarrow> True | LwTriangle _ _ \<Rightarrow> True | LwPoly _ _ \<Rightarrow> True | _ \<Rightarrow> False) \<and>
     (lwgeom_is_empty g \<or> leaf_fits fs g))"

text \<open>Precisions the writer accepts.\<close>

definition twkb_precise :: "twkb_globals \<Rightarrow> bool \<Rightarrow> bool \<Rightarrow> bool" where
  "twkb_precise tg z m \<longleftrightarrow> \<bar>sint (prec_xy tg)\<bar> \<le> 7 \<and> (z \<longrightarrow> 0 \<le> sint (prec_z tg) \<and> sint (prec_z tg) \<le> 7) \<and>
     (m \<longrightarrow> 0 \<le> sint (prec_m tg) \<and> sint (prec_m tg) \<le> 7)"

definition same_opts :: "twkb_globals \<Rightarrow> twkb_globals \<Rightarrow> bool" where
  "same_opts tg tg' \<longleftrightarrow> tg_variant tg' = tg_variant tg \<and> prec_xy tg' = prec_xy tg \<and> prec_z tg' = prec_z tg \<and> prec_m tg' = prec_m tg \<and>
     length (factor tg') = 4"

lemma opts_simps:
  assumes "same_opts tg tg'"
  shows "twkb_wants tg' = twkb_wants tg" "twkb_factors tg' = twkb_factors tg" "twkb_head tg' = twkb_head tg"
    "opt_min tg' = opt_min tg" "opt_max tg' = opt_max tg" "twkb_precise tg' = twkb_precise tg" "twkb_sized tg' = twkb_sized tg"
  using assms by (simp_all add: same_opts_def twkb_wants_def twkb_factors_def twkb_head_def twkb_ext_def opt_min_def opt_max_def
    twkb_precise_def twkb_sized_def fun_eq_iff)

lemma bytes_opts: "same_opts tg tg' \<Longrightarrow> twkb_bytes tg' z m ids g = twkb_bytes tg z m ids g"
proof (induction g arbitrary: ids)
  case (LwColl ty h gs)
  then have "\<And>g. g \<in> set gs \<Longrightarrow> twkb_bytes tg' z m None g = twkb_bytes tg z m None g" by blast
  then have "map (twkb_bytes tg' z m None) gs = map (twkb_bytes tg z m None) gs" by (rule map_cong[OF refl])
  note eq = arg_cong[where f = concat, OF this]
  show ?case by (subst (1 2) twkb_bytes.simps) (simp only: eq opts_simps[OF LwColl.prems] Let_def lwgeom.case)
qed (subst (1 2) twkb_bytes.simps, simp only: opts_simps[of tg tg'] Let_def lwgeom.case)+

lemma factors_length [simp]: "length (twkb_factors tg z m) = 2 + of_bool z + of_bool m"
  by (simp add: twkb_factors_def Let_def)

lemma set_factors:
  assumes "length (factor tg) = 4"
  shows "same_opts tg (twkb_set_factors z m tg)" "take (length (twkb_factors tg z m)) (factor (twkb_set_factors z m tg)) = twkb_factors tg z m"
proof -
  obtain a fs where f1: "factor tg = a # fs" "length fs = 3" using assms by (cases "factor tg") auto
  obtain b gs where f2: "fs = b # gs" "length gs = 2" using f1 by (cases fs) auto
  obtain c hs where f3: "gs = c # hs" "length hs = 1" using f2 by (cases gs) auto
  obtain d where f4: "hs = [d]" using f3 by (cases hs) auto
  have f: "factor tg = [a, b, c, d]" using f1 f2 f3 f4 by simp
  show "same_opts tg (twkb_set_factors z m tg)" by (simp add: f same_opts_def twkb_set_factors_def Let_def)
  show "take (length (twkb_factors tg z m)) (factor (twkb_set_factors z m tg)) = twkb_factors tg z m"
    by (cases z; cases m) (simp_all add: f twkb_factors_def twkb_set_factors_def Let_def eval_nat_numeral)
qed

section \<open>Boxes\<close>

lemma smin_assoc: "smin (smin a b) c = smin a (smin b c)" and smin_top: "smin a INT64_MAX = a"
proof -
  show "smin (smin a b) c = smin a (smin b c)" by (simp add: smin_def)
  have "sint a \<le> sint INT64_MAX" using sint_lt[of a] by (simp add: INT64_MAX_def)
  then show "smin a INT64_MAX = a" by (simp add: smin_def)
qed

lemma smax_assoc: "smax (smax a b) c = smax a (smax b c)" and smax_bot: "smax a INT64_MIN = a"
proof -
  show "smax (smax a b) c = smax a (smax b c)" by (simp add: smax_def)
  have "sint INT64_MIN \<le> sint a" using sint_ge[of a] by (simp add: INT64_MIN_def)
  then show "smax a INT64_MIN = a" by (simp add: smax_def)
qed

lemma update_front_nth:
  "length ys \<le> length xs \<Longrightarrow> i < length xs \<Longrightarrow> update_front f xs ys ! i = (if i < length ys then f (xs ! i) (ys ! i) else xs ! i)"
  by (simp add: update_front_def nth_append)

text \<open>Bounds that start from the neutral element, merged with given bounds afterwards.\<close>

lemma merge_neutral:
  fixes f :: "i64 \<Rightarrow> i64 \<Rightarrow> i64"
  assumes assoc: "\<And>a b c. f (f a b) c = f a (f b c)" and top: "\<And>a. f a e = a"
  shows "list_all (\<lambda>q. length q = nd) qs \<Longrightarrow> length mn = 4 \<Longrightarrow> length bs = 4 \<Longrightarrow> nd \<le> 4 \<Longrightarrow>
    fold (\<lambda>q b. update_front f b q) qs (update_front f mn (take nd bs)) =
    update_front f mn (take nd (fold (\<lambda>q b. update_front f b q) qs bs))"
proof (induction qs arbitrary: mn bs)
  case (Cons q qs)
  have "update_front f (update_front f mn (take nd bs)) q = update_front f mn (take nd (update_front f bs q))"
    using Cons.prems by (intro nth_equalityI) (simp_all add: update_front_nth assoc)
  then show ?case using Cons.prems by (simp add: Cons.IH)
qed simp

lemma update_front_neutral:
  assumes "\<And>a. f a e = a" and "length mn = 4" and "nd \<le> 4"
  shows "update_front f mn (take nd (replicate 4 e)) = mn"
  using assms by (intro nth_equalityI) (simp_all add: update_front_nth)

lemma box_merge:
  assumes "list_all (\<lambda>q. length q = nd) qs" and "length mn = 4" and "nd \<le> 4"
  shows "update_front smin mn (take nd (box_min (replicate 4 INT64_MAX) qs)) = box_min mn qs"
    "update_front smax mn (take nd (box_max (replicate 4 INT64_MIN) qs)) = box_max mn qs"
  using merge_neutral[of smin INT64_MAX nd qs mn "replicate 4 INT64_MAX"] merge_neutral[of smax INT64_MIN nd qs mn "replicate 4 INT64_MIN"]
    update_front_neutral[of smin INT64_MAX mn nd] update_front_neutral[of smax INT64_MIN mn nd] assms
  by (simp_all add: smin_assoc smin_top smax_assoc smax_bot box_min_def box_max_def)

lemma box_length: "list_all (\<lambda>q. length q \<le> n) qs \<Longrightarrow> length b = n \<Longrightarrow> length (box_min b qs) = n"
    "list_all (\<lambda>q. length q \<le> n) qs \<Longrightarrow> length b = n \<Longrightarrow> length (box_max b qs) = n"
  by (induction qs arbitrary: b) simp_all

text \<open>A box as varints.\<close>

definition box_ints :: "nat \<Rightarrow> i64 list \<Rightarrow> i64 list \<Rightarrow> i64 list" where
  "box_ints nd mn mx = concat (map (\<lambda>i. [mn ! i, mx ! i - mn ! i]) [0..<nd])"

lemma obind_assoc: "obind (obind m f) g = obind m (\<lambda>x. obind (f x) g)"
  by (auto simp: obind_def split: option.splits sum.splits)

lemma run_steps_pairs:
  "run_steps (\<lambda>b i. obind (f b (h i)) (\<lambda>b. f b (k i))) b is = run_steps f b (concat (map (\<lambda>i. [h i, k i]) is))"
proof (induction "is" arbitrary: b)
  case (Cons i js)
  show ?case unfolding list.map concat.simps append_Cons append_Nil run_steps_obind obind_assoc Cons.IH ..
qed simp

lemma write_bbox_ok:
  assumes "bb_inv b" and "length (written b) + length (varints (box_ints nd (bbox_min ts) (bbox_max ts))) + 64 \<le> 2 ^ 62"
  shows "\<exists>b'. write_bbox ts nd b = ret b' \<and> bb_inv b' \<and> written b' = written b @ varints (box_ints nd (bbox_min ts) (bbox_max ts))"
  using put_varints[OF assms] unfolding write_bbox_def box_ints_def run_steps_pairs[where f = bytebuffer_append_varint
    and h = "\<lambda>i. bbox_min ts ! i" and k = "\<lambda>i. bbox_max ts ! i - bbox_min ts ! i"] .

lemma sizeof_bbox_length: "sizeof_bbox ts nd = length (varints (box_ints nd (bbox_min ts) (bbox_max ts)))"
  unfolding sizeof_bbox_def box_ints_def varints_def by (induction nd) simp_all

section \<open>Headers\<close>

lemma twkb_type_ok: "lwgeom_twkb_type g = Inr t \<Longrightarrow> twkb_type_code g = t"
  by (simp add: twkb_type_code_def)

lemma write_header_ok:
  assumes "lwgeom_twkb_type g = Inr t" and "twkb_precise tg z m" and "bb_inv hb" and "length (written hb) + 64 \<le> 2 ^ 62"
  shows "\<exists>hb'. twkb_write_header g has_ids z m tg hb = ret hb' \<and> bb_inv hb' \<and> written hb' = written hb @ twkb_head tg has_ids z m g"
proof -
  let ?b1 = "TYPE_PREC_SET_PREC (TYPE_PREC_SET_TYPE 0 t) (zigzag8 (prec_xy tg))"
  let ?b2 = "twkb_metadata (twkb_wants tg TWKB_BBOX \<and> \<not> lwgeom_is_empty g) (twkb_wants tg TWKB_SIZE) (has_ids \<and> \<not> lwgeom_is_empty g)
        (z \<or> m) (lwgeom_is_empty g)"
  obtain h1 where h1: "bytebuffer_append_byte hb ?b1 = ret h1" "bb_inv h1" "written h1 = written hb @ [?b1]"
    using bb.put_byte[OF assms(3)] assms(4) by (force simp: bb_room_def)
  obtain h2 where h2: "bytebuffer_append_byte h1 ?b2 = ret h2" "bb_inv h2" "written h2 = written h1 @ [?b2]"
    using bb.put_byte[OF h1(2)] assms(4) h1(3) by (force simp: bb_room_def)
  obtain h3 where h3: "bytebuffer_append_byte h2 (twkb_ext tg z m) = ret h3" "bb_inv h3" "written h3 = written h2 @ [twkb_ext tg z m]"
    using bb.put_byte[OF h2(2)] assms(4) h1(3) h2(3) by (force simp: bb_room_def)
  have p: "\<not> 7 < \<bar>sint (prec_xy tg)\<bar>" "\<not> (z \<and> (7 < sint (prec_z tg) \<or> sint (prec_z tg) < 0))"
      "\<not> (m \<and> (7 < sint (prec_m tg) \<or> sint (prec_m tg) < 0))" using assms(2) by (auto simp: twkb_precise_def)
  have f: "fail_if False msg = ret ()" for msg by (simp add: fail_if_def)
  show ?thesis
  proof (cases "z \<or> m")
    case True
    then have "twkb_write_header g has_ids z m tg hb = ret h3"
      using p h1(1) h2(1) h3(1) unfolding twkb_write_header_def Let_def assms(1) by (auto simp: f twkb_ext_def)
    then show ?thesis using True h1(3) h2(3) h3(2,3) by (simp add: twkb_head_def twkb_type_ok[OF assms(1)])
  next
    case False
    then have "twkb_write_header g has_ids z m tg hb = ret h2"
      using p h1(1) h2(1) unfolding twkb_write_header_def Let_def assms(1) by (auto simp: f)
    then show ?thesis using False h1(3) h2(2,3) by (simp add: twkb_head_def twkb_type_ok[OF assms(1)])
  qed
qed

section \<open>The writer writes the format\<close>

definition ps_at :: "u8 list \<Rightarrow> i64 list \<Rightarrow> i64 list \<Rightarrow> twkb_state \<Rightarrow> bool" where
  "ps_at w mn mx ps \<longleftrightarrow> bb_inv (geom_buf ps) \<and> written (geom_buf ps) = w \<and> bbox_min ps = mn \<and> bbox_max ps = mx \<and>
     length mn = 4 \<and> length mx = 4"

text \<open>The bounds of a parent, which are left alone if it is the caller of the outermost geometry.\<close>

definition up_min :: "twkb_globals \<Rightarrow> twkb_state \<Rightarrow> i64 list \<Rightarrow> i64 list list \<Rightarrow> i64 list" where
  "up_min tg ps mn pts = (if header_buf ps = None then mn else opt_min tg mn pts)"
definition up_max :: "twkb_globals \<Rightarrow> twkb_state \<Rightarrow> i64 list \<Rightarrow> i64 list list \<Rightarrow> i64 list" where
  "up_max tg ps mx pts = (if header_buf ps = None then mx else opt_max tg mx pts)"

text \<open>What the part behind the header has to do.\<close>

definition body_writes :: "(twkb \<Rightarrow> twkb res option) \<Rightarrow> twkb_globals \<Rightarrow> twkb_state \<Rightarrow> i64 list list \<Rightarrow> u8 list \<Rightarrow> bool" where
  "body_writes body tg cs pts bytes \<longleftrightarrow>
     (\<exists>tg' cs'. body (tg, cs) = ret (tg', cs') \<and> same_opts tg tg' \<and> bb_inv (geom_buf cs') \<and> written (geom_buf cs') = bytes \<and>
        bbox_min cs' = opt_min tg (replicate 4 INT64_MAX) pts \<and> bbox_max cs' = opt_max tg (replicate 4 INT64_MIN) pts)"

lemma twkb_box_ints: "twkb_box nd pts = varints (box_ints nd (box_min (replicate 4 INT64_MAX) pts) (box_max (replicate 4 INT64_MIN) pts))"
  by (simp add: twkb_box_def box_ints_def Let_def)

lemma write_body_ok:
  assumes body: "body_writes body tg cs pts bytes" and ps: "ps_at w mn mx ps" and hb: "bb_inv hb" "written hb = hw"
    and pts: "list_all (\<lambda>q. length q = nd) pts" and nd: "nd \<le> 4"
    and room: "length w + length (hw @ twkb_sized tg nd pts bytes) + 64 \<le> 2 ^ 62"
  shows "\<exists>tg' ps'. twkb_write_body body nd hb tg cs ps = ret (tg', ps') \<and> same_opts tg tg' \<and> same_frame ps ps' \<and>
    ps_at (w @ hw @ twkb_sized tg nd pts bytes) (up_min tg ps mn pts) (up_max tg ps mx pts) ps'"
proof -
  let ?box = "if twkb_wants tg TWKB_BBOX then twkb_box nd pts else []"
  let ?sz = "if twkb_wants tg TWKB_SIZE then varint_u64_encode_buf (of_nat (length bytes + length ?box)) else []"
  have sized: "twkb_sized tg nd pts bytes = ?sz @ ?box @ bytes" by (simp only: twkb_sized_def Let_def)
  from body obtain tg' cs' where b: "body (tg, cs) = ret (tg', cs')" "same_opts tg tg'" "bb_inv (geom_buf cs')" "written (geom_buf cs') = bytes"
      "bbox_min cs' = opt_min tg (replicate 4 INT64_MAX) pts" "bbox_max cs' = opt_max tg (replicate 4 INT64_MIN) pts"
    unfolding body_writes_def by blast
  have wants: "twkb_wants tg' = twkb_wants tg" using opts_simps(1)[OF b(2)] .
  have box: "?box = (if twkb_wants tg TWKB_BBOX then varints (box_ints nd (bbox_min cs') (bbox_max cs')) else [])"
    by (simp add: twkb_box_ints b(5,6) opt_min_def opt_max_def)
  have len: "(if twkb_wants tg TWKB_BBOX then sizeof_bbox cs' nd else 0) = length ?box" unfolding box by (simp add: sizeof_bbox_length)
  obtain h1 where h1: "(if twkb_wants tg TWKB_SIZE then bytebuffer_append_uvarint hb (of_nat (length bytes + length ?box)) else ret hb) = ret h1"
      "bb_inv h1" "written h1 = hw @ ?sz"
    using bb.put_uvarint[OF hb(1), of "of_nat (length bytes + length ?box)"] room hb
    by (cases "twkb_wants tg TWKB_SIZE") (auto simp: bb_room_def)
  have r1: "length (written h1) + length ?box + 64 \<le> 2 ^ 62" using room unfolding sized h1(3) by simp
  obtain h2 where h2: "(if twkb_wants tg TWKB_BBOX then write_bbox cs' nd h1 else ret h1) = ret h2" "bb_inv h2" "written h2 = written h1 @ ?box"
    using write_bbox_ok[OF h1(2), of nd cs'] r1 h1(2) unfolding box by (cases "twkb_wants tg TWKB_BBOX") auto
  define ps1 where "ps1 = (if twkb_wants tg TWKB_BBOX \<and> header_buf ps \<noteq> None
      then ps\<lparr>bbox_min := update_front smin (bbox_min ps) (take nd (bbox_min cs')), bbox_max := update_front smax (bbox_max ps) (take nd (bbox_max cs'))\<rparr>
      else ps)"
  have ps1: "geom_buf ps1 = geom_buf ps" "idlist ps1 = idlist ps" "header_buf ps1 = header_buf ps"
      "bbox_min ps1 = up_min tg ps mn pts" "bbox_max ps1 = up_max tg ps mx pts"
    using ps box_merge[OF pts _ nd] by (simp_all add: ps1_def ps_at_def b(5,6) up_min_def up_max_def opt_min_def opt_max_def)
  have inv: "bb_inv (geom_buf ps)" "written (geom_buf ps) = w" using ps by (simp_all add: ps_at_def)
  obtain g1 where g1: "bytebuffer_append_bytebuffer (geom_buf ps) h2 = ret g1" "bb_inv g1" "written g1 = w @ hw @ ?sz @ ?box"
    using bb.put_buffer[OF inv(1), of h2] room inv(2) h1(3) h2(3) unfolding sized by (force simp: bb_room_def)
  obtain g2 where g2: "bytebuffer_append_bytebuffer g1 (geom_buf cs') = ret g2" "bb_inv g2" "written g2 = w @ hw @ ?sz @ ?box @ bytes"
    using bb.put_buffer[OF g1(2), of "geom_buf cs'"] room g1(3) b(4) unfolding sized by (force simp: bb_room_def)
  have lens: "length (up_min tg ps mn pts) = 4" "length (up_max tg ps mx pts) = 4"
  proof -
    have "list_all (\<lambda>q. length q \<le> 4) pts" using pts nd by (auto simp: list_all_iff)
    then show "length (up_min tg ps mn pts) = 4" "length (up_max tg ps mx pts) = 4"
      using ps box_length[of 4 pts] by (simp_all add: ps_at_def up_min_def up_max_def opt_min_def opt_max_def)
  qed
  have "twkb_write_body body nd hb tg cs ps = ret (tg', ps1\<lparr>geom_buf := g2\<rparr>)"
    unfolding twkb_write_body_def b(1) obind_simps prod.case wants Let_def ps1_def[symmetric] bytebuffer_getlength_def b(4) len h1(1) h2(1)
      ps1(1) g1(1) g2(1) ..
  then show ?thesis using b(2) ps1 g2(2,3) lens by (simp add: same_frame_def ps_at_def sized)
qed

text \<open>The points have an integer for every dimension.\<close>

definition toks_fit :: "flt list \<Rightarrow> twkb_token list \<Rightarrow> bool" where
  "toks_fit fs toks \<longleftrightarrow> (\<forall>reg m pa. TPoints reg m pa \<in> set toks \<longrightarrow> pa_fits fs pa)"

lemma toks_fit_simps [simp]:
  "toks_fit fs []" "toks_fit fs (TBytes bs # ts) = toks_fit fs ts" "toks_fit fs (TPoints reg m pa # ts) = (pa_fits fs pa \<and> toks_fit fs ts)"
  "toks_fit fs (t @ u) = (toks_fit fs t \<and> toks_fit fs u)"
  by (auto simp: toks_fit_def)

lemma keep_points_subset: "set (keep_points m left prev qs) \<subseteq> set qs"
  by (induction m left prev qs rule: keep_points.induct) auto

lemma kept_dims: "pa_fits fs pa \<Longrightarrow> list_all (\<lambda>q. length q = length fs) (kept_points fs m pa)"
  using keep_points_subset[of m "unat (npoints pa)" None "map (quantise fs) (pa_points pa)"] pa_fits_point(1)[of fs pa]
  by (auto simp: kept_points_def list_all_iff)

lemma tok_points_dims: "toks_fit fs toks \<Longrightarrow> list_all (\<lambda>q. length q = length fs) (tok_points fs toks)"
  by (induction fs toks rule: tok_points.induct) (simp_all add: kept_dims)

lemma leaf_toks_fit: "leaf_fits fs g \<Longrightarrow> toks_fit fs (leaf_tokens g)"
  by (cases g) (auto simp: toks_fit_def list_all_iff)

lemma leaves_toks_fit: "list_all (leaf_fits fs) gs \<Longrightarrow> toks_fit fs (concat (map leaf_tokens gs))"
  by (induction gs) (simp_all add: leaf_toks_fit)

lemma points_dims: "twkb_fits fs z m g \<Longrightarrow> list_all (\<lambda>q. length q = length fs) (twkb_points fs g)"
proof (induction g)
  case (LwColl ty h gs)
  have "list_all (\<lambda>q. length q = length fs) (concat (map (twkb_points fs) gs))" if "list_all (twkb_fits fs z m) gs"
    using that LwColl.IH by (fastforce simp: list_all_iff)
  moreover have "list_all (\<lambda>q. length q = length fs) (tok_points fs (concat (map leaf_tokens (twkb_members ty gs))))"
    if "list_all (leaf_fits fs) (twkb_members ty gs)" using that by (intro tok_points_dims leaves_toks_fit)
  moreover have "{COLLECTIONTYPE, TINTYPE} \<inter> MULTI_TYPES = {}" by simp
  ultimately show ?case using LwColl.prems by auto
qed (auto simp del: leaf_tokens.simps leaf_fits.simps intro!: tok_points_dims leaf_toks_fit)

section \<open>Writing a geometry\<close>

definition ids_ok :: "i64 list option \<Rightarrow> lwgeom \<Rightarrow> bool" where
  "ids_ok ids g \<longleftrightarrow> (\<forall>ty h gs. g = LwColl ty h gs \<longrightarrow> ids_fit ids gs)"

lemma fits_facts:
  assumes "twkb_fits fs z m g" and "length fs = 2 + of_bool z + of_bool m"
  shows "lwgeom_ndims g = length fs" "(2 < length fs \<and> lwgeom_has_z g \<noteq> 0) = z" "(2 < length fs \<and> lwgeom_has_m g \<noteq> 0) = m"
    "\<exists>t. lwgeom_twkb_type g = Inr t"
proof -
  have zm: "hdr_z (g_hdr g) = z" "hdr_m (g_hdr g) = m" using assms(1) by (cases g; simp)+
  then show "lwgeom_ndims g = length fs"
    using assms(2) by (simp add: lwgeom_ndims_def FLAGS_NDIMS_def hdr_z_def hdr_m_def) (simp add: flags_simps)
  show "(2 < length fs \<and> lwgeom_has_z g \<noteq> 0) = z" "(2 < length fs \<and> lwgeom_has_m g \<noteq> 0) = m"
    using zm assms(2) by (auto simp: lwgeom_has_z_def lwgeom_has_m_def hdr_z_def hdr_m_def)
  show "\<exists>t. lwgeom_twkb_type g = Inr t"
    using assms(1) by (cases g) (auto simp: lwgeom_twkb_type_def Let_def)
qed

definition child_start :: "i64 list option \<Rightarrow> twkb_state" where
  "child_start ids = \<lparr>header_buf = Some (bytebuffer_init_with_size 16), geom_buf = bytebuffer_init_with_size 64, idlist = ids,
     bbox_min = replicate 4 INT64_MAX, bbox_max = replicate 4 INT64_MIN, accum_rels = replicate 4 0\<rparr>"

lemma child_start_at: "nd \<le> 4 \<Longrightarrow> ts_at nd [] (replicate nd 0) (replicate 4 INT64_MAX) (replicate 4 INT64_MIN) (child_start ids)"
  and child_start_ps: "ps_at [] (replicate 4 INT64_MAX) (replicate 4 INT64_MIN) (child_start ids)"
  and child_start_simps [simp]: "idlist (child_start ids) = ids" "header_buf (child_start ids) \<noteq> None"
  by (simp_all add: child_start_def ts_at_def ps_at_def bb_inv_init min_def)

lemma small_zero: "small_point (replicate n 0)"
  by (induction n) (simp_all add: small_int_def)

text \<open>The contents of a geometry.\<close>

definition twkb_body :: "twkb_globals \<Rightarrow> bool \<Rightarrow> bool \<Rightarrow> i64 list option \<Rightarrow> lwgeom \<Rightarrow> u8 list" where
  "twkb_body tg z m ids g =
     (let fs = twkb_factors tg z m; a = replicate (length fs) 0
      in case g of LwColl ty h gs \<Rightarrow>
            if ty \<in> MULTI_TYPES
            then varint_u64_encode_buf (of_nat (length (twkb_members ty gs))) @ id_bytes ids (member_indices ty gs) @
              tok_bytes fs a (concat (map leaf_tokens (twkb_members ty gs)))
            else varint_u64_encode_buf (of_nat (length gs)) @ id_bytes ids [0..<length gs] @ concat (map (twkb_bytes tg z m None) gs)
          | _ \<Rightarrow> tok_bytes fs a (leaf_tokens g))"

lemma twkb_bytes_body:
  "twkb_bytes tg z m ids g = twkb_head tg (ids \<noteq> None) z m g @
     (if lwgeom_is_empty g then (if twkb_wants tg TWKB_SIZE then [0] else [])
      else twkb_sized tg (length (twkb_factors tg z m)) (twkb_points (twkb_factors tg z m) g) (twkb_body tg z m ids g))"
  unfolding twkb_body_def Let_def by (subst twkb_bytes.simps) (simp only: Let_def)

text \<open>A geometry with its header, once its contents are known to be written.\<close>

lemma write_to_buffer_ok:
  assumes fits: "twkb_fits (twkb_factors tg z m) z m g" and prec: "twkb_precise tg z m" and tg: "length (factor tg) = 4"
    and ps: "ps_at w mn mx ps"
    and room: "length w + length (twkb_bytes tg z m (idlist ps) g) + 64 \<le> 2 ^ 62"
    and body: "\<not> lwgeom_is_empty g \<Longrightarrow> body_writes body (twkb_set_factors z m tg) (child_start (idlist ps))
      (twkb_points (twkb_factors tg z m) g) (twkb_body tg z m (idlist ps) g)"
  shows "\<exists>tg' ps'. lwgeom_write_to_buffer body g (tg, ps) = ret (tg', ps') \<and> same_opts tg tg' \<and> same_frame ps ps' \<and>
    ps_at (w @ twkb_bytes tg z m (idlist ps) g) (up_min tg ps mn (twkb_points (twkb_factors tg z m) g))
      (up_max tg ps mx (twkb_points (twkb_factors tg z m) g)) ps'"
proof -
  let ?fs = "twkb_factors tg z m" and ?tg = "twkb_set_factors z m tg"
  have opts: "same_opts tg ?tg" using set_factors[OF tg] by blast
  note o = opts_simps[OF opts]
  obtain t where t: "lwgeom_twkb_type g = Inr t" using fits_facts(4)[OF fits] by auto
  note ff = fits_facts[OF fits factors_length, unfolded factors_length]
  note bytes = twkb_bytes_body[of tg z m "idlist ps" g]
  have hl: "length (twkb_head tg (idlist ps \<noteq> None) z m g) + 64 \<le> 2 ^ 62"
    by (simp add: twkb_head_def)
  have tp: "twkb_precise ?tg z m" using prec o(6) by simp
  have rm: "length (written (bytebuffer_init_with_size 16)) + 64 \<le> 2 ^ 62" by simp
  obtain hb where hb: "twkb_write_header g (idlist ps \<noteq> None) z m ?tg (bytebuffer_init_with_size 16) = ret hb" "bb_inv hb"
      "written hb = twkb_head tg (idlist ps \<noteq> None) z m g"
    using write_header_ok[OF t tp bb_inv_init rm, of "idlist ps \<noteq> None"] o(3) by auto
  have start: "lwgeom_write_to_buffer body g (tg, ps) =
      (if lwgeom_is_empty g
        then obind (if twkb_wants ?tg TWKB_SIZE then bytebuffer_append_byte hb 0 else ret hb) (\<lambda>hb.
             obind (bytebuffer_append_bytebuffer (geom_buf ps) hb) (\<lambda>g. ret (?tg, ps\<lparr>geom_buf := g\<rparr>)))
        else twkb_write_body body (length ?fs) hb ?tg (child_start (idlist ps)) ps)"
    unfolding lwgeom_write_to_buffer_def prod.case Let_def ff(1-3) hb(1) obind_simps child_start_def[symmetric] factors_length ..
  show ?thesis
  proof (cases "lwgeom_is_empty g")
    case True
    let ?sz = "if twkb_wants tg TWKB_SIZE then [0] else []"
    have eb: "twkb_bytes tg z m (idlist ps) g = twkb_head tg (idlist ps \<noteq> None) z m g @ ?sz" unfolding bytes if_P[OF True] ..
    have pts: "twkb_points ?fs g = []" using True by (cases g) simp_all
    obtain h1 where h1: "(if twkb_wants ?tg TWKB_SIZE then bytebuffer_append_byte hb 0 else ret hb) = ret h1" "bb_inv h1"
        "written h1 = twkb_head tg (idlist ps \<noteq> None) z m g @ ?sz"
      using bb.put_byte[OF hb(2), of 0] hb hl o(1) by (cases "twkb_wants tg TWKB_SIZE") (auto simp: bb_room_def)
    obtain g1 where g1: "bytebuffer_append_bytebuffer (geom_buf ps) h1 = ret g1" "bb_inv g1" "written g1 = w @ written h1"
      using bb.put_buffer[of "geom_buf ps" h1] ps h1(3) room unfolding eb by (auto simp: ps_at_def bb_room_def)
    have "lwgeom_write_to_buffer body g (tg, ps) = ret (?tg, ps\<lparr>geom_buf := g1\<rparr>)"
      unfolding start if_P[OF True] h1(1) obind_simps g1(1) ..
    moreover have "ps_at (w @ twkb_bytes tg z m (idlist ps) g) (up_min tg ps mn []) (up_max tg ps mx []) (ps\<lparr>geom_buf := g1\<rparr>)"
      using ps g1 h1(3) by (simp add: eb ps_at_def up_min_def up_max_def)
    ultimately show ?thesis using opts unfolding pts by (auto simp: same_frame_def)
  next
    case False
    have eb: "twkb_bytes tg z m (idlist ps) g = twkb_head tg (idlist ps \<noteq> None) z m g @
        twkb_sized ?tg (length ?fs) (twkb_points ?fs g) (twkb_body tg z m (idlist ps) g)" unfolding bytes if_not_P[OF False] o(7) ..
    have nd: "length ?fs \<le> 4" by simp
    from write_body_ok[OF body[OF False] ps hb(2,3) points_dims[OF fits] nd room[unfolded eb]]
    obtain tg' ps' where r: "twkb_write_body body (length ?fs) hb ?tg (child_start (idlist ps)) ps = ret (tg', ps')" "same_opts ?tg tg'"
        "same_frame ps ps'" "ps_at (w @ twkb_bytes tg z m (idlist ps) g) (up_min ?tg ps mn (twkb_points ?fs g)) (up_max ?tg ps mx (twkb_points ?fs g)) ps'"
      unfolding eb by blast
    have "same_opts tg tg'" using opts r(2) by (simp add: same_opts_def)
    moreover have "up_min ?tg = up_min tg" "up_max ?tg = up_max tg" by (intro ext, simp add: up_min_def up_max_def o)+
    ultimately show ?thesis using r unfolding start if_not_P[OF False] by auto
  qed
qed

lemma body_leaf:
  assumes g: "leaf_fits (twkb_factors tg z m) g" and tg: "length (factor tg) = 4" and ne: "\<not> lwgeom_is_empty g"
    and room: "length (twkb_body tg z m ids g) + 64 \<le> 2 ^ 62"
  shows "body_writes (lwgeom_to_twkb_buf g) (twkb_set_factors z m tg) (child_start ids) (twkb_points (twkb_factors tg z m) g)
    (twkb_body tg z m ids g)"
proof -
  let ?fs = "twkb_factors tg z m" and ?tg = "twkb_set_factors z m tg"
  let ?a = "replicate (length ?fs) 0"
  have eb: "twkb_body tg z m ids g = tok_bytes ?fs ?a (leaf_tokens g)" "twkb_points ?fs g = tok_points ?fs (leaf_tokens g)"
    using g ne by (cases g; simp add: twkb_body_def Let_def)+
  have nd: "length ?fs \<le> 4" by simp
  have room': "length [] + length (tok_bytes ?fs ?a (leaf_tokens g)) + 64 \<le> 2 ^ 62" using room unfolding eb by simp
  from writesD[OF leaf_writes(1)[OF g set_factors(2)[OF tg]] child_start_at[OF nd] small_zero room']
  obtain ts' where w: "leaf_writer g ?tg (child_start ids) = ret ts'"
      "ts_at (length ?fs) ([] @ tok_bytes ?fs ?a (leaf_tokens g)) (last_point ?a (tok_points ?fs (leaf_tokens g)))
        (opt_min ?tg (replicate 4 INT64_MAX) (tok_points ?fs (leaf_tokens g)))
        (opt_max ?tg (replicate 4 INT64_MIN) (tok_points ?fs (leaf_tokens g))) ts'" by blast
  have "lwgeom_to_twkb_buf g (?tg, child_start ids) = ret (?tg, ts')"
    unfolding leaf_writes(2)[OF g set_factors(2)[OF tg]] twkb_leaf_def prod.case w(1) obind_simps ..
  moreover have "same_opts ?tg ?tg" using set_factors(1)[OF tg] by (simp add: same_opts_def)
  ultimately show ?thesis using w(2) unfolding body_writes_def eb by (auto simp: ts_at_def)
qed

lemma body_multi:
  assumes g: "list_all (leaf_fits (twkb_factors tg z m)) (twkb_members ty gs)" and tg: "length (factor tg) = 4"
    and ty: "ty \<in> MULTI_TYPES" and ne: "\<not> lwgeom_is_empty (LwColl ty h gs)" and ids: "ids_fit ids gs"
    and room: "length (twkb_body tg z m ids (LwColl ty h gs)) + 64 \<le> 2 ^ 62"
  shows "body_writes (lwgeom_to_twkb_buf (LwColl ty h gs)) (twkb_set_factors z m tg) (child_start ids)
    (twkb_points (twkb_factors tg z m) (LwColl ty h gs)) (twkb_body tg z m ids (LwColl ty h gs))"
proof -
  let ?fs = "twkb_factors tg z m" and ?tg = "twkb_set_factors z m tg" and ?toks = "concat (map leaf_tokens (twkb_members ty gs))"
  let ?a = "replicate (length ?fs) 0"
  have e: "twkb_body tg z m ids (LwColl ty h gs) = varint_u64_encode_buf (of_nat (length (twkb_members ty gs))) @
      id_bytes ids (member_indices ty gs) @ tok_bytes ?fs ?a ?toks"
    unfolding twkb_body_def Let_def lwgeom.case if_P[OF ty] ..
  have p: "twkb_points ?fs (LwColl ty h gs) = tok_points ?fs ?toks" using ty ne by auto
  have nd: "length ?fs \<le> 4" by simp
  have ids': "ids_fit (idlist (child_start ids)) gs" using ids by simp
  have room': "length [] + length (varint_u64_encode_buf (of_nat (length (twkb_members ty gs))) @
      id_bytes (idlist (child_start ids)) (member_indices ty gs) @ tok_bytes ?fs ?a ?toks) + 64 \<le> 2 ^ 62"
    using room unfolding e by simp
  from multi_writes[OF g set_factors(2)[OF tg] ty child_start_at[OF nd] small_zero ids' room']
  obtain ts' where w: "lwgeom_to_twkb_buf (LwColl ty h gs) (?tg, child_start ids) = ret (?tg, ts')"
      "ts_at (length ?fs) (twkb_body tg z m ids (LwColl ty h gs)) (last_point ?a (tok_points ?fs ?toks))
        (opt_min ?tg (replicate 4 INT64_MAX) (tok_points ?fs ?toks)) (opt_max ?tg (replicate 4 INT64_MIN) (tok_points ?fs ?toks)) ts'"
    unfolding e by auto
  moreover have "same_opts ?tg ?tg" using set_factors(1)[OF tg] by (simp add: same_opts_def)
  ultimately show ?thesis unfolding body_writes_def p by (auto simp: ts_at_def)
qed

definition geom_writes :: "bool \<Rightarrow> bool \<Rightarrow> lwgeom \<Rightarrow> bool" where
  "geom_writes z m g \<longleftrightarrow> (\<forall>tg ps w mn mx. twkb_fits (twkb_factors tg z m) z m g \<longrightarrow> twkb_precise tg z m \<longrightarrow> length (factor tg) = 4 \<longrightarrow>
     ps_at w mn mx ps \<longrightarrow> ids_ok (idlist ps) g \<longrightarrow> length w + length (twkb_bytes tg z m (idlist ps) g) + 64 \<le> 2 ^ 62 \<longrightarrow>
     (\<exists>tg' ps'. lwgeom_write_to_buffer (lwgeom_to_twkb_buf g) g (tg, ps) = ret (tg', ps') \<and> same_opts tg tg' \<and> same_frame ps ps' \<and>
        ps_at (w @ twkb_bytes tg z m (idlist ps) g) (up_min tg ps mn (twkb_points (twkb_factors tg z m) g))
          (up_max tg ps mx (twkb_points (twkb_factors tg z m) g)) ps'))"

lemma write_members:
  "\<lbrakk>list_all (geom_writes z m) gs; list_all (twkb_fits fs z m) gs; fs = twkb_factors tg z m; twkb_precise tg z m; length (factor tg) = 4;
    ps_at w mn mx ps; idlist ps = None; header_buf ps \<noteq> None;
    length w + length (concat (map (twkb_bytes tg z m None) gs)) + 64 \<le> 2 ^ 62\<rbrakk> \<Longrightarrow>
   \<exists>tg' ps'. run_steps (\<lambda>s g. lwgeom_write_to_buffer (lwgeom_to_twkb_buf g) g s) (tg, ps) gs = ret (tg', ps') \<and> same_opts tg tg' \<and>
     ps_at (w @ concat (map (twkb_bytes tg z m None) gs)) (opt_min tg mn (concat (map (twkb_points fs) gs)))
       (opt_max tg mx (concat (map (twkb_points fs) gs))) ps'"
proof (induction gs arbitrary: tg ps w mn mx)
  case Nil
  then show ?case by (auto simp: same_opts_def)
next
  case (Cons g gs)
  have fits: "twkb_fits (twkb_factors tg z m) z m g" "geom_writes z m g" using Cons.prems by simp_all
  have ids: "ids_ok (idlist ps) g" using Cons.prems(7) by (simp add: ids_ok_def ids_fit_def)
  have r: "length w + length (twkb_bytes tg z m (idlist ps) g) + 64 \<le> 2 ^ 62" using Cons.prems(7,9) by simp
  from fits(2)[unfolded geom_writes_def, rule_format, OF fits(1) Cons.prems(4-6) ids r]
  obtain tg1 ps1 where s: "lwgeom_write_to_buffer (lwgeom_to_twkb_buf g) g (tg, ps) = ret (tg1, ps1)" "same_opts tg tg1" "same_frame ps ps1"
      "ps_at (w @ twkb_bytes tg z m None g) (opt_min tg mn (twkb_points fs g)) (opt_max tg mx (twkb_points fs g)) ps1"
    using Cons.prems(3,7,8) by (auto simp: up_min_def up_max_def)
  note o = opts_simps[OF s(2)]
  have eb: "twkb_bytes tg1 z m None = twkb_bytes tg z m None" using bytes_opts[OF s(2)] by blast
  have len: "length (factor tg1) = 4" using s(2) by (simp add: same_opts_def)
  have fr: "idlist ps1 = None" "header_buf ps1 \<noteq> None" using s(3) Cons.prems(7,8) by (simp_all add: same_frame_def)
  have tl: "list_all (geom_writes z m) gs" "list_all (twkb_fits fs z m) gs" "fs = twkb_factors tg1 z m" "twkb_precise tg1 z m"
    using Cons.prems(1-4) o by simp_all
  have r1: "length (w @ twkb_bytes tg z m None g) + length (concat (map (twkb_bytes tg1 z m None) gs)) + 64 \<le> 2 ^ 62"
    using Cons.prems(9) unfolding eb by simp
  from Cons.IH[OF tl len s(4) fr r1]
  obtain tg2 ps2 where t: "run_steps (\<lambda>s g. lwgeom_write_to_buffer (lwgeom_to_twkb_buf g) g s) (tg1, ps1) gs = ret (tg2, ps2)" "same_opts tg1 tg2"
     "ps_at ((w @ twkb_bytes tg z m None g) @ concat (map (twkb_bytes tg z m None) gs)) (opt_min tg (opt_min tg mn (twkb_points fs g)) (concat (map (twkb_points fs) gs)))
       (opt_max tg (opt_max tg mx (twkb_points fs g)) (concat (map (twkb_points fs) gs))) ps2"
    unfolding eb o by blast
  have "same_opts tg tg2" using s(2) t(2) by (simp add: same_opts_def)
  then show ?case using t(3) unfolding run_steps_obind s(1) obind_simps t(1) by auto
qed

lemma body_collection:
  assumes ms: "list_all (geom_writes z m) gs" "list_all (twkb_fits (twkb_factors tg z m) z m) gs" and prec: "twkb_precise tg z m"
    and tg: "length (factor tg) = 4" and ty: "ty \<in> {COLLECTIONTYPE, TINTYPE}" and ne: "\<not> lwgeom_is_empty (LwColl ty h gs)" and ids: "ids_fit ids gs"
    and room: "length (twkb_body tg z m ids (LwColl ty h gs)) + 64 \<le> 2 ^ 62"
  shows "body_writes (lwgeom_to_twkb_buf (LwColl ty h gs)) (twkb_set_factors z m tg) (child_start ids)
    (twkb_points (twkb_factors tg z m) (LwColl ty h gs)) (twkb_body tg z m ids (LwColl ty h gs))"
proof -
  let ?fs = "twkb_factors tg z m" and ?tg = "twkb_set_factors z m tg" and ?c = "of_nat (length gs) :: u64"
  let ?ms = "concat (map (twkb_bytes tg z m None) gs)" and ?cs = "child_start ids"
  have opts: "same_opts tg ?tg" using set_factors(1)[OF tg] .
  note o = opts_simps[OF opts]
  have eb: "twkb_bytes ?tg z m None = twkb_bytes tg z m None" using bytes_opts[OF opts] by blast
  have nt: "ty \<notin> MULTI_TYPES" using ty by auto
  have e: "twkb_body tg z m ids (LwColl ty h gs) = varint_u64_encode_buf ?c @ id_bytes ids [0..<length gs] @ ?ms"
    unfolding twkb_body_def Let_def lwgeom.case if_not_P[OF nt] ..
  have p: "twkb_points ?fs (LwColl ty h gs) = concat (map (twkb_points ?fs) gs)" using nt ne by auto
  have cs: "bb_inv (geom_buf ?cs)" "written (geom_buf ?cs) = []" by (simp_all add: child_start_def bb_inv_init)
  obtain b where b: "bytebuffer_append_uvarint (geom_buf ?cs) ?c = ret b" "bb_inv b" "written b = varint_u64_encode_buf ?c"
    using bb.put_uvarint[of "geom_buf ?cs" ?c] cs by (auto simp: bb_room_def)
  have t1: "ts_at 0 (varint_u64_encode_buf ?c) [] (replicate 4 INT64_MAX) (replicate 4 INT64_MIN) (?cs\<lparr>geom_buf := b\<rparr>)"
    using b by (simp add: ts_at_def child_start_def)
  have sub: "set [0..<length gs] \<subseteq> {..<length gs}" and ids': "ids_fit (idlist (?cs\<lparr>geom_buf := b\<rparr>)) gs"
    and room1: "length (varint_u64_encode_buf ?c) + length (id_bytes (idlist (?cs\<lparr>geom_buf := b\<rparr>)) [0..<length gs]) + 64 \<le> 2 ^ 62"
    using ids room unfolding e by auto
  from put_ids[OF t1 ids' sub room1]
  obtain ts where ts: "twkb_put_ids [0..<length gs] (?cs\<lparr>geom_buf := b\<rparr>) = ret ts" "idlist ts = None" "header_buf ts \<noteq> None"
      "ts_at 0 (varint_u64_encode_buf ?c @ id_bytes ids [0..<length gs]) [] (replicate 4 INT64_MAX) (replicate 4 INT64_MIN) ts"
    by (auto simp: child_start_def)
  have ps: "ps_at (varint_u64_encode_buf ?c @ id_bytes ids [0..<length gs]) (replicate 4 INT64_MAX) (replicate 4 INT64_MIN) ts"
    using ts(4) by (simp add: ts_at_def ps_at_def)
  have len: "length (factor ?tg) = 4" using opts by (simp add: same_opts_def)
  have pr: "twkb_precise ?tg z m" "?fs = twkb_factors ?tg z m" using prec o by simp_all
  have room2: "length (varint_u64_encode_buf ?c @ id_bytes ids [0..<length gs]) + length (concat (map (twkb_bytes ?tg z m None) gs)) + 64 \<le> 2 ^ 62"
    using room unfolding e eb by simp
  from write_members[OF ms(1,2) pr(2,1) len ps ts(2,3) room2]
  obtain tg' ts' where r: "run_steps (\<lambda>s g. lwgeom_write_to_buffer (lwgeom_to_twkb_buf g) g s) (?tg, ts) gs = ret (tg', ts')" "same_opts ?tg tg'"
      "ps_at (twkb_body tg z m ids (LwColl ty h gs)) (opt_min ?tg (replicate 4 INT64_MAX) (concat (map (twkb_points ?fs) gs)))
        (opt_max ?tg (replicate 4 INT64_MIN) (concat (map (twkb_points ?fs) gs))) ts'"
    unfolding eb e by auto
  have "lwcollection_to_twkb_buf (\<lambda>g. lwgeom_write_to_buffer (lwgeom_to_twkb_buf g) g) gs (?tg, ?cs) = ret (tg', ts')"
    unfolding lwcollection_to_twkb_buf_def prod.case b(1) obind_simps ts(1) r(1) ..
  then have "lwgeom_to_twkb_buf (LwColl ty h gs) (?tg, ?cs) = ret (tg', ts')"
    unfolding lwgeom_to_twkb_buf.simps if_not_P[OF nt] if_P[OF ty] .
  then show ?thesis using r(2,3) unfolding body_writes_def p by (auto simp: ps_at_def)
qed

lemma geom_writes_leaf:
  assumes g: "\<And>ty h gs. g \<noteq> LwColl ty h gs"
  shows "geom_writes z m g"
  unfolding geom_writes_def
proof (intro allI impI)
  fix tg ps w mn mx
  assume a: "twkb_fits (twkb_factors tg z m) z m g" "twkb_precise tg z m" "length (factor tg) = 4" "ps_at w mn mx ps"
    "ids_ok (idlist ps) g" "length w + length (twkb_bytes tg z m (idlist ps) g) + 64 \<le> 2 ^ 62"
  show "\<exists>tg' ps'. lwgeom_write_to_buffer (lwgeom_to_twkb_buf g) g (tg, ps) = ret (tg', ps') \<and> same_opts tg tg' \<and> same_frame ps ps' \<and>
      ps_at (w @ twkb_bytes tg z m (idlist ps) g) (up_min tg ps mn (twkb_points (twkb_factors tg z m) g))
        (up_max tg ps mx (twkb_points (twkb_factors tg z m) g)) ps'"
  proof (rule write_to_buffer_ok[OF a(1-4,6)])
    assume ne: "\<not> lwgeom_is_empty g"
    have "length (twkb_body tg z m (idlist ps) g) + 64 \<le> 2 ^ 62"
      using a(6) unfolding twkb_bytes_body if_not_P[OF ne] twkb_sized_def Let_def by simp
    moreover have "leaf_fits (twkb_factors tg z m) g" using a(1) ne g by (cases g) auto
    ultimately show "body_writes (lwgeom_to_twkb_buf g) (twkb_set_factors z m tg) (child_start (idlist ps))
        (twkb_points (twkb_factors tg z m) g) (twkb_body tg z m (idlist ps) g)"
      by (intro body_leaf a(3) ne)
  qed
qed

lemma geom_writes: "geom_writes z m g"
proof (induction g)
  case (LwColl ty h gs)
  show ?case
    unfolding geom_writes_def
  proof (intro allI impI)
    fix tg ps w mn mx
    assume a: "twkb_fits (twkb_factors tg z m) z m (LwColl ty h gs)" "twkb_precise tg z m" "length (factor tg) = 4" "ps_at w mn mx ps"
      "ids_ok (idlist ps) (LwColl ty h gs)" "length w + length (twkb_bytes tg z m (idlist ps) (LwColl ty h gs)) + 64 \<le> 2 ^ 62"
    show "\<exists>tg' ps'. lwgeom_write_to_buffer (lwgeom_to_twkb_buf (LwColl ty h gs)) (LwColl ty h gs) (tg, ps) = ret (tg', ps') \<and> same_opts tg tg' \<and>
        same_frame ps ps' \<and> ps_at (w @ twkb_bytes tg z m (idlist ps) (LwColl ty h gs))
          (up_min tg ps mn (twkb_points (twkb_factors tg z m) (LwColl ty h gs))) (up_max tg ps mx (twkb_points (twkb_factors tg z m) (LwColl ty h gs))) ps'"
    proof (rule write_to_buffer_ok[OF a(1-4,6)])
      assume ne: "\<not> lwgeom_is_empty (LwColl ty h gs)"
      have room: "length (twkb_body tg z m (idlist ps) (LwColl ty h gs)) + 64 \<le> 2 ^ 62"
        using a(6) unfolding twkb_bytes_body if_not_P[OF ne] twkb_sized_def Let_def by simp
      have ids: "ids_fit (idlist ps) gs" using a(5) by (simp add: ids_ok_def)
      have ms: "list_all (geom_writes z m) gs" using LwColl.IH by (simp add: list_all_iff)
      from a(1) consider "ty \<in> MULTI_TYPES" "list_all (leaf_fits (twkb_factors tg z m)) (twkb_members ty gs)"
        | "ty \<in> {COLLECTIONTYPE, TINTYPE}" "list_all (twkb_fits (twkb_factors tg z m) z m) gs" by auto
      then show "body_writes (lwgeom_to_twkb_buf (LwColl ty h gs)) (twkb_set_factors z m tg) (child_start (idlist ps))
          (twkb_points (twkb_factors tg z m) (LwColl ty h gs)) (twkb_body tg z m (idlist ps) (LwColl ty h gs))"
      proof cases
        case 1
        then show ?thesis using body_multi[OF 1(2) a(3) 1(1) ne ids room] by blast
      next
        case 2
        then show ?thesis using body_collection[OF ms 2(2) a(2,3) 2(1) ne ids room] by blast
      qed
    qed
  qed
next
  case (LwPoint h pa)
  show ?case by (rule geom_writes_leaf) simp
qed (rule geom_writes_leaf, simp)+


text \<open>The outermost geometry.\<close>

definition twkb_options :: "u8 \<Rightarrow> 8 word \<Rightarrow> 8 word \<Rightarrow> 8 word \<Rightarrow> twkb_globals" where
  "twkb_options variant xy z m = \<lparr>tg_variant = variant, prec_xy = xy, prec_z = z, prec_m = m, factor = replicate 4 0\<rparr>"

lemma bytes_of_writer:
  assumes "twkb_fits (twkb_factors (twkb_options variant prxy prz prm) z m) z m g"
    and "twkb_precise (twkb_options variant prxy prz prm) z m"
    and "ids = None \<or> lwgeom_is_collection g \<and> ids_ok ids g"
    and "length (twkb_bytes (twkb_options variant prxy prz prm) z m ids g) + 64 \<le> 2 ^ 62"
  shows "lwgeom_to_twkb_with_idlist g ids variant prxy prz prm =
    ret (push_bit 2 (of_nat (length (twkb_bytes (twkb_options variant prxy prz prm) z m ids g) + 4)),
         twkb_bytes (twkb_options variant prxy prz prm) z m ids g)"
proof -
  let ?tg = "twkb_options variant prxy prz prm"
  let ?ts = "\<lparr>header_buf = None, geom_buf = bytebuffer_init_with_size 512, idlist = ids, bbox_min = replicate 4 0,
                bbox_max = replicate 4 0, accum_rels = replicate 4 0\<rparr>"
  have len: "length (factor ?tg) = 4" by (simp add: twkb_options_def)
  have ps: "ps_at [] (replicate 4 0) (replicate 4 0) ?ts" by (simp add: ps_at_def bb_inv_init)
  have ids: "ids_ok (idlist ?ts) g" using assms(3) by (auto simp: ids_ok_def ids_fit_def)
  have room: "length [] + length (twkb_bytes ?tg z m (idlist ?ts) g) + 64 \<le> 2 ^ 62" using assms(4) by simp
  have f: "fail_if (ids \<noteq> None \<and> \<not> lwgeom_is_collection g) msg = ret ()" for msg using assms(3) by (auto simp: fail_if_def)
  from geom_writes[unfolded geom_writes_def, rule_format, OF assms(1,2) len ps ids room]
  obtain tg' ps' where "lwgeom_write_to_buffer (lwgeom_to_twkb_buf g) g (?tg, ?ts) = ret (tg', ps')"
      "written (geom_buf ps') = twkb_bytes ?tg z m ids g" by (auto simp: ps_at_def)
  then show ?thesis
    unfolding lwgeom_to_twkb_with_idlist_def Let_def f obind_simps twkb_options_def by (simp add: bytebuffer_get_buffer_varlena_def bytebuffer_getlength_def)
qed

text \<open>C7: the writer refines the format: for every geometry that fits, with or without identifiers, it returns the
  bytes that the format function gives, with their length in the header of a varlena, whatever buffers and states it goes through on the way.
\<close>

theorem twkb_writer_refines:
  assumes "twkb_fits (twkb_factors (twkb_options variant prxy prz prm) z m) z m g"
    and "twkb_precise (twkb_options variant prxy prz prm) z m"
    and "ids = None \<or> lwgeom_is_collection g \<and> ids_ok ids g"
    and "length (twkb_bytes (twkb_options variant prxy prz prm) z m ids g) + 64 \<le> 2 ^ 62"
  shows "lwgeom_to_twkb_with_idlist g ids variant prxy prz prm =
    ret (push_bit 2 (of_nat (length (twkb_bytes (twkb_options variant prxy prz prm) z m ids g) + 4)),
         twkb_bytes (twkb_options variant prxy prz prm) z m ids g)"
  using bytes_of_writer[OF assms] .

text \<open>A collection of one point, (1, 2), with an identifier, a size and a box.\<close>

definition point_1_2 :: ptarray where
  "point_1_2 = ptarray_construct False False 1 [dbl_of_int 1, dbl_of_int 2]"

definition example_coll :: lwgeom where
  "example_coll = LwColl COLLECTIONTYPE (empty_hdr 0 False False) [LwPoint (empty_hdr 0 False False) point_1_2]"

lemma factors_0: "twkb_factors (twkb_options v 0 0 0) False False = [flt_of_dbl (pow10 0), flt_of_dbl (pow10 0)]"
  by (simp add: twkb_factors_def twkb_options_def Let_def)

lemma quantise_ints: "\<bar>i\<bar> < 2 ^ 53 \<Longrightarrow> \<bar>j\<bar> < 2 ^ 53 \<Longrightarrow>
    quantise [flt_of_dbl (pow10 0), flt_of_dbl (pow10 0)] [dbl_of_int i, dbl_of_int j] = [word_of_int i, word_of_int j]"
  by (simp add: quantise_def llround_scaled_int)

lemma ndims_2d: "FLAGS_NDIMS (lwflags False False False) = 2"
  by code_simp

lemma point_1_2_kept:
  "pa_points point_1_2 = [[dbl_of_int 1, dbl_of_int 2]]" "npoints point_1_2 = 1"
  "kept_points [flt_of_dbl (pow10 0), flt_of_dbl (pow10 0)] m point_1_2 = [[1, 2]]"
  "pa_fits [flt_of_dbl (pow10 0), flt_of_dbl (pow10 0)] point_1_2"
proof -
  have n: "npoints point_1_2 = 1" "serialized_pointlist point_1_2 = [dbl_of_int 1, dbl_of_int 2]" "pa_flags point_1_2 = lwflags False False False"
    by (simp_all add: point_1_2_def ptarray_construct_def ptarray_construct_empty_def)
  show p: "pa_points point_1_2 = [[dbl_of_int 1, dbl_of_int 2]]" "npoints point_1_2 = 1"
    using n by (simp_all add: pa_points_def eval_nat_numeral ndims_2d)
  have w: "pa_wf point_1_2" using n by (simp add: pa_wf_def ndims_2d) (simp add: point_1_2_def ptarray_construct_def ptarray_construct_empty_def)
  have q: "quantise [flt_of_dbl (pow10 0), flt_of_dbl (pow10 0)] [dbl_of_int 1, dbl_of_int 2] = [1, 2]"
    using quantise_ints[of 1 2] by simp
  show "kept_points [flt_of_dbl (pow10 0), flt_of_dbl (pow10 0)] m point_1_2 = [[1, 2]]"
    by (simp add: kept_points_def p q)
  show "pa_fits [flt_of_dbl (pow10 0), flt_of_dbl (pow10 0)] point_1_2"
    by (simp add: pa_fits_def p q w n small_int_def ndims_2d)
qed


lemma example_heads:
  "twkb_head (twkb_options 3 0 0 0) True False False (LwColl COLLECTIONTYPE h [LwPoint h' point_1_2]) = [7, 7]"
  "twkb_head (twkb_options 3 0 0 0) False False False (LwPoint h point_1_2) = [1, 3]"
proof -
  have z: "TYPE_PREC_SET_PREC (TYPE_PREC_SET_TYPE 0 7) (zigzag8 0) = 7" "TYPE_PREC_SET_PREC (TYPE_PREC_SET_TYPE 0 1) (zigzag8 0) = 1"
    "twkb_metadata True True True False False = 7" "twkb_metadata True True False False False = 3" by code_simp+
  show "twkb_head (twkb_options 3 0 0 0) True False False (LwColl COLLECTIONTYPE h [LwPoint h' point_1_2]) = [7, 7]"
    "twkb_head (twkb_options 3 0 0 0) False False False (LwPoint h point_1_2) = [1, 3]"
    by (simp_all add: twkb_head_def twkb_options_def twkb_type_code_def lwgeom_twkb_type_def lwline_is_empty_def point_1_2_kept
      twkb_wants_def Let_def z)
qed

lemma example_sized:
  "twkb_sized (twkb_options 3 0 0 0) 2 [[1, 2]] [2, 4] = [6, 2, 0, 4, 0, 2, 4]"
  "twkb_sized (twkb_options 3 0 0 0) 2 [[1, 2]] [1, 14, 1, 3, 6, 2, 0, 4, 0, 2, 4] = [15, 2, 0, 4, 0, 1, 14, 1, 3, 6, 2, 0, 4, 0, 2, 4]"
  "varints [1, 2] = [2, 4]" "varint_u64_encode_buf 1 = [1]" "id_bytes (Some [7]) [0] = [14]"
  by code_simp+

lemma example_bytes: "twkb_bytes (twkb_options 3 0 0 0) False False (Some [7]) example_coll = [7, 7, 15, 2, 0, 4, 0, 1, 14, 1, 3, 6, 2, 0, 4, 0, 2, 4]"
proof -
  have e: "\<not> lwgeom_is_empty (LwPoint h point_1_2)" "\<not> lwgeom_is_empty (LwColl t h' [LwPoint h point_1_2])" for t h h'
    by (simp_all add: lwline_is_empty_def point_1_2_kept)
  have l: "length [flt_of_dbl (pow10 0), flt_of_dbl (pow10 0)] = 2" "replicate 2 (0::i64) = [0, 0]" by (simp_all add: eval_nat_numeral)
  have p: "twkb_body (twkb_options 3 0 0 0) False False None (LwPoint h point_1_2) = [2, 4]" for h
    unfolding twkb_body_def Let_def factors_0 l lwgeom.case leaf_tokens.simps tok_bytes.simps pa_bytes_def point_1_2_kept
    by (simp add: example_sized)
  have pb: "twkb_bytes (twkb_options 3 0 0 0) False False None (LwPoint h point_1_2) = [1, 3, 6, 2, 0, 4, 0, 2, 4]" for h
    unfolding twkb_bytes_body if_not_P[OF e(1)] p factors_0 l by (simp add: point_1_2_kept lwline_is_empty_def example_heads example_sized)
  show ?thesis
    unfolding example_coll_def twkb_bytes_body if_not_P[OF e(2)] factors_0 l
    by (simp add: twkb_body_def pb point_1_2_kept lwline_is_empty_def example_heads example_sized)
qed

lemma example_fits: "twkb_fits (twkb_factors (twkb_options 3 0 0 0) False False) False False example_coll"
proof -
  have "hdr_z (empty_hdr 0 False False) = False" "hdr_m (empty_hdr 0 False False) = False" by code_simp+
  then show ?thesis by (simp add: example_coll_def factors_0 point_1_2_kept)
qed

lemma example_coll_ok: "lwgeom_is_collection example_coll" "ids_ok (Some [7]) example_coll" "twkb_precise (twkb_options 3 0 0 0) False False"
  by (simp_all add: example_coll_def lwgeom_is_collection_def lwtype_is_collection_def ids_ok_def ids_fit_def twkb_precise_def twkb_options_def)

lemma example_written:
  "lwgeom_to_twkb_with_idlist example_coll (Some [7]) 3 0 0 0 =
    ret (88, [7, 7, 15, 2, 0, 4, 0, 1, 14, 1, 3, 6, 2, 0, 4, 0, 2, 4])"
  using bytes_of_writer[of 3 0 0 0 False False example_coll "Some [7]"] example_fits example_coll_ok unfolding example_bytes by simp

theorem twkb_writer_refines_witness:
  "lwgeom_to_twkb_with_idlist example_coll (Some [7]) 3 0 0 0 =
    ret (88, [7, 7, 15, 2, 0, 4, 0, 1, 14, 1, 3, 6, 2, 0, 4, 0, 2, 4])"
  using twkb_writer_refines[of 3 0 0 0 False False example_coll "Some [7]"] example_fits example_coll_ok unfolding example_bytes by simp

end
