(* ===== verification/TwkbReader.thy ===== *)
theory TwkbReader
  imports TwkbWriter
begin

text \<open>
  The reader of theory \<open>TwkbIn\<close> on the bytes of the format: every part of the format is read as the part of the geometry
  it was written for, up to the precision of the integers.
\<close>

section \<open>Varints\<close>

definition whole_delta :: "i64 \<Rightarrow> bool" where
  "whole_delta d \<longleftrightarrow> sint d \<noteq> - (2 ^ 63)"

lemma small_whole: "small_int d \<Longrightarrow> whole_delta d"
  by (auto simp: small_int_def whole_delta_def)

lemma small_diff_whole:
  assumes "small_int a" and "small_int b"
  shows "whole_delta (a - b)"
proof -
  have "\<bar>sint a\<bar> < 2 ^ 60" "\<bar>sint b\<bar> < 2 ^ 60" using assms by (simp_all only: small_int_def)
  then show ?thesis unfolding whole_delta_def sint_small_diff[OF assms] by auto
qed

lemma s64_decode: "whole_delta d \<Longrightarrow> varint_s64_decode (varint_s64_encode_buf d @ rest) = Inr (d, length (varint_s64_encode_buf d))"
  by (simp add: varint_s64_decode_def varint_s64_encode_buf_def varint_u64_decode_encode unzigzag64_zigzag64 whole_delta_def)

lemma advance_ok: "tk_pos s = bs @ rest \<Longrightarrow> twkb_parse_state_advance s (length bs) = Inr (s\<lparr>tk_pos := rest\<rparr>)"
  by (simp add: twkb_parse_state_advance_def)

lemma read_varint:
  "tk_pos s = varint_s64_encode_buf d @ rest \<Longrightarrow> whole_delta d \<Longrightarrow> twkb_parse_state_varint s = Inr (d, s\<lparr>tk_pos := rest\<rparr>)"
  using advance_ok[of s] by (simp add: twkb_parse_state_varint_def s64_decode)

lemma twkb_read_double:
  "tk_pos s = varint_s64_encode_buf d @ rest \<Longrightarrow> whole_delta d \<Longrightarrow>
   twkb_parse_state_double fac s = Inr (twkb_scale fac d, s\<lparr>tk_pos := rest\<rparr>)"
  using advance_ok[of s] by (simp add: twkb_parse_state_double_def s64_decode)

lemma read_uvarint: "tk_pos s = varint_u64_encode_buf q @ rest \<Longrightarrow> twkb_parse_state_uvarint s = Inr (q, s\<lparr>tk_pos := rest\<rparr>)"
  using advance_ok[of s] by (simp add: twkb_parse_state_uvarint_def varint_u64_decode_encode)

lemma skip_varint:
  assumes "tk_pos s = varint_s64_encode_buf d @ rest"
  shows "twkb_parse_state_varint_skip s = Inr (s\<lparr>tk_pos := rest\<rparr>)"
proof -
  have "varint_size (tk_pos s) = length (varint_s64_encode_buf d)"
    using varint_size_loop_decode[of "varint_s64_encode_buf d @ rest" 0 0 0] varint_u64_decode_encode[of "zigzag64 d" rest]
    by (simp add: assms varint_size_def varint_u64_decode_def varint_s64_encode_buf_def)
  moreover have "varint_s64_encode_buf d \<noteq> []" using varint_u64_encode_buf_nonempty[of "zigzag64 d"] by (simp add: varint_s64_encode_buf_def)
  ultimately show ?thesis using advance_ok[OF assms] by (simp add: twkb_parse_state_varint_skip_def)
qed

lemma skip_ids: "tk_pos s = varints ds @ rest \<Longrightarrow> skip_ids_from_twkb_state (length ds) s = Inr (s\<lparr>tk_pos := rest\<rparr>)"
proof (induction ds arbitrary: s)
  case (Cons d ds)
  then have "twkb_parse_state_varint_skip s = Inr (s\<lparr>tk_pos := varints ds @ rest\<rparr>)" by (intro skip_varint) (simp add: varints_def)
  then show ?case by (simp add: Cons.IH)
qed (simp add: varints_def)

section \<open>Points\<close>

definition scales :: "twkb_parse_state \<Rightarrow> dbl list" where
  "scales s = [tk_factor s, tk_factor s] @ (if tk_has_z s then [tk_factor_z s] else []) @ (if tk_has_m s then [tk_factor_m s] else [])"

text \<open>The integers added up so far are \<open>a\<close>.\<close>

definition coords_at :: "twkb_parse_state \<Rightarrow> i64 list \<Rightarrow> bool" where
  "coords_at s a \<longleftrightarrow> length (tk_coords s) = 4 \<and> take (length (scales s)) (tk_coords s) = a"

definition tk_at :: "twkb_parse_state \<Rightarrow> u8 list \<Rightarrow> i64 list \<Rightarrow> twkb_parse_state" where
  "tk_at s rest cs = s\<lparr>tk_pos := rest, tk_coords := cs\<rparr>"

lemma tk_at_simps [simp]:
  "tk_pos (tk_at s r c) = r" "tk_coords (tk_at s r c) = c" "tk_at (tk_at s r c) r' c' = tk_at s r' c'" "tk_has_z (tk_at s r c) = tk_has_z s"
  "tk_has_m (tk_at s r c) = tk_has_m s" "tk_factor (tk_at s r c) = tk_factor s" "tk_factor_z (tk_at s r c) = tk_factor_z s"
  "tk_factor_m (tk_at s r c) = tk_factor_m s" "(tk_at s r c)\<lparr>tk_pos := r'\<rparr> = tk_at s r' c" "(tk_at s r c)\<lparr>tk_coords := c'\<rparr> = tk_at s r c'"
  "scales (tk_at s r c) = scales s" "tk_check (tk_at s r c) = tk_check s" "tk_lwtype (tk_at s r c) = tk_lwtype s"
  "tk_is_empty (tk_at s r c) = tk_is_empty s" "tk_has_idlist (tk_at s r c) = tk_has_idlist s"
  by (simp_all add: tk_at_def scales_def)

lemma tk_at_self: "tk_at s (tk_pos s) (tk_coords s) = s"
  by (simp add: tk_at_def)

lemma tk_at_pos: "s\<lparr>tk_pos := rest\<rparr> = tk_at s rest (tk_coords s)"
  by (simp add: tk_at_def)

text \<open>The reader has gone on to \<open>rest\<close>, and only the coordinates have changed.\<close>

definition moved :: "twkb_parse_state \<Rightarrow> u8 list \<Rightarrow> i64 list \<Rightarrow> twkb_parse_state \<Rightarrow> bool" where
  "moved s rest a s' \<longleftrightarrow> (\<exists>cs. s' = tk_at s rest cs) \<and> coords_at s' a"

lemma scales_update [simp]: "scales (s\<lparr>tk_pos := p\<rparr>) = scales s" "scales (s\<lparr>tk_coords := c\<rparr>) = scales s"
  by (simp_all add: scales_def)

lemma movedI: "coords_at s a \<Longrightarrow> moved s rest a (s\<lparr>tk_pos := rest\<rparr>)"
  unfolding moved_def tk_at_pos by (auto simp: coords_at_def)

lemma moved_trans: "moved s r a s1 \<Longrightarrow> moved s1 r' a' s2 \<Longrightarrow> moved s r' a' s2"
  by (auto simp: moved_def)

lemma moved_facts:
  assumes "moved s rest a s'"
  shows "tk_pos s' = rest" "coords_at s' a" "scales s' = scales s" "tk_has_z s' = tk_has_z s" "tk_has_m s' = tk_has_m s"
    "tk_check s' = tk_check s" "tk_lwtype s' = tk_lwtype s" "tk_is_empty s' = tk_is_empty s"
    "tk_has_idlist s' = tk_has_idlist s"
  using assms by (auto simp: moved_def)

lemma read_ordinate:
  assumes "tk_pos s = varint_s64_encode_buf (q - tk_coords s ! j) @ rest" and "whole_delta (q - tk_coords s ! j)"
    and "j < length (tk_coords s)"
  shows "ordinate_from_twkb_state j fac s = Inr (twkb_scale fac q, tk_at s rest ((tk_coords s)[j := q]))"
proof -
  have "tk_coords s ! j + (q - tk_coords s ! j) = q" by simp
  then show ?thesis using assms by (simp add: ordinate_from_twkb_state_def read_varint tk_at_def)
qed

lemma add_diff_words: "(a :: i64) + (b - a) = b"
  by simp

lemma read_ordinate_at:
  "j < length c \<Longrightarrow> whole_delta (q - c ! j) \<Longrightarrow>
   ordinate_from_twkb_state j fac (tk_at s (varint_s64_encode_buf (q - c ! j) @ rest) c) = Inr (twkb_scale fac q, tk_at s rest (c[j := q]))"
  by (subst read_ordinate[where q = q and rest = rest]) simp_all

lemma read_point:
  assumes q: "length q = length (scales s)" and c: "length c = 4" "take (length (scales s)) c = a"
    and whole: "list_all whole_delta (map2 (-) q a)"
  shows "point_from_twkb_state (tk_at s (varints (map2 (-) q a) @ rest) c)
    = Inr (map2 twkb_scale (scales s) q, tk_at s rest (q @ drop (length (scales s)) c))"
proof -
  obtain c0 c' where c1: "c = c0 # c'" "length c' = 3" using c(1) by (cases c) auto
  obtain c1 ca where c2: "c' = c1 # ca" "length ca = 2" using c1 by (cases c') auto
  obtain c2 cb where c3: "ca = c2 # cb" "length cb = 1" using c2 by (cases ca) auto
  obtain c3 where c4: "cb = [c3]" using c3 by (cases cb) auto
  have cs: "c = [c0, c1, c2, c3]" using c1 c2 c3 c4 by simp
  have l: "length (scales s) = 2 + of_bool (tk_has_z s) + of_bool (tk_has_m s)" by (simp add: scales_def)
  obtain q0 q' where q1: "q = q0 # q'" using q l by (cases q) auto
  obtain q1 q'' where q2: "q' = q1 # q''" "length q'' = of_bool (tk_has_z s) + of_bool (tk_has_m s)" using q l q1 by (cases q') auto
  have r0: "ordinate_from_twkb_state 0 f (tk_at s (varint_s64_encode_buf (q0 - c0) @ r) [c0, x, y, z]) = Inr (twkb_scale f q0, tk_at s r [q0, x, y, z])"
    if "whole_delta (q0 - c0)" for f r x y z q0 c0
    using read_ordinate_at[of 0 "[c0, x, y, z]" q0] that by simp
  have r1: "ordinate_from_twkb_state (Suc 0) f (tk_at s (varint_s64_encode_buf (q0 - c0) @ r) [x, c0, y, z]) = Inr (twkb_scale f q0, tk_at s r [x, q0, y, z])"
    if "whole_delta (q0 - c0)" for f r x y z q0 c0
    using read_ordinate_at[of 1 "[x, c0, y, z]" q0] that by simp
  have r2: "ordinate_from_twkb_state 2 f (tk_at s (varint_s64_encode_buf (q0 - c0) @ r) [x, y, c0, z]) = Inr (twkb_scale f q0, tk_at s r [x, y, q0, z])"
    if "whole_delta (q0 - c0)" for f r x y z q0 c0
    using read_ordinate_at[of 2 "[x, y, c0, z]" q0] that by (simp add: numeral_2_eq_2)
  have r3: "ordinate_from_twkb_state 3 f (tk_at s (varint_s64_encode_buf (q0 - c0) @ r) [x, y, z, c0]) = Inr (twkb_scale f q0, tk_at s r [x, y, z, q0])"
    if "whole_delta (q0 - c0)" for f r x y z q0 c0
    using read_ordinate_at[of 3 "[x, y, z, c0]" q0] that by (simp add: numeral_3_eq_3)
  show ?thesis
  proof (cases "tk_has_z s")
    case True
    then obtain q2 r where q3: "q'' = q2 # r" "length r = of_bool (tk_has_m s)" using q2 by (cases q'') auto
    show ?thesis
    proof (cases "tk_has_m s")
      case m: True
      then obtain q3 where "r = [q3]" using q3 by (cases r) auto
      then show ?thesis using True m c(2) whole unfolding cs q1 q2(1) q3(1)
        by (auto simp: point_from_twkb_state_def varints_def scales_def r0 r1 r2 r3)
    next
      case m: False
      then show ?thesis using True c(2) whole q3(2) unfolding cs q1 q2(1) q3(1)
        by (auto simp: point_from_twkb_state_def varints_def scales_def r0 r1 r2 r3)
    qed
  next
    case False
    show ?thesis
    proof (cases "tk_has_m s")
      case m: True
      then obtain q3 where "q'' = [q3]" using q2 False by (cases q'') auto
      then show ?thesis using False m c(2) whole unfolding cs q1 q2(1)
        by (auto simp: point_from_twkb_state_def varints_def scales_def r0 r1 r2 r3)
    next
      case m: False
      then show ?thesis using False c(2) whole q2(2) unfolding cs q1 q2(1)
        by (auto simp: point_from_twkb_state_def varints_def scales_def r0 r1 r2 r3)
    qed
  qed
qed

section \<open>Point arrays\<close>

text \<open>The array that is built from integer points.\<close>

definition unquantise :: "dbl list \<Rightarrow> i64 list \<Rightarrow> dbl list" where
  "unquantise sc q = map2 twkb_scale sc q"

definition twkb_array :: "dbl list \<Rightarrow> bool \<Rightarrow> bool \<Rightarrow> i64 list list \<Rightarrow> ptarray" where
  "twkb_array sc z m qs = ptarray_construct z m (of_nat (length qs)) (concat (map (unquantise sc) qs))"

lemma moved_refl: "coords_at s a \<Longrightarrow> tk_pos s = rest \<Longrightarrow> moved s rest a s"
  using tk_at_self[of s] by (auto simp: moved_def intro!: exI[of _ "tk_coords s"])

lemma twkb_read_points:
  "tk_pos s = delta_bytes a qs @ rest \<Longrightarrow> coords_at s a \<Longrightarrow> small_point a \<Longrightarrow> list_all small_point qs \<Longrightarrow>
   list_all (\<lambda>q. length q = length (scales s)) qs \<Longrightarrow>
   \<exists>s'. points_from_twkb_state (length qs) s = Inr (concat (map (unquantise (scales s)) qs), s') \<and> moved s rest (last_point a qs) s'"
proof (induction qs arbitrary: s a)
  case Nil
  show ?case using moved_refl[OF Nil.prems(2)] Nil.prems(1) by simp
next
  case (Cons q qs)
  have l: "length (scales s) \<le> 4" by (simp add: scales_def)
  have c: "length (tk_coords s) = 4" "take (length (scales s)) (tk_coords s) = a" using Cons.prems(2) by (simp_all add: coords_at_def)
  have w: "list_all whole_delta (map2 (-) q a)"
    using Cons.prems(3,4) by (auto simp: list_all_iff set_zip intro!: small_diff_whole)
  have q: "length q = length (scales s)" using Cons.prems(5) by simp
  let ?s1 = "tk_at s (delta_bytes q qs @ rest) (q @ drop (length (scales s)) (tk_coords s))"
  have p: "point_from_twkb_state s = Inr (unquantise (scales s) q, ?s1)"
    using read_point[OF q c w, of "delta_bytes q qs @ rest"] Cons.prems(1) unfolding delta_bytes.simps append_assoc unquantise_def
    by (metis tk_at_self)
  have at: "coords_at ?s1 q" using q c(1) l by (simp add: coords_at_def)
  have "moved s (delta_bytes q qs @ rest) q ?s1" using at by (auto simp: moved_def)
  moreover obtain s' where "points_from_twkb_state (length qs) ?s1 = Inr (concat (map (unquantise (scales ?s1)) qs), s')"
      "moved ?s1 rest (last_point q qs) s'"
    using Cons.IH[OF _ at] Cons.prems(4,5) by auto
  ultimately show ?case using p by (auto intro: moved_trans)
qed

lemma read_array:
  assumes "tk_pos s = delta_bytes a qs @ rest" "coords_at s a" "small_point a" "list_all small_point qs"
    "list_all (\<lambda>q. length q = length (scales s)) qs" and n: "length qs < 2 ^ 32"
  shows "\<exists>s'. ptarray_from_twkb_state (of_nat (length qs)) s = Inr (twkb_array (scales s) (tk_has_z s) (tk_has_m s) qs, s') \<and>
    moved s rest (last_point a qs) s'"
proof (cases "qs = []")
  case True
  then show ?thesis using assms(1,2)
    by (simp add: ptarray_from_twkb_state_def twkb_array_def ptarray_construct_def ptarray_construct_empty_def moved_refl)
next
  case False
  have u: "unat (of_nat (length qs) :: u32) = length qs" using n by (simp add: unsigned_of_nat take_bit_nat_eq_self)
  then have "(of_nat (length qs) :: u32) \<noteq> 0" using False by (metis length_0_conv unat_0)
  then show ?thesis using twkb_read_points[OF assms(1-5)] u by (auto simp: ptarray_from_twkb_state_def twkb_array_def)
qed

text \<open>With the count in front.\<close>

lemma read_counted:
  assumes "tk_pos s = varint_u64_encode_buf (of_nat (length qs)) @ delta_bytes a qs @ rest" "coords_at s a" "small_point a"
    "list_all small_point qs" "list_all (\<lambda>q. length q = length (scales s)) qs" and n: "length qs < 2 ^ 32"
  shows "\<exists>np s1 s'. twkb_parse_state_uvarint s = Inr (np, s1) \<and> (ucast np :: u32) = of_nat (length qs) \<and> scales s1 = scales s \<and>
    tk_has_z s1 = tk_has_z s \<and> tk_has_m s1 = tk_has_m s \<and> tk_check s1 = tk_check s \<and>
    ptarray_from_twkb_state (of_nat (length qs)) s1 = Inr (twkb_array (scales s) (tk_has_z s) (tk_has_m s) qs, s') \<and>
    moved s rest (last_point a qs) s'"
proof -
  let ?s1 = "s\<lparr>tk_pos := delta_bytes a qs @ rest\<rparr>"
  have u: "twkb_parse_state_uvarint s = Inr (of_nat (length qs), ?s1)" using read_uvarint[OF assms(1)] .
  have c: "(ucast (of_nat (length qs) :: u64) :: u32) = of_nat (length qs)"
    by (transfer, simp)
  have m: "moved s (delta_bytes a qs @ rest) a ?s1" using movedI[OF assms(2)] .
  note f = moved_facts[OF m]
  obtain s' where "ptarray_from_twkb_state (of_nat (length qs)) ?s1 = Inr (twkb_array (scales s) (tk_has_z s) (tk_has_m s) qs, s')"
      "moved ?s1 rest (last_point a qs) s'"
    using read_array[OF f(1,2) assms(3,4) _ n] assms(5) f(3-5) by auto
  then show ?thesis using u c m f by (auto intro: moved_trans)
qed

section \<open>Kept points\<close>

lemma keep_points_last: "last (p # keep_points m left (Some p) qs) = last (p # qs)"
  by (induction m left "Some p" qs arbitrary: p rule: keep_points.induct) auto

lemma keep_points_many: "length qs \<le> length (keep_points m left prev qs) + (left - m)"
  by (induction m left prev qs rule: keep_points.induct) auto

lemma kept_ends:
  assumes "pa_fits fs pa" and "npoints pa \<noteq> 0"
  shows "kept_points fs m pa \<noteq> []" "hd (kept_points fs m pa) = quantise fs (hd (pa_points pa))"
    "last (kept_points fs m pa) = quantise fs (last (pa_points pa))"
proof -
  have l: "length (pa_points pa) = unat (npoints pa)" by simp
  then obtain p ps where p: "pa_points pa = p # ps" using assms(2) by (cases "pa_points pa") (auto simp: unat_eq_0)
  have k: "kept_points fs m pa = quantise fs p # keep_points m (unat (npoints pa)) (Some (quantise fs p)) (map (quantise fs) ps)"
    by (simp add: kept_points_def p)
  show "kept_points fs m pa \<noteq> []" "hd (kept_points fs m pa) = quantise fs (hd (pa_points pa))" by (simp_all add: k p)
  show "last (kept_points fs m pa) = quantise fs (last (pa_points pa))"
    unfolding k keep_points_last p using last_map[of "p # ps" "quantise fs"] by simp
qed

lemma kept_many: "unat (npoints pa) \<le> length (kept_points fs m pa) + (unat (npoints pa) - m)"
  using keep_points_many[of "map (quantise fs) (pa_points pa)" m "unat (npoints pa)" None] by (simp add: kept_points_def)

section \<open>Rings\<close>

lemma twkb_array_wf:
  assumes "length sc = 2 + of_bool z + of_bool m" and "list_all (\<lambda>q. length q = length sc) qs" and "length qs < 2 ^ 32"
  shows "pa_wf (twkb_array sc z m qs)" "pa_points (twkb_array sc z m qs) = map (unquantise sc) qs"
    "npoints (twkb_array sc z m qs) = of_nat (length qs)"
proof -
  have u: "unat (of_nat (length qs) :: u32) = length qs" using assms(3) by (simp add: unsigned_of_nat take_bit_nat_eq_self)
  have d: "pa_ndims (twkb_array sc z m qs) = length sc"
    by (simp add: twkb_array_def ptarray_construct_def ptarray_construct_empty_def lwflags_ndims assms(1))
  have l: "\<forall>x \<in> set (map (unquantise sc) qs). length x = length sc" using assms(2) by (auto simp: unquantise_def list_all_iff)
  show n: "npoints (twkb_array sc z m qs) = of_nat (length qs)"
    by (simp add: twkb_array_def ptarray_construct_def)
  have sp: "serialized_pointlist (twkb_array sc z m qs) = concat (map (unquantise sc) qs)"
    "maxpoints (twkb_array sc z m qs) = of_nat (length qs)"
    by (simp_all add: twkb_array_def ptarray_construct_def ptarray_construct_empty_def)
  have "length (concat (map (unquantise sc) qs)) = length sc * length qs"
    using l by (induction qs) (simp_all add: algebra_simps)
  then show "pa_wf (twkb_array sc z m qs)" unfolding pa_wf_def d sp n u by simp
  show "pa_points (twkb_array sc z m qs) = map (unquantise sc) qs"
    unfolding pa_points_def d sp n u using chunks_of_concat[of "map (unquantise sc) qs" "length sc"] l by simp
qed

lemma ends_equal_points:
  assumes "pa_wf pa" and "npoints pa \<noteq> 0" and "k \<le> pa_ndims pa"
  shows "ends_equal k pa \<noteq> 0 \<longleftrightarrow> take k (hd (pa_points pa)) = take k (last (pa_points pa))"
proof -
  let ?n = "unat (npoints pa)"
  have l: "length (pa_points pa) = ?n" by simp
  have n: "0 < ?n" using assms(2) by (simp add: unat_gt_0)
  have ne: "pa_points pa \<noteq> []" using n l by force
  have dims: "length (pa_points pa ! i) = pa_ndims pa" if "i < ?n" for i using pa_points_dims[OF assms(1)] that by simp
  have first: "take k (getPoint_internal pa 0) = take k (hd (pa_points pa))"
    unfolding getPoint_internal_points[OF assms(1)] using ne dims[of 0] n assms(3) by (cases "pa_points pa") simp_all
  have "drop (?n - 1) (pa_points pa) = [last (pa_points pa)]"
    using ne l by (metis append_butlast_last_id append_eq_conv_conj length_butlast)
  then have last: "take k (getPoint_internal pa (?n - 1)) = take k (last (pa_points pa))"
    unfolding getPoint_internal_points[OF assms(1)] by simp
  have s: "unat (npoints pa - 1) = ?n - 1" using n by (simp add: unat_minus_one assms(2))
  show ?thesis
  proof (cases "npoints pa \<le> 1")
    case True
    then have "?n = 1" using n by (simp add: word_le_nat_alt)
    then have "pa_points pa = [last (pa_points pa)]" using l by (cases "pa_points pa") auto
    then have "hd (pa_points pa) = last (pa_points pa)" by (metis list.sel(1))
    then show ?thesis using True n by (simp add: ends_equal_def)
  next
    case False
    then show ?thesis using first last s by (simp add: ends_equal_def)
  qed
qed

lemma closed_kept:
  assumes fits: "pa_fits fs pa" and n: "npoints pa \<noteq> 0" and closed: "ptarray_is_closed_2d pa \<noteq> 0"
    and sc: "length sc = length fs" "length sc = 2 + of_bool z + of_bool zm"
  shows "twkb_close_ring (twkb_array sc z zm (kept_points fs m pa)) = Inr (twkb_array sc z zm (kept_points fs m pa))"
proof -
  let ?ks = "kept_points fs m pa"
  have wf: "pa_wf pa" "pa_ndims pa = length fs" using fits by (simp_all add: pa_fits_def)
  have lk: "length ?ks < 2 ^ 32" using kept_length[of fs m pa] unsigned_less[of "npoints pa", where 'a = nat] by simp
  note a = twkb_array_wf[OF sc(2) kept_dims[OF fits, of m, folded sc(1)] lk]
  note k = kept_ends[OF fits n, of m]
  have d: "2 \<le> length fs" "length fs \<le> 4" using pa_fits_dims[OF fits] by simp_all
  have q: "take 2 (quantise fs p) = quantise (take 2 fs) (take 2 p)" for p by (simp add: quantise_def take_map take_zip)
  have u: "take 2 (unquantise sc p) = unquantise (take 2 sc) (take 2 p)" for p by (simp add: unquantise_def take_map take_zip)
  have "take 2 (hd (pa_points pa)) = take 2 (last (pa_points pa))"
    using closed ends_equal_points[OF wf(1) n, of 2] d wf(2) by (simp add: ptarray_is_closed_2d_def)
  then have e: "take 2 (unquantise sc (hd ?ks)) = take 2 (unquantise sc (last ?ks))" unfolding u k q by simp
  have "unat (of_nat (length ?ks) :: u32) = length ?ks" using lk by (simp add: unsigned_of_nat take_bit_nat_eq_self)
  then have nz: "npoints (twkb_array sc z zm ?ks) \<noteq> 0"
    unfolding a(3) using k(1) by (metis length_0_conv unat_0)
  have "2 \<le> pa_ndims (twkb_array sc z zm ?ks)" using FLAGS_NDIMS_cases[of "pa_flags (twkb_array sc z zm ?ks)"] by auto
  then have "ptarray_is_closed_2d (twkb_array sc z zm ?ks) \<noteq> 0"
    using ends_equal_points[OF a(1) nz, of 2] e k(1) by (simp add: ptarray_is_closed_2d_def a(2) hd_map last_map)
  then show ?thesis by (simp add: twkb_close_ring_def)
qed

text \<open>The dimensions and factors of the geometry being read.\<close>

definition reading :: "dbl list \<Rightarrow> bool \<Rightarrow> bool \<Rightarrow> twkb_parse_state \<Rightarrow> bool" where
  "reading sc z m s \<longleftrightarrow> scales s = sc \<and> tk_has_z s = z \<and> tk_has_m s = m"

lemma reading_dims: "reading sc z m s \<Longrightarrow> length sc = 2 + of_bool z + of_bool m"
  by (auto simp: reading_def scales_def)

lemma reading_moved: "reading sc z m s \<Longrightarrow> moved s rest a s' \<Longrightarrow> reading sc z m s'"
  using moved_facts[of s rest a s'] by (simp add: reading_def)

lemma kept_small: "pa_fits fs pa \<Longrightarrow> list_all small_point (kept_points fs m pa)"
  using keep_points_small by (auto simp: pa_fits_def kept_points_def)

lemma kept_count: "pa_fits fs pa \<Longrightarrow> length (kept_points fs m pa) < 2 ^ 31"
  using kept_length[of fs m pa] by (simp add: pa_fits_def word_le_nat_alt)

lemma twkb_array_npoints:
  "length qs < 2 ^ 32 \<Longrightarrow> npoints (twkb_array sc z m qs) < of_nat k \<longleftrightarrow> length qs < k" if "k < 2 ^ 32"
  using that by (simp add: twkb_array_def ptarray_construct_def word_less_nat_alt unsigned_of_nat take_bit_nat_eq_self)

lemma read_ring:
  assumes fits: "pa_fits fs pa" and n: "npoints pa \<noteq> 0" and closed: "ptarray_is_closed_2d pa \<noteq> 0"
    and four: "tk_checks s \<Longrightarrow> 4 \<le> length (kept_points fs m pa)"
    and r: "reading sc z zm s" "length sc = length fs" and p: "tk_pos s = pa_bytes fs True m a pa @ rest"
    and c: "coords_at s a" "small_point a"
  shows "\<exists>s'. rings_from_twkb_state (Suc k) rings s = rings_from_twkb_state k (rings @ [twkb_array sc z zm (kept_points fs m pa)]) s' \<and>
    moved s rest (last_point a (kept_points fs m pa)) s'"
proof -
  let ?ks = "kept_points fs m pa"
  have sc: "scales s = sc" "tk_has_z s = z" "tk_has_m s = zm" using r(1) by (simp_all add: reading_def)
  have p': "tk_pos s = varint_u64_encode_buf (of_nat (length ?ks)) @ delta_bytes a ?ks @ rest" using p by (simp add: pa_bytes_def)
  have dims: "list_all (\<lambda>q. length q = length (scales s)) ?ks" using kept_dims[OF fits, of m] sc r(2) by simp
  have lk: "length ?ks < 2 ^ 32" using kept_count[OF fits, of m] by simp
  from read_counted[OF p' c kept_small[OF fits] dims lk]
  obtain np s1 s' where u: "twkb_parse_state_uvarint s = Inr (np, s1)" "(ucast np :: u32) = of_nat (length ?ks)"
      "ptarray_from_twkb_state (of_nat (length ?ks)) s1 = Inr (twkb_array sc z zm ?ks, s')" "moved s rest (last_point a ?ks) s'"
    unfolding sc by blast
  have chk: "tk_checks s' = tk_checks s" using moved_facts(6)[OF u(4)] by (simp add: tk_checks_def)
  have "\<not> (tk_checks s' \<and> npoints (twkb_array sc z zm ?ks) < 4)"
    using twkb_array_npoints[of 4 ?ks sc z zm] lk four chk by auto
  moreover have "twkb_close_ring (twkb_array sc z zm ?ks) = Inr (twkb_array sc z zm ?ks)"
    using closed_kept[OF fits n closed r(2) reading_dims[OF r(1)]] .
  ultimately have "rings_from_twkb_state (Suc k) rings s = rings_from_twkb_state k (rings @ [twkb_array sc z zm ?ks]) s'"
    unfolding rings_from_twkb_state.simps u(1) rbind_simps prod.case u(2,3) by (simp only: if_False lwpoly_add_ring_def rbind_simps)
  then show ?thesis using u(4) by blast
qed

definition ring_ok :: "bool \<Rightarrow> flt list \<Rightarrow> nat \<Rightarrow> ptarray \<Rightarrow> bool" where
  "ring_ok chk fs m pa \<longleftrightarrow> npoints pa \<noteq> 0 \<and> ptarray_is_closed_2d pa \<noteq> 0 \<and> (chk \<longrightarrow> 4 \<le> length (kept_points fs m pa))"

lemma twkb_read_rings:
  assumes "reading sc z zm s" and "length sc = length fs"
  shows "list_all (pa_fits fs) pas \<Longrightarrow> list_all (ring_ok (tk_checks s) fs m) pas \<Longrightarrow>
    tk_pos s = tok_bytes fs a (map (TPoints True m) pas) @ rest \<Longrightarrow> coords_at s a \<Longrightarrow> small_point a \<Longrightarrow>
    \<exists>s'. rings_from_twkb_state (length pas) rings s = Inr (rings @ map (\<lambda>pa. twkb_array sc z zm (kept_points fs m pa)) pas, s') \<and>
      moved s rest (last_point a (tok_points fs (map (TPoints True m) pas))) s'"
  using assms
proof (induction pas arbitrary: s a rings)
  case Nil
  then show ?case by (simp add: moved_refl)
next
  case (Cons pa pas)
  have f: "pa_fits fs pa" "npoints pa \<noteq> 0" "ptarray_is_closed_2d pa \<noteq> 0" "tk_checks s \<Longrightarrow> 4 \<le> length (kept_points fs m pa)"
    using Cons.prems(1,2) by (simp_all add: ring_ok_def)
  let ?a = "last_point a (kept_points fs m pa)" and ?A = "\<lambda>pa. twkb_array sc z zm (kept_points fs m pa)"
  have p: "tk_pos s = pa_bytes fs True m a pa @ (tok_bytes fs ?a (map (TPoints True m) pas) @ rest)" using Cons.prems(3) by simp
  from read_ring[OF f Cons.prems(6,7) p Cons.prems(4,5)]
  obtain s1 where s1: "rings_from_twkb_state (Suc (length pas)) rings s = rings_from_twkb_state (length pas) (rings @ [?A pa]) s1"
      "moved s (tok_bytes fs ?a (map (TPoints True m) pas) @ rest) ?a s1" by blast
  note m1 = moved_facts[OF s1(2)]
  have chk: "tk_checks s1 = tk_checks s" using m1(6) by (simp add: tk_checks_def)
  have small: "small_point ?a" using kept_small[OF f(1)] Cons.prems(5) by (intro last_point_small)
  have "list_all (pa_fits fs) pas" "list_all (ring_ok (tk_checks s1) fs m) pas" using Cons.prems(1,2) chk by simp_all
  from Cons.IH[OF this m1(1,2) small reading_moved[OF Cons.prems(6) s1(2)] Cons.prems(7), of "rings @ [?A pa]"]
  show ?case using s1 by (auto intro: moved_trans)
qed

section \<open>Simple geometries\<close>

fun leaf_canon :: "dbl list \<Rightarrow> bool \<Rightarrow> bool \<Rightarrow> flt list \<Rightarrow> lwgeom \<Rightarrow> lwgeom" where
  "leaf_canon sc z m fs (LwPoint h pa) = lwpoint_construct SRID_UNKNOWN None (twkb_array sc z m (kept_points fs 1 pa))"
| "leaf_canon sc z m fs (LwLine h pa) =
     (if npoints pa = 0 then lwline_construct_empty SRID_UNKNOWN z m
      else lwline_construct SRID_UNKNOWN None (twkb_array sc z m (kept_points fs 2 pa)))"
| "leaf_canon sc z m fs (LwTriangle h pa) = LwPoly (empty_hdr SRID_UNKNOWN z m) [twkb_array sc z m (kept_points fs 2 pa)]"
| "leaf_canon sc z m fs (LwPoly h rings) = LwPoly (empty_hdr SRID_UNKNOWN z m) (map (\<lambda>pa. twkb_array sc z m (kept_points fs 4 pa)) rings)"
| "leaf_canon sc z m fs g = g"

text \<open>What the reader accepts; \<open>chk\<close> says whether it looks at the number of points.\<close>

fun leaf_ok :: "bool \<Rightarrow> flt list \<Rightarrow> lwgeom \<Rightarrow> bool" where
  "leaf_ok chk fs (LwLine h pa) = (chk \<longrightarrow> npoints pa \<noteq> 1)"
| "leaf_ok chk fs (LwTriangle h pa) = ring_ok chk fs 2 pa"
| "leaf_ok chk fs (LwPoly h rings) = (length rings < 2 ^ 32 \<and> list_all (ring_ok chk fs 4) rings)"
| "leaf_ok chk fs g = True"

fun leaf_reader :: "lwgeom \<Rightarrow> lwgeom twkb_reader" where
  "leaf_reader (LwPoint h pa) = lwpoint_from_twkb_state"
| "leaf_reader (LwLine h pa) = lwline_from_twkb_state"
| "leaf_reader g = lwpoly_from_twkb_state"

lemma ucast_small: "n < 2 ^ 32 \<Longrightarrow> (ucast (of_nat n :: u64) :: u32) = of_nat n \<and> unat (of_nat n :: u32) = n"
  by (simp add: unsigned_of_nat take_bit_nat_eq_self)

lemma read_polygon:
  assumes ne: "\<not> tk_is_empty s" and r: "reading sc z zm s" "length sc = length fs" and fits: "list_all (pa_fits fs) pas"
    and ok: "list_all (ring_ok (tk_checks s) fs m) pas" "length pas < 2 ^ 32"
    and p: "tk_pos s = varint_u64_encode_buf (of_nat (length pas)) @ tok_bytes fs a (map (TPoints True m) pas) @ rest"
    and c: "coords_at s a" "small_point a"
  shows "\<exists>s'. lwpoly_from_twkb_state s = Inr (LwPoly (empty_hdr SRID_UNKNOWN z zm) (map (\<lambda>pa. twkb_array sc z zm (kept_points fs m pa)) pas), s') \<and>
    moved s rest (last_point a (tok_points fs (map (TPoints True m) pas))) s'"
proof -
  let ?s1 = "s\<lparr>tk_pos := tok_bytes fs a (map (TPoints True m) pas) @ rest\<rparr>"
  have u: "twkb_parse_state_uvarint s = Inr (of_nat (length pas), ?s1)" using read_uvarint[OF p] .
  have m1: "moved s (tok_bytes fs a (map (TPoints True m) pas) @ rest) a ?s1" using movedI[OF c(1)] .
  note f = moved_facts[OF m1]
  have chk: "tk_checks ?s1 = tk_checks s" using f(6) by (simp add: tk_checks_def)
  obtain s' where s': "rings_from_twkb_state (length pas) [] ?s1 = Inr (map (\<lambda>pa. twkb_array sc z zm (kept_points fs m pa)) pas, s')"
      "moved ?s1 rest (last_point a (tok_points fs (map (TPoints True m) pas))) s'"
    using twkb_read_rings[OF reading_moved[OF r(1) m1] r(2) fits _ f(1,2) c(2), of "[]"] ok(1) chk by auto
  have d: "tk_has_z s = z" "tk_has_m s = zm" using r(1) by (simp_all add: reading_def)
  have mv: "moved s rest (last_point a (tok_points fs (map (TPoints True m) pas))) s'" using m1 s'(2) by (rule moved_trans)
  show ?thesis
  proof (cases "pas = []")
    case True
    then have "lwpoly_from_twkb_state s = Inr (LwPoly (empty_hdr SRID_UNKNOWN z zm) [], ?s1)" "s' = ?s1"
      using ne u d s'(1) by (simp_all add: lwpoly_from_twkb_state_def Let_def)
    then show ?thesis using True mv by auto
  next
    case False
    have un: "(ucast (of_nat (length pas) :: u64) :: u32) = of_nat (length pas)" "unat (of_nat (length pas) :: u32) = length pas"
      using ucast_small[OF ok(2)] by simp_all
    have nz: "(of_nat (length pas) :: u32) \<noteq> 0" using un(2) False by (metis length_0_conv unat_0)
    have "lwpoly_from_twkb_state s = Inr (LwPoly (empty_hdr SRID_UNKNOWN z zm) (map (\<lambda>pa. twkb_array sc z zm (kept_points fs m pa)) pas), s')"
      unfolding lwpoly_from_twkb_state_def Let_def u rbind_simps prod.case un d if_not_P[OF ne] if_not_P[OF nz] s'(1) ..
    then show ?thesis using mv by blast
  qed
qed

lemma twkb_read_leaf:
  assumes ne: "\<not> tk_is_empty s" and r: "reading sc z zm s" "length sc = length fs" and fits: "leaf_fits fs g"
    and ok: "leaf_ok (tk_checks s) fs g" and p: "tk_pos s = tok_bytes fs a (leaf_tokens g) @ rest"
    and c: "coords_at s a" "small_point a"
  shows "\<exists>s'. leaf_reader g s = Inr (leaf_canon sc z zm fs g, s') \<and> moved s rest (last_point a (tok_points fs (leaf_tokens g))) s'"
proof -
  have sc: "scales s = sc" "tk_has_z s = z" "tk_has_m s = zm" using r(1) by (simp_all add: reading_def)
  show ?thesis
  proof (cases g)
    case (LwPoint h pa)
    let ?ks = "kept_points fs 1 pa"
    have f: "pa_fits fs pa" "npoints pa = 1" using fits LwPoint by simp_all
    have one: "length ?ks = 1" using kept_ends(1)[OF f(1), of 1] kept_length[of fs 1 pa] f(2) by (cases ?ks) auto
    have "tk_pos s = delta_bytes a ?ks @ rest" using p LwPoint by (simp add: pa_bytes_def)
    from read_array[OF this c kept_small[OF f(1)]] show ?thesis
      using kept_dims[OF f(1), of 1] one sc r(2) ne LwPoint by (auto simp: lwpoint_from_twkb_state_def)
  next
    case (LwLine h pa)
    let ?ks = "kept_points fs 2 pa"
    have f: "pa_fits fs pa" using fits LwLine by simp
    have lk: "length ?ks < 2 ^ 32" using kept_count[OF f, of 2] by simp
    have p': "tk_pos s = varint_u64_encode_buf (of_nat (length ?ks)) @ delta_bytes a ?ks @ rest" using p LwLine by (simp add: pa_bytes_def)
    have dims: "list_all (\<lambda>q. length q = length (scales s)) ?ks" using kept_dims[OF f, of 2] sc r(2) by simp
    from read_counted[OF p' c kept_small[OF f] dims lk]
    obtain np s1 s' where u: "twkb_parse_state_uvarint s = Inr (np, s1)" "(ucast np :: u32) = of_nat (length ?ks)" "tk_check s1 = tk_check s"
        "ptarray_from_twkb_state (of_nat (length ?ks)) s1 = Inr (twkb_array sc z zm ?ks, s')" "moved s rest (last_point a ?ks) s'"
      unfolding sc by blast
    have un: "unat (of_nat (length ?ks) :: u32) = length ?ks" using ucast_small[OF lk] by simp
    show ?thesis
    proof (cases "npoints pa = 0")
      case True
      then have ks: "?ks = []" using kept_length[of fs 2 pa] by simp
      have "s1 = s'" using u(4) ks by (simp add: ptarray_from_twkb_state_def)
      then show ?thesis using u(1,2,5) ks True ne sc LwLine by (auto simp: lwline_from_twkb_state_def Let_def)
    next
      case False
      have nk: "(of_nat (length ?ks) :: u32) \<noteq> 0" using kept_ends(1)[OF f False, of 2] un by (metis length_0_conv unat_0)
      have two: "2 \<le> length ?ks" if "tk_checks s"
      proof -
        have "npoints pa \<noteq> 1" using ok that LwLine by simp
        then have "2 \<le> unat (npoints pa)" using False by (metis One_nat_def Suc_1 Suc_leI le_neq_implies_less not_gr0 unat_1 unat_eq_0 word_unat_eq_iff)
        then show ?thesis using kept_many[of pa fs 2] by linarith
      qed
      have "tk_checks s' = tk_checks s" using moved_facts(6)[OF u(5)] by (simp add: tk_checks_def)
      then have "\<not> (tk_checks s' \<and> npoints (twkb_array sc z zm ?ks) < 2)"
        using twkb_array_npoints[of 2 ?ks sc z zm] lk two by auto
      then have "lwline_from_twkb_state s = Inr (lwline_construct SRID_UNKNOWN None (twkb_array sc z zm ?ks), s')"
        unfolding lwline_from_twkb_state_def Let_def u(1,2,4) rbind_simps prod.case if_not_P[OF ne] if_not_P[OF nk] by (simp only: if_False)
      then show ?thesis using u(5) False LwLine by auto
    qed
  next
    case (LwTriangle h pa)
    have "tk_pos s = varint_u64_encode_buf (of_nat (length [pa])) @ tok_bytes fs a (map (TPoints True 2) [pa]) @ rest"
      using p LwTriangle by simp
    from read_polygon[OF ne r _ _ _ this c] show ?thesis using fits ok LwTriangle by auto
  next
    case (LwPoly h rings)
    then show ?thesis using read_polygon[OF ne r _ _ _ _ c, of rings 4 rest] fits ok p by auto
  qed (use fits in simp_all)
qed

lemma leaf_small: "leaf_fits fs g \<Longrightarrow> list_all small_point (tok_points fs (leaf_tokens g))"
  using leaf_writes(1)[of fs g "\<lparr>tg_variant = 0, prec_xy = 0, prec_z = 0, prec_m = 0, factor = fs\<rparr>"] by (simp add: writes_def)

section \<open>Collections\<close>

fun member_ok :: "u8 \<Rightarrow> lwgeom \<Rightarrow> bool" where
  "member_ok ty (LwPoint h pa) = (ty = MULTIPOINTTYPE)"
| "member_ok ty (LwLine h pa) = (ty = MULTILINETYPE)"
| "member_ok ty (LwPoly h rings) = (ty = MULTIPOLYGONTYPE)"
| "member_ok ty g = False"

definition member_reader :: "u8 \<Rightarrow> lwgeom twkb_reader" where
  "member_reader ty = (if ty = MULTIPOINTTYPE then lwpoint_from_twkb_state else if ty = MULTILINETYPE then lwline_from_twkb_state else lwpoly_from_twkb_state)"

lemma member_facts:
  assumes "member_ok ty g"
  shows "leaf_reader g = member_reader ty" "lwcollection_allows_subtype ty (lwgeom_get_type (leaf_canon sc z m fs g))"
  using assms by (cases g; simp add: member_reader_def lwcollection_allows_subtype_def lwpoint_construct_def lwline_construct_def
    lwline_construct_empty_def Let_def)+

lemma read_leaves:
  assumes "reading sc z zm s" and "length sc = length fs" and "\<not> tk_is_empty s"
  shows "list_all (leaf_fits fs) gs \<Longrightarrow> list_all (leaf_ok (tk_checks s) fs) gs \<Longrightarrow> list_all (member_ok ty) gs \<Longrightarrow>
    tk_pos s = tok_bytes fs a (concat (map leaf_tokens gs)) @ rest \<Longrightarrow> coords_at s a \<Longrightarrow> small_point a \<Longrightarrow>
    \<exists>s'. members_from_twkb_state (member_reader ty) ty (length gs) acc s = Inr (acc @ map (leaf_canon sc z zm fs) gs, s') \<and>
      moved s rest (last_point a (tok_points fs (concat (map leaf_tokens gs)))) s'"
  using assms
proof (induction gs arbitrary: s a acc)
  case Nil
  then show ?case by (simp add: moved_refl)
next
  case (Cons g gs)
  have f: "leaf_fits fs g" "leaf_ok (tk_checks s) fs g" "member_ok ty g" using Cons.prems(1-3) by simp_all
  let ?a = "last_point a (tok_points fs (leaf_tokens g))"
  have p: "tk_pos s = tok_bytes fs a (leaf_tokens g) @ (tok_bytes fs ?a (concat (map leaf_tokens gs)) @ rest)" using Cons.prems(4) by simp
  from twkb_read_leaf[OF Cons.prems(9,7,8) f(1,2) p Cons.prems(5,6)]
  obtain s1 where s1: "member_reader ty s = Inr (leaf_canon sc z zm fs g, s1)"
      "moved s (tok_bytes fs ?a (concat (map leaf_tokens gs)) @ rest) ?a s1" using member_facts(1)[OF f(3)] by auto
  note m1 = moved_facts[OF s1(2)]
  have chk: "tk_checks s1 = tk_checks s" using m1(6) by (simp add: tk_checks_def)
  have small: "small_point ?a" using leaf_small[OF f(1)] Cons.prems(6) by (intro last_point_small)
  have ms: "list_all (leaf_fits fs) gs" "list_all (leaf_ok (tk_checks s1) fs) gs" "list_all (member_ok ty) gs" using Cons.prems(1-3) chk by simp_all
  have add: "lwcollection_add_lwgeom ty acc (leaf_canon sc z zm fs g) = Inr (acc @ [leaf_canon sc z zm fs g])"
    using member_facts(2)[OF f(3)] by (simp add: lwcollection_add_lwgeom_def)
  from Cons.IH[OF ms m1(1,2) small reading_moved[OF Cons.prems(7) s1(2)] Cons.prems(8) _, of "acc @ [leaf_canon sc z zm fs g]"] m1(8) Cons.prems(9)
  obtain s' where "members_from_twkb_state (member_reader ty) ty (length gs) (acc @ [leaf_canon sc z zm fs g]) s1
        = Inr (acc @ map (leaf_canon sc z zm fs) (g # gs), s')"
      "moved s1 rest (last_point ?a (tok_points fs (concat (map leaf_tokens gs)))) s'" by auto
  then show ?case using s1 add by (auto intro: moved_trans)
qed

lemma int_count: "n < 2 ^ 31 \<Longrightarrow> nat (sint (ucast (of_nat n :: u64) :: 32 word)) = n"
proof -
  assume n: "n < 2 ^ 31"
  have "(ucast (of_nat n :: u64) :: u32) = of_nat n" using ucast_small[of n] n by simp
  moreover have "sint (of_nat n :: u32) = int n" using n by (intro sint_of_nat_small) simp
  ultimately show ?thesis by simp
qed

text \<open>The parts of a collection in front of its members.\<close>

lemma read_collection:
  assumes coll: "lwtype_is_collection ty" and s: "tk_lwtype s = ty" "\<not> tk_is_empty s" "reading sc z zm s" "tk_has_idlist s = (ids \<noteq> None)"
    and p: "tk_pos s = varint_u64_encode_buf (of_nat n) @ id_bytes ids is @ bytes" and n: "n < 2 ^ 31" "length is = n"
    and ms: "\<And>s1. s1 = s\<lparr>tk_pos := bytes\<rparr> \<Longrightarrow> members_from_twkb_state rd ty n [] s1 = Inr (gs, s')"
  shows "multi_from_twkb_state rd s = Inr (LwColl ty (empty_hdr SRID_UNKNOWN z zm) gs, s')"
proof -
  let ?s1 = "s\<lparr>tk_pos := id_bytes ids is @ bytes\<rparr>"
  have d: "tk_has_z s = z" "tk_has_m s = zm" using s(3) by (simp_all add: reading_def)
  have u: "twkb_parse_state_uvarint s = Inr (of_nat n, ?s1)" using read_uvarint[OF p] .
  have skip: "(if tk_has_idlist ?s1 then skip_ids_from_twkb_state n ?s1 else Inr ?s1) = Inr (s\<lparr>tk_pos := bytes\<rparr>)"
  proof (cases ids)
    case None
    then show ?thesis using s(4) by (simp add: id_bytes_def)
  next
    case (Some l)
    then show ?thesis using skip_ids[of ?s1 "map (nth l) is" bytes] s(4) n(2) by (simp add: id_bytes_def)
  qed
  have c: "lwcollection_construct_empty ty SRID_UNKNOWN z zm = Inr (LwColl ty (empty_hdr SRID_UNKNOWN z zm) [])"
    using coll by (simp add: lwcollection_construct_empty_def)
  have h: "g_hdr (LwColl ty (empty_hdr SRID_UNKNOWN z zm) []) = empty_hdr SRID_UNKNOWN z zm" by simp
  show ?thesis
    unfolding multi_from_twkb_state_def Let_def s(1) d c rbind_simps if_not_P[OF s(2)] u prod.case int_count[OF n(1)] skip ms[OF refl] h ..
qed

section \<open>Headers\<close>

definition twkb_scales :: "twkb_globals \<Rightarrow> bool \<Rightarrow> bool \<Rightarrow> dbl list" where
  "twkb_scales tg z m = (let pw = (\<lambda>p. pow10 (sint p))
     in [pw (prec_xy tg), pw (prec_xy tg)] @ (if z then [pw (prec_z tg)] else []) @ (if m then [pw (prec_m tg)] else []))"

text \<open>The type that is read back: a triangle is a polygon, a TIN a collection.\<close>

fun read_type :: "lwgeom \<Rightarrow> u8" where
  "read_type (LwTriangle h pa) = POLYGONTYPE"
| "read_type (LwColl ty h gs) = (if ty = TINTYPE then COLLECTIONTYPE else ty)"
| "read_type g = lwgeom_get_type g"

lemma type_code_read:
  assumes "twkb_fits fs z m g"
  shows "lwtype_from_twkb_type (twkb_type_code g) = Inr (read_type g)" "twkb_type_code g \<in> {1, 2, 3, 4, 5, 6, 7}"
  using assms by (cases g; auto simp: twkb_type_code_def lwgeom_twkb_type_def Let_def lwtype_from_twkb_type_def)+

lemma prec_range:
  fixes p :: "8 word"
  assumes "\<bar>sint p\<bar> \<le> 7"
  shows "p \<in> set (map word_of_int [-7..7])"
proof -
  have "sint p \<in> set [-7..7]" using assms by auto
  moreover have "p = word_of_int (sint p)" by simp
  ultimately show ?thesis unfolding set_map by blast
qed

lemma first_byte:
  assumes "t \<in> {1, 2, 3, 4, 5, 6, 7}" and "\<bar>sint p\<bar> \<le> 7"
  defines "b \<equiv> TYPE_PREC_SET_PREC (TYPE_PREC_SET_TYPE 0 t) (zigzag8 p)"
  shows "b AND 0x0F = t" "unzigzag8 (drop_bit 4 (b AND 0xF0)) = p"
proof -
  have "\<forall>t \<in> set [1, 2, 3, 4, 5, 6, 7]. \<forall>p \<in> set (map word_of_int [-7..7]).
      TYPE_PREC_SET_PREC (TYPE_PREC_SET_TYPE 0 t) (zigzag8 p) AND 0x0F = t \<and>
      unzigzag8 (drop_bit 4 (TYPE_PREC_SET_PREC (TYPE_PREC_SET_TYPE 0 t) (zigzag8 p) AND 0xF0)) = p"
    by code_simp
  then show "b AND 0x0F = t" "unzigzag8 (drop_bit 4 (b AND 0xF0)) = p"
    using assms(1) prec_range[OF assms(2)] unfolding b_def by auto
qed

lemma second_byte:
  assumes b_def: "b = twkb_metadata bb sz idl ex em"
  shows "b AND 0x01 \<noteq> 0 \<longleftrightarrow> bb" "b AND 0x02 \<noteq> 0 \<longleftrightarrow> sz" "b AND 0x04 \<noteq> 0 \<longleftrightarrow> idl" "b AND 0x08 \<noteq> 0 \<longleftrightarrow> ex" "b AND 0x10 \<noteq> 0 \<longleftrightarrow> em"
  unfolding b_def by (cases bb; cases sz; cases idl; cases ex; cases em; simp add: twkb_metadata_def set_flag_def)+

lemma third_byte:
  assumes "z \<longrightarrow> 0 \<le> sint pz' \<and> sint pz' \<le> 7" and "m \<longrightarrow> 0 \<le> sint pm' \<and> sint pm' \<le> 7"
  and b_def: "b = HIGHER_DIM_SET_PRECM (HIGHER_DIM_SET_PRECZ (HIGHER_DIM_SET_HASM (HIGHER_DIM_SET_HASZ 0 z) m) pz') pm'"
  shows "b AND 0x01 \<noteq> 0 \<longleftrightarrow> z" "b AND 0x02 \<noteq> 0 \<longleftrightarrow> m" "z \<Longrightarrow> drop_bit 2 (b AND 0x1C) = pz'" "m \<Longrightarrow> drop_bit 5 (b AND 0xE0) = pm'"
proof -
  have all: "\<forall>z \<in> set [False, True]. \<forall>m \<in> set [False, True]. \<forall>p \<in> set (map word_of_int [0..7]). \<forall>q \<in> set (map word_of_int [0..7]).
      let b = HIGHER_DIM_SET_PRECM (HIGHER_DIM_SET_PRECZ (HIGHER_DIM_SET_HASM (HIGHER_DIM_SET_HASZ 0 z) m) p) q
      in (b AND 0x01 \<noteq> 0) = z \<and> (b AND 0x02 \<noteq> 0) = m \<and> drop_bit 2 (b AND 0x1C) = p \<and> drop_bit 5 (b AND 0xE0) = q"
    by code_simp
  have low: "w AND 7 \<in> set (map word_of_int [0..7])" for w :: "8 word"
    by (rule all_u8[where P = "\<lambda>w. w AND 7 \<in> set (map word_of_int [0..7])"]) code_simp
  have e: "b = HIGHER_DIM_SET_PRECM (HIGHER_DIM_SET_PRECZ (HIGHER_DIM_SET_HASM (HIGHER_DIM_SET_HASZ 0 z) m) (pz' AND 7)) (pm' AND 7)"
    by (simp add: b_def HIGHER_DIM_SET_PRECM_def HIGHER_DIM_SET_PRECZ_def and.assoc)
  have in3: "p AND 7 = p" if "0 \<le> sint p \<and> sint p \<le> 7" for p :: "8 word"
  proof -
    have "sint p \<in> set [0..7]" "p = word_of_int (sint p)" using that by auto
    then have "p \<in> set (map word_of_int [0..7])" unfolding set_map by blast
    moreover have "\<forall>p \<in> set (map word_of_int [0..7]). p AND (7 :: 8 word) = p" by code_simp
    ultimately show ?thesis by blast
  qed
  have zm: "z \<in> set [False, True]" "m \<in> set [False, True]" by auto
  note r = all[rule_format, OF zm low[of pz'] low[of pm'], folded e, unfolded Let_def]
  show "b AND 0x01 \<noteq> 0 \<longleftrightarrow> z" "b AND 0x02 \<noteq> 0 \<longleftrightarrow> m" using r by blast+
  show "z \<Longrightarrow> drop_bit 2 (b AND 0x1C) = pz'" "m \<Longrightarrow> drop_bit 5 (b AND 0xE0) = pm'" using r in3 assms(1,2) by simp_all
qed

text \<open>The bytes of a header with the size behind it, and the state that the reader makes of them.\<close>

definition size_bytes :: "twkb_globals \<Rightarrow> nat \<Rightarrow> u8 list" where
  "size_bytes tg n = (if twkb_wants tg TWKB_SIZE then varint_u64_encode_buf (of_nat n) else [])"

definition headed :: "twkb_globals \<Rightarrow> bool \<Rightarrow> bool \<Rightarrow> bool \<Rightarrow> lwgeom \<Rightarrow> twkb_parse_state \<Rightarrow> bool" where
  "headed tg has_ids z m g s \<longleftrightarrow> tk_lwtype s = read_type g \<and> tk_is_empty s = lwgeom_is_empty g \<and>
     tk_has_bbox s = (twkb_wants tg TWKB_BBOX \<and> \<not> lwgeom_is_empty g) \<and> tk_has_idlist s = (has_ids \<and> \<not> lwgeom_is_empty g) \<and>
     reading (twkb_scales tg z m) z m s"

lemma headed_update [simp]:
  "headed tg i z m g (s\<lparr>tk_pos := r\<rparr>) = headed tg i z m g s" "headed tg i z m g (s\<lparr>tk_size := n\<rparr>) = headed tg i z m g s"
  "headed tg i z m g (s\<lparr>tk_ndims := k\<rparr>) = headed tg i z m g s" "headed tg i z m g (s\<lparr>tk_coords := c\<rparr>) = headed tg i z m g s"
  by (simp_all add: headed_def reading_def scales_def)

lemma read_byte: "tk_pos s = b # rest \<Longrightarrow> byte_from_twkb_state s = Inr (b, s\<lparr>tk_pos := rest\<rparr>)"
  by (simp add: byte_from_twkb_state_def twkb_parse_state_advance_def)

lemma twkb_read_header:
  assumes fits: "twkb_fits fs z m g" and prec: "twkb_precise tg z m"
    and p: "tk_pos s = twkb_head tg has_ids z m g @ size_bytes tg n @ rest"
  shows "\<exists>s'. header_from_twkb_state s = Inr s' \<and> tk_pos s' = rest \<and> tk_check s' = tk_check s \<and> headed tg has_ids z m g s'"
proof -
  let ?b1 = "TYPE_PREC_SET_PREC (TYPE_PREC_SET_TYPE 0 (twkb_type_code g)) (zigzag8 (prec_xy tg))"
  let ?b2 = "twkb_metadata (twkb_wants tg TWKB_BBOX \<and> \<not> lwgeom_is_empty g) (twkb_wants tg TWKB_SIZE) (has_ids \<and> \<not> lwgeom_is_empty g)
        (z \<or> m) (lwgeom_is_empty g)"
  have "\<bar>sint (prec_xy tg)\<bar> \<le> 7" and zp: "z \<longrightarrow> 0 \<le> sint (prec_z tg) \<and> sint (prec_z tg) \<le> 7" and mp: "m \<longrightarrow> 0 \<le> sint (prec_m tg) \<and> sint (prec_m tg) \<le> 7"
    using prec by (simp_all add: twkb_precise_def)
  note f1 = first_byte[OF type_code_read(2)[OF fits] this(1)]
  note f2 = second_byte[OF refl, of "twkb_wants tg TWKB_BBOX \<and> \<not> lwgeom_is_empty g" "twkb_wants tg TWKB_SIZE" "has_ids \<and> \<not> lwgeom_is_empty g"
        "z \<or> m" "lwgeom_is_empty g"]
  note f3 = third_byte[OF zp mp twkb_ext_def]
  let ?s2 = "s\<lparr>tk_pos := (if z \<or> m then [twkb_ext tg z m] else []) @ size_bytes tg n @ rest\<rparr>"
  let ?s3 = "?s2\<lparr>tk_lwtype := read_type g, tk_factor := pow10 (sint (prec_xy tg)), tk_has_bbox := twkb_wants tg TWKB_BBOX \<and> \<not> lwgeom_is_empty g,
       tk_has_size := twkb_wants tg TWKB_SIZE, tk_has_idlist := has_ids \<and> \<not> lwgeom_is_empty g, tk_is_empty := lwgeom_is_empty g\<rparr>"
  have b: "byte_from_twkb_state s = Inr (?b1, s\<lparr>tk_pos := ?b2 # (if z \<or> m then [twkb_ext tg z m] else []) @ size_bytes tg n @ rest\<rparr>)"
    "byte_from_twkb_state (s\<lparr>tk_pos := ?b2 # (if z \<or> m then [twkb_ext tg z m] else []) @ size_bytes tg n @ rest\<rparr>) = Inr (?b2, ?s2)"
    using p by (simp_all add: read_byte twkb_head_def)
  obtain s4 where s4: "(if z \<or> m
      then rbind (byte_from_twkb_state ?s3) (\<lambda>(extended_dims, s).
                   Inr (s\<lparr>tk_has_z := extended_dims AND 0x01 \<noteq> 0, tk_has_m := extended_dims AND 0x02 \<noteq> 0,
                          tk_factor_z := pow10 (sint (drop_bit 2 (extended_dims AND 0x1C))),
                          tk_factor_m := pow10 (sint (drop_bit 5 (extended_dims AND 0xE0)))\<rparr>))
      else Inr (?s3\<lparr>tk_has_z := False, tk_has_m := False, tk_factor_z := 0, tk_factor_m := 0\<rparr>)) = Inr s4"
      "tk_pos s4 = size_bytes tg n @ rest" "tk_check s4 = tk_check s" "headed tg has_ids z m g s4" "tk_has_size s4 = twkb_wants tg TWKB_SIZE"
  proof (cases "z \<or> m")
    case True
    have e: "byte_from_twkb_state ?s3 = Inr (twkb_ext tg z m, ?s3\<lparr>tk_pos := size_bytes tg n @ rest\<rparr>)"
      by (rule read_byte) (simp add: True)
    let ?s4 = "?s3\<lparr>tk_pos := size_bytes tg n @ rest, tk_has_z := z, tk_has_m := m,
        tk_factor_z := pow10 (sint (drop_bit 2 (twkb_ext tg z m AND 0x1C))), tk_factor_m := pow10 (sint (drop_bit 5 (twkb_ext tg z m AND 0xE0)))\<rparr>"
    have "headed tg has_ids z m g ?s4" using f3(3,4) by (auto simp: headed_def reading_def scales_def twkb_scales_def Let_def)
    then show ?thesis using that[of ?s4] True e by (simp add: f3(1,2))
  next
    case False
    let ?s4 = "?s3\<lparr>tk_has_z := False, tk_has_m := False, tk_factor_z := 0, tk_factor_m := 0\<rparr>"
    have "headed tg has_ids z m g ?s4" using False by (auto simp: headed_def reading_def scales_def twkb_scales_def Let_def)
    then show ?thesis using that[of ?s4] False by simp
  qed
  have size: "\<exists>s5. (if tk_has_size s4 then rbind (twkb_parse_state_uvarint s4) (\<lambda>(n, s). Inr (s\<lparr>tk_size := n\<rparr>)) else Inr s4) = Inr s5 \<and>
      tk_pos s5 = rest \<and> tk_check s5 = tk_check s \<and> headed tg has_ids z m g s5"
  proof (cases "twkb_wants tg TWKB_SIZE")
    case True
    then have "tk_pos s4 = varint_u64_encode_buf (of_nat n) @ rest" using s4(2) by (simp add: size_bytes_def)
    then show ?thesis using read_uvarint[of s4 "of_nat n" rest] s4(3-5) True by simp
  next
    case False
    then show ?thesis using s4 by (simp add: size_bytes_def)
  qed
  then obtain s5 where s5: "(if tk_has_size s4 then rbind (twkb_parse_state_uvarint s4) (\<lambda>(n, s). Inr (s\<lparr>tk_size := n\<rparr>)) else Inr s4) = Inr s5"
      "tk_pos s5 = rest" "tk_check s5 = tk_check s" "headed tg has_ids z m g s5" by blast
  have "header_from_twkb_state s = Inr (s5\<lparr>tk_ndims := 2 + of_bool (tk_has_z s5) + of_bool (tk_has_m s5)\<rparr>)"
    unfolding header_from_twkb_state_def b(1) rbind_simps prod.case b(2) f1 type_code_read(1)[OF fits] Let_def f2 s4(1) s5(1) ..
  then show ?thesis using s5(2-4) by simp
qed

section \<open>Boxes\<close>

definition twkb_gbox :: "dbl list \<Rightarrow> bool \<Rightarrow> bool \<Rightarrow> i64 list \<Rightarrow> i64 list \<Rightarrow> gbox" where
  "twkb_gbox sc z m mn mx =
     (let lo = (\<lambda>i. twkb_scale (sc ! i) (mn ! i)); hi = (\<lambda>i. dbl_add (lo i) (twkb_scale (sc ! i) (mx ! i - mn ! i)));
          im = 2 + of_bool z
      in \<lparr>gb_flags = lwflags z m False, xmin = lo 0, xmax = hi 0, ymin = lo 1, ymax = hi 1, zmin = (if z then lo 2 else 0),
          zmax = (if z then hi 2 else 0), mmin = (if m then lo im else 0), mmax = (if m then hi im else 0)\<rparr>)"

lemma read_bounds:
  assumes "tk_pos s = varint_s64_encode_buf l @ varint_s64_encode_buf d @ rest" and "whole_delta l" and "whole_delta d"
  shows "bounds_from_twkb_state fac s = Inr ((twkb_scale fac l, dbl_add (twkb_scale fac l) (twkb_scale fac d)), s\<lparr>tk_pos := rest\<rparr>)"
  using assms by (simp add: bounds_from_twkb_state_def twkb_read_double)

lemma read_bbox:
  assumes r: "reading sc z m s" and p: "tk_pos s = varints (box_ints (2 + of_bool z + of_bool m) mn mx) @ rest"
    and w: "\<forall>i \<in> set [0..<2 + of_bool z + of_bool m]. whole_delta (mn ! i) \<and> whole_delta (mx ! i - mn ! i)"
  shows "bbox_from_twkb_state s = Inr (twkb_gbox sc z m mn mx, s\<lparr>tk_pos := rest\<rparr>)"
proof -
  have sc: "sc = scales s" "z = tk_has_z s" "m = tk_has_m s" using r by (auto simp: reading_def)
  show ?thesis
    using p w unfolding sc
    by (cases "tk_has_z s"; cases "tk_has_m s")
      (simp_all add: bbox_from_twkb_state_def Let_def box_ints_def varints_def read_bounds scales_def twkb_gbox_def eval_nat_numeral)
qed

lemma smin_small: "small_int a \<Longrightarrow> small_int b \<Longrightarrow> small_int (smin a b)" "small_int b \<Longrightarrow> smin INT64_MAX b = b"
  and smax_small: "small_int a \<Longrightarrow> small_int b \<Longrightarrow> small_int (smax a b)" "small_int b \<Longrightarrow> smax INT64_MIN b = b"
  by (auto simp: smin_def smax_def small_int_def INT64_MAX_def INT64_MIN_def)

lemma fold_small:
  fixes f :: "i64 \<Rightarrow> i64 \<Rightarrow> i64"
  assumes f: "\<And>a b. small_int a \<Longrightarrow> small_int b \<Longrightarrow> small_int (f a b)"
  shows "list_all small_point qs \<Longrightarrow> list_all (\<lambda>q. length q = nd) qs \<Longrightarrow> length b = 4 \<Longrightarrow> nd \<le> 4 \<Longrightarrow> i < nd \<Longrightarrow> small_int (b ! i) \<Longrightarrow>
    small_int (fold (\<lambda>q b. update_front f b q) qs b ! i)"
proof (induction qs arbitrary: b)
  case (Cons q qs)
  have "small_int (q ! i)" using Cons.prems by (simp add: list_all_iff)
  then have "small_int (update_front f b q ! i)" using Cons.prems f by (simp add: update_front_nth)
  then show ?case using Cons by simp
qed simp

lemma box_small:
  assumes "qs \<noteq> []" "list_all small_point qs" "list_all (\<lambda>q. length q = nd) qs" "nd \<le> 4" "i < nd"
  shows "small_int (box_min (replicate 4 INT64_MAX) qs ! i)" "small_int (box_max (replicate 4 INT64_MIN) qs ! i)"
proof -
  obtain q ps where q: "qs = q # ps" using assms(1) by (cases qs) auto
  have "small_int (q ! i)" using assms q by (simp add: list_all_iff)
  then have "small_int (update_front smin (replicate 4 INT64_MAX) q ! i)" "small_int (update_front smax (replicate 4 INT64_MIN) q ! i)"
    using assms q by (simp_all add: update_front_nth smin_small smax_small)
  then show "small_int (box_min (replicate 4 INT64_MAX) qs ! i)" "small_int (box_max (replicate 4 INT64_MIN) qs ! i)"
    unfolding q box_min_def box_max_def fold_simps using assms q
    by (auto intro!: fold_small[where nd = nd] smin_small(1) smax_small(1))
qed

section \<open>Geometries\<close>

definition box_of :: "twkb_globals \<Rightarrow> bool \<Rightarrow> bool \<Rightarrow> i64 list list \<Rightarrow> gbox option" where
  "box_of tg z m pts =
     (if twkb_wants tg TWKB_BBOX
      then Some (twkb_gbox (twkb_scales tg z m) z m (box_min (replicate 4 INT64_MAX) pts) (box_max (replicate 4 INT64_MIN) pts)) else None)"

fun empty_canon :: "bool \<Rightarrow> bool \<Rightarrow> lwgeom \<Rightarrow> lwgeom" where
  "empty_canon z m (LwPoint h pa) = lwpoint_construct_empty SRID_UNKNOWN z m"
| "empty_canon z m (LwLine h pa) = lwline_construct_empty SRID_UNKNOWN z m"
| "empty_canon z m (LwColl ty h gs) = LwColl (read_type (LwColl ty h gs)) (empty_hdr SRID_UNKNOWN z m) []"
| "empty_canon z m g = LwPoly (empty_hdr SRID_UNKNOWN z m) []"

text \<open>The geometry that is read back.\<close>

fun twkb_canon :: "twkb_globals \<Rightarrow> bool \<Rightarrow> bool \<Rightarrow> lwgeom \<Rightarrow> lwgeom" where
  "twkb_canon tg z m (LwColl ty h gs) =
     (if list_all lwgeom_is_empty gs then empty_canon z m (LwColl ty h gs)
      else lwgeom_attach_bbox (box_of tg z m (twkb_points (twkb_factors tg z m) (LwColl ty h gs)))
        (LwColl (read_type (LwColl ty h gs)) (empty_hdr SRID_UNKNOWN z m)
          (if ty \<in> MULTI_TYPES then map (leaf_canon (twkb_scales tg z m) z m (twkb_factors tg z m)) (twkb_members ty gs)
           else map (twkb_canon tg z m) gs)))"
| "twkb_canon tg z m g =
     (if lwgeom_is_empty g then empty_canon z m g
      else lwgeom_attach_bbox (box_of tg z m (twkb_points (twkb_factors tg z m) g)) (leaf_canon (twkb_scales tg z m) z m (twkb_factors tg z m) g))"

text \<open>The geometries that the reader accepts, and the nesting of its calls.\<close>

fun twkb_readable :: "bool \<Rightarrow> flt list \<Rightarrow> lwgeom \<Rightarrow> bool" where
  "twkb_readable chk fs (LwColl ty h gs) =
     (if ty \<in> MULTI_TYPES then list_all (member_ok ty) (twkb_members ty gs) \<and> list_all (leaf_ok chk fs) (twkb_members ty gs)
      else list_all (twkb_readable chk fs) gs)"
| "twkb_readable chk fs g = (lwgeom_is_empty g \<or> leaf_ok chk fs g)"

fun twkb_depth :: "lwgeom \<Rightarrow> nat" where
  "twkb_depth (LwColl ty h gs) = Suc (foldr max (map twkb_depth gs) 0)"
| "twkb_depth g = 0"

lemma depth_member: "g \<in> set gs \<Longrightarrow> twkb_depth g \<le> foldr max (map twkb_depth gs) 0"
  by (induction gs) (auto intro: max.coboundedI2)

lemma scales_length: "length (twkb_scales tg z m) = length (twkb_factors tg z m)"
  by (simp add: twkb_scales_def Let_def)

text \<open>A geometry that is not empty has a point.\<close>

lemma leaf_points: "leaf_fits fs g \<Longrightarrow> \<not> lwgeom_is_empty g \<Longrightarrow> tok_points fs (leaf_tokens g) \<noteq> []"
proof (cases g)
  case (LwPoly h rings)
  assume a: "leaf_fits fs g" "\<not> lwgeom_is_empty g"
  then obtain pa pas where r: "rings = pa # pas" "npoints pa \<noteq> 0" using LwPoly by (cases rings) (auto simp: lwpoly_is_empty_def word_less_1)
  then show ?thesis using a(1) LwPoly kept_ends(1)[of fs pa 4] by simp
qed (auto simp: lwline_is_empty_def word_less_1 kept_ends(1))

lemma points_nonempty: "twkb_fits fs z m g \<Longrightarrow> \<not> lwgeom_is_empty g \<Longrightarrow> twkb_points fs g \<noteq> []"
proof (induction g)
  case (LwColl ty h gs)
  then obtain g where g: "g \<in> set gs" "\<not> lwgeom_is_empty g" by (auto simp: list_all_iff)
  have ne: "\<not> list_all lwgeom_is_empty gs" using LwColl.prems by simp
  from LwColl.prems(1) consider "ty \<in> MULTI_TYPES" "list_all (leaf_fits fs) (twkb_members ty gs)"
    | "ty \<notin> MULTI_TYPES" "list_all (twkb_fits fs z m) gs" by auto
  then show ?case
  proof cases
    case 1
    have "g \<in> set (twkb_members ty gs)" using g by (simp add: twkb_members_def twkb_skips_def)
    then obtain us vs where s: "twkb_members ty gs = us @ g # vs" by (meson split_list)
    then have "tok_points fs (leaf_tokens g) \<noteq> []" using 1(2) g(2) by (intro leaf_points) simp_all
    then show ?thesis unfolding twkb_points.simps if_not_P[OF ne] if_P[OF 1(1)] s by simp
  next
    case 2
    then have "twkb_points fs g \<noteq> []" using LwColl.IH[OF g(1)] g by (simp add: list_all_iff)
    then show ?thesis unfolding twkb_points.simps if_not_P[OF ne] if_not_P[OF 2(1)] using g(1) by auto
  qed
qed (auto simp del: leaf_tokens.simps leaf_fits.simps lwgeom_is_empty.simps dest: leaf_points)

lemma points_small: "twkb_fits fs z m g \<Longrightarrow> list_all small_point (twkb_points fs g)"
proof (induction g)
  case (LwColl ty h gs)
  have "list_all small_point (tok_points fs (concat (map leaf_tokens gs)))" if "list_all (leaf_fits fs) gs" for gs
    using that by (induction gs) (simp_all add: leaf_small)
  moreover have "list_all small_point (concat (map (twkb_points fs) gs))" if "list_all (twkb_fits fs z m) gs"
    using that LwColl.IH by (fastforce simp: list_all_iff)
  ultimately show ?case using LwColl.prems by auto
qed (auto simp del: leaf_tokens.simps leaf_fits.simps intro!: leaf_small)

section \<open>Reading a geometry\<close>

definition read_ok :: "'a twkb_reader \<Rightarrow> twkb_parse_state \<Rightarrow> 'a \<Rightarrow> u8 list \<Rightarrow> bool" where
  "read_ok rd s g rest \<longleftrightarrow> (\<exists>s'. rd s = Inr (g, s') \<and> tk_pos s' = rest \<and> tk_check s' = tk_check s)"

lemma moved_read_ok: "rd s = Inr (g, s') \<Longrightarrow> moved s rest a s' \<Longrightarrow> read_ok rd s g rest"
  using moved_facts[of s rest a s'] by (auto simp: read_ok_def)

definition geom_reads :: "nat \<Rightarrow> bool \<Rightarrow> bool \<Rightarrow> lwgeom \<Rightarrow> bool" where
  "geom_reads d z m g \<longleftrightarrow> (\<forall>tg ids s rest. twkb_fits (twkb_factors tg z m) z m g \<longrightarrow> twkb_precise tg z m \<longrightarrow>
     twkb_readable (tk_checks s) (twkb_factors tg z m) g \<longrightarrow> tk_pos s = twkb_bytes tg z m ids g @ rest \<longrightarrow>
     read_ok (lwgeom_from_twkb_state d) s (twkb_canon tg z m g) rest)"

lemma twkb_read_members:
  "\<lbrakk>list_all (geom_reads d z m) gs; list_all (twkb_fits fs z m) gs; fs = twkb_factors tg z m; twkb_precise tg z m;
    list_all (twkb_readable (tk_checks s) fs) gs; tk_pos s = concat (map (twkb_bytes tg z m None) gs) @ rest\<rbrakk> \<Longrightarrow>
   read_ok (members_from_twkb_state (lwgeom_from_twkb_state d) COLLECTIONTYPE (length gs) acc) s (acc @ map (twkb_canon tg z m) gs) rest"
proof (induction gs arbitrary: s acc)
  case Nil
  then show ?case by (simp add: read_ok_def)
next
  case (Cons g gs)
  have "geom_reads d z m g" "twkb_fits (twkb_factors tg z m) z m g" "twkb_readable (tk_checks s) (twkb_factors tg z m) g"
    "tk_pos s = twkb_bytes tg z m None g @ (concat (map (twkb_bytes tg z m None) gs) @ rest)" using Cons.prems by simp_all
  then have "read_ok (lwgeom_from_twkb_state d) s (twkb_canon tg z m g) (concat (map (twkb_bytes tg z m None) gs) @ rest)"
    using Cons.prems(4) unfolding geom_reads_def by blast
  then obtain s1 where s1: "lwgeom_from_twkb_state d s = Inr (twkb_canon tg z m g, s1)" "tk_pos s1 = concat (map (twkb_bytes tg z m None) gs) @ rest"
      "tk_check s1 = tk_check s" unfolding read_ok_def by blast
  have "tk_checks s1 = tk_checks s" using s1(3) by (simp add: tk_checks_def)
  then have "read_ok (members_from_twkb_state (lwgeom_from_twkb_state d) COLLECTIONTYPE (length gs) (acc @ [twkb_canon tg z m g])) s1
      ((acc @ [twkb_canon tg z m g]) @ map (twkb_canon tg z m) gs) rest"
    using Cons.prems s1(2) by (intro Cons.IH) simp_all
  moreover have "lwcollection_add_lwgeom COLLECTIONTYPE acc (twkb_canon tg z m g) = Inr (acc @ [twkb_canon tg z m g])"
    by (simp add: lwcollection_add_lwgeom_def lwcollection_allows_subtype_def)
  ultimately show ?case using s1 by (simp add: read_ok_def)
qed

text \<open>The geometry behind the header and the box.\<close>

fun canon_body :: "twkb_globals \<Rightarrow> bool \<Rightarrow> bool \<Rightarrow> lwgeom \<Rightarrow> lwgeom" where
  "canon_body tg z m (LwColl ty h gs) = LwColl (read_type (LwColl ty h gs)) (empty_hdr SRID_UNKNOWN z m)
     (if ty \<in> MULTI_TYPES then map (leaf_canon (twkb_scales tg z m) z m (twkb_factors tg z m)) (twkb_members ty gs) else map (twkb_canon tg z m) gs)"
| "canon_body tg z m g = leaf_canon (twkb_scales tg z m) z m (twkb_factors tg z m) g"

lemma canon_split:
  "twkb_canon tg z m g = (if lwgeom_is_empty g then empty_canon z m g
     else lwgeom_attach_bbox (box_of tg z m (twkb_points (twkb_factors tg z m) g)) (canon_body tg z m g))"
  by (cases g) simp_all

lemma read_empty_body:
  assumes "twkb_fits fs z m g" and "headed tg i z m g s" and "lwgeom_is_empty g"
  shows "body_from_twkb_state rd s = Inr (empty_canon z m g, s)"
proof -
  have h: "tk_lwtype s = read_type g" "tk_is_empty s" "tk_has_z s = z" "tk_has_m s = m" using assms by (simp_all add: headed_def reading_def)
  show ?thesis
  proof (cases g)
    case (LwColl ty hd gs)
    have "ty \<in> MULTI_TYPES \<or> ty \<in> {COLLECTIONTYPE, TINTYPE}" using assms(1) LwColl by auto
    then show ?thesis using h LwColl
      by (auto simp: body_from_twkb_state_def lwmultipoint_from_twkb_state_def lwmultiline_from_twkb_state_def lwmultipoly_from_twkb_state_def
        lwcollection_from_twkb_state_def multi_from_twkb_state_def lwcollection_construct_empty_def lwtype_is_collection_def Let_def)
  qed (use assms(1) h in \<open>auto simp: body_from_twkb_state_def lwpoint_from_twkb_state_def lwline_from_twkb_state_def lwpoly_from_twkb_state_def Let_def\<close>)
qed

lemma read_body:
  assumes fits: "twkb_fits (twkb_factors tg z m) z m g" and ne: "\<not> lwgeom_is_empty g" and hd: "headed tg (ids \<noteq> None) z m g s"
    and prec: "twkb_precise tg z m" and ok: "twkb_readable (tk_checks s) (twkb_factors tg z m) g"
    and p: "tk_pos s = twkb_body tg z m ids g @ rest" and c: "coords_at s (replicate (length (twkb_factors tg z m)) 0)"
    and rd: "\<And>ty h gs. g = LwColl ty h gs \<Longrightarrow> ty \<notin> MULTI_TYPES \<Longrightarrow> list_all (geom_reads d z m) gs"
  shows "read_ok (body_from_twkb_state (lwgeom_from_twkb_state d)) s (canon_body tg z m g) rest"
proof -
  let ?fs = "twkb_factors tg z m" and ?sc = "twkb_scales tg z m"
  have h: "tk_lwtype s = read_type g" "\<not> tk_is_empty s" "reading ?sc z m s" "tk_has_idlist s = (ids \<noteq> None)"
    using hd ne by (simp_all add: headed_def)
  note leaf = twkb_read_leaf[OF h(2,3) scales_length, of g _ rest, OF _ _ _ c small_zero]
  show ?thesis
  proof (cases "\<exists>ty h gs. g = LwColl ty h gs")
    case False
    then have g: "leaf_fits ?fs g" "leaf_ok (tk_checks s) ?fs g" "twkb_body tg z m ids g = tok_bytes ?fs (replicate (length ?fs) 0) (leaf_tokens g)"
        "canon_body tg z m g = leaf_canon ?sc z m ?fs g"
      using fits ne ok by (cases g; auto simp: twkb_body_def Let_def)+
    obtain s' where r: "leaf_reader g s = Inr (canon_body tg z m g, s')" "\<exists>a. moved s rest a s'"
      using leaf[OF g(1,2)] p unfolding g(3,4) by blast
    have "body_from_twkb_state (lwgeom_from_twkb_state d) s = leaf_reader g s"
      using h(1) g(1) False by (cases g) (simp_all add: body_from_twkb_state_def)
    then show ?thesis using r moved_read_ok by metis
  next
    case True
    then obtain ty hh gs where g: "g = LwColl ty hh gs" by blast
    have n: "length gs < 2 ^ 31" using fits g by simp
    show ?thesis
    proof (cases "ty \<in> MULTI_TYPES")
      case ty: True
      let ?ms = "twkb_members ty gs" and ?a = "replicate (length ?fs) (0 :: i64)"
      have ms: "list_all (leaf_fits ?fs) ?ms" "list_all (leaf_ok (tk_checks s) ?fs) ?ms" "list_all (member_ok ty) ?ms"
        using fits ok g ty by auto
      have nm: "length ?ms < 2 ^ 31" using n length_filter_le[of "\<lambda>g. \<not> twkb_skips ty g" gs] unfolding twkb_members_def by linarith
      have ni: "length (member_indices ty gs) = length ?ms"
      proof -
        have "twkb_members ty gs = map (nth gs) (member_indices ty gs)"
          unfolding twkb_members_def member_indices_def by (metis (no_types, lifting) comp_apply filter_cong filter_map map_nth)
        then show ?thesis by simp
      qed
      have eb: "tk_pos s = varint_u64_encode_buf (of_nat (length ?ms)) @ id_bytes ids (member_indices ty gs) @
          (tok_bytes ?fs ?a (concat (map leaf_tokens ?ms)) @ rest)"
        using p unfolding g twkb_body_def Let_def lwgeom.case if_P[OF ty] by simp
      let ?s1 = "s\<lparr>tk_pos := tok_bytes ?fs ?a (concat (map leaf_tokens ?ms)) @ rest\<rparr>"
      have m1: "moved s (tok_bytes ?fs ?a (concat (map leaf_tokens ?ms)) @ rest) ?a ?s1" using movedI[OF c] .
      note f1 = moved_facts[OF m1]
      have "list_all (leaf_ok (tk_checks ?s1) ?fs) ?ms" using ms(2) f1(6) by (simp add: tk_checks_def)
      then obtain s' where s': "members_from_twkb_state (member_reader ty) ty (length ?ms) [] ?s1 = Inr (map (leaf_canon ?sc z m ?fs) ?ms, s')"
          "\<exists>a. moved ?s1 rest a s'"
        using read_leaves[OF reading_moved[OF h(3) m1] scales_length _ ms(1) _ ms(3) f1(1,2) small_zero, of "[]"] f1(8) h(2) by auto
      have coll: "lwtype_is_collection ty" "read_type g = ty" using ty g by (auto simp: lwtype_is_collection_def)
      have "multi_from_twkb_state (member_reader ty) s = Inr (LwColl ty (empty_hdr SRID_UNKNOWN z m) (map (leaf_canon ?sc z m ?fs) ?ms), s')"
        using read_collection[OF coll(1) _ h(2,3,4) eb nm ni, of "member_reader ty"] s'(1) h(1) coll(2) by blast
      moreover have "body_from_twkb_state (lwgeom_from_twkb_state d) s = multi_from_twkb_state (member_reader ty) s"
        using h(1) ty unfolding coll(2) body_from_twkb_state_def member_reader_def lwmultipoint_from_twkb_state_def lwmultiline_from_twkb_state_def
          lwmultipoly_from_twkb_state_def by auto
      moreover obtain a where "moved s rest a s'" using s'(2) m1 moved_trans by blast
      ultimately show ?thesis using moved_read_ok[of "body_from_twkb_state (lwgeom_from_twkb_state d)"] ty coll(2) unfolding g by simp
    next
      case nt: False
      have gs: "list_all (twkb_fits ?fs z m) gs" "ty \<in> {COLLECTIONTYPE, TINTYPE}" "list_all (twkb_readable (tk_checks s) ?fs) gs"
        using fits ok g nt by auto
      let ?by = "concat (map (twkb_bytes tg z m None) gs)"
      have eb: "tk_pos s = varint_u64_encode_buf (of_nat (length gs)) @ id_bytes ids [0..<length gs] @ (?by @ rest)"
        using p unfolding g twkb_body_def Let_def lwgeom.case if_not_P[OF nt] by simp
      let ?s1 = "s\<lparr>tk_pos := ?by @ rest\<rparr>"
      have "list_all (twkb_readable (tk_checks ?s1) ?fs) gs" using gs(3) by (simp add: tk_checks_def)
      from twkb_read_members[OF rd[OF g nt] gs(1) refl prec this, of rest "[]"]
      obtain s' where s': "members_from_twkb_state (lwgeom_from_twkb_state d) COLLECTIONTYPE (length gs) [] ?s1 = Inr (map (twkb_canon tg z m) gs, s')"
          "tk_pos s' = rest" "tk_check s' = tk_check ?s1" by (auto simp: read_ok_def)
      have coll: "lwtype_is_collection COLLECTIONTYPE" "read_type g = COLLECTIONTYPE" using gs(2) g by (auto simp: lwtype_is_collection_def)
      have ni: "length [0..<length gs] = length gs" by simp
      have "multi_from_twkb_state (lwgeom_from_twkb_state d) s = Inr (LwColl COLLECTIONTYPE (empty_hdr SRID_UNKNOWN z m) (map (twkb_canon tg z m) gs), s')"
        using read_collection[OF coll(1) _ h(2,3,4) eb n ni, of "lwgeom_from_twkb_state d"] s'(1) h(1) coll(2) by simp
      moreover have "body_from_twkb_state (lwgeom_from_twkb_state d) s = multi_from_twkb_state (lwgeom_from_twkb_state d) s"
        using h(1) unfolding coll(2) by (simp add: body_from_twkb_state_def lwcollection_from_twkb_state_def)
      ultimately show ?thesis using s'(2,3) nt coll(2) unfolding g by (simp add: read_ok_def)
    qed
  qed
qed

lemma box_whole:
  assumes "twkb_fits (twkb_factors tg z m) z m g" and "\<not> lwgeom_is_empty g"
  defines "pts \<equiv> twkb_points (twkb_factors tg z m) g"
  shows "\<forall>i \<in> set [0..<2 + of_bool z + of_bool m]. whole_delta (box_min (replicate 4 INT64_MAX) pts ! i) \<and>
    whole_delta (box_max (replicate 4 INT64_MIN) pts ! i - box_min (replicate 4 INT64_MAX) pts ! i)"
proof
  fix i assume "i \<in> set [0..<2 + of_bool z + of_bool m]"
  then have i: "i < length (twkb_factors tg z m)" unfolding factors_length by (metis atLeastLessThan_iff set_upt)
  have nd: "length (twkb_factors tg z m) \<le> 4" by simp
  note s = box_small[OF points_nonempty[OF assms(1,2)] points_small[OF assms(1)] points_dims[OF assms(1)] nd i, folded pts_def]
  show "whole_delta (box_min (replicate 4 INT64_MAX) pts ! i) \<and>
    whole_delta (box_max (replicate 4 INT64_MIN) pts ! i - box_min (replicate 4 INT64_MAX) pts ! i)"
    using small_whole[OF s(1)] small_diff_whole[OF s(2,1)] by blast
qed

text \<open>Up to the contents of a geometry that is not empty.\<close>

lemma read_front:
  assumes fits: "twkb_fits (twkb_factors tg z m) z m g" and prec: "twkb_precise tg z m" and ne: "\<not> lwgeom_is_empty g"
    and p: "tk_pos s = twkb_bytes tg z m ids g @ rest"
  shows "\<exists>s3. (\<forall>d. lwgeom_from_twkb_state (Suc d) s = rbind (body_from_twkb_state (lwgeom_from_twkb_state d) s3)
        (\<lambda>(g', s). Inr (lwgeom_attach_bbox (box_of tg z m (twkb_points (twkb_factors tg z m) g)) g', s))) \<and>
      tk_pos s3 = twkb_body tg z m ids g @ rest \<and> tk_check s3 = tk_check s \<and> headed tg (ids \<noteq> None) z m g s3 \<and>
      coords_at s3 (replicate (length (twkb_factors tg z m)) 0)"
proof -
  let ?fs = "twkb_factors tg z m" and ?sc = "twkb_scales tg z m"
  let ?pts = "twkb_points ?fs g" and ?z = "replicate (length ?fs) (0 :: i64)"
  let ?box = "if twkb_wants tg TWKB_BBOX then twkb_box (length ?fs) ?pts else []"
  let ?n = "length (twkb_body tg z m ids g) + length ?box"
  have "tk_pos s = twkb_head tg (ids \<noteq> None) z m g @ size_bytes tg ?n @ (?box @ twkb_body tg z m ids g @ rest)"
    using p unfolding twkb_bytes_body if_not_P[OF ne] twkb_sized_def Let_def size_bytes_def by simp
  from twkb_read_header[OF fits prec this]
  obtain s1 where s1: "header_from_twkb_state s = Inr s1" "tk_pos s1 = ?box @ twkb_body tg z m ids g @ rest" "tk_check s1 = tk_check s"
      "headed tg (ids \<noteq> None) z m g s1" by blast
  let ?s2 = "s1\<lparr>tk_coords := replicate 4 0\<rparr>"
  let ?s3 = "?s2\<lparr>tk_pos := twkb_body tg z m ids g @ rest\<rparr>"
  have hb: "tk_has_bbox ?s2 = twkb_wants tg TWKB_BBOX" using s1(4) ne by (simp add: headed_def)
  have r: "reading ?sc z m ?s2" using s1(4) by (simp add: headed_def reading_def)
  have box: "(if tk_has_bbox ?s2 then rbind (bbox_from_twkb_state ?s2) (\<lambda>(b, s). Inr (Some b, s)) else Inr (None, ?s2))
      = Inr (box_of tg z m ?pts, ?s3)"
  proof (cases "twkb_wants tg TWKB_BBOX")
    case True
    have "tk_pos ?s2 = varints (box_ints (2 + of_bool z + of_bool m) (box_min (replicate 4 INT64_MAX) ?pts) (box_max (replicate 4 INT64_MIN) ?pts)) @
        (twkb_body tg z m ids g @ rest)" using s1(2) True by (simp add: twkb_box_ints)
    from read_bbox[OF r this box_whole[OF fits ne]] show ?thesis using True hb by (simp add: box_of_def)
  next
    case nb: False
    have "?s2 = ?s3" using s1(2) nb by simp
    then show ?thesis using nb hb by (simp add: box_of_def)
  qed
  have c: "coords_at ?s3 ?z"
  proof -
    have "length (scales ?s3) = length ?fs" using r scales_length[of tg z m] by (simp add: reading_def)
    moreover have "take k (replicate 4 (0 :: i64)) = replicate k 0" if "k \<le> 4" for k using that by simp
    moreover have "length ?fs \<le> 4" by simp
    ultimately show ?thesis unfolding coords_at_def by (simp del: take_replicate factors_length)
  qed
  have "lwgeom_from_twkb_state (Suc d) s = rbind (body_from_twkb_state (lwgeom_from_twkb_state d) ?s3)
      (\<lambda>(g', s). Inr (lwgeom_attach_bbox (box_of tg z m ?pts) g', s))" for d
    unfolding lwgeom_from_twkb_state.simps s1(1) rbind_simps Let_def box prod.case ..
  then show ?thesis using s1(3,4) c by (intro exI[of _ ?s3]) simp
qed

lemma read_geom_step:
  assumes rd: "\<And>ty h gs. g = LwColl ty h gs \<Longrightarrow> ty \<notin> MULTI_TYPES \<Longrightarrow> list_all (geom_reads d z m) gs"
  shows "geom_reads (Suc d) z m g"
  unfolding geom_reads_def
proof (intro allI impI)
  fix tg ids s rest
  assume fits: "twkb_fits (twkb_factors tg z m) z m g" and prec: "twkb_precise tg z m"
    and ok: "twkb_readable (tk_checks s) (twkb_factors tg z m) g" and p: "tk_pos s = twkb_bytes tg z m ids g @ rest"
  let ?rd = "lwgeom_from_twkb_state d"
  show "read_ok (lwgeom_from_twkb_state (Suc d)) s (twkb_canon tg z m g) rest"
  proof (cases "lwgeom_is_empty g")
    case True
    have "varint_u64_encode_buf (of_nat 0) = [0]" by (simp add: varint_u64_encode_buf.simps)
    then have "tk_pos s = twkb_head tg (ids \<noteq> None) z m g @ size_bytes tg 0 @ rest"
      using p True unfolding twkb_bytes_body size_bytes_def by simp
    from twkb_read_header[OF fits prec this]
    obtain s1 where s1: "header_from_twkb_state s = Inr s1" "tk_pos s1 = rest" "tk_check s1 = tk_check s" "headed tg (ids \<noteq> None) z m g s1" by blast
    let ?s2 = "s1\<lparr>tk_coords := replicate 4 0\<rparr>"
    have "body_from_twkb_state ?rd ?s2 = Inr (empty_canon z m g, ?s2)" using s1(4) by (intro read_empty_body[OF fits _ True]) simp
    moreover have "\<not> tk_has_bbox ?s2" using s1(4) True by (simp add: headed_def)
    ultimately show ?thesis using s1 True by (simp add: read_ok_def canon_split)
  next
    case False
    from read_front[OF fits prec False p]
    obtain s3 where s3: "lwgeom_from_twkb_state (Suc d) s = rbind (body_from_twkb_state ?rd s3)
        (\<lambda>(g', s). Inr (lwgeom_attach_bbox (box_of tg z m (twkb_points (twkb_factors tg z m) g)) g', s))"
        "tk_pos s3 = twkb_body tg z m ids g @ rest" "tk_check s3 = tk_check s" "headed tg (ids \<noteq> None) z m g s3"
        "coords_at s3 (replicate (length (twkb_factors tg z m)) 0)" by blast
    have "read_ok (body_from_twkb_state ?rd) s3 (canon_body tg z m g) rest"
      using ok s3(3) rd by (intro read_body[OF fits False s3(4) prec _ s3(2,5)]) (simp_all add: tk_checks_def)
    then obtain s4 where "body_from_twkb_state ?rd s3 = Inr (canon_body tg z m g, s4)" "tk_pos s4 = rest" "tk_check s4 = tk_check s"
      using s3(3) by (auto simp: read_ok_def)
    then show ?thesis unfolding read_ok_def canon_split if_not_P[OF False] s3(1) by simp
  qed
qed

lemma geom_reads_leaf: "(\<And>ty h gs. g \<noteq> LwColl ty h gs) \<Longrightarrow> 0 < d \<Longrightarrow> geom_reads d z m g"
  by (cases d) (auto intro!: read_geom_step)

lemma geom_reads: "twkb_depth g < d \<Longrightarrow> geom_reads d z m g"
proof (induction g arbitrary: d)
  case (LwColl ty h gs)
  then obtain d' where d: "d = Suc d'" by (cases d) auto
  have "list_all (geom_reads d' z m) gs"
  proof (unfold list_all_iff, rule ballI)
    fix g assume g: "g \<in> set gs"
    then have "twkb_depth g < d'" using depth_member[OF g] LwColl.prems d by simp
    then show "geom_reads d' z m g" using LwColl.IH g by blast
  qed
  then show ?case unfolding d by (intro read_geom_step) simp
qed (rule geom_reads_leaf, simp, simp)+

end
