(* ===== verification/TwkbRoundtrip.thy ===== *)
theory TwkbRoundtrip
  imports TwkbReader
begin

text \<open>
  Writing tiny well-known binary and reading it back: what comes back, which geometries are refused, and what the
  reader does on input that nothing has written.
\<close>

section \<open>Round trip\<close>

text \<open>C6: a geometry that is written, with any options, precisions and identifiers, is read back as its canonical form:
  the integers that the points were rounded to, repeated points left out down to the minimum, divided by the
  factors again; triangles as polygons, TINs as collections, empty parts of multipoints dropped, the box
  attached if it was asked for. The whole input is used, with call depth one more than the nesting.
\<close>

theorem twkb_roundtrip:
  assumes "twkb_fits (twkb_factors (twkb_options variant prxy prz prm) z m) z m g"
    and "twkb_precise (twkb_options variant prxy prz prm) z m"
    and "ids = None \<or> lwgeom_is_collection g \<and> ids_ok ids g"
    and "length (twkb_bytes (twkb_options variant prxy prz prm) z m ids g) + 64 \<le> 2 ^ 62"
    and "twkb_readable (chk AND 1 \<noteq> 0) (twkb_factors (twkb_options variant prxy prz prm) z m) g"
    and "twkb_depth g < d"
  shows "\<exists>size bytes. lwgeom_to_twkb_with_idlist g ids variant prxy prz prm = ret (size, bytes) \<and>
    lwgeom_from_twkb d bytes chk = Inr (twkb_canon (twkb_options variant prxy prz prm) z m g)"
proof -
  let ?tg = "twkb_options variant prxy prz prm"
  let ?b = "twkb_bytes ?tg z m ids g"
  let ?s = "twkb_initial_state ?b chk"
  have w: "lwgeom_to_twkb_with_idlist g ids variant prxy prz prm = ret (push_bit 2 (of_nat (length ?b + 4)), ?b)"
    using bytes_of_writer[OF assms(1-4)] .
  have "twkb_readable (tk_checks ?s) (twkb_factors ?tg z m) g" using assms(5) by (simp add: tk_checks_def twkb_initial_state_def)
  moreover have "tk_pos ?s = ?b @ []" by (simp add: twkb_initial_state_def)
  ultimately have "read_ok (lwgeom_from_twkb_state d) ?s (twkb_canon ?tg z m g) []"
    using geom_reads[OF assms(6), of z m] assms(1,2) unfolding geom_reads_def by blast
  then have "lwgeom_from_twkb d ?b chk = Inr (twkb_canon ?tg z m g)" by (auto simp: read_ok_def lwgeom_from_twkb_def)
  then show ?thesis using w by blast
qed

theorem twkb_roundtrip_witness:
  "lwgeom_from_twkb 2 [7, 7, 15, 2, 0, 4, 0, 1, 14, 1, 3, 6, 2, 0, 4, 0, 2, 4] 7 = Inr (twkb_canon (twkb_options 3 0 0 0) False False example_coll)"
proof -
  have "twkb_fits (twkb_factors (twkb_options 3 0 0 0) False False) False False example_coll" "lwgeom_is_collection example_coll"
    "twkb_readable True (twkb_factors (twkb_options 3 0 0 0) False False) example_coll" "ids_ok (Some [7]) example_coll"
    "twkb_depth example_coll < 2"
    using example_fits by (simp_all add: example_coll_def ids_ok_def ids_fit_def lwgeom_is_collection_def lwtype_is_collection_def)
  then show ?thesis
    using twkb_roundtrip[of 3 0 0 0 False False example_coll "Some [7]" 7 2] example_written unfolding example_bytes
    by (simp add: twkb_precise_def twkb_options_def)
qed

section \<open>Triangles\<close>

text \<open>
  The writer keeps two points of a triangle's ring, the minimum for a line; the reader wants four.
\<close>

lemma read_short_ring:
  assumes fits: "pa_fits fs pa" and n: "npoints pa \<noteq> 0" and closed: "ptarray_is_closed_2d pa \<noteq> 0"
    and few: "tk_checks s" "length (kept_points fs m pa) < 4"
    and r: "reading sc z zm s" "length sc = length fs" and p: "tk_pos s = pa_bytes fs True m a pa @ rest"
    and c: "coords_at s a" "small_point a"
  shows "rings_from_twkb_state (Suc k) rings s = Inl (LwError ''%s must have at least four points in each ring'')"
proof -
  let ?ks = "kept_points fs m pa"
  have sc: "scales s = sc" "tk_has_z s = z" "tk_has_m s = zm" using r(1) by (simp_all add: reading_def)
  have p': "tk_pos s = varint_u64_encode_buf (of_nat (length ?ks)) @ delta_bytes a ?ks @ rest" using p by (simp add: pa_bytes_def)
  have dims: "list_all (\<lambda>q. length q = length (scales s)) ?ks" using kept_dims[OF fits, of m] sc r(2) by simp
  have lk: "length ?ks < 2 ^ 32" using kept_count[OF fits, of m] by simp
  from read_counted[OF p' c kept_small[OF fits] dims lk]
  obtain np s1 s' where u: "twkb_parse_state_uvarint s = Inr (np, s1)" "(ucast np :: u32) = of_nat (length ?ks)"
      "ptarray_from_twkb_state (of_nat (length ?ks)) s1 = Inr (twkb_array sc z zm ?ks, s')" "moved s rest (last_point a ?ks) s'"
    unfolding sc by blast
  have chk: "tk_checks s' \<and> npoints (twkb_array sc z zm ?ks) < 4"
    using moved_facts(6)[OF u(4)] twkb_array_npoints[of 4 ?ks sc z zm] lk few by (simp add: tk_checks_def)
  have "twkb_close_ring (twkb_array sc z zm ?ks) = Inr (twkb_array sc z zm ?ks)"
    using closed_kept[OF fits n closed r(2) reading_dims[OF r(1)]] .
  then show ?thesis unfolding rings_from_twkb_state.simps u(1) rbind_simps prod.case u(2,3) by (simp only: chk if_True rbind_simps simp_thms)
qed



section \<open>Input that nothing has written\<close>

lemma nest_step:
  assumes "tk_pos s = [7, 0, 1] @ r"
  shows "\<exists>s'. tk_pos s' = r \<and> (\<forall>d. lwgeom_from_twkb_state d s' = Inl e \<longrightarrow> lwgeom_from_twkb_state (Suc d) s = Inl e)"
proof -
  let ?s1 = "s\<lparr>tk_pos := 1 # r, tk_lwtype := COLLECTIONTYPE, tk_factor := pow10 0, tk_has_bbox := False, tk_has_size := False,
      tk_has_idlist := False, tk_is_empty := False, tk_has_z := False, tk_has_m := False, tk_factor_z := 0, tk_factor_m := 0, tk_ndims := 2,
      tk_coords := replicate 4 0\<rparr>"
  have z: "unzigzag8 0 = 0" by code_simp
  have b: "byte_from_twkb_state s = Inr (7, s\<lparr>tk_pos := 0 # 1 # r\<rparr>)"
    "byte_from_twkb_state (s\<lparr>tk_pos := 0 # 1 # r\<rparr>) = Inr (0, s\<lparr>tk_pos := 1 # r\<rparr>)"
    using assms by (simp_all add: read_byte)
  have h: "header_from_twkb_state s = Inr (s\<lparr>tk_pos := 1 # r, tk_lwtype := COLLECTIONTYPE, tk_factor := pow10 0, tk_has_bbox := False,
      tk_has_size := False, tk_has_idlist := False, tk_is_empty := False, tk_has_z := False, tk_has_m := False, tk_factor_z := 0,
      tk_factor_m := 0, tk_ndims := 2\<rparr>)"
    unfolding header_from_twkb_state_def b(1) rbind_simps prod.case b(2) by (simp add: lwtype_from_twkb_type_def z)
  have v: "varint_u64_encode_buf 1 = [1]" by code_simp
  have u: "twkb_parse_state_uvarint ?s1 = Inr (1, ?s1\<lparr>tk_pos := r\<rparr>)" by (rule read_uvarint) (simp add: v)
  have c: "lwcollection_construct_empty COLLECTIONTYPE SRID_UNKNOWN False False = Inr (LwColl COLLECTIONTYPE (empty_hdr SRID_UNKNOWN False False) [])"
    by (simp add: lwcollection_construct_empty_def lwtype_is_collection_def)
  have n: "nat (sint (ucast (1 :: u64) :: 32 word)) = Suc 0" using int_count[of 1] by simp
  have "lwgeom_from_twkb_state (Suc d) s = Inl e" if "lwgeom_from_twkb_state d (?s1\<lparr>tk_pos := r\<rparr>) = Inl e" for d
  proof -
    have m: "multi_from_twkb_state (lwgeom_from_twkb_state d) ?s1 = Inl e"
      unfolding multi_from_twkb_state_def Let_def using that by (simp add: c u n)
    have bd: "body_from_twkb_state (lwgeom_from_twkb_state d) ?s1 = Inl e"
      using m by (simp add: body_from_twkb_state_def lwcollection_from_twkb_state_def)
    show ?thesis unfolding lwgeom_from_twkb_state.simps h rbind_simps Let_def using bd by simp
  qed
  then show ?thesis by (intro exI[of _ "?s1\<lparr>tk_pos := r\<rparr>"]) simp
qed

lemma nested_overflow: "tk_pos s = concat (replicate n [7, 0, 1]) @ r \<Longrightarrow> lwgeom_from_twkb_state n s = Inl StackOverflow"
proof (induction n arbitrary: s)
  case (Suc n)
  then have "tk_pos s = [7, 0, 1] @ (concat (replicate n [7, 0, 1]) @ r)" by simp
  from nest_step[OF this, of StackOverflow] show ?case using Suc.IH by blast
qed simp

text \<open>C40: the reader has no limit on nesting, unlike that of well-known binary: three bytes open one more
  collection, so that for every depth of the call stack some input of three times as many bytes, whatever follows
  them, exceeds it.
\<close>

theorem twkb_nesting_unbounded:
  "lwgeom_from_twkb n (concat (replicate n [7, 0, 1]) @ rest) chk = Inl StackOverflow \<and>
   length (concat (replicate n [7, 0, 1 :: u8])) = 3 * n"
proof -
  have "length (concat (replicate n [7, 0, 1 :: u8])) = 3 * n" by (induction n) simp_all
  then show ?thesis using nested_overflow[of "twkb_initial_state (concat (replicate n [7, 0, 1]) @ rest) chk" n rest]
    by (simp add: lwgeom_from_twkb_def twkb_initial_state_def)
qed

text \<open>The bytes of a header are read before the end of the input is looked at.\<close>

lemma twkb_header_overread: "lwgeom_from_twkb (Suc d) [] chk = Inl MemFault" "lwgeom_from_twkb (Suc d) [b] chk = Inl MemFault"
  by (simp_all add: lwgeom_from_twkb_def header_from_twkb_state_def byte_from_twkb_state_def twkb_parse_state_advance_def twkb_initial_state_def)

text \<open>A ring without points cannot be closed.\<close>

lemma twkb_empty_ring: "twkb_close_ring (ptarray_construct_empty z m n) = Inl MemFault"
  by (simp add: twkb_close_ring_def ptarray_is_closed_2d_def ends_equal_def getPoint4d_p_def ptarray_construct_empty_def)

end
