(* ===== verification/Spec2Isabelle.thy ===== *)
theory Spec2Isabelle
  imports Varint ByteBuffer UnionFind LwTypes PtArray WkbSafety Gserialized GistSplit TwkbRoundtrip
begin

text \<open>
  \<^bold>\<open>Verification of the geometry library of Yukon.\<close>

  Yukon is PostGIS 3.1 with extensions for PostgreSQL. Its C core is \<open>src/liblwgeom\<close>: the geometry
  model (\<open>liblwgeom.h.in\<close>, \<open>lwgeom.c\<close> and one file per geometry type), point arrays (\<open>ptarray.c\<close>,
  \<open>lwgeom_api.c\<close>), input and output in several formats, and support data structures. The SQL
  functions under \<open>src/postgis\<close> unpack a datum, call the library and pack the result. This
  development models the library's data and the formats that carry geometries between programs.

  \<^bold>\<open>Theories.\<close>
  \<^item> \<open>Prelude\<close>: machine integers, the result type of operations that can fail, bytes in memory,
    list lemmas.
  \<^item> \<open>Varint\<close> (\<open>varint.c\<close>), \<open>ByteBuffer\<close> (\<open>bytebuffer.c\<close>), \<open>UnionFind\<close> (\<open>lwunionfind.c\<close>): support
    components, each with its invariant and functional correctness.
  \<^item> \<open>LwTypes\<close> (\<open>liblwgeom.h.in\<close>, \<open>lwutil.c\<close>): type codes, flag words, SRIDs, type modifiers and type
    names. \<open>Doubles\<close>: IEEE doubles as bit patterns with their comparisons.
  \<^item> \<open>PtArray\<close> (\<open>ptarray.c\<close>, \<open>lwgeom_api.c\<close>, \<open>lwinline.h\<close>): point arrays; \<open>pa_points\<close> abstracts one to
    the list of its points and the lemmas say what each operation does to that list.
  \<^item> \<open>LwGeom\<close>: the geometry datatype, constructors and predicates.
  \<^item> \<open>WkbOut\<close> (\<open>lwout_wkb.c\<close>) and \<open>WkbIn\<close> (\<open>lwin_wkb.c\<close>): the whole well-known-binary writer and
    parser. \<open>WkbSpec\<close> states the format as a function of the geometry and the variant and shows that
    the writer implements it on machines of either byte order; \<open>WkbRoundtrip\<close> shows that the parser
    reads it back; \<open>WkbSafety\<close> shows what the parser does on arbitrary bytes.
  \<^item> \<open>Floats\<close> (\<open>lwgeom_api.c\<close>): IEEE floats, their conversion from and to doubles and the rounding outwards of
    box bounds. \<open>Gbox\<close> (\<open>gbox.c\<close>): boxes, their comparisons, and the boxes of all geometry types; a box is the
    least one around the points, and boxes of geometries with a common point overlap.
  \<^item> \<open>LwGeomOps\<close> (\<open>lwgeom.c\<close>): copies, comparison, reversal, dimensions, SRIDs, boxes and counts;
    \<open>shape_of\<close> abstracts a geometry to its type, dimensions and lists of points.
  \<^item> \<open>Gser2\<close> (\<open>gserialized2.c\<close>): the format in which the server stores geometries; \<open>gs_body\<close> states it as a
    function of the geometry. \<open>Gser2Roundtrip\<close> shows that header, box and contents are read back, that
    emptiness is decided from the bytes, and that the reader ends on any memory. The locale \<open>prefix_code\<close> of the prelude
    is the contract of a code that needs no separators; the format is an instance of it. \<open>Gser1\<close> (\<open>gserialized1.c\<close>):
    version 1 of the format, mostly by comparison with version 2.
  \<^item> \<open>Ieee\<close>: the arithmetic of C on doubles and floats, correctly rounded. \<open>Gserialized\<close> (\<open>gserialized.c\<close>, part of
    \<open>gbox.c\<close>): the dispatch between the versions, the sort key on the Hilbert curve and the comparison of
    stored geometries, an order on those of the same dimensions and not otherwise.
  \<^item> \<open>IndexTree\<close>: search trees as PostgreSQL builds them from the support functions of an index, with the locale
    \<open>index_contract\<close> (an inner test that never prunes a match) and the completeness of search under it. \<open>Gist2d\<close>
    (\<open>gserialized_gist_2d.c\<close>): the float boxes that are the keys, their predicates and distances, the slices of data they are read
    from, and the support functions, which meet the contract for non-empty keys; \<open>GistSplit\<close>: the double sorting
    page split, with \<open>qsort\<close> as a parameter, which keeps every entry and leaves no page empty.
  \<^item> \<open>TwkbOut\<close> (\<open>lwout_twkb.c\<close>, \<open>lwout_twkb.h\<close>) and \<open>TwkbIn\<close> (\<open>lwin_twkb.c\<close>): tiny well-known binary, in which coordinates are
    scaled, rounded and written as varints of differences, with the states \<open>TWKB_STATE\<close> and \<open>twkb_parse_state\<close> as records.
    \<open>TwkbSpec\<close> says what the writer makes of point arrays (which repeated points are left out, which bytes and
    bounds the others give), \<open>TwkbWriter\<close> states the format and shows that the writer, with its nested buffers,
    implements it; \<open>TwkbNumbers\<close> shows which numbers survive the rounding; \<open>TwkbReader\<close> reads every part of the format back, and
    \<open>TwkbRoundtrip\<close> has the round trip and what the reader refuses or cannot handle.

  \<^bold>\<open>Conventions.\<close> A C function is the definition of its name. Integers are words of their width where
  overflow can matter and natural numbers where an invariant bounds them. \<open>lwerror\<close> does not return
  (the server's reporter jumps out, the default one exits), so a call of it ends the function with
  \<open>Inl (LwError msg)\<close>, with the format string as message; \<open>MemFault\<close> and \<open>UndefShift\<close> stand for
  accesses outside an object and shifts that C leaves undefined. A loop that may not end is a
  \<open>partial_function\<close> with result \<open>None\<close> when it does not. Storage is a value: freeing and sharing are
  not modelled, capacities are where the code decides on them. \<open>be\<close> is the byte order of the machine
  (\<open>IS_BIG_ENDIAN\<close>).

  \<^bold>\<open>Bounds and fuel.\<close> The recursion of \<open>lwgeom_from_wkb_state\<close> takes the call depth available;
  \<open>wkb_parser_terminates\<close> shows that one more than the number of input bytes is always enough, and
  \<open>wkb_curvepoly_nesting_unbounded\<close> that no constant is. The reader of the serialized format has a
  fuel of the same kind, an eighth of the memory and one more is enough (\<open>gserialized2_reader_terminates\<close>).
  The TWKB reader takes the call depth as well: one more than the nesting of what was written is enough
  (\<open>twkb_roundtrip\<close>), and there is no limit on other input (\<open>twkb_nesting_unbounded\<close>).
  Everything else terminates by structural recursion or a measure. The round trip is stated for outputs below 1 GB, where the \<open>int\<close> that
  counts the bytes written does not overflow.

  \<^bold>\<open>Not modelled.\<close> Most of what computes with doubles (measures, geodetic computations, curves; the boxes of arcs and the
  linearisation of curves are parameters of the box functions, collected in \<open>curve_ops\<close>), the bindings
  to GEOS, SFCGAL and PROJ, text formats with decimal numbers, the server glue and the C++ extensions.
\<close>

end
